(* ===== verification/Prelude.thy ===== *)
theory Prelude
  imports Main "HOL-Library.Word" "HOL-Library.Multiset"
begin

text \<open>
  Shared vocabulary of the development.

  \<^item> JavaScript strings are sequences of UTF-16 code units: \<open>jstr\<close> is a list of 16-bit words and
    \<open>js\<close> turns an ASCII literal of the source into one. The string methods the sources call
    (\<open>trim\<close>, \<open>startsWith\<close>, \<open>includes\<close>, \<open>split\<close>) are executable functions on it.
  \<^item> An asynchronous method of a service is an \<open>action\<close>: a function from the world to either a thrown
    exception or a result, together with the world it leaves behind. A thrown exception does not
    undo the writes made before it, because the sources use no database transaction.
  \<^item> \<open>event_invariant\<close> is the interface of a state machine with an invariant of its events; the lemmas of the
    locale carry it over to runs.
  \<^item> \<open>keeps\<close> is the compositional form of ``this action preserves that invariant''.
\<close>

named_theorems act_simps "unfolding rules of the action combinators"
named_theorems keeps_intros "introduction rules for preserved invariants"
named_theorems store_intros "rules for storing a document under a fresh identifier"
named_theorems technical_intros "introduction rules for actions that leave the stored data alone"
named_theorems quiet_intros "introduction rules for actions that change no document"
named_theorems consult_intros "introduction rules for actions that only consult the language model"
named_theorems wire_intros "introduction rules for actions that leave sockets, emissions and queued work alone"
named_theorems js_simps "rules that evaluate string operations on literals"

subsection \<open>Strings as UTF-16 code units\<close>

type_synonym jchar = "16 word"
type_synonym jstr = "jchar list"

definition js :: "string \<Rightarrow> jstr" where
  "js s = map (\<lambda>c. of_nat (of_char c)) s"

definition isSpace :: "jchar \<Rightarrow> bool" where
  "isSpace c \<longleftrightarrow>
     c \<in> {0x9, 0xA, 0xB, 0xC, 0xD, 0x20, 0xA0, 0x1680, 0x2028, 0x2029, 0x202F, 0x205F, 0x3000, 0xFEFF}
     \<or> (0x2000 \<le> c \<and> c \<le> 0x200A)"

definition trim :: "jstr \<Rightarrow> jstr" where
  "trim s = rev (dropWhile isSpace (rev (dropWhile isSpace s)))"

definition startsWith :: "jstr \<Rightarrow> jstr \<Rightarrow> bool" where
  "startsWith p s \<longleftrightarrow> take (length p) s = p"

fun includesStr :: "jstr \<Rightarrow> jstr \<Rightarrow> bool" where
  "includesStr p [] = (p = [])"
| "includesStr p (c # cs) = (startsWith p (c # cs) \<or> includesStr p cs)"

fun splitOn :: "jchar \<Rightarrow> jstr \<Rightarrow> jstr list" where
  "splitOn d [] = [[]]"
| "splitOn d (c # cs) =
     (if c = d then [] # splitOn d cs
      else case splitOn d cs of [] \<Rightarrow> [[c]] | w # ws \<Rightarrow> (c # w) # ws)"

lemma of_char_16_inject [simp]:
  "(of_nat (of_char c) :: 16 word) = of_nat (of_char d) \<longleftrightarrow> c = d"
proof
  assume eq: "(of_nat (of_char c) :: 16 word) = of_nat (of_char d)"
  have lt: "of_char x < (2::nat) ^ 16" for x
    by (rule less_trans [OF nat_of_char_less_256]) simp
  from eq have "unat (of_nat (of_char c) :: 16 word) = unat (of_nat (of_char d) :: 16 word)"
    by simp
  then have "(of_char c :: nat) = of_char d"
    using lt [of c] lt [of d] by (simp add: unat_of_nat take_bit_nat_eq_self)
  then show "c = d" by simp
qed simp

lemma unat_of_char_16: "unat (of_nat (of_char c) :: 16 word) = of_char c"
proof -
  have "of_char c < (2::nat) ^ 16"
    by (rule less_trans [OF nat_of_char_less_256]) simp
  then show ?thesis by (simp add: unat_of_nat)
qed

lemma js_inject [simp, js_simps]: "js a = js b \<longleftrightarrow> a = b"
  unfolding js_def
  by (metis (mono_tags, lifting) inj_map_eq_map inj_onI of_char_16_inject)

lemma js_Nil_iff [simp, js_simps]: "js a = [] \<longleftrightarrow> a = []" "[] = js a \<longleftrightarrow> a = []"
  by (auto simp: js_def)

lemma js_append: "js (a @ b) = js a @ js b"
  by (simp add: js_def)

lemma length_js [simp]: "length (js a) = length a"
  by (simp add: js_def)

lemma trim_Nil [simp]: "trim [] = []"
  by (simp add: trim_def)

lemma trim_eq_Nil_iff: "trim s = [] \<longleftrightarrow> (\<forall>c\<in>set s. isSpace c)"
  by (auto simp: trim_def dropWhile_eq_Nil_conv dest: set_dropWhileD)
    (metis Un_iff set_append set_takeWhileD takeWhile_dropWhile_id)

lemma dropWhile_trim [simp]: "dropWhile isSpace (trim s) = trim s"
proof (cases "dropWhile isSpace s")
  case Nil
  then have "trim s = []" by (simp only: trim_def) simp
  then show ?thesis by simp
next
  case (Cons c cs)
  then have nc: "\<not> isSpace c"
    using hd_dropWhile [of isSpace s] by simp
  have "trim s = rev (dropWhile isSpace (rev cs @ [c]))"
    by (simp add: trim_def Cons)
  also have "\<dots> = c # rev (dropWhile isSpace (rev cs))"
    using nc by (induction "rev cs" arbitrary: cs) (auto simp: dropWhile_append)
  finally show ?thesis using nc by simp
qed

lemma trim_trim [simp]: "trim (trim s) = trim s"
proof -
  have "trim (trim s) = rev (dropWhile isSpace (rev (trim s)))"
    by (simp add: trim_def [of "trim s"])
  also have "\<dots> = trim s"
    by (simp add: trim_def)
  finally show ?thesis .
qed

lemma startsWith_refl [simp]: "startsWith s s"
  by (simp add: startsWith_def)

lemma startsWith_append [simp]: "startsWith p (p @ s)"
  by (simp add: startsWith_def)

lemma startsWith_iff: "startsWith p s \<longleftrightarrow> (\<exists>t. s = p @ t)"
  by (metis append_take_drop_id startsWith_append startsWith_def)

lemma includesStr_Cons: "includesStr p s \<Longrightarrow> includesStr p (c # s)"
  by simp

lemma includesStr_append: "includesStr p (p @ b)"
  by (cases "p @ b") (auto, metis startsWith_append)

lemma includesStr_appendL: "includesStr p s \<Longrightarrow> includesStr p (a @ s)"
  by (induction a) auto

lemma includesStr_split: "includesStr p s \<Longrightarrow> \<exists>a b. s = a @ p @ b"
proof (induction s)
  case (Cons c cs)
  then show ?case
  proof (cases "startsWith p (c # cs)")
    case True
    then show ?thesis by (metis append_Nil startsWith_iff)
  next
    case False
    with Cons obtain a b where "cs = a @ p @ b" by auto
    then have "c # cs = (c # a) @ p @ b" by simp
    then show ?thesis by blast
  qed
qed simp

lemma includesStr_iff: "includesStr p s \<longleftrightarrow> (\<exists>a b. s = a @ p @ b)"
  by (metis includesStr_append includesStr_appendL includesStr_split)

subsection \<open>Actions: state, exceptions, sequencing\<close>

type_synonym ('s, 'e, 'a) action = "'s \<Rightarrow> ('e + 'a) \<times> 's"

definition ret :: "'a \<Rightarrow> ('s, 'e, 'a) action" where
  "ret a = (\<lambda>s. (Inr a, s))"

definition throw :: "'e \<Rightarrow> ('s, 'e, 'a) action" where
  "throw e = (\<lambda>s. (Inl e, s))"

definition bind :: "('s, 'e, 'a) action \<Rightarrow> ('a \<Rightarrow> ('s, 'e, 'b) action) \<Rightarrow> ('s, 'e, 'b) action" where
  "bind m f = (\<lambda>s. case m s of (Inl e, s') \<Rightarrow> (Inl e, s') | (Inr a, s') \<Rightarrow> f a s')"

definition catch :: "('s, 'e, 'a) action \<Rightarrow> ('e \<Rightarrow> ('s, 'e, 'a) action) \<Rightarrow> ('s, 'e, 'a) action" where
  "catch m h = (\<lambda>s. case m s of (Inl e, s') \<Rightarrow> h e s' | (Inr a, s') \<Rightarrow> (Inr a, s'))"

definition gets :: "('s \<Rightarrow> 'a) \<Rightarrow> ('s, 'e, 'a) action" where
  "gets f = (\<lambda>s. (Inr (f s), s))"

definition modify :: "('s \<Rightarrow> 's) \<Rightarrow> ('s, 'e, unit) action" where
  "modify f = (\<lambda>s. (Inr (), f s))"

definition whenA :: "bool \<Rightarrow> ('s, 'e, unit) action \<Rightarrow> ('s, 'e, unit) action" where
  "whenA b m = (if b then m else ret ())"

primrec mapA :: "('a \<Rightarrow> ('s, 'e, 'b) action) \<Rightarrow> 'a list \<Rightarrow> ('s, 'e, 'b list) action" where
  "mapA f [] = ret []"
| "mapA f (x # xs) = bind (f x) (\<lambda>y. bind (mapA f xs) (\<lambda>ys. ret (y # ys)))"

lemmas act_defs = ret_def throw_def bind_def catch_def gets_def modify_def whenA_def

lemma bind_ret [act_simps]: "bind (ret a) f = f a"
  by (simp add: act_defs)

lemma bind_throw [act_simps]: "bind (throw e) f = throw e"
  by (simp add: act_defs)

lemma bind_assoc [act_simps]: "bind (bind m f) g = bind m (\<lambda>a. bind (f a) g)"
  by (auto simp: bind_def fun_eq_iff split: prod.splits sum.splits)

lemma bind_gets_app [act_simps]: "bind (gets f) g s = g (f s) s"
  by (simp add: act_defs)

lemma bind_modify_app [act_simps]: "bind (modify f) g s = g () (f s)"
  by (simp add: act_defs)

lemma ret_app [act_simps]: "ret a s = (Inr a, s)"
  by (simp add: ret_def)

lemma throw_app [act_simps]: "throw e s = (Inl e, s)"
  by (simp add: throw_def)

lemma gets_app [act_simps]: "gets f s = (Inr (f s), s)"
  by (simp add: gets_def)

lemma modify_app [act_simps]: "modify f s = (Inr (), f s)"
  by (simp add: modify_def)

lemma bind_Inr [act_simps]: "m s = (Inr a, s') \<Longrightarrow> bind m f s = f a s'"
  by (simp add: bind_def)

lemma bind_Inl [act_simps]: "m s = (Inl e, s') \<Longrightarrow> bind m f s = (Inl e, s')"
  by (simp add: bind_def)

lemma bind_Inr_E:
  assumes "bind m f s = (Inr b, t)"
  obtains a u where "m s = (Inr a, u)" "f a u = (Inr b, t)"
  using assms by (auto simp: bind_def split: prod.splits sum.splits)

lemma bind_Inr_iff:
  "bind m f s = (Inr b, t) \<longleftrightarrow> (\<exists>a u. m s = (Inr a, u) \<and> f a u = (Inr b, t))"
  by (auto simp: bind_def split: prod.splits sum.splits)

lemma bind_Inl_iff:
  "bind m f s = (Inl e, t) \<longleftrightarrow>
     m s = (Inl e, t) \<or> (\<exists>a u. m s = (Inr a, u) \<and> f a u = (Inl e, t))"
  by (auto simp: bind_def split: prod.splits sum.splits)

subsection \<open>Preserved invariants\<close>

definition keeps :: "('s \<Rightarrow> bool) \<Rightarrow> ('s, 'e, 'a) action \<Rightarrow> bool" where
  "keeps P m \<longleftrightarrow> (\<forall>s. P s \<longrightarrow> P (snd (m s)))"

lemma keepsD: "keeps P m \<Longrightarrow> P s \<Longrightarrow> P (snd (m s))"
  by (simp add: keeps_def)

lemma keepsI: "(\<And>s. P s \<Longrightarrow> P (snd (m s))) \<Longrightarrow> keeps P m"
  by (simp add: keeps_def)

lemma keeps_run: "keeps P m \<Longrightarrow> P s \<Longrightarrow> m s = (r, t) \<Longrightarrow> P t"
  by (metis keepsD snd_conv)

lemma keeps_ret [keeps_intros]: "keeps P (ret a)"
  and keeps_throw [keeps_intros]: "keeps P (throw e)"
  and keeps_gets [keeps_intros]: "keeps P (gets f)"
  by (simp_all add: keeps_def act_defs)

lemma keeps_bind [keeps_intros]:
  "keeps P m \<Longrightarrow> (\<And>a. keeps P (f a)) \<Longrightarrow> keeps P (bind m f)"
  by (fastforce simp: keeps_def bind_def split: prod.splits sum.splits)

lemma keeps_catch [keeps_intros]:
  "keeps P m \<Longrightarrow> (\<And>e. keeps P (h e)) \<Longrightarrow> keeps P (catch m h)"
  by (fastforce simp: keeps_def catch_def split: prod.splits sum.splits)

lemma keeps_if [keeps_intros]:
  "(b \<Longrightarrow> keeps P m) \<Longrightarrow> (\<not> b \<Longrightarrow> keeps P n) \<Longrightarrow> keeps P (if b then m else n)"
  by simp

lemma keeps_when [keeps_intros]: "(b \<Longrightarrow> keeps P m) \<Longrightarrow> keeps P (whenA b m)"
  by (simp add: whenA_def keeps_ret)

lemma keeps_case_option [keeps_intros]:
  "keeps P m \<Longrightarrow> (\<And>x. keeps P (f x)) \<Longrightarrow> keeps P (case z of None \<Rightarrow> m | Some x \<Rightarrow> f x)"
  by (simp split: option.split)

lemma keeps_case_prod [keeps_intros]:
  "(\<And>x y. keeps P (f x y)) \<Longrightarrow> keeps P (case z of (x, y) \<Rightarrow> f x y)"
  by (simp split: prod.split)

lemma keeps_let [keeps_intros]: "(\<And>x. keeps P (f x)) \<Longrightarrow> keeps P (let x = v in f x)"
  by (simp add: Let_def)

lemma keeps_case_sum [keeps_intros]:
  "(\<And>x. keeps P (f x)) \<Longrightarrow> (\<And>y. keeps P (g y)) \<Longrightarrow> keeps P (case z of Inl x \<Rightarrow> f x | Inr y \<Rightarrow> g y)"
  by (simp split: sum.split)

lemma keeps_case_list [keeps_intros]:
  "keeps P m \<Longrightarrow> (\<And>x xs. keeps P (f x xs)) \<Longrightarrow> keeps P (case z of [] \<Rightarrow> m | x # xs \<Rightarrow> f x xs)"
  by (simp split: list.split)

lemma keeps_mapA [keeps_intros]: "(\<And>x. keeps P (f x)) \<Longrightarrow> keeps P (mapA f xs)"
  by (induction xs) (auto intro!: keeps_intros)

lemma keeps_modify: "(\<And>s. P s \<Longrightarrow> P (f s)) \<Longrightarrow> keeps P (modify f)"
  by (simp add: keeps_def act_defs)

text \<open>
  \<open>establishes P I m\<close>: started where \<open>P\<close> holds, the action ends where \<open>I\<close> holds, thrown or not. It serves
  operations that carry a fresh identifier for a while before they store it.
\<close>

definition establishes :: "('s \<Rightarrow> bool) \<Rightarrow> ('s \<Rightarrow> bool) \<Rightarrow> ('s, 'e, 'a) action \<Rightarrow> bool" where
  "establishes P I m \<longleftrightarrow> (\<forall>s. P s \<longrightarrow> I (snd (m s)))"

lemma establishesI: "(\<And>s. P s \<Longrightarrow> I (snd (m s))) \<Longrightarrow> establishes P I m"
  by (simp add: establishes_def)

lemma establishes_keeps: "keeps I m \<Longrightarrow> (\<And>s. P s \<Longrightarrow> I s) \<Longrightarrow> establishes P I m"
  by (simp add: establishes_def keeps_def)

lemma establishes_pre:
  assumes "keeps P m" "\<And>s. P s \<Longrightarrow> I s" "\<And>a. establishes P I (f a)"
  shows "establishes P I (bind m f)"
proof (rule establishesI)
  fix s assume "P s"
  with assms(1) have "P (snd (m s))" by (rule keepsD)
  with assms(2,3) show "I (snd (bind m f s))"
    by (auto simp: establishes_def bind_def split: prod.splits sum.splits)
qed

lemma establishes_post:
  assumes "establishes P I m" "\<And>a. keeps I (f a)"
  shows "establishes P I (bind m f)"
proof (rule establishesI)
  fix s assume "P s"
  with assms(1) have "I (snd (m s))" by (simp add: establishes_def)
  with assms(2) show "I (snd (bind m f s))"
    by (auto simp: keeps_def bind_def split: prod.splits sum.splits)
qed

lemma establishes_let: "(\<And>x. establishes P I (f x)) \<Longrightarrow> establishes P I (let x = v in f x)"
  by (simp add: Let_def)

lemma establishes_if:
  "(b \<Longrightarrow> establishes P I m) \<Longrightarrow> (\<not> b \<Longrightarrow> establishes P I n) \<Longrightarrow> establishes P I (if b then m else n)"
  by simp

lemma establishes_throw: "(\<And>s. P s \<Longrightarrow> I s) \<Longrightarrow> establishes P I (throw e)"
  by (simp add: establishes_def act_defs)

text \<open>
  \<open>atomicOn P m\<close>: when the action throws, \<open>P\<close> still holds. Together with a statement about its successful runs
  this says that a failed call left no trace in what \<open>P\<close> speaks about.
\<close>

definition atomicOn :: "('s \<Rightarrow> bool) \<Rightarrow> ('s, 'e, 'a) action \<Rightarrow> bool" where
  "atomicOn P m \<longleftrightarrow> (\<forall>s e t. P s \<longrightarrow> m s = (Inl e, t) \<longrightarrow> P t)"

lemma atomicOnD: "atomicOn P m \<Longrightarrow> P s \<Longrightarrow> m s = (Inl e, t) \<Longrightarrow> P t"
  by (auto simp: atomicOn_def)

lemma atomic_keeps: "keeps P m \<Longrightarrow> atomicOn P m"
  unfolding keeps_def atomicOn_def by (metis snd_conv)

lemma atomic_bind: "keeps P m \<Longrightarrow> (\<And>a. atomicOn P (f a)) \<Longrightarrow> atomicOn P (bind m f)"
  unfolding atomicOn_def bind_Inl_iff by (metis keeps_run)

lemma atomic_bind_last: "atomicOn P m \<Longrightarrow> (\<And>a s e t. f a s \<noteq> (Inl e, t)) \<Longrightarrow> atomicOn P (bind m f)"
  unfolding atomicOn_def bind_Inl_iff by metis

lemma atomic_if: "atomicOn P m \<Longrightarrow> atomicOn P n \<Longrightarrow> atomicOn P (if b then m else n)"
  by simp

lemma mapA_length: "mapA f xs s = (Inr ys, t) \<Longrightarrow> length ys = length xs"
  by (induction xs arbitrary: s ys) (auto simp: act_simps bind_Inr_iff)

lemma mapA_total:
  assumes "\<And>x w. x \<in> set xs \<Longrightarrow> \<exists>y w'. f x w = (Inr y, w') \<and> R x y"
  shows "\<exists>ys w'. mapA f xs w = (Inr ys, w') \<and> list_all2 R xs ys"
  using assms
proof (induction xs arbitrary: w)
  case (Cons x xs)
  from Cons.prems [of x w] obtain y v where y: "f x w = (Inr y, v)" "R x y" by auto
  from Cons.IH [of v] Cons.prems obtain ys u where "mapA f xs v = (Inr ys, u)" "list_all2 R xs ys"
    by auto
  with y show ?case by (auto simp: bind_def ret_def)
qed (simp add: ret_def)

lemma mapA_result:
  assumes "mapA f xs w = (Inr ys, w')" "\<And>x y v v'. x \<in> set xs \<Longrightarrow> f x v = (Inr y, v') \<Longrightarrow> R x y"
  shows "list_all2 R xs ys"
  using assms
proof (induction xs arbitrary: w ys)
  case (Cons x xs)
  from Cons.prems(1) obtain y v zs where "f x w = (Inr y, v)" "mapA f xs v = (Inr zs, w')" "ys = y # zs"
    by (auto simp: bind_Inr_iff ret_def)
  with Cons.IH [of v zs] Cons.prems(2) show ?case by auto
qed (auto simp: ret_def)

subsection \<open>Runs of events\<close>

text \<open>An invariant of single events is an invariant of every sequence of them.\<close>

locale event_invariant =
  fixes next_state :: "'e \<Rightarrow> 's \<Rightarrow> 's" and inv :: "'s \<Rightarrow> bool"
  assumes preserved: "inv s \<Longrightarrow> inv (next_state e s)"
begin

lemma along: "inv s \<Longrightarrow> inv (fold next_state es s)"
  by (induction es arbitrary: s) (simp_all add: preserved)

end

end
