(* ===== verification/Schema.thy ===== *)
theory Schema
  imports Complex_Main Prelude
begin

text \<open>
  The data the backend keeps and exchanges. Every Mongoose schema of \<open>backend/src/modules/*/schemas\<close>
  is a record here, every string union a datatype, and every payload type of the chat service a
  record. Exceptions are the values of \<open>exn\<close>: the HTTP exceptions the services throw, their own
  error classes, and the failures of the libraries they call (an \<open>ObjectId\<close> that does not parse, a
  cast that fails, a violated unique index, a missing required field).
\<close>

type_synonym oid = nat
type_synonym time = int

subsection \<open>Numbers and exceptions\<close>

datatype jsnum = NaN | PosInfinity | NegInfinity | Fin rat

definition isFinite :: "jsnum \<Rightarrow> bool" where
  "isFinite n = (case n of Fin _ \<Rightarrow> True | _ \<Rightarrow> False)"

definition leZero :: "jsnum \<Rightarrow> bool" where
  "leZero n = (case n of Fin q \<Rightarrow> q \<le> 0 | NegInfinity \<Rightarrow> True | _ \<Rightarrow> False)"

definition gtNum :: "jsnum \<Rightarrow> rat \<Rightarrow> bool" where
  "gtNum n b = (case n of Fin q \<Rightarrow> b < q | PosInfinity \<Rightarrow> True | _ \<Rightarrow> False)"

text \<open>The values of \<open>JSON.parse\<close>; an object keeps its members in the order of the text.\<close>

datatype json = JNull | JBool bool | JNum jsnum | JStr jstr | JArr "json list" | JObj "(jstr \<times> json) list"

record http_body =
  body_error :: "string option"
  body_code :: "string option"
  body_message :: jstr

datatype exn =
    BadRequestException http_body
  | UnauthorizedException http_body
  | ForbiddenException jstr
  | NotFoundException http_body
  | ConflictException http_body
  | ServiceUnavailableException http_body
  | ChatProcessingError string jstr
  | ChatDecodeError string jstr
  | AuthProcessingError string jstr
  | BSONError
  | CastError
  | DuplicateKeyError
  | ValidationError
  | RangeError
  | TypeError
  | URIError
  | PlainError jstr

abbreviation codeBody :: "string \<Rightarrow> string \<Rightarrow> http_body" where
  "codeBody c m \<equiv> \<lparr>body_error = None, body_code = Some c, body_message = js m\<rparr>"

abbreviation errorBody :: "string \<Rightarrow> string \<Rightarrow> http_body" where
  "errorBody e m \<equiv> \<lparr>body_error = Some e, body_code = None, body_message = js m\<rparr>"

subsection \<open>Users, sessions and login attempts\<close>

record local_auth =
  la_enabled :: bool
  la_passwordSha1 :: "jstr option"
  la_passwordUpdatedAt :: "time option"
  la_createdVia :: "string option"

record user =
  usr_id :: oid
  usr_googleId :: "jstr option"
  usr_email :: jstr
  usr_username :: jstr
  usr_displayName :: jstr
  usr_avatarUrl :: "jstr option"
  usr_status :: string
  usr_aiSettings :: "oid option"
  usr_localAuth :: "local_auth option"

record session_user =
  su_id :: jstr
  su_email :: jstr
  su_username :: jstr
  su_displayName :: jstr
  su_avatarUrl :: "jstr option"

datatype session_status = SessionActive | SessionExpired | SessionRevoked

record refresh_session =
  ses_id :: oid
  ses_userId :: oid
  ses_tokenHash :: jstr
  ses_issuedAt :: time
  ses_expiresAt :: time
  ses_lastUsedAt :: "time option"
  ses_revokedAt :: "time option"
  ses_status :: session_status
  ses_createdBy :: string

datatype auth_provider = Google | LocalRegister | LocalLogin | RefreshToken

datatype attempt_result = Started | Succeeded | Failed | Cancelled | Issued | Renewed | Revoked

record auth_attempt =
  atm_provider :: auth_provider
  atm_emailCandidate :: "jstr option"
  atm_result :: attempt_result
  atm_failureReason :: "string option"
  atm_userId :: "jstr option"
  atm_sessionId :: "jstr option"

subsection \<open>Conversations, participants, messages, attachments, membership events\<close>

datatype conversation_type = Direct | Group

record conversation =
  conv_id :: oid
  conv_type :: conversation_type
  conv_title :: "jstr option"
  conv_createdBy :: oid
  conv_lastMessageAt :: "time option"
  conv_createdAt :: time
  conv_updatedAt :: time

datatype participant_role = Member | Admin | Owner
datatype participant_status = Active | Left | Removed

record participant =
  part_id :: oid
  part_conversationId :: oid
  part_userId :: oid
  part_role :: participant_role
  part_status :: participant_status
  part_addedBy :: "oid option"
  part_joinedAt :: time
  part_leftAt :: "time option"
  part_lastReadMessageId :: "oid option"
  part_lastReadAt :: "time option"
  part_unreadCount :: int

datatype delivery_status = DeliverySent | DeliveryFailed
datatype seen_state = Sent | Seen
datatype reverse_encryption_state = Legacy | Encrypted | DecodeFailed

record moderation_result =
  mod_sentiment :: "jstr option"
  mod_sentimentScore :: "jsnum option"
  mod_toxicityScore :: "jsnum option"
  mod_isToxic :: "bool option"
  mod_warningMessage :: "jstr option"

record message_attachment =
  ma_attachmentId :: oid
  ma_fileName :: jstr
  ma_mimeType :: jstr
  ma_sizeBytes :: jsnum
  ma_isImage :: bool

record message =
  msg_id :: oid
  msg_conversationId :: oid
  msg_senderId :: oid
  msg_content :: jstr
  msg_reverseEncryptionState :: reverse_encryption_state
  msg_encryptedContentVersion :: "string option"
  msg_sentAt :: time
  msg_deliveryStatus :: delivery_status
  msg_seenState :: seen_state
  msg_decodeErrorCode :: "string option"
  msg_isAIBotMessage :: bool
  msg_isAICommand :: bool
  msg_moderationResult :: "moderation_result option"
  msg_attachment :: "message_attachment option"

datatype attachment_status = Draft | Uploaded | Attached

record chat_attachment =
  att_id :: oid
  att_conversationId :: oid
  att_messageId :: "oid option"
  att_uploaderId :: oid
  att_r2Key :: jstr
  att_originalName :: jstr
  att_mimeType :: jstr
  att_sizeBytes :: jsnum
  att_isImage :: bool
  att_status :: attachment_status
  att_createdAt :: time
  att_uploadedAt :: "time option"
  att_confirmedAt :: "time option"

datatype membership_event_type = Added | Joined | LeftEvent | RemovedEvent

record membership_event =
  evt_id :: oid
  evt_conversationId :: oid
  evt_type :: membership_event_type
  evt_targetUserId :: oid
  evt_actorUserId :: "oid option"
  evt_occurredAt :: time

subsection \<open>Payloads of the chat service\<close>

datatype message_display_state = DisplayReady | DisplayDecodeFailed

record attachment_payload =
  ap_attachmentId :: jstr
  ap_fileName :: jstr
  ap_mimeType :: jstr
  ap_sizeBytes :: jsnum
  ap_isImage :: bool
  ap_uploaderId :: "jstr option"
  ap_conversationId :: "jstr option"
  ap_messageId :: "jstr option"

record realtime_message =
  rm_messageId :: jstr
  rm_conversationId :: jstr
  rm_senderId :: jstr
  rm_senderDisplayName :: "jstr option"
  rm_senderAvatarUrl :: "jstr option"
  rm_content :: jstr
  rm_sentAt :: jstr
  rm_seenState :: seen_state
  rm_attachment :: "attachment_payload option"
  rm_isTailOfSenderGroup :: bool
  rm_decodeErrorCode :: "string option"
  rm_displayState :: message_display_state
  rm_isAIBotMessage :: bool
  rm_isAICommand :: bool
  rm_moderationResult :: "moderation_result option"

record conversation_preview =
  cp_conversationId :: jstr
  cp_lastMessagePreview :: jstr
  cp_lastMessageAt :: jstr
  cp_unreadCount :: int
  cp_hasUnread :: bool

record mark_read_payload =
  mr_conversationId :: jstr
  mr_unreadCount :: int
  mr_lastReadMessageId :: "jstr option"

record display_message =
  dm_message :: message
  dm_senderDisplayName :: "jstr option"
  dm_senderAvatarUrl :: "jstr option"
  dm_content :: jstr
  dm_decodeErrorCode :: "string option"
  dm_displayState :: message_display_state

record chat_message_payload =
  cm_display :: display_message
  cm_attachment :: "attachment_payload option"
  cm_isTailOfSenderGroup :: bool
  cm_isAIBotMessage :: bool
  cm_isAICommand :: bool
  cm_moderationResult :: "moderation_result option"

record message_search_payload =
  ms_messageId :: jstr
  ms_conversationId :: jstr
  ms_senderId :: jstr
  ms_senderDisplayName :: "jstr option"
  ms_senderAvatarUrl :: "jstr option"
  ms_content :: jstr
  ms_encryptedContent :: jstr
  ms_sentAt :: jstr
  ms_decodeErrorCode :: "string option"
  ms_displayState :: message_display_state

record conversation_summary =
  cs_id :: jstr
  cs_type :: conversation_type
  cs_title :: "jstr option"
  cs_createdBy :: jstr
  cs_createdAt :: jstr
  cs_updatedAt :: jstr
  cs_lastMessageAt :: "jstr option"
  cs_displayTitle :: jstr
  cs_displayAvatarUrl :: "jstr option"
  cs_lastMessagePreview :: "jstr option"
  cs_unreadCount :: int
  cs_hasUnread :: bool
  cs_directPeer :: "session_user option"

record moderation_dto =
  md_messageId :: jstr
  md_sentiment :: json
  md_sentimentScore :: jsnum
  md_toxicityScore :: jsnum
  md_isToxic :: bool
  md_warningMessage :: "jstr option"

record realtime_error =
  re_code :: string
  re_message :: jstr
  re_conversationId :: "jstr option"

end
