(* ===== verification/Utf8.thy ===== *)
theory Utf8
  imports Prelude
begin

text \<open>
  The text encodings of the JavaScript runtime that the services rely on: \<open>Buffer.from(s, 'utf8')\<close>
  (\<open>bufferFrom\<close>), \<open>buffer.toString('utf8')\<close> (\<open>bufferToString\<close>, which replaces each maximal ill-formed
  subpart by U+FFFD) and \<open>new TextDecoder('utf-8', { fatal: true })\<close> (\<open>textDecodeFatal\<close>, which
  rejects ill-formed input and drops a leading byte order mark). Code points and byte values are
  naturals inside the codec and become machine words at its boundary. The main results: decoding
  inverts encoding on every string without lone surrogates, for both decoders.
\<close>

type_synonym byte = "8 word"

subsection \<open>Code units and code points\<close>

definition isHigh :: "nat \<Rightarrow> bool" where "isHigh u \<longleftrightarrow> 0xD800 \<le> u \<and> u < 0xDC00"
definition isLow :: "nat \<Rightarrow> bool" where "isLow u \<longleftrightarrow> 0xDC00 \<le> u \<and> u < 0xE000"

fun codePoints :: "nat list \<Rightarrow> nat list" where
  "codePoints [] = []"
| "codePoints [u] = [if isHigh u \<or> isLow u then 0xFFFD else u]"
| "codePoints (u # v # us) =
     (if isHigh u \<and> isLow v
      then (0x10000 + (u - 0xD800) * 0x400 + (v - 0xDC00)) # codePoints us
      else (if isHigh u \<or> isLow u then 0xFFFD else u) # codePoints (v # us))"

definition unitsOf :: "nat \<Rightarrow> nat list" where
  "unitsOf cp =
     (if cp < 0x10000 then [cp]
      else [0xD800 + (cp - 0x10000) div 0x400, 0xDC00 + (cp - 0x10000) mod 0x400])"

fun wellFormedUnits :: "nat list \<Rightarrow> bool" where
  "wellFormedUnits [] = True"
| "wellFormedUnits [u] = (\<not> isHigh u \<and> \<not> isLow u)"
| "wellFormedUnits (u # v # us) =
     (if isHigh u \<and> isLow v then wellFormedUnits us
      else \<not> isHigh u \<and> \<not> isLow u \<and> wellFormedUnits (v # us))"

definition wellFormed :: "jstr \<Rightarrow> bool" where
  "wellFormed s \<longleftrightarrow> wellFormedUnits (map unat s)"

definition scalar :: "nat \<Rightarrow> bool" where
  "scalar cp \<longleftrightarrow> cp < 0x110000 \<and> \<not> isHigh cp \<and> \<not> isLow cp"

subsection \<open>Encoding\<close>

definition encodePoint :: "nat \<Rightarrow> nat list" where
  "encodePoint cp =
     (if cp < 0x80 then [cp]
      else if cp < 0x800 then [0xC0 + cp div 64, 0x80 + cp mod 64]
      else if cp < 0x10000 then [0xE0 + cp div 4096, 0x80 + cp div 64 mod 64, 0x80 + cp mod 64]
      else [0xF0 + cp div 262144, 0x80 + cp div 4096 mod 64, 0x80 + cp div 64 mod 64,
            0x80 + cp mod 64])"

definition bufferFrom :: "jstr \<Rightarrow> byte list" where
  "bufferFrom s = map of_nat (concat (map encodePoint (codePoints (map unat s))))"

subsection \<open>Decoding\<close>

fun continuation :: "nat \<Rightarrow> nat \<Rightarrow> nat \<Rightarrow> nat \<Rightarrow> nat list \<Rightarrow> nat option \<times> nat list" where
  "continuation 0 lo hi acc bs = (Some acc, bs)"
| "continuation (Suc n) lo hi acc [] = (None, [])"
| "continuation (Suc n) lo hi acc (b # bs) =
     (if lo \<le> b \<and> b \<le> hi then continuation n 0x80 0xBF (acc * 64 + (b - 0x80)) bs
      else (None, b # bs))"

definition decodePoint :: "nat \<Rightarrow> nat list \<Rightarrow> nat option \<times> nat list" where
  "decodePoint b bs =
     (if b < 0x80 then (Some b, bs)
      else if 0xC2 \<le> b \<and> b \<le> 0xDF then continuation 1 0x80 0xBF (b - 0xC0) bs
      else if 0xE0 \<le> b \<and> b \<le> 0xEF
        then continuation 2 (if b = 0xE0 then 0xA0 else 0x80) (if b = 0xED then 0x9F else 0xBF)
               (b - 0xE0) bs
      else if 0xF0 \<le> b \<and> b \<le> 0xF4
        then continuation 3 (if b = 0xF0 then 0x90 else 0x80) (if b = 0xF4 then 0x8F else 0xBF)
               (b - 0xF0) bs
      else (None, bs))"

lemma continuation_length: "length (snd (continuation n lo hi acc bs)) \<le> length bs"
  by (induction n lo hi acc bs rule: continuation.induct) auto

lemma decodePoint_length: "length (snd (decodePoint b bs)) \<le> length bs"
  by (auto simp: decodePoint_def continuation_length)

function decodePoints :: "nat list \<Rightarrow> nat option list" where
  "decodePoints [] = []"
| "decodePoints (b # bs) =
     (case decodePoint b bs of (cp, rest) \<Rightarrow> cp # decodePoints rest)"
  by pat_completeness auto
termination
  by (relation "measure length")
    (simp_all add: less_Suc_eq_le, metis decodePoint_length snd_conv)

definition bufferToString :: "byte list \<Rightarrow> jstr" where
  "bufferToString bs =
     concat (map (\<lambda>cp. map of_nat (unitsOf (case cp of None \<Rightarrow> 0xFFFD | Some c \<Rightarrow> c)))
       (decodePoints (map unat bs)))"

definition stripBom :: "nat option list \<Rightarrow> nat option list" where
  "stripBom cps = (case cps of Some c # rest \<Rightarrow> if c = 0xFEFF then rest else cps | _ \<Rightarrow> cps)"

definition textDecodeFatal :: "byte list \<Rightarrow> jstr option" where
  "textDecodeFatal bs =
     (let cps = decodePoints (map unat bs)
      in if None \<in> set cps then None
         else Some (concat (map (\<lambda>cp. map of_nat (unitsOf (the cp))) (stripBom cps))))"

subsection \<open>Round trips\<close>

lemma continuation_1:
  "lo \<le> b \<Longrightarrow> b \<le> hi \<Longrightarrow> continuation 1 lo hi acc (b # bs) = (Some (acc * 64 + (b - 0x80)), bs)"
  by (simp add: One_nat_def)

lemma continuation_2:
  "lo \<le> b \<Longrightarrow> b \<le> hi \<Longrightarrow> continuation 2 lo hi acc (b # bs) =
     continuation 1 0x80 0xBF (acc * 64 + (b - 0x80)) bs"
  by (simp add: numeral_2_eq_2)

lemma continuation_3:
  "lo \<le> b \<Longrightarrow> b \<le> hi \<Longrightarrow> continuation 3 lo hi acc (b # bs) =
     continuation 2 0x80 0xBF (acc * 64 + (b - 0x80)) bs"
  by (simp add: numeral_3_eq_3 numeral_2_eq_2)

lemmas continuation_steps = continuation_1 continuation_2 continuation_3

lemma decode_two:
  assumes "2 \<le> a" "a < 32" "c < 64"
  shows "decodePoint (0xC0 + a) ((0x80 + c) # rest) = (Some (a * 64 + c), rest)"
  using assms by (simp add: decodePoint_def continuation_steps del: One_nat_def)

lemma decode_three:
  assumes "a < 16" "c < 64" "d < 64" "a = 0 \<Longrightarrow> 32 \<le> c" "a = 13 \<Longrightarrow> c < 32"
  shows "decodePoint (0xE0 + a) ((0x80 + c) # (0x80 + d) # rest) = (Some ((a * 64 + c) * 64 + d), rest)"
proof -
  have "32 \<le> c \<or> a \<noteq> 0" "c < 32 \<or> a \<noteq> 13" using assms(4,5) by auto
  then show ?thesis using assms(1-3)
    by (auto simp: decodePoint_def continuation_steps simp del: One_nat_def)
qed

lemma decode_four:
  assumes "a \<le> 4" "c < 64" "d < 64" "e < 64" "a = 0 \<Longrightarrow> 16 \<le> c" "a = 4 \<Longrightarrow> c < 16"
  shows "decodePoint (0xF0 + a) ((0x80 + c) # (0x80 + d) # (0x80 + e) # rest) =
    (Some (((a * 64 + c) * 64 + d) * 64 + e), rest)"
proof -
  have "16 \<le> c \<or> a \<noteq> 0" "c < 16 \<or> a \<noteq> 4" using assms(5,6) by auto
  then show ?thesis using assms(1-4)
    by (auto simp: decodePoint_def continuation_steps simp del: One_nat_def)
qed

lemma digits64:
  fixes n :: nat
  obtains q r where "n = q * 64 + r" "r < 64" "q = n div 64"
  by (metis div_mult_mod_eq mod_less_divisor zero_less_numeral)

lemma digits_div:
  fixes q r :: nat
  assumes "r < 64"
  shows "(q * 64 + r) div 64 = q" "(q * 64 + r) mod 64 = r"
    "(q * 64 + r) div 4096 = q div 64" "(q * 64 + r) div 262144 = q div 64 div 64"
proof -
  show d: "(q * 64 + r) div 64 = q" and "(q * 64 + r) mod 64 = r" using assms by simp_all
  have "(q * 64 + r) div 4096 = (q * 64 + r) div 64 div 64"
    by (simp flip: div_mult2_eq)
  then show "(q * 64 + r) div 4096 = q div 64" by (simp only: d)
  have "(q * 64 + r) div 262144 = (q * 64 + r) div 64 div 64 div 64"
    by (simp flip: div_mult2_eq)
  then show "(q * 64 + r) div 262144 = q div 64 div 64" by (simp only: d)
qed

lemma decodePoint_encodePoint:
  assumes "scalar cp"
  shows "\<exists>b bs. encodePoint cp = b # bs \<and> decodePoint b (bs @ rest) = (Some cp, rest)"
proof -
  consider (1) "cp < 0x80" | (2) "0x80 \<le> cp" "cp < 0x800" | (3) "0x800 \<le> cp" "cp < 0x10000"
    | (4) "0x10000 \<le> cp" "cp < 0x110000"
    using assms unfolding scalar_def by linarith
  then show ?thesis
  proof cases
    case 1
    then show ?thesis by (simp add: encodePoint_def decodePoint_def)
  next
    case 2
    have "cp div 64 * 64 + cp mod 64 = cp" by simp
    with 2 decode_two [of "cp div 64" "cp mod 64" rest] show ?thesis
      by (simp add: encodePoint_def)
  next
    case 3
    obtain a c d where cp: "cp = (a * 64 + c) * 64 + d" "c < 64" "d < 64"
      by (metis digits64)
    have a: "a < 16" using 3 cp by (simp add: add_mult_distrib)
    have lo: "a = 0 \<Longrightarrow> 32 \<le> c" using 3 cp by (simp add: add_mult_distrib)
    have hi: "a = 13 \<Longrightarrow> c < 32"
      using assms cp unfolding scalar_def isHigh_def isLow_def by (simp add: add_mult_distrib) arith
    have "cp div 4096 = a" "cp div 64 mod 64 = c" "cp mod 64 = d"
      by (simp_all only: cp(1) digits_div [OF cp(2)] digits_div [OF cp(3)])
    with 3 decode_three [OF a cp(2,3) lo hi, of rest, folded cp(1)] show ?thesis
      by (simp add: encodePoint_def)
  next
    case 4
    obtain a c d e where cp: "cp = ((a * 64 + c) * 64 + d) * 64 + e" "c < 64" "d < 64" "e < 64"
      by (metis digits64)
    have a: "a \<le> 4" using 4 cp by (simp add: add_mult_distrib)
    have lo: "a = 0 \<Longrightarrow> 16 \<le> c" using 4 cp by (simp add: add_mult_distrib)
    have hi: "a = 4 \<Longrightarrow> c < 16" using 4 cp by (simp add: add_mult_distrib)
    have "cp div 262144 = a" "cp div 4096 mod 64 = c" "cp div 64 mod 64 = d" "cp mod 64 = e"
      by (simp_all only: cp(1) digits_div [OF cp(2)] digits_div [OF cp(3)] digits_div [OF cp(4)])
    with 4 decode_four [OF a cp(2-4) lo hi, of rest, folded cp(1)] show ?thesis
      by (simp add: encodePoint_def)
  qed
qed

lemma decodePoints_encode:
  "(\<forall>cp\<in>set cps. scalar cp) \<Longrightarrow> decodePoints (concat (map encodePoint cps)) = map Some cps"
proof (induction cps)
  case (Cons cp cps)
  then obtain b bs where "encodePoint cp = b # bs"
    "decodePoint b (bs @ concat (map encodePoint cps)) = (Some cp, concat (map encodePoint cps))"
    using decodePoint_encodePoint [of cp "concat (map encodePoint cps)"] by auto
  with Cons show ?case by simp
qed simp

lemma encodePoint_less:
  assumes "cp < 0x110000" "b \<in> set (encodePoint cp)"
  shows "b < 256"
proof -
  have "cp div 64 < 32" if "cp < 0x800" using that by auto
  moreover have "cp div 4096 < 16" if "cp < 0x10000" using that by auto
  moreover have "cp div 262144 < 5" using assms(1) by auto
  moreover have "m mod 64 < (64::nat)" for m by simp
  ultimately show ?thesis
    using assms(2) by (fastforce simp: encodePoint_def split: if_splits)
qed

lemma codePoints_scalar:
  "(\<forall>u\<in>set us. u < 0x10000) \<Longrightarrow> cp \<in> set (codePoints us) \<Longrightarrow> scalar cp"
proof (induction us rule: codePoints.induct)
  case (2 u)
  then show ?case by (auto simp: scalar_def isHigh_def isLow_def split: if_splits)
next
  case (3 u v us)
  show ?case
  proof (cases "isHigh u \<and> isLow v")
    case True
    have "scalar (0x10000 + (u - 0xD800) * 0x400 + (v - 0xDC00))"
      using True by (auto simp: scalar_def isHigh_def isLow_def)
    with True 3 show ?thesis by auto
  next
    case False
    have "scalar (if isHigh u \<or> isLow u then 0xFFFD else u)"
      using 3(3) by (auto simp: scalar_def isHigh_def isLow_def)
    with False 3 show ?thesis by auto
  qed
qed simp

lemma unitsOf_codePoints:
  "(\<forall>u\<in>set us. u < 0x10000) \<Longrightarrow> wellFormedUnits us \<Longrightarrow> concat (map unitsOf (codePoints us)) = us"
proof (induction us rule: wellFormedUnits.induct)
  case (3 u v us)
  show ?case
  proof (cases "isHigh u \<and> isLow v")
    case True
    then obtain a c where "u = 0xD800 + a" "a < 0x400" "v = 0xDC00 + c" "c < 0x400"
      by (auto simp: isHigh_def isLow_def dest!: le_Suc_ex)
    then have "unitsOf (0x10000 + (u - 0xD800) * 0x400 + (v - 0xDC00)) = [u, v]"
      by (simp add: unitsOf_def div_mult_self3 mod_mult_self3)
    with True 3 show ?thesis by auto
  next
    case False
    with 3 show ?thesis by (auto simp: unitsOf_def)
  qed
qed (auto simp: unitsOf_def)

lemma unat_16_less: "unat (u :: 16 word) < 0x10000"
  using unsigned_less [of u] by simp

lemma decodePoints_bufferFrom:
  "decodePoints (map unat (bufferFrom s)) = map Some (codePoints (map unat s))"
proof -
  have us: "\<forall>u\<in>set (map unat s). u < 0x10000" by (auto simp: unat_16_less)
  have "unat (of_nat b :: byte) = b"
    if "b \<in> set (concat (map encodePoint (codePoints (map unat s))))" for b
    using that encodePoint_less codePoints_scalar [OF us]
    by (fastforce simp: unat_of_nat take_bit_nat_eq_self scalar_def)
  then have "map unat (bufferFrom s) = concat (map encodePoint (codePoints (map unat s)))"
    unfolding bufferFrom_def map_map by (intro map_idI) simp
  then show ?thesis
    using decodePoints_encode codePoints_scalar [OF us] by simp
qed

lemma map_of_nat_unat: "map (of_nat \<circ> unat) (s :: jstr) = s"
  by (simp add: map_idI)

theorem bufferToString_bufferFrom:
  assumes "wellFormed s"
  shows "bufferToString (bufferFrom s) = s"
proof -
  have us: "\<forall>u\<in>set (map unat s). u < 0x10000" by (auto simp: unat_16_less)
  have "bufferToString (bufferFrom s) = map of_nat (concat (map unitsOf (codePoints (map unat s))))"
    by (simp add: bufferToString_def decodePoints_bufferFrom map_concat comp_def)
  also have "\<dots> = s"
    using unitsOf_codePoints [OF us] assms by (simp add: wellFormed_def map_of_nat_unat comp_def map_idI)
  finally show ?thesis .
qed

theorem textDecodeFatal_bufferFrom:
  assumes "wellFormed s" and "take 1 s \<noteq> [0xFEFF]"
  shows "textDecodeFatal (bufferFrom s) = Some s"
proof -
  have us: "\<forall>u\<in>set (map unat s). u < 0x10000" by (auto simp: unat_16_less)
  have units: "concat (map unitsOf (codePoints (map unat s))) = map unat s"
    using unitsOf_codePoints [OF us] assms(1) by (simp add: wellFormed_def)
  have "stripBom (map Some (codePoints (map unat s))) = map Some (codePoints (map unat s))"
  proof (cases "codePoints (map unat s)")
    case (Cons c cs)
    have "c \<noteq> 0xFEFF"
    proof
      assume "c = 0xFEFF"
      with units Cons obtain u us' where "s = u # us'" "unat u = 0xFEFF"
        by (cases s) (auto simp: unitsOf_def)
      then have "take 1 s = [of_nat 0xFEFF]"
        by (metis One_nat_def take0 take_Suc_Cons of_nat_unat ucast_id)
      with assms(2) show False by simp
    qed
    with Cons show ?thesis by (simp add: stripBom_def)
  qed (simp add: stripBom_def)
  then have "textDecodeFatal (bufferFrom s) = Some (map of_nat (concat (map unitsOf (codePoints (map unat s)))))"
    by (auto simp: textDecodeFatal_def decodePoints_bufferFrom Let_def map_concat comp_def)
  then show ?thesis
    by (simp add: units map_of_nat_unat comp_def map_idI)
qed

lemma js_wellFormed [simp]: "wellFormed (js s)"
proof -
  have "wellFormedUnits us" if "\<forall>u\<in>set us. u < 0x100" for us
    using that by (induction us rule: wellFormedUnits.induct) (auto simp: isHigh_def isLow_def)
  moreover have "unat (of_nat (of_char c) :: 16 word) < 0x100" for c
    by (simp add: unat_of_nat) (rule le_less_trans [OF mod_less_eq_dividend nat_of_char_less_256])
  ultimately show ?thesis by (auto simp: wellFormed_def js_def)
qed

end
