(* ===== verification/World.thy ===== *)
theory World
  imports Schema Utf8 "HOL-Library.AList"
begin

text \<open>
  The world the services act on, and the third-party code they call.

  \<^item> \<open>platform\<close> gathers what is not under \<open>src/\<close>: the identifier functions of the MongoDB driver, the
    clock, the order in which the database returns matching documents, the Unicode tables, JSON web
    tokens, hash functions, the remote processor, the presigner and the Gemini client. Each is a
    parameter. The laws every proof needs are built into three small types: \<open>'a arrangement\<close> (a
    query returns its matches, each once, in an unspecified order), \<open>oid_codec\<close> (an identifier's
    string form parses back to it) and \<open>oid_supply\<close> (a fresh identifier was never issued before).
  \<^item> \<open>world\<close> holds the collections, the counters of the stateful services, the connected sockets and
    the log of what was emitted to clients.
  \<^item> The query operators of Mongoose are functions on document lists. Their laws are the locale
    \<open>collection\<close>, interpreted for every collection of the database.
\<close>

subsection \<open>Parameters with built-in laws\<close>

typedef 'a arrangement = "{f :: 'a list \<Rightarrow> 'a list. \<forall>xs. mset (f xs) = mset xs}"
  morphisms arrange Arrangement
  by (rule exI [of _ "\<lambda>xs. xs"]) simp

setup_lifting type_definition_arrangement

lift_definition naturalOrder :: "'a arrangement" is "\<lambda>xs. xs" by simp

lift_definition reverseOrder :: "'a arrangement" is rev by simp

lemma mset_arrange [simp]: "mset (arrange a xs) = mset xs"
  using arrange [of a] by simp

lemma set_arrange [simp]: "set (arrange a xs) = set xs"
  by (metis mset_arrange set_mset_mset)

lemma length_arrange [simp]: "length (arrange a xs) = length xs"
  by (metis mset_arrange size_mset)

lemma arrange_Nil_iff [simp]: "arrange a xs = [] \<longleftrightarrow> xs = []"
  by (metis length_0_conv length_arrange)

lemma arrange_Nil [simp]: "arrange a [] = []"
  by simp

lemma arrange_naturalOrder [simp]: "arrange naturalOrder xs = xs"
  by transfer simp

lemma arrange_singleton [simp]: "arrange a [x] = [x]"
proof -
  have "mset (arrange a [x]) = {#x#}" by simp
  then show ?thesis by (metis mset_single_iff)
qed

lemma distinct_map_arrange [simp]: "distinct (map f (arrange a xs)) \<longleftrightarrow> distinct (map f xs)"
  by (rule mset_eq_imp_distinct_iff) simp

typedef oid_codec = "{pr :: (jstr \<Rightarrow> oid option) \<times> (oid \<Rightarrow> jstr). \<forall>i. fst pr (snd pr i) = Some i}"
  morphisms codecFuns OidCodec
  by (rule exI [of _ "(\<lambda>s. Some (length s), \<lambda>i. replicate i 0)"]) simp

definition parseOid :: "oid_codec \<Rightarrow> jstr \<Rightarrow> oid option" where
  "parseOid c = fst (codecFuns c)"

definition showOid :: "oid_codec \<Rightarrow> oid \<Rightarrow> jstr" where
  "showOid c = snd (codecFuns c)"

lemma parseOid_showOid [simp]: "parseOid c (showOid c i) = Some i"
  using codecFuns [of c] by (simp add: parseOid_def showOid_def)

lemma showOid_inject [simp]: "showOid c i = showOid c j \<longleftrightarrow> i = j"
  by (metis option.inject parseOid_showOid)

typedef oid_supply = "{f :: nat \<Rightarrow> oid. inj f}"
  morphisms issue OidSupply
  by (rule exI [of _ "\<lambda>n. n"]) simp

setup_lifting type_definition_oid_supply

lift_definition countingSupply :: oid_supply is "\<lambda>n. n" by simp

lemma issue_inject [simp]: "issue s m = issue s n \<longleftrightarrow> m = n"
  using issue [of s] by (simp add: inj_eq)

lemma issue_countingSupply [simp]: "issue countingSupply n = n"
  by transfer simp

subsection \<open>The platform\<close>

record claims =
  cl_type :: string
  cl_sub :: jstr
  cl_sid :: jstr
  cl_jti :: "jstr option"

datatype jwt_error = TokenExpiredError | JsonWebTokenError

datatype net_event = NetConnect | NetData "byte list" | NetTimeout | NetError | NetClose

datatype gemini_outcome = GeminiText jstr | GeminiFailure jstr | GeminiTimeout

datatype gemini_role = RoleUser | RoleModel

record gemini_message =
  gm_role :: gemini_role
  gm_text :: jstr

record gemini_request =
  gr_model :: "jstr option"
  gr_messages :: "gemini_message list"
  gr_responseMimeType :: "string option"
  gr_timeoutMs :: "jsnum option"

record s3_client =
  s3_region :: jstr
  s3_endpoint :: jstr
  s3_accessKeyId :: jstr
  s3_secretAccessKey :: jstr

datatype s3_command = PutObjectCommand jstr jstr jstr | GetObjectCommand jstr jstr jstr jstr

record platform =
  pf_oids :: oid_codec
  pf_newOid :: oid_supply
  pf_clock :: "nat \<Rightarrow> time"
  pf_isoString :: "time \<Rightarrow> jstr"
  pf_dateParse :: "jstr \<Rightarrow> time option"
  pf_number :: "jstr \<Rightarrow> jsnum"
  pf_lower :: "jstr \<Rightarrow> jstr"
  pf_nfkd :: "jstr \<Rightarrow> jstr"
  pf_foldCase :: "jchar \<Rightarrow> jchar"
  pf_clearsUndefined :: bool
  pf_oddLimit :: "jsnum \<Rightarrow> int option"
  pf_libraryMessage :: "exn \<Rightarrow> jstr"
  pf_users :: "user arrangement"
  pf_sessions :: "refresh_session arrangement"
  pf_conversations :: "conversation arrangement"
  pf_participants :: "participant arrangement"
  pf_messages :: "message arrangement"
  pf_events :: "membership_event arrangement"
  pf_attachments :: "chat_attachment arrangement"
  pf_env :: "string \<Rightarrow> jstr option"
  pf_net :: "nat \<Rightarrow> jstr \<Rightarrow> jsnum \<Rightarrow> byte list \<Rightarrow> net_event list"
  pf_jwtSign :: "jstr \<Rightarrow> jsnum \<Rightarrow> claims \<Rightarrow> time \<Rightarrow> jstr"
  pf_jwtVerify :: "jstr \<Rightarrow> time \<Rightarrow> jstr \<Rightarrow> jwt_error + claims"
  pf_sha256 :: "jstr \<Rightarrow> jstr"
  pf_uuid :: "nat \<Rightarrow> jstr"
  pf_signedUrl :: "nat \<Rightarrow> s3_client \<Rightarrow> s3_command \<Rightarrow> int \<Rightarrow> jstr"
  pf_urlWithParam :: "jstr \<Rightarrow> jstr \<Rightarrow> jstr \<Rightarrow> jstr option"
  pf_castString :: "json \<Rightarrow> jstr option"
  pf_showNum :: "jsnum \<Rightarrow> jstr"
  pf_gemini :: "nat \<Rightarrow> jstr \<Rightarrow> jstr \<Rightarrow> gemini_request \<Rightarrow> gemini_outcome"

subsection \<open>The world\<close>

record ai_key_state =
  ks_apiKey :: jstr
  ks_consecutiveFailures :: nat
  ks_isRateLimited :: bool
  ks_lastErrorAt :: "time option"

datatype namespace = ChatNamespace | AiNamespace

record socket_data =
  sock_namespace :: namespace
  sock_user :: "session_user option"
  sock_joined :: "jstr list option"
  sock_rooms :: "jstr list"

datatype payload =
    MessagePayload realtime_message
  | PreviewPayload conversation_preview
  | ReadPayload mark_read_payload
  | TypingPresence jstr jstr bool jstr
  | ModerationPayload jstr moderation_dto
  | ConnectionState string
  | AiResponse jstr jstr
  | AiError string jstr

datatype emit_target = ToRoom jstr | ToRoomExcept nat jstr | ToSocket nat

record emission =
  em_namespace :: namespace
  em_target :: emit_target
  em_event :: string
  em_recipients :: "nat list"
  em_payload :: payload

text \<open>Work a handler starts without awaiting it: it runs after the handler has answered.\<close>

datatype background =
    AnalyzeMessage jstr jstr jstr jstr
  | GenerateReply jstr jstr jstr

record cookie_options =
  co_httpOnly :: bool
  co_sameSite :: string
  co_secure :: bool
  co_maxAge :: "jsnum option"
  co_path :: string

datatype cookie_op = SetCookie jstr jstr cookie_options | ClearCookie jstr cookie_options

record world =
  w_users :: "user list"
  w_attempts :: "auth_attempt list"
  w_sessions :: "refresh_session list"
  w_conversations :: "conversation list"
  w_participants :: "participant list"
  w_messages :: "message list"
  w_events :: "membership_event list"
  w_attachments :: "chat_attachment list"
  w_chatMessageId :: nat
  w_authMessageId :: nat
  w_keyIndex :: nat
  w_modelIndex :: nat
  w_keyStates :: "ai_key_state list"
  w_sockets :: "(nat \<times> socket_data) list"
  w_emitted :: "emission list"
  w_pending :: "background list"
  w_cookies :: "cookie_op list"
  w_httpSessions :: "nat \<rightharpoonup> session_user"
  w_clockReads :: nat
  w_oidsIssued :: nat
  w_uuidsIssued :: nat
  w_netCalls :: nat
  w_aiCalls :: nat

text \<open>The state of a freshly started backend on an empty database.\<close>

definition emptyWorld :: world where
  "emptyWorld = \<lparr>
     w_users = [], w_attempts = [], w_sessions = [], w_conversations = [], w_participants = [],
     w_messages = [], w_events = [], w_attachments = [], w_chatMessageId = 1, w_authMessageId = 1,
     w_keyIndex = 0, w_modelIndex = 0, w_keyStates = [], w_sockets = [], w_emitted = [],
     w_pending = [], w_cookies = [], w_httpSessions = Map.empty, w_clockReads = 0, w_oidsIssued = 0, w_uuidsIssued = 0, w_netCalls = 0, w_aiCalls = 0\<rparr>"

type_synonym 'a act = "(world, exn, 'a) action"

subsection \<open>Library calls as actions\<close>

text \<open>\<open>new Date()\<close> and \<open>Date.now()\<close>: each reading of the clock is a new one.\<close>

definition now :: "platform \<Rightarrow> time act" where
  "now pf = bind (gets (\<lambda>w. pf_clock pf (w_clockReads w))) (\<lambda>t.
     bind (modify (\<lambda>w. w\<lparr>w_clockReads := Suc (w_clockReads w)\<rparr>)) (\<lambda>_. ret t))"

text \<open>The \<open>_id\<close> a new document gets.\<close>

definition freshOid :: "platform \<Rightarrow> oid act" where
  "freshOid pf = bind (gets (\<lambda>w. issue (pf_newOid pf) (w_oidsIssued w))) (\<lambda>i.
     bind (modify (\<lambda>w. w\<lparr>w_oidsIssued := Suc (w_oidsIssued w)\<rparr>)) (\<lambda>_. ret i))"

text \<open>\<open>new Types.ObjectId(s)\<close> throws on a malformed string; a Mongoose cast of \<open>findById\<close> does too.\<close>

definition toObjectId :: "platform \<Rightarrow> jstr \<Rightarrow> oid act" where
  "toObjectId pf s = (case parseOid (pf_oids pf) s of None \<Rightarrow> throw BSONError | Some i \<Rightarrow> ret i)"

definition castObjectId :: "platform \<Rightarrow> jstr \<Rightarrow> oid act" where
  "castObjectId pf s = (case parseOid (pf_oids pf) s of None \<Rightarrow> throw CastError | Some i \<Rightarrow> ret i)"

abbreviation idStr :: "platform \<Rightarrow> oid \<Rightarrow> jstr" where
  "idStr pf i \<equiv> showOid (pf_oids pf) i"

lemma toObjectId_idStr [act_simps]: "toObjectId pf (idStr pf i) = ret i"
  by (simp add: toObjectId_def)

lemma castObjectId_idStr [act_simps]: "castObjectId pf (idStr pf i) = ret i"
  by (simp add: castObjectId_def)

subsection \<open>Query operators\<close>

definition findById :: "('d \<Rightarrow> oid) \<Rightarrow> oid \<Rightarrow> 'd list \<Rightarrow> 'd option" where
  "findById idf i ds = find (\<lambda>d. idf d = i) ds"

definition findMany :: "'d arrangement \<Rightarrow> ('d \<Rightarrow> bool) \<Rightarrow> 'd list \<Rightarrow> 'd list" where
  "findMany ord P ds = arrange ord (filter P ds)"

definition findOne :: "'d arrangement \<Rightarrow> ('d \<Rightarrow> bool) \<Rightarrow> 'd list \<Rightarrow> 'd option" where
  "findOne ord P ds = (case findMany ord P ds of [] \<Rightarrow> None | d # _ \<Rightarrow> Some d)"

definition findSorted ::
    "'d arrangement \<Rightarrow> ('d \<Rightarrow> 'k::linorder) \<Rightarrow> ('d \<Rightarrow> bool) \<Rightarrow> 'd list \<Rightarrow> 'd list" where
  "findSorted ord key P ds = sort_key key (findMany ord P ds)"

definition updateById :: "('d \<Rightarrow> oid) \<Rightarrow> oid \<Rightarrow> ('d \<Rightarrow> 'd) \<Rightarrow> 'd list \<Rightarrow> 'd list" where
  "updateById idf i f ds = map (\<lambda>d. if idf d = i then f d else d) ds"

definition updateOne ::
    "('d \<Rightarrow> oid) \<Rightarrow> 'd arrangement \<Rightarrow> ('d \<Rightarrow> bool) \<Rightarrow> ('d \<Rightarrow> 'd) \<Rightarrow> 'd list \<Rightarrow> 'd list" where
  "updateOne idf ord P f ds =
     (case findOne ord P ds of None \<Rightarrow> ds | Some d \<Rightarrow> updateById idf (idf d) f ds)"

definition updateMany :: "('d \<Rightarrow> bool) \<Rightarrow> ('d \<Rightarrow> 'd) \<Rightarrow> 'd list \<Rightarrow> 'd list" where
  "updateMany P f ds = map (\<lambda>d. if P d then f d else d) ds"

text \<open>A limit of zero means no limit to MongoDB, and a negative one means its absolute value.\<close>

definition limitDocs :: "int \<Rightarrow> 'd list \<Rightarrow> 'd list" where
  "limitDocs n ds = (if n = 0 then ds else take (nat \<bar>n\<bar>) ds)"

lemma findById_Some: "findById idf i ds = Some d \<Longrightarrow> d \<in> set ds \<and> idf d = i"
  by (auto simp: findById_def find_Some_iff)

lemma findById_None: "findById idf i ds = None \<longleftrightarrow> i \<notin> idf ` set ds"
  by (auto simp: findById_def find_None_iff)

lemma findById_distinct:
  assumes "distinct (map idf ds)" "d \<in> set ds"
  shows "findById idf (idf d) ds = Some d"
  using assms by (induction ds) (auto simp: findById_def)

lemma findMany_set [simp]: "set (findMany ord P ds) = {d \<in> set ds. P d}"
  by (simp add: findMany_def)

lemma findOne_Some: "findOne ord P ds = Some d \<Longrightarrow> d \<in> set ds \<and> P d"
proof -
  assume "findOne ord P ds = Some d"
  then have "d \<in> set (findMany ord P ds)"
    by (auto simp: findOne_def simp del: findMany_set split: list.splits)
  then show ?thesis by simp
qed

lemma findOne_None: "findOne ord P ds = None \<longleftrightarrow> (\<forall>d\<in>set ds. \<not> P d)"
proof -
  have "findOne ord P ds = None \<longleftrightarrow> set (findMany ord P ds) = {}"
    by (auto simp: findOne_def simp del: findMany_set split: list.splits)
  then show ?thesis by auto
qed

lemma findSorted_set [simp]: "set (findSorted ord key P ds) = {d \<in> set ds. P d}"
  by (simp add: findSorted_def)

lemma findSorted_sorted: "sorted (map key (findSorted ord key P ds))"
  by (simp add: findSorted_def)

lemma map_updateById:
  "(\<And>d. g (f d) = g d) \<Longrightarrow> map g (updateById idf i f ds) = map g ds"
  by (auto simp: updateById_def)

lemma map_updateOne:
  "(\<And>d. g (f d) = g d) \<Longrightarrow> map g (updateOne idf ord P f ds) = map g ds"
  by (auto simp: updateOne_def map_updateById split: option.splits)

lemma map_updateMany:
  "(\<And>d. g (f d) = g d) \<Longrightarrow> map g (updateMany P f ds) = map g ds"
  by (auto simp: updateMany_def)

lemma updateById_set: "d \<in> set (updateById idf i f ds) \<Longrightarrow>
    d \<in> set ds \<or> (\<exists>d0\<in>set ds. idf d0 = i \<and> d = f d0)"
  by (auto simp: updateById_def split: if_splits)

lemma updateMany_set: "d \<in> set (updateMany P f ds) \<longleftrightarrow>
    (d \<in> set ds \<and> \<not> P d) \<or> (\<exists>d0\<in>set ds. P d0 \<and> d = f d0)"
  by (force simp: updateMany_def)

lemma limitDocs_subset: "set (limitDocs n ds) \<subseteq> set ds"
  by (auto simp: limitDocs_def dest: in_set_takeD)

lemma limitDocs_length: "n \<noteq> 0 \<Longrightarrow> length (limitDocs n ds) \<le> nat \<bar>n\<bar>"
  by (simp add: limitDocs_def)

subsection \<open>The contract of a collection\<close>

text \<open>
  What a client of one collection may rely on: identifiers are unique, a lookup finds the document
  that was stored, an update reaches exactly the documents it selects and leaves the others alone.
\<close>

locale collection =
  fixes idf :: "'d \<Rightarrow> oid"
    and docs :: "world \<Rightarrow> 'd list"
    and put :: "('d list \<Rightarrow> 'd list) \<Rightarrow> world \<Rightarrow> world"
  assumes docs_put: "docs (put f w) = f (docs w)"
    and put_put: "put f (put g w) = put (f \<circ> g) w"
begin

definition unique_ids :: "world \<Rightarrow> bool" where
  "unique_ids w \<longleftrightarrow> distinct (map idf (docs w))"

lemma insert_lookup:
  assumes "idf d \<notin> idf ` set (docs w)"
  shows "findById idf (idf d) (docs (put (\<lambda>ds. ds @ [d]) w)) = Some d"
proof -
  have "find (\<lambda>x. idf x = idf d) (docs w) = None"
    unfolding find_None_iff using assms by (metis imageI)
  moreover have "find P (xs @ ys) = (case find P xs of None \<Rightarrow> find P ys | Some x \<Rightarrow> Some x)"
    for P and xs ys :: "'d list"
    by (induction xs) auto
  ultimately show ?thesis by (simp add: findById_def docs_put)
qed

lemma insert_unique:
  assumes "unique_ids w" "idf d \<notin> idf ` set (docs w)"
  shows "unique_ids (put (\<lambda>ds. ds @ [d]) w)"
  using assms by (auto simp: unique_ids_def docs_put)

lemma update_unique:
  assumes "unique_ids w" "\<And>d. idf (f d) = idf d"
  shows "unique_ids (put (updateById idf i f) w)"
    and "unique_ids (put (updateMany P f) w)"
    and "unique_ids (put (updateOne idf ord P f) w)"
  using assms by (simp_all add: unique_ids_def docs_put map_updateById map_updateMany map_updateOne)

lemma update_lookup:
  assumes "unique_ids w" "d \<in> set (docs w)" "\<And>d. idf (f d) = idf d"
  shows "findById idf (idf d) (docs (put (updateById idf (idf d) f) w)) = Some (f d)"
proof -
  have "f d \<in> set (updateById idf (idf d) f (docs w))"
    using assms(2) by (force simp: updateById_def)
  moreover have "distinct (map idf (updateById idf (idf d) f (docs w)))"
    using assms(1,3) by (simp add: unique_ids_def map_updateById)
  ultimately have "findById idf (idf (f d)) (updateById idf (idf d) f (docs w)) = Some (f d)"
    by (rule findById_distinct [rotated])
  then show ?thesis by (simp add: docs_put assms(3))
qed

lemma update_others:
  assumes "j \<noteq> i" "\<And>d. idf (f d) = idf d"
  shows "findById idf j (docs (put (updateById idf i f) w)) = findById idf j (docs w)"
proof -
  have "find (\<lambda>d. idf d = j) (updateById idf i f ds) = find (\<lambda>d. idf d = j) ds" for ds
    using assms by (induction ds) (auto simp: updateById_def)
  then show ?thesis by (simp add: findById_def docs_put)
qed

lemma lookup_eq:
  assumes "unique_ids w"
  shows "findById idf i (docs w) = Some d \<longleftrightarrow> d \<in> set (docs w) \<and> idf d = i"
  using assms findById_Some findById_distinct unfolding unique_ids_def by metis

end

interpretation users: collection usr_id w_users "\<lambda>f w. w\<lparr>w_users := f (w_users w)\<rparr>"
  by unfold_locales simp_all

interpretation sessions: collection ses_id w_sessions "\<lambda>f w. w\<lparr>w_sessions := f (w_sessions w)\<rparr>"
  by unfold_locales simp_all

interpretation convs: collection conv_id w_conversations "\<lambda>f w. w\<lparr>w_conversations := f (w_conversations w)\<rparr>"
  by unfold_locales simp_all

interpretation parts: collection part_id w_participants "\<lambda>f w. w\<lparr>w_participants := f (w_participants w)\<rparr>"
  by unfold_locales simp_all

interpretation msgs: collection msg_id w_messages "\<lambda>f w. w\<lparr>w_messages := f (w_messages w)\<rparr>"
  by unfold_locales simp_all

interpretation evts: collection evt_id w_events "\<lambda>f w. w\<lparr>w_events := f (w_events w)\<rparr>"
  by unfold_locales simp_all

interpretation atts: collection att_id w_attachments "\<lambda>f w. w\<lparr>w_attachments := f (w_attachments w)\<rparr>"
  by unfold_locales simp_all

subsection \<open>The invariant of the world\<close>

text \<open>
  Every identifier in the database was issued by the supply before, no collection holds one twice,
  and the unread counters are not negative.
\<close>

definition issuedIds :: "platform \<Rightarrow> world \<Rightarrow> oid set" where
  "issuedIds pf w = issue (pf_newOid pf) ` {..<w_oidsIssued w}"

definition worldOk :: "platform \<Rightarrow> world \<Rightarrow> bool" where
  "worldOk pf w \<longleftrightarrow>
     users.unique_ids w \<and> usr_id ` set (w_users w) \<subseteq> issuedIds pf w \<and>
     sessions.unique_ids w \<and> ses_id ` set (w_sessions w) \<subseteq> issuedIds pf w \<and>
     convs.unique_ids w \<and> conv_id ` set (w_conversations w) \<subseteq> issuedIds pf w \<and>
     parts.unique_ids w \<and> part_id ` set (w_participants w) \<subseteq> issuedIds pf w \<and>
     msgs.unique_ids w \<and> msg_id ` set (w_messages w) \<subseteq> issuedIds pf w \<and>
     evts.unique_ids w \<and> evt_id ` set (w_events w) \<subseteq> issuedIds pf w \<and>
     atts.unique_ids w \<and> att_id ` set (w_attachments w) \<subseteq> issuedIds pf w \<and>
     (\<forall>p\<in>set (w_participants w). 0 \<le> part_unreadCount p)"

text \<open>An identifier that was issued and that no document has yet.\<close>

definition unusedId :: "platform \<Rightarrow> oid \<Rightarrow> world \<Rightarrow> bool" where
  "unusedId pf i w \<longleftrightarrow> worldOk pf w \<and> i \<in> issuedIds pf w \<and>
     i \<notin> usr_id ` set (w_users w) \<and> i \<notin> ses_id ` set (w_sessions w) \<and>
     i \<notin> conv_id ` set (w_conversations w) \<and> i \<notin> part_id ` set (w_participants w) \<and>
     i \<notin> msg_id ` set (w_messages w) \<and> i \<notin> evt_id ` set (w_events w) \<and>
     i \<notin> att_id ` set (w_attachments w)"

lemma unusedId_worldOk: "unusedId pf i w \<Longrightarrow> worldOk pf w"
  by (simp add: unusedId_def)

lemma fresh_not_issued: "issue (pf_newOid pf) (w_oidsIssued w) \<notin> issuedIds pf w"
  by (auto simp: issuedIds_def)

lemma issuedIds_Suc:
  "issuedIds pf (w\<lparr>w_oidsIssued := Suc (w_oidsIssued w)\<rparr>) =
     insert (issue (pf_newOid pf) (w_oidsIssued w)) (issuedIds pf w)"
  by (auto simp: issuedIds_def lessThan_Suc)

lemmas unique_ids_defs = users.unique_ids_def sessions.unique_ids_def convs.unique_ids_def
  parts.unique_ids_def msgs.unique_ids_def evts.unique_ids_def atts.unique_ids_def

lemma worldOk_cong:
  assumes "w_users v = w_users w" "w_sessions v = w_sessions w" "w_conversations v = w_conversations w"
    "w_participants v = w_participants w" "w_messages v = w_messages w" "w_events v = w_events w"
    "w_attachments v = w_attachments w" "w_oidsIssued v = w_oidsIssued w"
  shows "worldOk pf v = worldOk pf w" and "unusedId pf i v = unusedId pf i w"
  using assms by (simp_all add: worldOk_def unusedId_def issuedIds_def unique_ids_defs)

lemma worldOk_frame [simp]:
  "worldOk pf (w\<lparr>w_attempts := a\<rparr>) = worldOk pf w"
  "worldOk pf (w\<lparr>w_chatMessageId := n\<rparr>) = worldOk pf w"
  "worldOk pf (w\<lparr>w_authMessageId := n\<rparr>) = worldOk pf w"
  "worldOk pf (w\<lparr>w_keyIndex := n\<rparr>) = worldOk pf w"
  "worldOk pf (w\<lparr>w_modelIndex := n\<rparr>) = worldOk pf w"
  "worldOk pf (w\<lparr>w_keyStates := ks\<rparr>) = worldOk pf w"
  "worldOk pf (w\<lparr>w_sockets := so\<rparr>) = worldOk pf w"
  "worldOk pf (w\<lparr>w_emitted := em\<rparr>) = worldOk pf w"
  "worldOk pf (w\<lparr>w_pending := bg\<rparr>) = worldOk pf w"
  "worldOk pf (w\<lparr>w_cookies := co\<rparr>) = worldOk pf w"
  "worldOk pf (w\<lparr>w_httpSessions := hs\<rparr>) = worldOk pf w"
  "worldOk pf (w\<lparr>w_clockReads := n\<rparr>) = worldOk pf w"
  "worldOk pf (w\<lparr>w_uuidsIssued := n\<rparr>) = worldOk pf w"
  "worldOk pf (w\<lparr>w_netCalls := n\<rparr>) = worldOk pf w"
  "worldOk pf (w\<lparr>w_aiCalls := n\<rparr>) = worldOk pf w"
  by (rule worldOk_cong; simp)+

lemma unusedId_frame [simp]:
  "unusedId pf i (w\<lparr>w_attempts := a\<rparr>) = unusedId pf i w"
  "unusedId pf i (w\<lparr>w_chatMessageId := n\<rparr>) = unusedId pf i w"
  "unusedId pf i (w\<lparr>w_netCalls := n\<rparr>) = unusedId pf i w"
  "unusedId pf i (w\<lparr>w_clockReads := n\<rparr>) = unusedId pf i w"
  "unusedId pf i (w\<lparr>w_uuidsIssued := n\<rparr>) = unusedId pf i w"
  by (rule worldOk_cong; simp)+

lemma freshOid_run:
  "freshOid pf w = (Inr (issue (pf_newOid pf) (w_oidsIssued w)), w\<lparr>w_oidsIssued := Suc (w_oidsIssued w)\<rparr>)"
  by (simp add: freshOid_def act_simps)

lemma now_run: "now pf w = (Inr (pf_clock pf (w_clockReads w)), w\<lparr>w_clockReads := Suc (w_clockReads w)\<rparr>)"
  by (simp add: now_def act_simps)

lemma freshOid_unused:
  assumes "worldOk pf w"
  shows "unusedId pf (issue (pf_newOid pf) (w_oidsIssued w)) (w\<lparr>w_oidsIssued := Suc (w_oidsIssued w)\<rparr>)"
  using assms fresh_not_issued [of pf w]
  by (auto simp: unusedId_def worldOk_def issuedIds_Suc unique_ids_defs)

lemma keeps_freshOid:
  assumes "\<And>i. establishes (unusedId pf i) (worldOk pf) (f i)"
  shows "keeps (worldOk pf) (bind (freshOid pf) f)"
proof (rule keepsI)
  fix w assume "worldOk pf w"
  then show "worldOk pf (snd (bind (freshOid pf) f w))"
    using assms freshOid_unused [of pf w] by (simp add: bind_def freshOid_run establishes_def)
qed

lemma keeps_toObjectId [keeps_intros]: "keeps P (toObjectId pf s)"
  and keeps_castObjectId [keeps_intros]: "keeps P (castObjectId pf s)"
  by (simp_all add: toObjectId_def castObjectId_def keeps_intros)

text \<open>Storing a document under an unused identifier, and updating documents in place.\<close>

lemma worldOk_append:
  assumes "unusedId pf i w"
  shows "usr_id u = i \<Longrightarrow> worldOk pf (w\<lparr>w_users := w_users w @ [u]\<rparr>)"
    and "ses_id s = i \<Longrightarrow> worldOk pf (w\<lparr>w_sessions := w_sessions w @ [s]\<rparr>)"
    and "conv_id c = i \<Longrightarrow> worldOk pf (w\<lparr>w_conversations := w_conversations w @ [c]\<rparr>)"
    and "part_id p = i \<Longrightarrow> 0 \<le> part_unreadCount p \<Longrightarrow> worldOk pf (w\<lparr>w_participants := w_participants w @ [p]\<rparr>)"
    and "msg_id m = i \<Longrightarrow> worldOk pf (w\<lparr>w_messages := w_messages w @ [m]\<rparr>)"
    and "evt_id e = i \<Longrightarrow> worldOk pf (w\<lparr>w_events := w_events w @ [e]\<rparr>)"
    and "att_id a = i \<Longrightarrow> worldOk pf (w\<lparr>w_attachments := w_attachments w @ [a]\<rparr>)"
  using assms by (auto simp: unusedId_def worldOk_def issuedIds_def unique_ids_defs)

lemma map_image_eq: "map f xs = map f ys \<Longrightarrow> f ` set xs = f ` set ys"
  by (metis list.set_map)

lemma worldOk_same_ids:
  assumes "worldOk pf w"
  shows "map usr_id us = map usr_id (w_users w) \<Longrightarrow> worldOk pf (w\<lparr>w_users := us\<rparr>)"
    and "map ses_id ss = map ses_id (w_sessions w) \<Longrightarrow> worldOk pf (w\<lparr>w_sessions := ss\<rparr>)"
    and "map conv_id cs = map conv_id (w_conversations w) \<Longrightarrow> worldOk pf (w\<lparr>w_conversations := cs\<rparr>)"
    and "map part_id ps = map part_id (w_participants w) \<Longrightarrow> \<forall>p\<in>set ps. 0 \<le> part_unreadCount p
       \<Longrightarrow> worldOk pf (w\<lparr>w_participants := ps\<rparr>)"
    and "map msg_id ms = map msg_id (w_messages w) \<Longrightarrow> worldOk pf (w\<lparr>w_messages := ms\<rparr>)"
    and "map att_id as = map att_id (w_attachments w) \<Longrightarrow> worldOk pf (w\<lparr>w_attachments := as\<rparr>)"
  using assms
  apply -
  apply (frule map_image_eq, simp add: worldOk_def issuedIds_def unique_ids_defs)+
  done

subsection \<open>Actions that leave the stored data alone\<close>

text \<open>
  Reading the clock, drawing a random identifier and talking to the remote processor advance counters
  of the platform but change no document, no socket and no emitted event.
\<close>

definition dataOf :: "world \<Rightarrow> world" where
  "dataOf w = w\<lparr>w_chatMessageId := 0, w_authMessageId := 0, w_clockReads := 0, w_uuidsIssued := 0,
     w_netCalls := 0\<rparr>"

text \<open>\<open>frames view m\<close>: the action leaves the part of the world that \<open>view\<close> shows as it was.\<close>

definition frames :: "(world \<Rightarrow> 'v) \<Rightarrow> 'a act \<Rightarrow> bool" where
  "frames view m \<longleftrightarrow> (\<forall>d. keeps (\<lambda>w. view w = d) m)"

abbreviation technical :: "'a act \<Rightarrow> bool" where
  "technical m \<equiv> frames dataOf m"

lemma frames_run: "frames view m \<Longrightarrow> m w = (r, v) \<Longrightarrow> view v = view w"
  unfolding frames_def keeps_def by (metis snd_conv)

lemma framesI: "(\<And>w. view (snd (m w)) = view w) \<Longrightarrow> frames view m"
  by (simp add: frames_def keeps_def)

lemma frames_keeps:
  assumes "frames view m" "\<And>v w. view v = view w \<Longrightarrow> P w \<Longrightarrow> P v"
  shows "keeps P m"
  using assms unfolding frames_def keeps_def by metis

lemma frames_coarser:
  assumes "frames view m" "\<And>v w. view v = view w \<Longrightarrow> view' v = view' w"
  shows "frames view' m"
  using assms(2) frames_run [OF assms(1)] by (intro framesI) (metis prod.collapse)

lemma frames_modify: "(\<And>w. view (f w) = view w) \<Longrightarrow> frames view (modify f)"
  unfolding frames_def by (intro allI keeps_modify) simp

lemma frames_combinators [technical_intros, quiet_intros, consult_intros, wire_intros]:
  shows "frames view (ret a)" and "frames view (throw e)" and "frames view (gets f)"
    and "frames view m \<Longrightarrow> (\<And>x. frames view (g x)) \<Longrightarrow> frames view (bind m g)"
    and "frames view n \<Longrightarrow> (\<And>e. frames view (h e)) \<Longrightarrow> frames view (catch n h)"
    and "frames view k \<Longrightarrow> frames view k' \<Longrightarrow> frames view (if b then k else k')"
    and "frames view n' \<Longrightarrow> frames view (whenA b n')"
    and "frames view p \<Longrightarrow> (\<And>x. frames view (q x)) \<Longrightarrow> frames view (case z of None \<Rightarrow> p | Some x \<Rightarrow> q x)"
    and "(\<And>x. frames view (l x)) \<Longrightarrow> (\<And>x. frames view (r x)) \<Longrightarrow> frames view (case y of Inl x \<Rightarrow> l x | Inr x \<Rightarrow> r x)"
    and "(\<And>x. frames view (t x)) \<Longrightarrow> frames view (let x = v in t x)"
    and "(\<And>x. frames view (u x)) \<Longrightarrow> frames view (mapA u xs)"
  unfolding frames_def by (auto intro!: keeps_intros)

lemma frames_case_prod [technical_intros, quiet_intros, consult_intros, wire_intros]:
  "(\<And>x y. frames view (f x y)) \<Longrightarrow> frames view (case z of (x, y) \<Rightarrow> f x y)"
  by (simp split: prod.split)

lemma dataOf_sel:
  "w_users (dataOf w) = w_users w"
  "w_attempts (dataOf w) = w_attempts w"
  "w_sessions (dataOf w) = w_sessions w"
  "w_conversations (dataOf w) = w_conversations w"
  "w_participants (dataOf w) = w_participants w"
  "w_messages (dataOf w) = w_messages w"
  "w_events (dataOf w) = w_events w"
  "w_attachments (dataOf w) = w_attachments w"
  "w_oidsIssued (dataOf w) = w_oidsIssued w"
  "w_sockets (dataOf w) = w_sockets w"
  "w_emitted (dataOf w) = w_emitted w"
  "w_pending (dataOf w) = w_pending w"
  "w_cookies (dataOf w) = w_cookies w"
  "w_httpSessions (dataOf w) = w_httpSessions w"
  "w_keyStates (dataOf w) = w_keyStates w"
  "w_keyIndex (dataOf w) = w_keyIndex w"
  "w_modelIndex (dataOf w) = w_modelIndex w"
  "w_aiCalls (dataOf w) = w_aiCalls w"
  by (simp_all add: dataOf_def)

lemma dataOf_eqD:
  assumes "dataOf v = dataOf w"
  shows "w_users v = w_users w"
    "w_attempts v = w_attempts w"
    "w_sessions v = w_sessions w"
    "w_conversations v = w_conversations w"
    "w_participants v = w_participants w"
    "w_messages v = w_messages w"
    "w_events v = w_events w"
    "w_attachments v = w_attachments w"
    "w_oidsIssued v = w_oidsIssued w"
    "w_sockets v = w_sockets w"
    "w_emitted v = w_emitted w"
    "w_pending v = w_pending w"
    "w_cookies v = w_cookies w"
    "w_httpSessions v = w_httpSessions w"
    "w_keyStates v = w_keyStates w"
    "w_keyIndex v = w_keyIndex w"
    "w_modelIndex v = w_modelIndex w"
    "w_aiCalls v = w_aiCalls w"
  by (metis assms dataOf_sel)+

lemmas technical_run = frames_run [of dataOf]
lemmas technicalI = framesI [of dataOf]
lemmas technical_keeps = frames_keeps [of dataOf]

lemma worldOk_dataOf:
  assumes "dataOf v = dataOf w"
  shows "worldOk pf v = worldOk pf w" and "unusedId pf i v = unusedId pf i w"
  using worldOk_cong [of v w] dataOf_eqD [OF assms] by simp_all

lemma technical_worldOk: "technical m \<Longrightarrow> keeps (worldOk pf) m"
  by (erule technical_keeps) (erule worldOk_dataOf [THEN iffD2])

lemma technical_unusedId: "technical m \<Longrightarrow> keeps (unusedId pf i) m"
  by (erule technical_keeps) (erule worldOk_dataOf [THEN iffD2])

lemma establishes_technical:
  "technical m \<Longrightarrow> (\<And>a. establishes (unusedId pf i) (worldOk pf) (f a)) \<Longrightarrow>
   establishes (unusedId pf i) (worldOk pf) (bind m f)"
  by (rule establishes_pre [OF technical_unusedId unusedId_worldOk])

lemma technical_base [technical_intros]:
  "technical (now pf)" "technical (toObjectId pf s)" "technical (castObjectId pf s)"
  by (auto intro!: technicalI technical_intros simp: toObjectId_def castObjectId_def now_run dataOf_def
      split: option.split)

lemmas keeps_technical_base [keeps_intros] =
  technical_base(1) [THEN technical_worldOk] technical_base(1) [THEN technical_unusedId]

subsection \<open>Actions that change no document\<close>

text \<open>
  A wider class than the technical actions: emitting to sockets, joining rooms, setting cookies, queueing
  background work and calling the language model change the process but nothing in the database.
\<close>

definition docsOf :: "world \<Rightarrow> world" where
  "docsOf w = (dataOf w)\<lparr>w_keyIndex := 0, w_modelIndex := 0, w_keyStates := [], w_sockets := [],
     w_emitted := [], w_pending := [], w_cookies := [], w_httpSessions := Map.empty, w_aiCalls := 0\<rparr>"

abbreviation quiet :: "'a act \<Rightarrow> bool" where
  "quiet m \<equiv> frames docsOf m"

lemma docsOf_sel:
  "w_users (docsOf w) = w_users w" "w_attempts (docsOf w) = w_attempts w" "w_sessions (docsOf w) = w_sessions w"
  "w_conversations (docsOf w) = w_conversations w" "w_participants (docsOf w) = w_participants w"
  "w_messages (docsOf w) = w_messages w" "w_events (docsOf w) = w_events w"
  "w_attachments (docsOf w) = w_attachments w" "w_oidsIssued (docsOf w) = w_oidsIssued w"
  by (simp_all add: docsOf_def dataOf_def)

lemma docsOf_eqD:
  assumes "docsOf v = docsOf w"
  shows "w_users v = w_users w" "w_attempts v = w_attempts w" "w_sessions v = w_sessions w"
    "w_conversations v = w_conversations w" "w_participants v = w_participants w" "w_messages v = w_messages w"
    "w_events v = w_events w" "w_attachments v = w_attachments w" "w_oidsIssued v = w_oidsIssued w"
  by (metis assms docsOf_sel)+

lemma docsOf_update [simp]:
  "docsOf (w\<lparr>w_keyIndex := n\<rparr>) = docsOf w" "docsOf (w\<lparr>w_modelIndex := n\<rparr>) = docsOf w"
  "docsOf (w\<lparr>w_keyStates := ks\<rparr>) = docsOf w" "docsOf (w\<lparr>w_sockets := so\<rparr>) = docsOf w"
  "docsOf (w\<lparr>w_emitted := em\<rparr>) = docsOf w" "docsOf (w\<lparr>w_pending := bg\<rparr>) = docsOf w"
  "docsOf (w\<lparr>w_cookies := co\<rparr>) = docsOf w" "docsOf (w\<lparr>w_httpSessions := hs\<rparr>) = docsOf w"
  "docsOf (w\<lparr>w_aiCalls := n\<rparr>) = docsOf w" "docsOf (w\<lparr>w_clockReads := n\<rparr>) = docsOf w"
  by (simp_all add: docsOf_def dataOf_def)

lemma worldOk_docsOf: "docsOf v = docsOf w \<Longrightarrow> worldOk pf v = worldOk pf w"
  using docsOf_eqD [of v w] by (intro worldOk_cong(1)) simp_all

lemma quiet_worldOk: "quiet m \<Longrightarrow> keeps (worldOk pf) m"
  by (erule frames_keeps) (erule worldOk_docsOf [THEN iffD2])

lemma quiet_technical: "technical m \<Longrightarrow> quiet m"
  by (erule frames_coarser) (simp add: docsOf_def)

subsection \<open>Actions that only consult the language model\<close>

definition aiFree :: "world \<Rightarrow> world" where
  "aiFree w = (dataOf w)\<lparr>w_keyIndex := 0, w_modelIndex := 0, w_keyStates := [], w_aiCalls := 0\<rparr>"

abbreviation consults :: "'a act \<Rightarrow> bool" where
  "consults m \<equiv> frames aiFree m"

lemma aiFree_update [simp]:
  "aiFree (w\<lparr>w_keyIndex := n\<rparr>) = aiFree w" "aiFree (w\<lparr>w_modelIndex := n\<rparr>) = aiFree w"
  "aiFree (w\<lparr>w_keyStates := ks\<rparr>) = aiFree w" "aiFree (w\<lparr>w_aiCalls := n\<rparr>) = aiFree w"
  by (simp_all add: aiFree_def dataOf_def)

lemma docsOf_aiFree: "docsOf (aiFree w) = docsOf w"
  by (simp add: docsOf_def aiFree_def dataOf_def)

lemma consults_technical: "technical m \<Longrightarrow> consults m"
  by (erule frames_coarser) (simp add: aiFree_def)

lemma quiet_consults: "consults m \<Longrightarrow> quiet m"
  by (erule frames_coarser) (metis docsOf_aiFree)

subsection \<open>Sockets, emissions and queued work\<close>

definition wire :: "world \<Rightarrow> (nat \<times> socket_data) list \<times> emission list \<times> background list" where
  "wire w = (w_sockets w, w_emitted w, w_pending w)"

lemma wire_aiFree: "wire (aiFree w) = wire w"
  by (simp add: wire_def aiFree_def dataOf_def)

lemma wire_consults: "consults m \<Longrightarrow> frames wire m"
  by (erule frames_coarser) (metis wire_aiFree)

lemma wire_technical: "technical m \<Longrightarrow> frames wire m"
  by (intro wire_consults consults_technical)

end
