(* ===== verification/Json.thy ===== *)
theory Json
  imports World
begin

text \<open>
  \<open>JSON.parse\<close>, which the AI service applies to the text a model returns. The parser is a recursive
  descent with fuel; a bound linear in the length of the text is shown to be enough, so running out of
  fuel never decides a result. The value of a number token is the platform's \<open>Number(token)\<close>.
\<close>

subsection \<open>Tokens\<close>

definition jsonSpace :: "jchar \<Rightarrow> bool" where
  "jsonSpace c \<longleftrightarrow> c \<in> {0x20, 0x9, 0xA, 0xD}"

abbreviation skipWs :: "jstr \<Rightarrow> jstr" where
  "skipWs \<equiv> dropWhile jsonSpace"

definition isDigit :: "jchar \<Rightarrow> bool" where
  "isDigit c \<longleftrightarrow> 0x30 \<le> c \<and> c \<le> 0x39"

definition hexVal :: "jchar \<Rightarrow> nat option" where
  "hexVal c =
     (if 0x30 \<le> c \<and> c \<le> 0x39 then Some (unat c - 0x30)
      else if 0x41 \<le> c \<and> c \<le> 0x46 then Some (unat c - 0x37)
      else if 0x61 \<le> c \<and> c \<le> 0x66 then Some (unat c - 0x57)
      else None)"

definition hexUnit :: "jchar \<Rightarrow> jchar \<Rightarrow> jchar \<Rightarrow> jchar \<Rightarrow> jchar option" where
  "hexUnit a b c d =
     (case (hexVal a, hexVal b, hexVal c, hexVal d) of
        (Some x, Some y, Some z, Some u) \<Rightarrow> Some (of_nat (((x * 16 + y) * 16 + z) * 16 + u))
      | _ \<Rightarrow> None)"

definition escapeOf :: "jchar \<Rightarrow> jchar option" where
  "escapeOf c = map_of [(0x22, 0x22), (0x5C, 0x5C), (0x2F, 0x2F), (0x62, 0x8), (0x66, 0xC), (0x6E, 0xA), (0x72, 0xD),
     (0x74, 0x9)] c"

text \<open>The rest of a string literal after its opening quote.\<close>

fun parseStr :: "jstr \<Rightarrow> (jstr \<times> jstr) option" where
  "parseStr [] = None"
| "parseStr (c # cs) =
     (if c = 0x22 then Some ([], cs)
      else if c = 0x5C then
        (case cs of
           [] \<Rightarrow> None
         | e # rest \<Rightarrow>
             if e = 0x75 then
               (case rest of
                  a # b # c' # d # rest' \<Rightarrow>
                    (case hexUnit a b c' d of
                       None \<Rightarrow> None
                     | Some u \<Rightarrow> map_option (apfst ((#) u)) (parseStr rest'))
                | _ \<Rightarrow> None)
             else
               (case escapeOf e of
                  None \<Rightarrow> None
                | Some u \<Rightarrow> map_option (apfst ((#) u)) (parseStr rest)))
      else if c < 0x20 then None
      else map_option (apfst ((#) c)) (parseStr cs))"

text \<open>A number token: sign, whole part without leading zeros, optional fraction, optional exponent.\<close>

definition wholePart :: "jstr \<Rightarrow> (jstr \<times> jstr) option" where
  "wholePart s =
     (case s of
        [] \<Rightarrow> None
      | c # cs \<Rightarrow>
          if c = 0x30 then Some ([c], cs)
          else if isDigit c then Some (takeWhile isDigit s, dropWhile isDigit s)
          else None)"

definition someDigits :: "jstr \<Rightarrow> (jstr \<times> jstr) option" where
  "someDigits s =
     (if takeWhile isDigit s = [] then None else Some (takeWhile isDigit s, dropWhile isDigit s))"

definition fracPart :: "jstr \<Rightarrow> (jstr \<times> jstr) option" where
  "fracPart s =
     (case s of
        c # cs \<Rightarrow> if c = 0x2E then map_option (apfst ((#) c)) (someDigits cs) else Some ([], s)
      | [] \<Rightarrow> Some ([], s))"

definition expPart :: "jstr \<Rightarrow> (jstr \<times> jstr) option" where
  "expPart s =
     (case s of
        c # cs \<Rightarrow>
          if c = 0x65 \<or> c = 0x45 then
            (case cs of
               d # ds \<Rightarrow>
                 if d = 0x2B \<or> d = 0x2D then map_option (apfst (\<lambda>t. c # d # t)) (someDigits ds)
                 else map_option (apfst ((#) c)) (someDigits cs)
             | [] \<Rightarrow> None)
          else Some ([], s)
      | [] \<Rightarrow> Some ([], s))"

definition parseNum :: "jstr \<Rightarrow> (jstr \<times> jstr) option" where
  "parseNum s =
     (let (sign, s0) = (case s of c # cs \<Rightarrow> if c = 0x2D then ([c], cs) else ([], s) | [] \<Rightarrow> ([], s)) in
      case wholePart s0 of
        None \<Rightarrow> None
      | Some (i, s1) \<Rightarrow>
          (case fracPart s1 of
             None \<Rightarrow> None
           | Some (f, s2) \<Rightarrow> map_option (apfst (\<lambda>e. sign @ i @ f @ e)) (expPart s2)))"

definition parseWord :: "string \<Rightarrow> json \<Rightarrow> jstr \<Rightarrow> (json \<times> jstr) option" where
  "parseWord word v s = (if startsWith (js word) s then Some (v, drop (length word) s) else None)"

subsection \<open>Values\<close>

fun parseValue :: "(jstr \<Rightarrow> jsnum) \<Rightarrow> nat \<Rightarrow> jstr \<Rightarrow> (json \<times> jstr) option"
  and parseElems :: "(jstr \<Rightarrow> jsnum) \<Rightarrow> nat \<Rightarrow> jstr \<Rightarrow> (json list \<times> jstr) option"
  and parseMembers :: "(jstr \<Rightarrow> jsnum) \<Rightarrow> nat \<Rightarrow> jstr \<Rightarrow> ((jstr \<times> json) list \<times> jstr) option"
  where
  "parseValue num 0 s = None"
| "parseValue num (Suc n) s =
     (case skipWs s of
        [] \<Rightarrow> None
      | c # cs \<Rightarrow>
          if c = 0x22 then map_option (apfst JStr) (parseStr cs)
          else if c = 0x5B then
            (case skipWs cs of
               [] \<Rightarrow> None
             | d # ds \<Rightarrow> if d = 0x5D then Some (JArr [], ds) else map_option (apfst JArr) (parseElems num n cs))
          else if c = 0x7B then
            (case skipWs cs of
               [] \<Rightarrow> None
             | d # ds \<Rightarrow> if d = 0x7D then Some (JObj [], ds) else map_option (apfst JObj) (parseMembers num n cs))
          else if c = 0x74 then parseWord ''true'' (JBool True) (c # cs)
          else if c = 0x66 then parseWord ''false'' (JBool False) (c # cs)
          else if c = 0x6E then parseWord ''null'' JNull (c # cs)
          else map_option (apfst (\<lambda>t. JNum (num t))) (parseNum (c # cs)))"
| "parseElems num 0 s = None"
| "parseElems num (Suc n) s =
     (case parseValue num n s of
        None \<Rightarrow> None
      | Some (v, r) \<Rightarrow>
          (case skipWs r of
             [] \<Rightarrow> None
           | c # cs \<Rightarrow>
               if c = 0x5D then Some ([v], cs)
               else if c = 0x2C then map_option (apfst ((#) v)) (parseElems num n cs)
               else None))"
| "parseMembers num 0 s = None"
| "parseMembers num (Suc n) s =
     (case skipWs s of
        [] \<Rightarrow> None
      | q # qs \<Rightarrow>
          if q \<noteq> 0x22 then None
          else
            (case parseStr qs of
               None \<Rightarrow> None
             | Some (k, r0) \<Rightarrow>
                 (case skipWs r0 of
                    [] \<Rightarrow> None
                  | d # ds \<Rightarrow>
                      if d \<noteq> 0x3A then None
                      else
                        (case parseValue num n ds of
                           None \<Rightarrow> None
                         | Some (v, r) \<Rightarrow>
                             (case skipWs r of
                                [] \<Rightarrow> None
                              | c # cs \<Rightarrow>
                                  if c = 0x7D then Some ([(k, v)], cs)
                                  else if c = 0x2C then map_option (apfst ((#) (k, v))) (parseMembers num n cs)
                                  else None)))))"

definition jsonParse :: "(jstr \<Rightarrow> jsnum) \<Rightarrow> jstr \<Rightarrow> json option" where
  "jsonParse num s =
     (case parseValue num (2 * length s + 1) s of
        Some (v, r) \<Rightarrow> if skipWs r = [] then Some v else None
      | None \<Rightarrow> None)"

text \<open>Reading a member of a parsed value: the last member of that name, \<open>undefined\<close> on anything but an object.\<close>

definition jsonField :: "string \<Rightarrow> json \<Rightarrow> json option" where
  "jsonField k v = (case v of JObj ms \<Rightarrow> map_of (rev ms) (js k) | _ \<Rightarrow> None)"

subsection \<open>The fuel is enough\<close>

lemma skipWs_length: "length (skipWs s) \<le> length s"
  by (rule length_dropWhile_le)

lemma skipWs_Cons: "skipWs s = c # cs \<Longrightarrow> length cs < length s"
  using skipWs_length [of s] by simp

lemma parseStr_consumes: "parseStr s = Some (t, r) \<Longrightarrow> length r < length s"
proof (induction s arbitrary: t rule: parseStr.induct)
  case (2 c cs)
  consider (plain) "c = 0x22 \<or> c \<noteq> 0x5C" | (escape) "c = 0x5C" "c \<noteq> 0x22" by force
  then show ?case
  proof cases
    case plain
    then show ?thesis using 2 by (auto split: if_splits)
  next
    case escape
    with 2(4) obtain e rest where cs: "cs = e # rest" by (auto split: list.splits)
    show ?thesis
    proof (cases "e = 0x75")
      case True
      with escape 2(4) cs obtain a b c' d rest' u t' where "rest = a # b # c' # d # rest'" "hexUnit a b c' d = Some u"
        "parseStr rest' = Some (t', r)" by (auto split: list.splits option.splits)
      moreover from this 2(1) [OF escape(2,1) cs True] have "length r < length rest'" by blast
      ultimately show ?thesis by (simp add: cs)
    next
      case False
      with escape 2(4) cs obtain u t' where "escapeOf e = Some u" "parseStr rest = Some (t', r)"
        by (auto split: option.splits)
      moreover from this 2(2) [OF escape(2,1) cs False] have "length r < length rest" by blast
      ultimately show ?thesis by (simp add: cs)
    qed
  qed
qed simp

lemma someDigits_consumes: "someDigits s = Some (t, r) \<Longrightarrow> length r \<le> length s"
  by (auto simp: someDigits_def length_dropWhile_le split: if_splits)

lemma parseNum_consumes:
  assumes "parseNum s = Some (t, r)"
  shows "length r < length s"
proof -
  obtain sign s0 where s0: "(case s of c # cs \<Rightarrow> if c = 0x2D then ([c], cs) else ([], s) | [] \<Rightarrow> ([], s)) = (sign, s0)"
    by fastforce
  then have "length s0 \<le> length s" by (auto split: list.splits if_splits)
  moreover from assms obtain i s1 f s2 e where parts: "wholePart s0 = Some (i, s1)" "fracPart s1 = Some (f, s2)"
    "expPart s2 = Some (e, r)"
    unfolding parseNum_def s0 by (auto simp: Let_def split: option.splits)
  moreover have "length s1 < length s0"
    using parts(1) by (auto simp: wholePart_def le_imp_less_Suc length_dropWhile_le split: list.splits if_splits)
  moreover have "length s2 \<le> length s1" "length r \<le> length s2"
    using parts(2,3) by (auto simp: fracPart_def expPart_def dest!: someDigits_consumes split: list.splits if_splits)
  ultimately show ?thesis by simp
qed

lemma parseWord_consumes: "parseWord word v s = Some (u, r) \<Longrightarrow> word \<noteq> [] \<Longrightarrow> s \<noteq> [] \<Longrightarrow> length r < length s"
  by (auto simp: parseWord_def split: if_splits)

lemma parse_consumes:
  "parseValue num n s = Some (v, r) \<Longrightarrow> length r < length s"
  "parseElems num n s = Some (vs, r) \<Longrightarrow> length r < length s"
  "parseMembers num n s = Some (ms, r) \<Longrightarrow> length r < length s"
proof (induction num n s and num n s and num n s arbitrary: v r and vs r and ms r
    rule: parseValue_parseElems_parseMembers.induct)
  case (2 num n s)
  from 2(3) obtain c cs where cs: "skipWs s = c # cs" by (auto split: list.splits)
  have len: "length (c # cs) \<le> length s" using skipWs_length [of s] by (simp add: cs)
  show ?case
  proof (cases "skipWs cs")
    case Nil
    with 2(3) cs len show ?thesis
      by (auto dest!: parseStr_consumes parseNum_consumes parseWord_consumes simp del: dropWhile_eq_Nil_conv
          split: if_splits)
  next
    case (Cons d ds)
    have "length ds < length cs" by (rule skipWs_Cons [OF Cons])
    moreover have "length r < length cs"
      if "c = 0x5B" "d \<noteq> 0x5D" "parseElems num n cs = Some (xs, r)" for xs
      using 2(1) [OF cs _ _ Cons] that by simp
    moreover have "length r < length cs"
      if "c = 0x7B" "d \<noteq> 0x7D" "parseMembers num n cs = Some (xs, r)" for xs
      using 2(2) [OF cs _ _ _ Cons] that by simp
    ultimately show ?thesis
      using 2(3) cs len Cons
      by (auto dest!: parseStr_consumes parseNum_consumes parseWord_consumes split: if_splits)
  qed
next
  case (4 num n s)
  from 4(3) obtain v' r' c cs where v: "parseValue num n s = Some (v', r')" "skipWs r' = c # cs"
    by (auto split: option.splits list.splits)
  have "length r' < length s" by (rule 4(1) [OF v(1)])
  moreover have "length cs < length r'" by (rule skipWs_Cons [OF v(2)])
  moreover have "length r < length cs" if "c \<noteq> 0x5D" "c = 0x2C" "parseElems num n cs = Some (ws, r)" for ws
    using 4(2) [OF v(1) refl v(2)] that by simp
  ultimately show ?case using 4(3) v by (auto split: if_splits)
next
  case (6 num n s)
  from 6(3) obtain qs k r0 ds v' r' c cs where parts: "skipWs s = 0x22 # qs" "parseStr qs = Some (k, r0)"
    "skipWs r0 = 0x3A # ds" "parseValue num n ds = Some (v', r')" "skipWs r' = c # cs"
    by (auto split: option.splits list.splits if_splits)
  have "length r' < length ds" using 6(1) [OF parts(1) _ parts(2) refl parts(3)] parts(4) by simp
  moreover have "length qs < length s" "length ds < length r0" "length cs < length r'"
    using skipWs_Cons [OF parts(1)] skipWs_Cons [OF parts(3)] skipWs_Cons [OF parts(5)] by simp_all
  moreover have "length r0 < length qs" by (rule parseStr_consumes [OF parts(2)])
  moreover have "length r < length cs" if "c \<noteq> 0x7D" "c = 0x2C" "parseMembers num n cs = Some (ws, r)" for ws
    using 6(2) [OF parts(1) _ parts(2) refl parts(3) _ parts(4) refl parts(5)] that by simp
  ultimately show ?case using 6(3) parts by (auto split: if_splits)
qed simp_all

lemma parse_tail:
  assumes "\<And>v r c cs. pv = Some (v, r) \<Longrightarrow> skipWs r = c # cs \<Longrightarrow> p cs = q cs"
  shows "(case pv of None \<Rightarrow> None
      | Some (v, r) \<Rightarrow> (case skipWs r of [] \<Rightarrow> None
         | c # cs \<Rightarrow> if c = e then Some (g v, cs) else if c = 0x2C then map_option (h v) (p cs) else None)) =
    (case pv of None \<Rightarrow> None
      | Some (v, r) \<Rightarrow> (case skipWs r of [] \<Rightarrow> None
         | c # cs \<Rightarrow> if c = e then Some (g v, cs) else if c = 0x2C then map_option (h v) (q cs) else None))"
proof (cases pv)
  case (Some vr)
  obtain v r where vr: "vr = (v, r)" by fastforce
  show ?thesis using assms [OF Some [unfolded vr]] unfolding Some vr by (cases "skipWs r") (simp_all del: dropWhile_eq_Nil_conv)
qed simp

lemma parse_more_fuel:
  "(\<forall>s. 2 * length s + 1 \<le> f \<longrightarrow> parseValue num (Suc f) s = parseValue num f s) \<and>
   (\<forall>s. 2 * length s + 2 \<le> f \<longrightarrow> parseElems num (Suc f) s = parseElems num f s) \<and>
   (\<forall>s. 2 * length s + 1 \<le> f \<longrightarrow> parseMembers num (Suc f) s = parseMembers num f s)"
proof (induction f)
  case (Suc f)
  then have V: "2 * length s + 1 \<le> f \<Longrightarrow> parseValue num (Suc f) s = parseValue num f s"
    and E: "2 * length s + 2 \<le> f \<Longrightarrow> parseElems num (Suc f) s = parseElems num f s"
    and M: "2 * length s + 1 \<le> f \<Longrightarrow> parseMembers num (Suc f) s = parseMembers num f s" for s by blast+
  show ?case
  proof (intro conjI allI impI)
    fix s :: jstr assume le: "2 * length s + 1 \<le> Suc f"
    show "parseValue num (Suc (Suc f)) s = parseValue num (Suc f) s"
    proof (cases "skipWs s")
      case (Cons c cs)
      with skipWs_Cons le have "2 * length cs + 2 \<le> f" by fastforce
      then have "parseElems num (Suc f) cs = parseElems num f cs" "parseMembers num (Suc f) cs = parseMembers num f cs"
        using E M by simp_all
      then show ?thesis by (simp only: parseValue.simps Cons list.case)
    qed (simp only: parseValue.simps list.case)
    show "parseMembers num (Suc (Suc f)) s = parseMembers num (Suc f) s"
    proof (cases "skipWs s")
      case (Cons q qs)
      note s = this
      show ?thesis
      proof (cases "parseStr qs")
        case (Some kr)
        obtain k r0 where kr: "kr = (k, r0)" by fastforce
        show ?thesis
        proof (cases "skipWs r0")
          case (Cons d ds)
          have ds: "length ds < length s"
            using skipWs_Cons [OF s] parseStr_consumes [OF Some [unfolded kr]] skipWs_Cons [OF Cons] by simp
          with le V have val: "parseValue num (Suc f) ds = parseValue num f ds" by simp
          have "parseMembers num (Suc f) cs = parseMembers num f cs"
            if "parseValue num f ds = Some (v, r)" "skipWs r = c # cs" for v r c cs
            using parse_consumes(1) [OF that(1)] skipWs_Cons [OF that(2)] ds le M [of cs] by simp
          then have "(case parseValue num f ds of None \<Rightarrow> None
              | Some (v, r) \<Rightarrow> (case skipWs r of [] \<Rightarrow> None
                 | c # cs \<Rightarrow> if c = 0x7D then Some ([(k, v)], cs)
                     else if c = 0x2C then map_option (apfst ((#) (k, v))) (parseMembers num (Suc f) cs) else None)) =
            (case parseValue num f ds of None \<Rightarrow> None
              | Some (v, r) \<Rightarrow> (case skipWs r of [] \<Rightarrow> None
                 | c # cs \<Rightarrow> if c = 0x7D then Some ([(k, v)], cs)
                     else if c = 0x2C then map_option (apfst ((#) (k, v))) (parseMembers num f cs) else None))"
            by (rule parse_tail)
          then show ?thesis
            by (simp only: parseMembers.simps s Some kr Cons val list.case option.case prod.case)
        qed (simp only: parseMembers.simps s Some kr list.case option.case prod.case)
      qed (simp only: parseMembers.simps s list.case option.case)
    qed (simp only: parseMembers.simps list.case)
  next
    fix s :: jstr assume le: "2 * length s + 2 \<le> Suc f"
    have val: "parseValue num (Suc f) s = parseValue num f s" using V le by simp
    have "parseElems num (Suc f) cs = parseElems num f cs"
      if "parseValue num f s = Some (v, r)" "skipWs r = c # cs" for v r c cs
      using parse_consumes(1) [OF that(1)] skipWs_Cons [OF that(2)] le E [of cs] by simp
    then have "(case parseValue num f s of None \<Rightarrow> None
        | Some (v, r) \<Rightarrow> (case skipWs r of [] \<Rightarrow> None
           | c # cs \<Rightarrow> if c = 0x5D then Some ([v], cs)
               else if c = 0x2C then map_option (apfst ((#) v)) (parseElems num (Suc f) cs) else None)) =
      (case parseValue num f s of None \<Rightarrow> None
        | Some (v, r) \<Rightarrow> (case skipWs r of [] \<Rightarrow> None
           | c # cs \<Rightarrow> if c = 0x5D then Some ([v], cs)
               else if c = 0x2C then map_option (apfst ((#) v)) (parseElems num f cs) else None))"
      by (rule parse_tail)
    then show "parseElems num (Suc (Suc f)) s = parseElems num (Suc f) s"
      by (simp only: parseElems.simps val)
  qed
qed simp

lemma parseValue_fuel:
  assumes "2 * length s + 1 \<le> f"
  shows "parseValue num f s = parseValue num (2 * length s + 1) s"
  using assms by (induction f rule: dec_induct) (use parse_more_fuel in auto)

end
