(* ===== verification/Cookies.thy ===== *)
theory Cookies
  imports Json
begin

text \<open>
  \<open>encodeURIComponent\<close> and \<open>decodeURIComponent\<close>, which the refresh cookie passes through: the HTTP library
  encodes the value it sets, and \<open>auth.controller.ts\<close> decodes what it finds in the request header. The
  main result: decoding inverts encoding on every string without lone surrogates.
\<close>

definition unreserved :: "nat \<Rightarrow> bool" where
  "unreserved c \<longleftrightarrow> (0x61 \<le> c \<and> c \<le> 0x7A) \<or> (0x41 \<le> c \<and> c \<le> 0x5A) \<or> (0x30 \<le> c \<and> c \<le> 0x39) \<or>
     c \<in> {0x2D, 0x5F, 0x2E, 0x21, 0x7E, 0x2A, 0x27, 0x28, 0x29}"

definition hexDigit :: "nat \<Rightarrow> jchar" where
  "hexDigit n = of_nat (if n < 10 then 0x30 + n else 0x37 + n)"

definition percentByte :: "nat \<Rightarrow> jstr" where
  "percentByte b = [0x25, hexDigit (b div 16), hexDigit (b mod 16)]"

definition pointText :: "nat \<Rightarrow> jstr" where
  "pointText cp = (if unreserved cp then [of_nat cp] else concat (map percentByte (encodePoint cp)))"

definition encodeURIComponent :: "jstr \<Rightarrow> jstr option" where
  "encodeURIComponent s =
     (if wellFormed s
      then Some (concat (map pointText (codePoints (map unat s))))
      else None)"

text \<open>Decoding: escapes become bytes, and every maximal run of them has to be well-formed UTF-8.\<close>

fun percentTokens :: "jstr \<Rightarrow> (nat + jchar) list option" where
  "percentTokens [] = Some []"
| "percentTokens (c # cs) =
     (if c = 0x25 then
        (case cs of
           h # l # rest \<Rightarrow>
             (case (hexVal h, hexVal l) of
                (Some a, Some b) \<Rightarrow> map_option ((#) (Inl (a * 16 + b))) (percentTokens rest)
              | _ \<Rightarrow> None)
         | _ \<Rightarrow> None)
      else map_option ((#) (Inr c)) (percentTokens cs))"

definition decodeRun :: "nat list \<Rightarrow> jstr option" where
  "decodeRun bs =
     (let cps = decodePoints bs in
      if None \<in> set cps then None else Some (concat (map (\<lambda>cp. map of_nat (unitsOf (the cp))) cps)))"

fun decodeTokens :: "nat list \<Rightarrow> (nat + jchar) list \<Rightarrow> jstr option" where
  "decodeTokens run [] = decodeRun run"
| "decodeTokens run (Inl b # ts) = decodeTokens (run @ [b]) ts"
| "decodeTokens run (Inr c # ts) =
     (case (decodeRun run, decodeTokens [] ts) of
        (Some r, Some t) \<Rightarrow> Some (r @ c # t)
      | _ \<Rightarrow> None)"

definition decodeURIComponent :: "jstr \<Rightarrow> jstr option" where
  "decodeURIComponent s = (case percentTokens s of None \<Rightarrow> None | Some ts \<Rightarrow> decodeTokens [] ts)"

subsection \<open>Round trip\<close>

lemma hexVal_hexDigit:
  assumes "n < 16" shows "hexVal (hexDigit n) = Some n"
proof -
  from assms have "n \<in> {0, 1, 2, 3, 4, 5, 6, 7, 8, 9, 10, 11, 12, 13, 14, 15}" by (simp; presburger)
  then show ?thesis by (elim insertE emptyE) (simp_all add: hexVal_def hexDigit_def)
qed

text \<open>The tokens of an encoded text: a plain character, or the bytes of its UTF-8 form.\<close>

definition pointTokens :: "nat \<Rightarrow> (nat + jchar) list" where
  "pointTokens cp = (if unreserved cp then [Inr (of_nat cp)] else map Inl (encodePoint cp))"

lemma percentTokens_percentByte:
  assumes "b < 256"
  shows "percentTokens (percentByte b @ s) = map_option ((#) (Inl b)) (percentTokens s)"
proof -
  have "hexVal (hexDigit (b div 16)) = Some (b div 16)" "hexVal (hexDigit (b mod 16)) = Some (b mod 16)"
    using assms by (auto intro: hexVal_hexDigit)
  then show ?thesis by (simp add: percentByte_def)
qed

lemma percentTokens_bytes:
  "\<forall>b\<in>set bs. b < 256 \<Longrightarrow> percentTokens (concat (map percentByte bs) @ s) = map_option ((@) (map Inl bs)) (percentTokens s)"
  by (induction bs) (auto simp: percentTokens_percentByte option.map_comp option.map_ident comp_def append_Nil [abs_def] intro: option.map_cong)

lemma unreserved_small: "unreserved cp \<Longrightarrow> cp < 0x80 \<and> cp \<noteq> 0x25 \<and> cp \<noteq> 0x3B \<and> 0x20 < cp"
  by (auto simp: unreserved_def)

lemma of_nat_unit_eq: "m < 0x10000 \<Longrightarrow> n < 0x10000 \<Longrightarrow> (of_nat m :: jchar) = of_nat n \<longleftrightarrow> m = n"
  by (auto dest!: arg_cong [where f = unat] simp: unat_of_nat take_bit_nat_eq_self)

lemma percentTokens_point:
  assumes "scalar cp"
  shows "percentTokens (pointText cp @ s) =
    map_option ((@) (pointTokens cp)) (percentTokens s)"
proof (cases "unreserved cp")
  case True
  then have "(of_nat cp :: jchar) \<noteq> 0x25"
    using unreserved_small [OF True] of_nat_unit_eq [of cp "0x25"] by simp
  with True show ?thesis by (cases "percentTokens s") (simp_all add: pointText_def pointTokens_def)
next
  case False
  have "\<forall>b\<in>set (encodePoint cp). b < 256" using assms encodePoint_less by (auto simp: scalar_def)
  with False show ?thesis by (simp add: pointText_def pointTokens_def percentTokens_bytes)
qed

lemma percentTokens_encoded:
  "\<forall>cp\<in>set cps. scalar cp \<Longrightarrow>
   percentTokens (concat (map pointText cps)) =
     Some (concat (map pointTokens cps))"
  by (induction cps) (simp_all del: append_assoc add: percentTokens_point)

lemma decodeTokens_bytes: "decodeTokens run (map Inl bs @ ts) = decodeTokens (run @ bs) ts"
  by (induction bs arbitrary: run) simp_all

lemma decodeRun_encoded:
  "\<forall>cp\<in>set cps. scalar cp \<Longrightarrow> decodeRun (concat (map encodePoint cps)) = Some (map of_nat (concat (map unitsOf cps)))"
  by (auto simp: decodeRun_def decodePoints_encode Let_def map_concat comp_def)

lemma decodeTokens_encoded:
  "\<forall>cp\<in>set (pre @ cps). scalar cp \<Longrightarrow>
   decodeTokens (concat (map encodePoint pre)) (concat (map pointTokens cps)) =
     Some (map of_nat (concat (map unitsOf (pre @ cps))))"
proof (induction cps arbitrary: pre)
  case Nil
  then show ?case by (simp add: decodeRun_encoded)
next
  case (Cons cp cps)
  show ?case
  proof (cases "unreserved cp")
    case True
    then have "unitsOf cp = [cp]" using unreserved_small [of cp] by (simp add: unitsOf_def)
    with True Cons.prems Cons.IH [of "[]"] decodeRun_encoded [of pre] show ?thesis
      by (simp add: pointTokens_def)
  next
    case False
    with Cons.prems Cons.IH [of "pre @ [cp]"] show ?thesis
      by (simp add: pointTokens_def decodeTokens_bytes)
  qed
qed

lemma decodeURIComponent_encodeURIComponent:
  assumes "encodeURIComponent s = Some t"
  shows "decodeURIComponent t = Some s"
proof -
  have us: "\<forall>u\<in>set (map unat s). u < 0x10000" by (auto simp: unat_16_less)
  have scalars: "\<forall>cp\<in>set (codePoints (map unat s)). scalar cp" using codePoints_scalar [OF us] by blast
  from assms have ok: "wellFormed s" by (simp add: encodeURIComponent_def split: if_splits)
  with assms have "percentTokens t = Some (concat (map pointTokens (codePoints (map unat s))))"
    using percentTokens_encoded [OF scalars] by (auto simp: encodeURIComponent_def)
  then show ?thesis
    using decodeTokens_encoded [of "[]" "codePoints (map unat s)"] scalars unitsOf_codePoints [OF us] ok
    by (simp add: decodeURIComponent_def wellFormed_def map_of_nat_unat)
qed

text \<open>Encoded text has neither the separator of cookies nor white space in it.\<close>

lemma visible_char:
  assumes "n < 0x80" "n \<noteq> 0x3B" "0x20 < n"
  shows "(of_nat n :: jchar) \<noteq> 0x3B" "\<not> isSpace (of_nat n)"
proof -
  have "unat (of_nat n :: jchar) = n" using assms by (simp add: unat_of_nat take_bit_nat_eq_self)
  with assms show "(of_nat n :: jchar) \<noteq> 0x3B" "\<not> isSpace (of_nat n)"
    by (auto simp: isSpace_def word_le_nat_alt)
qed

lemma percentByte_chars:
  assumes "b < 256" "c \<in> set (percentByte b)"
  shows "\<exists>n. c = of_nat n \<and> n < 0x80 \<and> n \<noteq> 0x3B \<and> 0x20 < n"
proof -
  have digit: ?thesis if "c = hexDigit d" "d < 16" for d
    using that by (intro exI [of _ "if d < 10 then 0x30 + d else 0x37 + d"]) (auto simp: hexDigit_def)
  from assms consider "c = of_nat 0x25" | "c = hexDigit (b div 16)" | "c = hexDigit (b mod 16)"
    by (auto simp: percentByte_def)
  then show ?thesis
  proof cases
    case 1
    then show ?thesis by (intro exI [of _ "0x25"]) simp
  next
    case 2
    then show ?thesis using assms(1) by (intro digit) auto
  next
    case 3
    then show ?thesis by (intro digit) auto
  qed
qed

lemma encoded_chars:
  assumes "encodeURIComponent s = Some t" "c \<in> set t"
  shows "c \<noteq> 0x3B" "\<not> isSpace c"
proof -
  have us: "\<forall>u\<in>set (map unat s). u < 0x10000" by (auto simp: unat_16_less)
  from assms obtain cp where cp: "cp \<in> set (codePoints (map unat s))"
    and c: "c \<in> set (pointText cp)"
    by (auto simp: encodeURIComponent_def split: if_split_asm)
  have "\<exists>n. c = of_nat n \<and> n < 0x80 \<and> n \<noteq> 0x3B \<and> 0x20 < n" (is "\<exists>n. ?visible n")
  proof (cases "unreserved cp")
    case True
    with c unreserved_small [OF True] show ?thesis by (auto simp: pointText_def)
  next
    case False
    with c obtain b where "b \<in> set (encodePoint cp)" "c \<in> set (percentByte b)" by (auto simp: pointText_def)
    moreover have "cp < 0x110000" using codePoints_scalar [OF us cp] by (simp add: scalar_def)
    ultimately have "b < 256" "c \<in> set (percentByte b)" using encodePoint_less by blast+
    then show ?thesis by (rule percentByte_chars)
  qed
  then obtain n where "?visible n" ..
  with visible_char [of n] show "c \<noteq> 0x3B" "\<not> isSpace c" by simp_all
qed

end
