(* ===== verification/AuthData.thy ===== *)
theory AuthData
  imports World "HOL-Library.List_Lexorder"
begin

text \<open>
  The pure parts of the authentication module: validation of the local-auth payloads
  (\<open>auth/dto/local-auth.dto.ts\<close>), derivation of usernames (\<open>auth/utils/username.util.ts\<close>), and the
  escaping of search queries that the user search and the message search share.
\<close>

subsection \<open>Payload validation\<close>

record register_dto =
  rd_email :: jstr
  rd_username :: jstr
  rd_displayName :: jstr
  rd_password :: jstr
  rd_confirmPassword :: jstr

record login_dto =
  ld_email :: jstr
  ld_password :: jstr

definition normalizeEmail :: "platform \<Rightarrow> jstr \<Rightarrow> jstr" where
  "normalizeEmail pf v = pf_lower pf (trim v)"

definition normalizeTextField :: "jstr \<Rightarrow> jstr" where
  "normalizeTextField v = trim v"

definition validateRegisterLocalAuthDto :: "platform \<Rightarrow> register_dto \<Rightarrow> (string \<times> string) + register_dto" where
  "validateRegisterLocalAuthDto pf payload =
     (let email = normalizeEmail pf (rd_email payload);
          username = normalizeTextField (rd_username payload);
          displayName = normalizeTextField (rd_displayName payload);
          password = rd_password payload;
          confirmPassword = rd_confirmPassword payload
      in if email = [] \<or> username = [] \<or> displayName = [] \<or> password = [] \<or> confirmPassword = []
         then Inl (''local_auth_invalid_payload'', ''Missing required local registration fields'')
         else if \<not> includesStr (js ''@'') email
         then Inl (''local_auth_invalid_email'', ''Email is invalid'')
         else if password \<noteq> confirmPassword
         then Inl (''local_auth_password_confirm_mismatch'', ''Password confirmation does not match'')
         else Inr \<lparr>rd_email = email, rd_username = username, rd_displayName = displayName,
                    rd_password = password, rd_confirmPassword = confirmPassword\<rparr>)"

definition validateLoginLocalAuthDto :: "platform \<Rightarrow> login_dto \<Rightarrow> (string \<times> string) + login_dto" where
  "validateLoginLocalAuthDto pf payload =
     (let email = normalizeEmail pf (ld_email payload); password = ld_password payload
      in if email = [] \<or> password = []
         then Inl (''local_auth_invalid_payload'', ''Missing local login credentials'')
         else if \<not> includesStr (js ''@'') email
         then Inl (''local_auth_invalid_email'', ''Email is invalid'')
         else Inr \<lparr>ld_email = email, ld_password = password\<rparr>)"

subsection \<open>Usernames\<close>

fun showNat :: "nat \<Rightarrow> jstr" where
  "showNat n = (if n < 10 then [of_nat (48 + n)] else showNat (n div 10) @ [of_nat (48 + n mod 10)])"

declare showNat.simps [simp del]

definition readNat :: "jstr \<Rightarrow> nat" where
  "readNat s = foldl (\<lambda>v c. 10 * v + (unat c - 48)) 0 s"

lemma unat_digit: "d < 10 \<Longrightarrow> unat (of_nat (48 + d) :: jchar) = 48 + d"
  by (subst unat_of_nat) simp

lemma readNat_showNat: "readNat (showNat n) = n"
proof (induction n rule: showNat.induct)
  case (1 n)
  show ?case
  proof (cases "n < 10")
    case True
    then show ?thesis
      using unat_digit [of n] by (subst showNat.simps) (simp add: readNat_def del: of_nat_add)
  next
    case False
    have "readNat (showNat (n div 10) @ [of_nat (48 + n mod 10)]) = 10 * (n div 10) + n mod 10"
      using 1 False unat_digit [of "n mod 10"] by (simp add: readNat_def del: of_nat_add)
    with False show ?thesis by (subst showNat.simps) simp
  qed
qed

lemma showNat_inject [simp]: "showNat m = showNat n \<longleftrightarrow> m = n"
  by (metis readNat_showNat)

definition deriveBaseUsername :: "jstr \<Rightarrow> jstr" where
  "deriveBaseUsername email = (case splitOn 0x40 email of [] \<Rightarrow> [] | part # _ \<Rightarrow> part)"

definition withSuffix :: "jstr \<Rightarrow> nat \<Rightarrow> jstr" where
  "withSuffix base k = base @ js ''-'' @ showNat k"

lemma withSuffix_inject [simp]: "withSuffix b k = withSuffix b l \<longleftrightarrow> k = l"
  by (simp add: withSuffix_def)

lemma finite_taken_suffixes: "finite {k. withSuffix base k \<in> set taken}"
  by (rule finite_imageD [where f = "withSuffix base"])
    (auto intro: finite_subset [of _ "set taken"] inj_onI)

text \<open>
  The loop \<open>while (await exists(...)) suffix += 1\<close>. The names that exist form the list \<open>taken\<close>; the
  loop ends because only finitely many suffixes can be taken.
\<close>

function firstFreeSuffix :: "jstr list \<Rightarrow> jstr \<Rightarrow> nat \<Rightarrow> nat" where
  "firstFreeSuffix taken base k =
     (if withSuffix base k \<in> set taken then firstFreeSuffix taken base (k + 1) else k)"
  by pat_completeness auto
termination
proof (relation "measure (\<lambda>(taken, base, k). card {j. k \<le> j \<and> withSuffix base j \<in> set taken})")
  fix taken :: "jstr list" and base :: jstr and k :: nat
  assume hit: "withSuffix base k \<in> set taken"
  let ?S = "\<lambda>k. {j. k \<le> j \<and> withSuffix base j \<in> set taken}"
  have "k \<in> ?S k" "k \<notin> ?S (k + 1)" "?S (k + 1) \<subseteq> ?S k" using hit by auto
  then have "?S (k + 1) \<subset> ?S k" by blast
  moreover have "finite (?S k)"
    by (rule finite_subset [OF _ finite_taken_suffixes [of base taken]]) auto
  ultimately show "((taken, base, k + 1), taken, base, k)
      \<in> measure (\<lambda>(taken, base, k). card {j. k \<le> j \<and> withSuffix base j \<in> set taken})"
    by (simp add: psubset_card_mono)
qed simp

declare firstFreeSuffix.simps [simp del]

definition resolveUsernameCollision :: "jstr \<Rightarrow> jstr list \<Rightarrow> jstr" where
  "resolveUsernameCollision baseUsername taken =
     (if baseUsername \<notin> set taken then baseUsername
      else withSuffix baseUsername (firstFreeSuffix taken baseUsername 1))"

lemma firstFreeSuffix_least:
  "k \<le> firstFreeSuffix taken base k \<and> withSuffix base (firstFreeSuffix taken base k) \<notin> set taken \<and>
   (\<forall>j. k \<le> j \<and> j < firstFreeSuffix taken base k \<longrightarrow> withSuffix base j \<in> set taken)"
proof (induction taken base k rule: firstFreeSuffix.induct)
  case (1 taken base k)
  show ?case
  proof (cases "withSuffix base k \<in> set taken")
    case True
    then have "firstFreeSuffix taken base k = firstFreeSuffix taken base (k + 1)"
      by (simp add: firstFreeSuffix.simps [of taken base k])
    with 1 True show ?thesis by (metis Suc_eq_plus1 Suc_leD le_antisym not_less_eq_eq)
  next
    case False
    then have "firstFreeSuffix taken base k = k"
      by (simp add: firstFreeSuffix.simps [of taken base k])
    with False show ?thesis by auto
  qed
qed

text \<open>
  The collision loop always returns, the name it returns is not taken, and it is the base name
  whenever that is free and otherwise the base name with the smallest free positive suffix.
\<close>

theorem resolveUsernameCollision_free:
  "resolveUsernameCollision base taken \<notin> set taken \<and>
   (if base \<in> set taken
    then \<exists>k\<ge>1. resolveUsernameCollision base taken = withSuffix base k \<and>
           withSuffix base ` {1..<k} \<subseteq> set taken
    else resolveUsernameCollision base taken = base)"
  using firstFreeSuffix_least [of 1 taken base]
  by (auto simp: resolveUsernameCollision_def)

subsection \<open>Search queries as regular expressions\<close>

text \<open>
  \<open>query.replace(/[.*+?^${}()|[\]\\]/g, '\\$&')\<close> puts a backslash before every special character. The
  resulting pattern is handed to a regular expression engine with the flag \<open>i\<close>; \<open>compilePattern\<close> is
  the fragment of the pattern grammar that consists of literal characters and escaped characters.
\<close>

definition regexSpecials :: "jchar set" where
  "regexSpecials = set (js ''.*+?^${}()|[]'') \<union> {0x5C}"

definition escapeRegex :: "jstr \<Rightarrow> jstr" where
  "escapeRegex q = concat (map (\<lambda>c. if c \<in> regexSpecials then [0x5C, c] else [c]) q)"

fun compilePattern :: "jstr \<Rightarrow> jstr option" where
  "compilePattern [] = Some []"
| "compilePattern (c # cs) =
     (if c = 0x5C then (case cs of [] \<Rightarrow> None | d # ds \<Rightarrow> map_option ((#) d) (compilePattern ds))
      else if c \<in> regexSpecials then None
      else map_option ((#) c) (compilePattern cs))"

definition regexTest :: "platform \<Rightarrow> jstr \<Rightarrow> jstr \<Rightarrow> bool" where
  "regexTest pf pattern s =
     (case compilePattern pattern of
        None \<Rightarrow> False
      | Some lit \<Rightarrow> includesStr (map (pf_foldCase pf) lit) (map (pf_foldCase pf) s))"

lemma compile_escape [simp]: "compilePattern (escapeRegex q) = Some q"
  by (induction q) (auto simp: escapeRegex_def regexSpecials_def)

text \<open>
  The escaped query, used as a pattern, matches a text exactly when the text contains the query
  itself up to letter case; no character of the query acts as an operator.
\<close>

theorem escaped_query_is_literal:
  "regexTest pf (escapeRegex q) s \<longleftrightarrow>
     (\<exists>a b. map (pf_foldCase pf) s = a @ map (pf_foldCase pf) q @ b)"
  by (simp add: regexTest_def includesStr_iff)

end
