(* ===== verification/EnvConfig.thy ===== *)
theory EnvConfig
  imports World
begin

text \<open>
  \<open>backend/src/config/env.config.ts\<close>: the configuration is read from the process environment with
  defaults, and rejected when a feature that is switched on lacks what it needs.
\<close>

record backend_env =
  PORT :: jsnum
  MONGODB_URI :: jstr
  API_PREFIX :: jstr
  ACCESS_TOKEN_SECRET :: jstr
  ACCESS_TOKEN_TTL_SECONDS :: jsnum
  REFRESH_TOKEN_SECRET :: jstr
  REFRESH_TOKEN_TTL_SECONDS :: jsnum
  REFRESH_COOKIE_NAME :: jstr
  AUTH_LOCAL_ENABLED :: bool
  PROCESSOR_REMOTE_HOST :: jstr
  PROCESSOR_REMOTE_PORT :: jsnum
  PROCESSOR_REMOTE_TIMEOUT_MS :: jsnum
  CHAT_REVERSE_ENCRYPTION_ENABLED :: bool
  CHAT_REVERSE_ENCRYPTION_SHARED_KEY :: jstr
  R2_ACCOUNT_ID :: jstr
  R2_ACCESS_KEY_ID :: jstr
  R2_SECRET_ACCESS_KEY :: jstr
  R2_BUCKET_NAME :: jstr
  R2_PUBLIC_URL :: jstr
  GEMINI_API_KEYS :: jstr
  GEMINI_MODELS :: jstr
  GEMINI_REQUEST_TIMEOUT_MS :: jsnum
  GEMINI_MODERATION_TIMEOUT_MS :: jsnum
  GEMINI_SUGGESTION_TIMEOUT_MS :: jsnum
  GEMINI_MAX_CONTEXT_MESSAGES :: jsnum
  AI_CHATBOT_ENABLED :: bool
  AI_SUGGESTIONS_ENABLED :: bool
  AI_MODERATION_ENABLED :: bool

definition envText :: "platform \<Rightarrow> string \<Rightarrow> string \<Rightarrow> jstr" where
  "envText pf name dflt = (case pf_env pf name of None \<Rightarrow> js dflt | Some v \<Rightarrow> v)"

definition envNumber :: "platform \<Rightarrow> string \<Rightarrow> rat \<Rightarrow> jsnum" where
  "envNumber pf name dflt = (case pf_env pf name of None \<Rightarrow> Fin dflt | Some v \<Rightarrow> pf_number pf v)"

definition readEnv :: "platform \<Rightarrow> backend_env" where
  "readEnv pf = \<lparr>
     PORT = envNumber pf ''PORT'' 3000,
     MONGODB_URI = envText pf ''MONGODB_URI'' ''mongodb://127.0.0.1:27017/chatsc'',
     API_PREFIX = envText pf ''API_PREFIX'' ''api'',
     ACCESS_TOKEN_SECRET = envText pf ''ACCESS_TOKEN_SECRET'' ''replace-with-access-token-secret'',
     ACCESS_TOKEN_TTL_SECONDS = envNumber pf ''ACCESS_TOKEN_TTL_SECONDS'' 1800,
     REFRESH_TOKEN_SECRET = envText pf ''REFRESH_TOKEN_SECRET'' ''replace-with-refresh-token-secret'',
     REFRESH_TOKEN_TTL_SECONDS = envNumber pf ''REFRESH_TOKEN_TTL_SECONDS'' 604800,
     REFRESH_COOKIE_NAME = envText pf ''REFRESH_COOKIE_NAME'' ''refresh_token'',
     AUTH_LOCAL_ENABLED = (pf_env pf ''AUTH_LOCAL_ENABLED'' = Some (js ''true'')),
     PROCESSOR_REMOTE_HOST =
       (case pf_env pf ''PROCESSOR_REMOTE_HOST'' of
          Some v \<Rightarrow> v | None \<Rightarrow> envText pf ''CHAT_REVERSE_ENCRYPTION_HOST'' []),
     PROCESSOR_REMOTE_PORT =
       (case pf_env pf ''PROCESSOR_REMOTE_PORT'' of
          Some v \<Rightarrow> pf_number pf v | None \<Rightarrow> envNumber pf ''CHAT_REVERSE_ENCRYPTION_PORT'' 9191),
     PROCESSOR_REMOTE_TIMEOUT_MS =
       (case pf_env pf ''PROCESSOR_REMOTE_TIMEOUT_MS'' of
          Some v \<Rightarrow> pf_number pf v | None \<Rightarrow> envNumber pf ''CHAT_REVERSE_ENCRYPTION_TIMEOUT_MS'' 5000),
     CHAT_REVERSE_ENCRYPTION_ENABLED =
       (pf_env pf ''CHAT_REVERSE_ENCRYPTION_ENABLED'' = Some (js ''true'')),
     CHAT_REVERSE_ENCRYPTION_SHARED_KEY = envText pf ''CHAT_REVERSE_ENCRYPTION_SHARED_KEY'' [],
     R2_ACCOUNT_ID = envText pf ''R2_ACCOUNT_ID'' [],
     R2_ACCESS_KEY_ID = envText pf ''R2_ACCESS_KEY_ID'' [],
     R2_SECRET_ACCESS_KEY = envText pf ''R2_SECRET_ACCESS_KEY'' [],
     R2_BUCKET_NAME = envText pf ''R2_BUCKET_NAME'' [],
     R2_PUBLIC_URL = envText pf ''R2_PUBLIC_URL'' [],
     GEMINI_API_KEYS = envText pf ''GEMINI_API_KEYS'' [],
     GEMINI_MODELS = envText pf ''GEMINI_MODELS'' ''gemini-1.5-flash'',
     GEMINI_REQUEST_TIMEOUT_MS = envNumber pf ''GEMINI_REQUEST_TIMEOUT_MS'' 30000,
     GEMINI_MODERATION_TIMEOUT_MS = envNumber pf ''GEMINI_MODERATION_TIMEOUT_MS'' 5000,
     GEMINI_SUGGESTION_TIMEOUT_MS = envNumber pf ''GEMINI_SUGGESTION_TIMEOUT_MS'' 10000,
     GEMINI_MAX_CONTEXT_MESSAGES = envNumber pf ''GEMINI_MAX_CONTEXT_MESSAGES'' 10,
     AI_CHATBOT_ENABLED = (pf_env pf ''AI_CHATBOT_ENABLED'' \<noteq> Some (js ''false'')),
     AI_SUGGESTIONS_ENABLED = (pf_env pf ''AI_SUGGESTIONS_ENABLED'' \<noteq> Some (js ''false'')),
     AI_MODERATION_ENABLED = (pf_env pf ''AI_MODERATION_ENABLED'' \<noteq> Some (js ''false''))\<rparr>"

definition badPositive :: "jsnum \<Rightarrow> bool" where
  "badPositive n \<longleftrightarrow> \<not> isFinite n \<or> leZero n"

text \<open>\<open>envFault\<close> is the message of the error \<open>backendEnv\<close> throws, if it throws one.\<close>

definition envFault :: "backend_env \<Rightarrow> string option" where
  "envFault env =
     (let remote = AUTH_LOCAL_ENABLED env \<or> CHAT_REVERSE_ENCRYPTION_ENABLED env in
      if remote \<and> PROCESSOR_REMOTE_HOST env = []
        then Some ''PROCESSOR_REMOTE_HOST is required when remote processor features are enabled''
      else if remote \<and> badPositive (PROCESSOR_REMOTE_PORT env)
        then Some ''PROCESSOR_REMOTE_PORT must be a positive number when remote processor features are enabled''
      else if remote \<and> badPositive (PROCESSOR_REMOTE_TIMEOUT_MS env)
        then Some ''PROCESSOR_REMOTE_TIMEOUT_MS must be a positive number when remote processor features are enabled''
      else if CHAT_REVERSE_ENCRYPTION_ENABLED env \<and> CHAT_REVERSE_ENCRYPTION_SHARED_KEY env = []
        then Some ''CHAT_REVERSE_ENCRYPTION_SHARED_KEY is required when reverse encryption is enabled''
      else if badPositive (GEMINI_REQUEST_TIMEOUT_MS env)
        then Some ''GEMINI_REQUEST_TIMEOUT_MS must be a positive number''
      else if badPositive (GEMINI_MODERATION_TIMEOUT_MS env)
        then Some ''GEMINI_MODERATION_TIMEOUT_MS must be a positive number''
      else if badPositive (GEMINI_SUGGESTION_TIMEOUT_MS env)
        then Some ''GEMINI_SUGGESTION_TIMEOUT_MS must be a positive number''
      else if badPositive (GEMINI_MAX_CONTEXT_MESSAGES env)
        then Some ''GEMINI_MAX_CONTEXT_MESSAGES must be a positive number''
      else None)"

definition backendEnv :: "platform \<Rightarrow> backend_env act" where
  "backendEnv pf =
     (case envFault (readEnv pf) of
        Some e \<Rightarrow> throw (PlainError (js e))
      | None \<Rightarrow> ret (readEnv pf))"

definition positive :: "jsnum \<Rightarrow> bool" where
  "positive n \<longleftrightarrow> (\<exists>q>0. n = Fin q)"

lemma badPositive_iff: "badPositive n \<longleftrightarrow> \<not> positive n"
  by (cases n) (auto simp: badPositive_def positive_def isFinite_def leZero_def)

lemma if_Some_None: "((if c then Some x else r) = None) \<longleftrightarrow> \<not> c \<and> r = None"
  by simp

lemma keeps_backendEnv [keeps_intros]: "keeps P (backendEnv pf)"
  by (simp add: backendEnv_def keeps_intros split: option.split)

lemma backendEnv_cases:
  obtains (ok) "envFault (readEnv pf) = None" "backendEnv pf = ret (readEnv pf)"
  | (fault) e where "envFault (readEnv pf) = Some e" "backendEnv pf = throw (PlainError (js e))"
  by (cases "envFault (readEnv pf)") (auto simp: backendEnv_def)

lemma envFault_None_iff:
  "envFault env = None \<longleftrightarrow>
     (if AUTH_LOCAL_ENABLED env \<or> CHAT_REVERSE_ENCRYPTION_ENABLED env
      then PROCESSOR_REMOTE_HOST env \<noteq> [] \<and> positive (PROCESSOR_REMOTE_PORT env) \<and>
           positive (PROCESSOR_REMOTE_TIMEOUT_MS env)
      else True) \<and>
     (if CHAT_REVERSE_ENCRYPTION_ENABLED env then CHAT_REVERSE_ENCRYPTION_SHARED_KEY env \<noteq> [] else True) \<and>
     positive (GEMINI_REQUEST_TIMEOUT_MS env) \<and> positive (GEMINI_MODERATION_TIMEOUT_MS env) \<and>
     positive (GEMINI_SUGGESTION_TIMEOUT_MS env) \<and> positive (GEMINI_MAX_CONTEXT_MESSAGES env)"
  unfolding envFault_def Let_def if_Some_None badPositive_iff by auto

text \<open>
  A configuration is accepted exactly when every remote-processor setting a switched-on
  feature needs is present and positive and the Gemini limits are positive numbers; reading it
  changes no state.
\<close>

theorem backendEnv_accepts_iff:
  "backendEnv pf w = (Inr env, w') \<longleftrightarrow>
     env = readEnv pf \<and> w' = w \<and>
     (if AUTH_LOCAL_ENABLED env \<or> CHAT_REVERSE_ENCRYPTION_ENABLED env
      then PROCESSOR_REMOTE_HOST env \<noteq> [] \<and> positive (PROCESSOR_REMOTE_PORT env) \<and>
           positive (PROCESSOR_REMOTE_TIMEOUT_MS env)
      else True) \<and>
     (if CHAT_REVERSE_ENCRYPTION_ENABLED env then CHAT_REVERSE_ENCRYPTION_SHARED_KEY env \<noteq> [] else True) \<and>
     positive (GEMINI_REQUEST_TIMEOUT_MS env) \<and> positive (GEMINI_MODERATION_TIMEOUT_MS env) \<and>
     positive (GEMINI_SUGGESTION_TIMEOUT_MS env) \<and> positive (GEMINI_MAX_CONTEXT_MESSAGES env)"
  unfolding envFault_None_iff [symmetric]
  by (rule backendEnv_cases [of pf]) (auto simp: act_simps)

end
