(* ===== verification/Literals.thy ===== *)
theory Literals
  imports Prelude
begin

text \<open>
  The Vietnamese literals of the backend, as the UTF-16 code units the source file contains. A gloss
  stands before each. They occur in exception messages, in previews and in placeholders; no proof
  looks inside them.
\<close>

text \<open>The shared remote processor has no host configured\<close>

definition txtConfigMissing :: jstr where
  "txtConfigMissing =
    [84, 104, 105, 7871, 117, 32, 99, 7845, 117, 32, 104, 236, 110, 104, 32, 104, 111, 115, 116,
     32, 99, 7911, 97, 32, 114, 101, 109, 111, 116, 101, 32, 112, 114, 111, 99, 101, 115,
     115, 111, 114, 32, 100, 249, 110, 103, 32, 99, 104, 117, 110, 103]"

text \<open>The shared remote processor has an invalid port\<close>

definition txtConfigInvalid :: jstr where
  "txtConfigInvalid =
    [67, 7845, 117, 32, 104, 236, 110, 104, 32, 99, 7893, 110, 103, 32, 114, 101, 109, 111, 116,
     101, 32, 112, 114, 111, 99, 101, 115, 115, 111, 114, 32, 100, 249, 110, 103, 32, 99,
     104, 117, 110, 103, 32, 107, 104, 244, 110, 103, 32, 104, 7907, 112, 32, 108, 7879]"

text \<open>The message could not be encrypted for storage\<close>

definition txtEncryptFailed :: jstr where
  "txtEncryptFailed =
    [75, 104, 244, 110, 103, 32, 116, 104, 7875, 32, 109, 227, 32, 104, 111, 225, 32, 110, 103,
     432, 7907, 99, 32, 116, 105, 110, 32, 110, 104, 7855, 110, 32, 273, 7875, 32, 108, 432,
     117, 32, 116, 114, 7919]"

text \<open>The message could not be restored for display\<close>

definition txtDecryptFailed :: jstr where
  "txtDecryptFailed =
    [75, 104, 244, 110, 103, 32, 116, 104, 7875, 32, 107, 104, 244, 105, 32, 112, 104, 7909, 99,
     32, 110, 7897, 105, 32, 100, 117, 110, 103, 32, 116, 105, 110, 32, 110, 104, 7855, 110,
     32, 273, 7875, 32, 104, 105, 7875, 110, 32, 116, 104, 7883]"

text \<open>The encryption service timed out\<close>

definition txtEncryptTimeout :: jstr where
  "txtEncryptTimeout =
    [72, 7871, 116, 32, 116, 104, 7901, 105, 32, 103, 105, 97, 110, 32, 99, 104, 7901, 32, 100,
     7883, 99, 104, 32, 118, 7909, 32, 109, 227, 32, 104, 111, 225, 32, 110, 103, 432, 7907,
     99, 32, 112, 104, 7843, 110, 32, 104, 7891, 105]"

text \<open>The encryption service could not be reached\<close>

definition txtEncryptConnection :: jstr where
  "txtEncryptConnection =
    [75, 104, 244, 110, 103, 32, 107, 7871, 116, 32, 110, 7889, 105, 32, 273, 432, 7907, 99, 32,
     116, 7899, 105, 32, 100, 7883, 99, 104, 32, 118, 7909, 32, 109, 227, 32, 104, 111, 225,
     32, 110, 103, 432, 7907, 99]"

text \<open>The connection to the encryption service closed early\<close>

definition txtEncryptClosed :: jstr where
  "txtEncryptClosed =
    [75, 7871, 116, 32, 110, 7889, 105, 32, 116, 7899, 105, 32, 100, 7883, 99, 104, 32, 118,
     7909, 32, 109, 227, 32, 104, 111, 225, 32, 110, 103, 432, 7907, 99, 32, 98, 7883, 32,
     273, 243, 110, 103, 32, 115, 7899, 109]"

text \<open>SHA1 processing failed\<close>

definition txtSha1Failed :: jstr where
  "txtSha1Failed =
    [75, 104, 244, 110, 103, 32, 116, 104, 7875, 32, 120, 7917, 32, 108, 253, 32, 83, 72, 65, 49,
     32, 99, 104, 111, 32, 108, 111, 99, 97, 108, 32, 97, 117, 116, 104, 58, 32]"

text \<open>The SHA1 service timed out\<close>

definition txtSha1Timeout :: jstr where
  "txtSha1Timeout =
    [72, 7871, 116, 32, 116, 104, 7901, 105, 32, 103, 105, 97, 110, 32, 99, 104, 7901, 32, 100,
     7883, 99, 104, 32, 118, 7909, 32, 83, 72, 65, 49, 32, 99, 104, 111, 32, 108, 111, 99,
     97, 108, 32, 97, 117, 116, 104, 32, 112, 104, 7843, 110, 32, 104, 7891, 105]"

text \<open>The SHA1 service could not be reached\<close>

definition txtSha1Connection :: jstr where
  "txtSha1Connection =
    [75, 104, 244, 110, 103, 32, 107, 7871, 116, 32, 110, 7889, 105, 32, 273, 432, 7907, 99, 32,
     116, 7899, 105, 32, 100, 7883, 99, 104, 32, 118, 7909, 32, 83, 72, 65, 49, 32, 99, 104,
     111, 32, 108, 111, 99, 97, 108, 32, 97, 117, 116, 104]"

text \<open>The connection to the SHA1 service closed early\<close>

definition txtSha1Closed :: jstr where
  "txtSha1Closed =
    [75, 7871, 116, 32, 110, 7889, 105, 32, 116, 7899, 105, 32, 100, 7883, 99, 104, 32, 118,
     7909, 32, 83, 72, 65, 49, 32, 99, 104, 111, 32, 108, 111, 99, 97, 108, 32, 97, 117,
     116, 104, 32, 98, 7883, 32, 273, 243, 110, 103, 32, 115, 7899, 109]"

text \<open>Placeholder for a message that cannot be restored\<close>

definition txtUndecodable :: jstr where
  "txtUndecodable =
    [91, 75, 104, 244, 110, 103, 32, 116, 104, 7875, 32, 107, 104, 244, 105, 32, 112, 104, 7909,
     99, 32, 110, 7897, 105, 32, 100, 117, 110, 103, 32, 116, 105, 110, 32, 110, 104, 7855,
     110, 93]"

text \<open>Title of a direct conversation without a peer\<close>

definition txtNewChat :: jstr where
  "txtNewChat =
    [272, 111, 7841, 110, 32, 99, 104, 97, 116, 32, 109, 7899, 105]"

text \<open>Title of a group without a title\<close>

definition txtGroupChat :: jstr where
  "txtGroupChat =
    [78, 104, 243, 109, 32, 99, 104, 97, 116]"

text \<open>Prefix of the preview of an image\<close>

definition txtImageTag :: jstr where
  "txtImageTag =
    [91, 7842, 110, 104, 93, 32]"

text \<open>Prefix of the preview of a file\<close>

definition txtFileTag :: jstr where
  "txtFileTag =
    [91, 84, 7879, 112, 93, 32]"

text \<open>Default moderation warning\<close>

definition txtWarning :: jstr where
  "txtWarning =
    [78, 7897, 105, 32, 100, 117, 110, 103, 32, 110, 224, 121, 32, 99, 243, 32, 116, 104, 7875,
     32, 103, 226, 121, 32, 107, 104, 243, 32, 99, 104, 7883, 117, 46]"

end
