(* ===== verification/Processor.thy ===== *)
theory Processor
  imports EnvConfig Literals
begin

text \<open>
  The clients of the remote processor: \<open>chat/chat-encryption.service.ts\<close> and
  \<open>auth/auth-processing.service.ts\<close>. A request is a fixed block of 1164 bytes with little-endian
  header words and NUL-terminated fields, a response a block of 588 bytes collected from however many
  chunks the socket delivers. The promise of \<open>exchange\<close> is the run of a small state machine over the
  socket's events. The socket's idle timer is armed before connecting, so a connection on which
  nothing more happens ends with a timeout event.
\<close>

subsection \<open>Wire constants\<close>

definition CHAT_REQUEST_SIZE :: nat where "CHAT_REQUEST_SIZE = 1164"
definition CHAT_RESPONSE_SIZE :: nat where "CHAT_RESPONSE_SIZE = 588"
definition CHAT_MAX_USERNAME :: nat where "CHAT_MAX_USERNAME = 32"
definition CHAT_MAX_PASSWORD :: nat where "CHAT_MAX_PASSWORD = 64"
definition CHAT_MAX_MESSAGE :: nat where "CHAT_MAX_MESSAGE = 512"
definition CHAT_MAX_RESULT :: nat where "CHAT_MAX_RESULT = 512"
definition REQUEST_AUTH_LOGIN :: nat where "REQUEST_AUTH_LOGIN = 1"
definition REQUEST_CHAT_MESSAGE :: nat where "REQUEST_CHAT_MESSAGE = 2"
definition PROCESS_SUBSTITUTION :: nat where "PROCESS_SUBSTITUTION = 1"
definition PROCESS_SHA1 :: nat where "PROCESS_SHA1 = 2"
definition PROCESS_SUBSTITUTION_DECRYPT :: nat where "PROCESS_SUBSTITUTION_DECRYPT = 3"
definition RESPONSE_ACK :: nat where "RESPONSE_ACK = 1"
definition STATUS_OK :: int where "STATUS_OK = 0"

lemmas wire_consts = CHAT_REQUEST_SIZE_def CHAT_RESPONSE_SIZE_def CHAT_MAX_USERNAME_def
  CHAT_MAX_PASSWORD_def CHAT_MAX_MESSAGE_def CHAT_MAX_RESULT_def REQUEST_AUTH_LOGIN_def
  REQUEST_CHAT_MESSAGE_def PROCESS_SUBSTITUTION_def PROCESS_SHA1_def
  PROCESS_SUBSTITUTION_DECRYPT_def RESPONSE_ACK_def STATUS_OK_def

record remote_response =
  rr_messageId :: nat
  rr_responseType :: nat
  rr_status :: int
  rr_payload :: jstr

subsection \<open>Buffers\<close>

definition writeAt :: "byte list \<Rightarrow> nat \<Rightarrow> byte list \<Rightarrow> byte list" where
  "writeAt buf off bs = take off buf @ bs @ drop (off + length bs) buf"

definition leBytes :: "nat \<Rightarrow> byte list" where
  "leBytes v = [of_nat v, of_nat (v div 256), of_nat (v div 65536), of_nat (v div 16777216)]"

definition readUInt32LE :: "byte list \<Rightarrow> nat \<Rightarrow> nat" where
  "readUInt32LE buf off =
     unat (buf ! off) + 256 * unat (buf ! (off + 1)) + 65536 * unat (buf ! (off + 2))
       + 16777216 * unat (buf ! (off + 3))"

definition readInt32LE :: "byte list \<Rightarrow> nat \<Rightarrow> int" where
  "readInt32LE buf off = sint (of_nat (readUInt32LE buf off) :: 32 word)"

text \<open>\<open>Buffer.writeUInt32LE\<close> throws when the value does not fit.\<close>

definition writeUInt32LE :: "byte list \<Rightarrow> nat \<Rightarrow> nat \<Rightarrow> byte list act" where
  "writeUInt32LE buf v off =
     (if v < 2 ^ 32 then ret (writeAt buf off (leBytes v)) else throw RangeError)"

definition writeCString :: "byte list \<Rightarrow> nat \<Rightarrow> nat \<Rightarrow> jstr \<Rightarrow> byte list" where
  "writeCString buf off sz v =
     (let encoded = take (sz - 1) (bufferFrom v)
      in (writeAt buf off encoded)[off + length encoded := 0])"

definition readCString :: "byte list \<Rightarrow> nat \<Rightarrow> nat \<Rightarrow> jstr" where
  "readCString buf off sz = bufferToString (takeWhile (\<lambda>b. b \<noteq> 0) (take sz (drop off buf)))"

definition parseResponse :: "byte list \<Rightarrow> remote_response" where
  "parseResponse buf = \<lparr>
     rr_messageId = readUInt32LE buf 0,
     rr_responseType = (if readUInt32LE buf 4 = 0 then RESPONSE_ACK else readUInt32LE buf 4),
     rr_status = readInt32LE buf 8,
     rr_payload = readCString buf 76 CHAT_MAX_RESULT\<rparr>"

subsection \<open>Requests\<close>

definition nextChatId :: "nat act" where
  "nextChatId = bind (gets w_chatMessageId) (\<lambda>current.
     bind (modify (\<lambda>w. w\<lparr>w_chatMessageId := current + 1\<rparr>)) (\<lambda>_. ret current))"

definition nextAuthId :: "nat act" where
  "nextAuthId = bind (gets w_authMessageId) (\<lambda>current.
     bind (modify (\<lambda>w. w\<lparr>w_authMessageId := current + 1\<rparr>)) (\<lambda>_. ret current))"

definition buildRequest :: "nat \<Rightarrow> jstr \<Rightarrow> jstr \<Rightarrow> jstr \<Rightarrow> byte list act" where
  "buildRequest mode content senderId conversationId =
     bind nextChatId (\<lambda>messageId.
     bind (writeUInt32LE (replicate CHAT_REQUEST_SIZE 0) messageId 0) (\<lambda>b0.
     bind (writeUInt32LE b0 REQUEST_CHAT_MESSAGE 4) (\<lambda>b1.
     bind (writeUInt32LE b1 mode 8) (\<lambda>b2.
     let b3 = writeCString b2 12 CHAT_MAX_USERNAME senderId;
         b4 = writeCString b3 (12 + CHAT_MAX_USERNAME) CHAT_MAX_USERNAME conversationId;
         b5 = writeCString b4 (12 + CHAT_MAX_USERNAME + CHAT_MAX_USERNAME + CHAT_MAX_PASSWORD)
                CHAT_MAX_MESSAGE content
     in ret b5))))"

definition buildSha1Request :: "jstr \<Rightarrow> jstr \<Rightarrow> byte list act" where
  "buildSha1Request email password =
     bind nextAuthId (\<lambda>messageId.
     bind (writeUInt32LE (replicate CHAT_REQUEST_SIZE 0) messageId 0) (\<lambda>b0.
     bind (writeUInt32LE b0 REQUEST_AUTH_LOGIN 4) (\<lambda>b1.
     bind (writeUInt32LE b1 PROCESS_SHA1 8) (\<lambda>b2.
     let b3 = writeCString b2 12 CHAT_MAX_USERNAME email;
         b4 = writeCString b3 (12 + CHAT_MAX_USERNAME + CHAT_MAX_USERNAME) CHAT_MAX_PASSWORD password
     in ret b4))))"

subsection \<open>The exchange over a socket\<close>

record exchange_state =
  ex_chunks :: "byte list list"
  ex_received :: nat
  ex_settled :: "(exn + remote_response) option"

record exchange_errors =
  on_timeout :: exn
  on_error :: exn
  on_close :: exn

definition failExchange :: "exn \<Rightarrow> exchange_state \<Rightarrow> exchange_state" where
  "failExchange e s = (if ex_settled s \<noteq> None then s else s\<lparr>ex_settled := Some (Inl e)\<rparr>)"

fun onEvent :: "exchange_errors \<Rightarrow> exchange_state \<Rightarrow> net_event \<Rightarrow> exchange_state" where
  "onEvent errs s NetConnect = s"
| "onEvent errs s (NetData chunk) =
     (let s' = s\<lparr>ex_chunks := ex_chunks s @ [chunk], ex_received := ex_received s + length chunk\<rparr>
      in if ex_received s' < CHAT_RESPONSE_SIZE \<or> ex_settled s' \<noteq> None then s'
         else s'\<lparr>ex_settled :=
                Some (Inr (parseResponse (take CHAT_RESPONSE_SIZE (concat (ex_chunks s')))))\<rparr>)"
| "onEvent errs s NetTimeout = failExchange (on_timeout errs) s"
| "onEvent errs s NetError = failExchange (on_error errs) s"
| "onEvent errs s NetClose =
     (if ex_settled s = None \<and> ex_received s < CHAT_RESPONSE_SIZE
      then failExchange (on_close errs) s else s)"

definition exchangeStart :: exchange_state where
  "exchangeStart = \<lparr>ex_chunks = [], ex_received = 0, ex_settled = None\<rparr>"

definition runExchange :: "exchange_errors \<Rightarrow> net_event list \<Rightarrow> exn + remote_response" where
  "runExchange errs es =
     (case ex_settled (fold (\<lambda>e s. onEvent errs s e) es exchangeStart) of
        Some r \<Rightarrow> r
      | None \<Rightarrow> Inl (on_timeout errs))"

definition exchange :: "platform \<Rightarrow> exchange_errors \<Rightarrow> byte list \<Rightarrow> jstr \<Rightarrow> jsnum \<Rightarrow> remote_response act" where
  "exchange pf errs request host port =
     bind (gets w_netCalls) (\<lambda>k.
     bind (modify (\<lambda>w. w\<lparr>w_netCalls := k + 1\<rparr>)) (\<lambda>_.
     case runExchange errs (pf_net pf k host port request) of
       Inl e \<Rightarrow> throw e | Inr r \<Rightarrow> ret r))"

definition chatErrors :: exchange_errors where
  "chatErrors = \<lparr>
     on_timeout = ChatProcessingError ''REVERSE_ENCRYPTION_TIMEOUT'' txtEncryptTimeout,
     on_error = ChatProcessingError ''REVERSE_ENCRYPTION_CONNECTION_FAILED'' txtEncryptConnection,
     on_close = ChatProcessingError ''REVERSE_ENCRYPTION_IO_FAILED'' txtEncryptClosed\<rparr>"

definition authErrors :: exchange_errors where
  "authErrors = \<lparr>
     on_timeout = AuthProcessingError ''LOCAL_AUTH_SHA1_TIMEOUT'' txtSha1Timeout,
     on_error = AuthProcessingError ''LOCAL_AUTH_SHA1_CONNECTION_FAILED'' txtSha1Connection,
     on_close = AuthProcessingError ''LOCAL_AUTH_SHA1_IO_FAILED'' txtSha1Closed\<rparr>"

subsection \<open>The services\<close>

definition orText :: "jstr \<Rightarrow> string \<Rightarrow> jstr" where
  "orText s d = (if s = [] then js d else s)"

definition processRemote ::
    "platform \<Rightarrow> nat \<Rightarrow> jstr \<Rightarrow> jstr \<Rightarrow> jstr \<Rightarrow> string \<Rightarrow> jstr \<Rightarrow> jstr act" where
  "processRemote pf mode content senderId conversationId failureCode failureMessage =
     bind (backendEnv pf) (\<lambda>env.
     if PROCESSOR_REMOTE_HOST env = []
     then throw (ChatProcessingError ''REVERSE_ENCRYPTION_CONFIG_MISSING'' txtConfigMissing)
     else if leZero (PROCESSOR_REMOTE_PORT env)
     then throw (ChatProcessingError ''REVERSE_ENCRYPTION_CONFIG_INVALID'' txtConfigInvalid)
     else bind (buildRequest mode content senderId conversationId) (\<lambda>request.
     bind (exchange pf chatErrors request (PROCESSOR_REMOTE_HOST env) (PROCESSOR_REMOTE_PORT env)) (\<lambda>response.
     if rr_status response \<noteq> STATUS_OK
     then throw (ChatProcessingError failureCode
            (failureMessage @ js '': '' @ orText (rr_payload response) ''processor-error''))
     else ret (rr_payload response))))"

record encrypted_content =
  enc_content :: jstr
  enc_state :: reverse_encryption_state
  enc_decodeErrorCode :: "string option"

record displayed_content =
  disp_content :: jstr
  disp_state :: message_display_state
  disp_decodeErrorCode :: "string option"

definition encryptForStorage :: "platform \<Rightarrow> jstr \<Rightarrow> jstr \<Rightarrow> jstr \<Rightarrow> encrypted_content act" where
  "encryptForStorage pf content senderId conversationId =
     bind (backendEnv pf) (\<lambda>env.
     if \<not> CHAT_REVERSE_ENCRYPTION_ENABLED env
     then ret \<lparr>enc_content = content, enc_state = Legacy, enc_decodeErrorCode = None\<rparr>
     else bind (processRemote pf PROCESS_SUBSTITUTION content senderId conversationId
                  ''REVERSE_ENCRYPTION_UNAVAILABLE'' txtEncryptFailed) (\<lambda>payload.
          ret \<lparr>enc_content = payload, enc_state = Encrypted, enc_decodeErrorCode = None\<rparr>))"

definition decryptForDisplay ::
    "platform \<Rightarrow> jstr \<Rightarrow> reverse_encryption_state \<Rightarrow> jstr \<Rightarrow> jstr \<Rightarrow> displayed_content act" where
  "decryptForDisplay pf content state senderId conversationId =
     (if state \<noteq> Encrypted
      then ret \<lparr>disp_content = content, disp_state = DisplayReady, disp_decodeErrorCode = None\<rparr>
      else bind (processRemote pf PROCESS_SUBSTITUTION_DECRYPT content senderId conversationId
                   ''REVERSE_DECRYPTION_UNAVAILABLE'' txtDecryptFailed) (\<lambda>payload.
           ret \<lparr>disp_content = payload, disp_state = DisplayReady, disp_decodeErrorCode = None\<rparr>))"

definition isLocalAuthEnabled :: "platform \<Rightarrow> bool act" where
  "isLocalAuthEnabled pf = bind (backendEnv pf) (\<lambda>env. ret (AUTH_LOCAL_ENABLED env))"

definition sha1Exchange :: "platform \<Rightarrow> byte list \<Rightarrow> jstr \<Rightarrow> jsnum \<Rightarrow> remote_response act" where
  "sha1Exchange pf request host port = exchange pf authErrors request host port"

definition hashPasswordWithSha1 :: "platform \<Rightarrow> jstr \<Rightarrow> jstr \<Rightarrow> jstr act" where
  "hashPasswordWithSha1 pf email password =
     bind (backendEnv pf) (\<lambda>env.
     if PROCESSOR_REMOTE_HOST env = []
     then throw (AuthProcessingError ''LOCAL_AUTH_SHA1_CONFIG_MISSING'' txtConfigMissing)
     else bind (buildSha1Request email password) (\<lambda>request.
     bind (sha1Exchange pf request (PROCESSOR_REMOTE_HOST env) (PROCESSOR_REMOTE_PORT env)) (\<lambda>response.
     if rr_status response \<noteq> STATUS_OK
     then throw (AuthProcessingError ''LOCAL_AUTH_SHA1_UNAVAILABLE''
            (txtSha1Failed @ orText (rr_payload response) ''processor-error''))
     else ret (rr_payload response))))"

lemma technical_processor [technical_intros]:
  "technical (backendEnv pf)" "technical (encryptForStorage pf c s v)"
  "technical (decryptForDisplay pf c st s v)" "technical (isLocalAuthEnabled pf)"
  "technical (hashPasswordWithSha1 pf e p)"
proof -
  have base: "technical nextChatId" "technical nextAuthId" "technical (writeUInt32LE b n o')"
    "technical (exchange pf errs r h q)" for b n o' errs r h q
    by (auto intro!: technicalI simp: nextChatId_def nextAuthId_def writeUInt32LE_def exchange_def
        act_defs dataOf_def split: sum.split)
  show env: "technical (backendEnv pf)"
    unfolding backendEnv_def by (auto intro!: technical_intros split: option.split)
  have remote: "technical (processRemote pf m c s v fc fm)" for m c s v fc fm
    unfolding processRemote_def buildRequest_def Let_def by (intro technical_intros base env)
  show "technical (encryptForStorage pf c s v)" "technical (decryptForDisplay pf c st s v)"
    "technical (isLocalAuthEnabled pf)" "technical (hashPasswordWithSha1 pf e p)"
    unfolding encryptForStorage_def decryptForDisplay_def isLocalAuthEnabled_def
      hashPasswordWithSha1_def sha1Exchange_def buildSha1Request_def Let_def
    by (intro technical_intros base env remote)+
qed

lemmas keeps_processor [keeps_intros] = technical_processor [THEN technical_worldOk]
  technical_processor [THEN technical_unusedId]

subsection \<open>Buffers: length, reads and non-overlapping writes\<close>

lemma length_writeAt [simp]:
  "off + length bs \<le> length buf \<Longrightarrow> length (writeAt buf off bs) = length buf"
  by (simp add: writeAt_def)

lemma length_leBytes [simp]: "length (leBytes v) = 4"
  by (simp add: leBytes_def)

lemma length_writeCString [simp]:
  "off + sz \<le> length buf \<Longrightarrow> 0 < sz \<Longrightarrow> length (writeCString buf off sz v) = length buf"
  by (simp add: writeCString_def Let_def)

lemma take_drop_writeAt_before:
  assumes "o' + n \<le> off" "off \<le> length buf"
  shows "take n (drop o' (writeAt buf off bs)) = take n (drop o' buf)"
proof -
  have "take n (drop o' (writeAt buf off bs)) = drop o' (take (o' + n) (take off buf))"
    using assms by (simp add: writeAt_def take_drop add.commute)
  also have "\<dots> = take n (drop o' buf)"
    using assms by (simp add: take_drop min_def add.commute)
  finally show ?thesis .
qed

lemma take_drop_writeCString_before:
  assumes "o' + n \<le> off" "off + sz \<le> length buf" "0 < sz"
  shows "take n (drop o' (writeCString buf off sz v)) = take n (drop o' buf)"
  using assms by (simp add: writeCString_def Let_def drop_update_swap take_update_cancel take_drop_writeAt_before)

lemma readCString_before:
  assumes "o' + n \<le> off" "off + sz \<le> length buf" "0 < sz"
  shows "readCString (writeCString buf off sz v) o' n = readCString buf o' n"
  using take_drop_writeCString_before [OF assms] by (simp add: readCString_def)

lemma nth_writeCString_before:
  assumes "i < off" "off + sz \<le> length buf" "0 < sz"
  shows "writeCString buf off sz v ! i = buf ! i"
  using assms by (simp add: writeCString_def Let_def writeAt_def nth_append)

lemma readUInt32LE_before:
  assumes "o' + 4 \<le> off" "off + sz \<le> length buf" "0 < sz"
  shows "readUInt32LE (writeCString buf off sz v) o' = readUInt32LE buf o'"
  using assms by (simp add: readUInt32LE_def nth_writeCString_before)

lemma readUInt32LE_other:
  assumes "o' + 4 \<le> off" "off \<le> length buf"
  shows "readUInt32LE (writeAt buf off bs) o' = readUInt32LE buf o'"
  using assms by (simp add: readUInt32LE_def writeAt_def nth_append)

lemma base256:
  fixes v :: nat
  assumes "v < 2 ^ 32"
  shows "v mod 256 + 256 * (v div 256 mod 256) + 65536 * (v div 65536 mod 256)
    + 16777216 * (v div 16777216 mod 256) = v"
proof -
  let ?a = "v div 256" and ?b = "v div 256 div 256" and ?c = "v div 256 div 256 div 256"
  have d: "v div 65536 = ?b" "v div 16777216 = ?c"
    by (simp_all flip: div_mult2_eq)
  have "?c < 256" using assms by (simp add: flip: div_mult2_eq)
  then have "?c mod 256 = ?c" by simp
  moreover have "256 * ?a + v mod 256 = v" "256 * ?b + ?a mod 256 = ?a" "256 * ?c + ?b mod 256 = ?b"
    by simp_all
  ultimately show ?thesis unfolding d by linarith
qed

lemma readUInt32LE_writeAt:
  assumes "v < 2 ^ 32" "off + 4 \<le> length buf"
  shows "readUInt32LE (writeAt buf off (leBytes v)) off = v"
proof -
  let ?w = "writeAt buf off (leBytes v)"
  have nth: "?w ! (off + k) = leBytes v ! k" if "k < 4" for k
    using that assms(2) by (simp add: writeAt_def nth_append)
  have "?w ! off = of_nat v" "?w ! (off + 1) = of_nat (v div 256)"
    "?w ! (off + 2) = of_nat (v div 65536)" "?w ! (off + 3) = of_nat (v div 16777216)"
    using nth [of 0] nth [of 1] nth [of 2] nth [of 3]
    by (simp_all only: leBytes_def) simp_all
  then have "readUInt32LE ?w off =
      v mod 256 + 256 * (v div 256 mod 256) + 65536 * (v div 65536 mod 256)
        + 16777216 * (v div 16777216 mod 256)"
    unfolding readUInt32LE_def by (simp only: unat_of_nat) simp
  also have "\<dots> = v"
    by (rule base256 [OF assms(1)])
  finally show ?thesis .
qed

lemma readCString_writeCString:
  assumes fits: "length (bufferFrom v) < sz" and buf: "off + sz \<le> length buf"
    and nul: "0 \<notin> set (bufferFrom v)" and wf: "wellFormed v"
  shows "readCString (writeCString buf off sz v) off sz = v"
proof -
  let ?e = "bufferFrom v"
  have e: "take (sz - 1) ?e = ?e" using fits by simp
  have "drop off (writeCString buf off sz v) = (?e @ drop (off + length ?e) buf)[length ?e := 0]"
    using buf fits by (simp add: writeCString_def Let_def e writeAt_def list_update_append)
  also have "\<dots> = ?e @ 0 # drop (Suc (off + length ?e)) buf"
  proof -
    have "drop (off + length ?e) buf = buf ! (off + length ?e) # drop (Suc (off + length ?e)) buf"
      using buf fits by (simp add: Cons_nth_drop_Suc)
    then show ?thesis by (simp add: list_update_append)
  qed
  finally have "take sz (drop off (writeCString buf off sz v)) =
      ?e @ take (sz - length ?e) (0 # drop (Suc (off + length ?e)) buf)"
    using fits by simp
  moreover obtain k where "sz - length ?e = Suc k" using fits by (metis Suc_diff_Suc)
  ultimately have "take sz (drop off (writeCString buf off sz v)) =
      ?e @ 0 # take k (drop (Suc (off + length ?e)) buf)"
    by (simp only: take_Suc_Cons)
  moreover have "takeWhile (\<lambda>b. b \<noteq> 0) (xs @ 0 # ys) = xs" if "0 \<notin> set xs" for xs ys :: "byte list"
    using that by (induction xs) auto
  ultimately have "takeWhile (\<lambda>b. b \<noteq> 0) (take sz (drop off (writeCString buf off sz v))) = ?e"
    using nul by simp
  then show ?thesis by (simp add: readCString_def bufferToString_bufferFrom wf)
qed

lemma bufferFrom_ascii:
  assumes "\<forall>c\<in>set s. unat c < 0x80"
  shows "bufferFrom s = map (\<lambda>c. of_nat (unat c)) s"
proof -
  have "codePoints us = us" if "\<forall>u\<in>set us. u < 0x80" for us
    using that by (induction us rule: codePoints.induct) (auto simp: isHigh_def isLow_def)
  then have cps: "codePoints (map unat s) = map unat s" using assms by simp
  have enc: "concat (map encodePoint us) = us" if "\<forall>u\<in>set us. u < 0x80" for us
    using that by (induction us) (auto simp: encodePoint_def)
  have "concat (map encodePoint (map unat s)) = map unat s"
    by (rule enc) (simp add: assms)
  then show ?thesis
    unfolding bufferFrom_def cps by (simp only: map_map comp_def)
qed

subsection \<open>The request carries its fields\<close>

text \<open>A field survives the fixed-width slot when it is well-formed text without NUL that fits.\<close>

definition fieldOk :: "nat \<Rightarrow> jstr \<Rightarrow> bool" where
  "fieldOk sz v \<longleftrightarrow> wellFormed v \<and> 0 \<notin> set (bufferFrom v) \<and> length (bufferFrom v) < sz"

lemma readCString_field:
  "fieldOk sz v \<Longrightarrow> off + sz \<le> length buf \<Longrightarrow> readCString (writeCString buf off sz v) off sz = v"
  by (simp add: fieldOk_def readCString_writeCString)

lemma fieldOk_js:
  assumes "\<forall>c\<in>set s. of_char c \<noteq> (0::nat) \<and> of_char c < (0x80::nat)" "length s < sz"
  shows "fieldOk sz (js s)"
proof -
  have "bufferFrom (js s) = map (\<lambda>c. of_nat (unat c)) (js s)"
    using assms(1) by (intro bufferFrom_ascii) (auto simp: js_def unat_of_char_16)
  also have "\<dots> = map (\<lambda>c. of_nat (of_char c)) s"
    by (simp only: js_def map_map comp_def unat_of_char_16)
  finally have "bufferFrom (js s) = map (\<lambda>c. of_nat (of_char c)) s" .
  moreover have "(of_nat (of_char c) :: byte) \<noteq> 0" if "c \<in> set s" for c
  proof
    assume "(of_nat (of_char c) :: byte) = 0"
    then have "unat (of_nat (of_char c) :: byte) = 0" by (simp only: unat_0)
    moreover have "of_char c < (2::nat) ^ 8" using nat_of_char_less_256 [of c] by simp
    ultimately have "of_char c = (0::nat)" by (simp add: unat_of_nat)
    with assms(1) that show False by blast
  qed
  ultimately show ?thesis using assms(2) by (auto simp: fieldOk_def)
qed

lemma buildRequest_run:
  assumes "w_chatMessageId w < 2 ^ 32" "mode < 2 ^ 32"
  shows "buildRequest mode content senderId conversationId w =
    (Inr (writeCString (writeCString (writeCString
       (writeAt (writeAt (writeAt (replicate 1164 0) 0 (leBytes (w_chatMessageId w))) 4 (leBytes 2))
          8 (leBytes mode)) 12 32 senderId) 44 32 conversationId) 140 512 content),
     w\<lparr>w_chatMessageId := Suc (w_chatMessageId w)\<rparr>)"
  using assms
  by (simp add: buildRequest_def nextChatId_def writeUInt32LE_def act_simps wire_consts Let_def)

text \<open>
  The request built for the processor is a block of 1164 bytes from which the header words
  and all three text fields can be read back, provided each field is well-formed, NUL-free and shorter
  than its slot; the message counter advances by one.
\<close>

theorem buildRequest_layout:
  assumes "w_chatMessageId w < 2 ^ 32" "mode < 2 ^ 32"
    and "fieldOk CHAT_MAX_USERNAME senderId" "fieldOk CHAT_MAX_USERNAME conversationId"
    and "fieldOk CHAT_MAX_MESSAGE content"
  shows "\<exists>buf. buildRequest mode content senderId conversationId w =
      (Inr buf, w\<lparr>w_chatMessageId := Suc (w_chatMessageId w)\<rparr>) \<and>
    length buf = CHAT_REQUEST_SIZE \<and>
    readUInt32LE buf 0 = w_chatMessageId w \<and> readUInt32LE buf 4 = REQUEST_CHAT_MESSAGE \<and>
    readUInt32LE buf 8 = mode \<and>
    readCString buf 12 CHAT_MAX_USERNAME = senderId \<and>
    readCString buf 44 CHAT_MAX_USERNAME = conversationId \<and>
    readCString buf 140 CHAT_MAX_MESSAGE = content"
  using assms
  by (simp add: buildRequest_run wire_consts readCString_before readCString_field readUInt32LE_before
      readUInt32LE_other readUInt32LE_writeAt)

text \<open>
  Only the first 511 bytes of a message reach the processor. Two messages that agree on
  them produce the same request, so what follows is lost when encryption for storage is on.
\<close>

theorem buildRequest_truncates:
  assumes "take 511 (bufferFrom c1) = take 511 (bufferFrom c2)"
  shows "buildRequest mode c1 senderId conversationId = buildRequest mode c2 senderId conversationId"
  using assms by (simp add: buildRequest_def writeCString_def wire_consts)

theorem buildRequest_truncates_witness:
  "buildRequest 1 (replicate 511 0x61 @ [0x62]) [] [] = buildRequest 1 (replicate 511 0x61 @ [0x63]) [] []
   \<and> replicate 511 (0x61 :: jchar) @ [0x62] \<noteq> replicate 511 0x61 @ [0x63]"
proof -
  have "bufferFrom (replicate 511 0x61 @ [c]) = replicate 511 0x61 @ [of_nat (unat c)]"
    if "unat c < 0x80" for c
    by (subst bufferFrom_ascii) (use that in auto)
  then have "take 511 (bufferFrom (replicate 511 0x61 @ [0x62])) =
      take 511 (bufferFrom (replicate 511 0x61 @ [0x63]))"
    by simp
  from buildRequest_truncates [OF this, of 1 "[]" "[]"] show ?thesis by simp
qed

subsection \<open>The exchange settles once, whatever the chunking\<close>

lemma onEvent_settled: "ex_settled s = Some r \<Longrightarrow> ex_settled (onEvent errs s e) = Some r"
  by (cases e) (simp_all add: failExchange_def Let_def)

lemma fold_settled:
  "ex_settled s = Some r \<Longrightarrow> ex_settled (fold (\<lambda>e s. onEvent errs s e) es s) = Some r"
  by (induction es arbitrary: s) (auto simp: onEvent_settled)

lemma fold_chunks:
  assumes "ex_settled s = None" "ex_received s = length (concat (ex_chunks s))"
    "ex_received s < CHAT_RESPONSE_SIZE"
  shows "ex_settled (fold (\<lambda>e s. onEvent errs s e) (map NetData cs) s) =
    (if length (concat (ex_chunks s @ cs)) < CHAT_RESPONSE_SIZE then None
     else Some (Inr (parseResponse (take CHAT_RESPONSE_SIZE (concat (ex_chunks s @ cs))))))"
  using assms
proof (induction cs arbitrary: s)
  case Nil
  then show ?case by simp
next
  case (Cons c cs)
  let ?s = "s\<lparr>ex_chunks := ex_chunks s @ [c], ex_received := ex_received s + length c\<rparr>"
  show ?case
  proof (cases "ex_received s + length c < CHAT_RESPONSE_SIZE")
    case True
    then have "onEvent errs s (NetData c) = ?s" by (simp add: Let_def)
    with Cons.IH [of ?s] Cons.prems True show ?thesis by simp
  next
    case False
    then have "ex_settled (onEvent errs s (NetData c)) =
        Some (Inr (parseResponse (take CHAT_RESPONSE_SIZE (concat (ex_chunks s @ [c])))))"
      using Cons.prems by (simp add: Let_def)
    with fold_settled show ?thesis
      using False Cons.prems by (fastforce simp: take_append)
  qed
qed

text \<open>
  C37: the response the exchange resolves with depends only on the first 588 bytes that arrive,
  not on how they were cut into chunks nor on anything that happens afterwards.
\<close>

theorem exchange_chunking:
  assumes "CHAT_RESPONSE_SIZE \<le> length (concat cs)"
  shows "runExchange errs (NetConnect # map NetData cs @ es) =
    Inr (parseResponse (take CHAT_RESPONSE_SIZE (concat cs)))"
proof -
  have "ex_settled (fold (\<lambda>e s. onEvent errs s e) (map NetData cs) exchangeStart) =
      Some (Inr (parseResponse (take CHAT_RESPONSE_SIZE (concat cs))))"
    using fold_chunks [of exchangeStart errs cs] assms by (simp add: exchangeStart_def wire_consts)
  from fold_settled [OF this] show ?thesis
    by (simp add: runExchange_def)
qed

theorem exchange_chunking_witness:
  "runExchange chatErrors (NetConnect # map NetData [replicate 300 0, replicate 300 0] @ [NetClose]) =
     Inr (parseResponse (replicate 588 0))"
proof -
  have "CHAT_RESPONSE_SIZE \<le> length (concat [replicate 300 (0::byte), replicate 300 0])"
    by (simp add: wire_consts)
  from exchange_chunking [OF this, of chatErrors "[NetClose]"] show ?thesis
    by (simp add: wire_consts flip: replicate_add)
qed

text \<open>
  A connection that ends, times out or fails before 588 bytes arrived rejects with the error
  of that event and never resolves, again independently of the chunking.
\<close>

theorem exchange_short:
  assumes "length (concat cs) < CHAT_RESPONSE_SIZE"
  shows "runExchange errs (NetConnect # map NetData cs @ NetClose # es) = Inl (on_close errs) \<and>
    runExchange errs (NetConnect # map NetData cs @ NetError # es) = Inl (on_error errs) \<and>
    runExchange errs (NetConnect # map NetData cs @ NetTimeout # es) = Inl (on_timeout errs) \<and>
    runExchange errs (NetConnect # map NetData cs) = Inl (on_timeout errs)"
proof -
  have received: "ex_received (fold (\<lambda>e s. onEvent errs s e) (map NetData cs) s) =
      ex_received s + length (concat cs)" for s
    by (induction cs arbitrary: s) (simp_all add: Let_def)
  let ?s = "fold (\<lambda>e s. onEvent errs s e) (map NetData cs) exchangeStart"
  have unsettled: "ex_settled ?s = None"
    using fold_chunks [of exchangeStart errs cs] assms by (simp add: exchangeStart_def wire_consts)
  have "ex_received ?s < CHAT_RESPONSE_SIZE"
    using received [of exchangeStart] assms by (simp add: exchangeStart_def)
  with unsettled have
    "ex_settled (onEvent errs ?s NetClose) = Some (Inl (on_close errs))"
    "ex_settled (onEvent errs ?s NetError) = Some (Inl (on_error errs))"
    "ex_settled (onEvent errs ?s NetTimeout) = Some (Inl (on_timeout errs))"
    by (simp_all add: failExchange_def)
  note settled = this [THEN fold_settled]
  show ?thesis
    using settled unsettled by (simp add: runExchange_def)
qed

theorem exchange_short_witness:
  "runExchange chatErrors (NetConnect # map NetData [replicate 587 0] @ NetClose # []) =
     Inl (ChatProcessingError ''REVERSE_ENCRYPTION_IO_FAILED'' txtEncryptClosed)"
proof -
  have "length (concat [replicate 587 (0::byte)]) < CHAT_RESPONSE_SIZE"
    by (simp add: wire_consts)
  from exchange_short [OF this, of chatErrors "[]"] show ?thesis
    by (simp add: chatErrors_def)
qed

theorem buildRequest_layout_witness:
  "\<exists>buf w'. buildRequest PROCESS_SUBSTITUTION (js ''hello'') (js ''alice'') (js ''room'') emptyWorld
      = (Inr buf, w') \<and> readUInt32LE buf 0 = 1 \<and> readCString buf 140 CHAT_MAX_MESSAGE = js ''hello''"
proof -
  have "fieldOk CHAT_MAX_USERNAME (js ''alice'')" "fieldOk CHAT_MAX_USERNAME (js ''room'')"
    "fieldOk CHAT_MAX_MESSAGE (js ''hello'')"
    by (rule fieldOk_js; simp add: wire_consts)+
  then show ?thesis
    using buildRequest_layout [of emptyWorld PROCESS_SUBSTITUTION "js ''alice''" "js ''room''" "js ''hello''"]
    by (auto simp: emptyWorld_def PROCESS_SUBSTITUTION_def)
qed

end
