(* ===== verification/Samples.thy ===== *)
theory Samples
  imports AuthData Processor
begin

text \<open>
  One concrete platform on which the operations can be run. Identifiers are written in unary, the
  clock counts its readings, queries return documents in insertion order, a token is its two names
  joined by a dot, and the remote processor answers every request with status zero and the text
  \<open>h\<close>. The witnesses of the development evaluate the operations on it.
\<close>

definition unaryCodec :: oid_codec where
  "unaryCodec = OidCodec (\<lambda>s. if list_all (\<lambda>c. c = 0x61) s then Some (length s) else None,
     \<lambda>i. replicate i 0x61)"

lemma unaryCodec_funs [simp]:
  "parseOid unaryCodec s = (if list_all (\<lambda>c. c = 0x61) s then Some (length s) else None)"
  "showOid unaryCodec i = replicate i 0x61"
proof -
  have "(\<lambda>s. if list_all (\<lambda>c. c = 0x61) s then Some (length s) else None, \<lambda>i. replicate i 0x61)
      \<in> {pr :: (jstr \<Rightarrow> oid option) \<times> (oid \<Rightarrow> jstr). \<forall>i. fst pr (snd pr i) = Some i}"
    by (simp add: list_all_iff)
  then have "codecFuns unaryCodec =
      (\<lambda>s. if list_all (\<lambda>c. c = 0x61) s then Some (length s) else None, \<lambda>i. replicate i 0x61)"
    unfolding unaryCodec_def by (rule OidCodec_inverse)
  then show "parseOid unaryCodec s = (if list_all (\<lambda>c. c = 0x61) s then Some (length s) else None)"
    "showOid unaryCodec i = replicate i 0x61"
    by (simp_all add: parseOid_def showOid_def)
qed

definition sampleReply :: "byte list" where
  "sampleReply = replicate 76 0 @ 0x68 # replicate 511 0"

definition sampleVerify :: "jstr \<Rightarrow> jwt_error + claims" where
  "sampleVerify token =
     (case splitOn 0x2E token of
        [sub, sid] \<Rightarrow> Inr \<lparr>cl_type = ''access'', cl_sub = sub, cl_sid = sid, cl_jti = None\<rparr>
      | _ \<Rightarrow> Inl JsonWebTokenError)"

definition samplePlatform :: "(string \<times> jstr) list \<Rightarrow> platform" where
  "samplePlatform env = \<lparr>
     pf_oids = unaryCodec, pf_newOid = countingSupply, pf_clock = int,
     pf_isoString = (\<lambda>t. replicate (nat t) 0x74), pf_dateParse = (\<lambda>s. Some (int (length s))),
     pf_number = (\<lambda>s. Fin (of_nat (length s))), pf_lower = (\<lambda>s. s), pf_nfkd = (\<lambda>s. s),
     pf_foldCase = (\<lambda>c. c), pf_clearsUndefined = False, pf_oddLimit = (\<lambda>_. None),
     pf_libraryMessage = (\<lambda>_. js ''error''),
     pf_users = naturalOrder, pf_sessions = naturalOrder, pf_conversations = naturalOrder,
     pf_participants = naturalOrder, pf_messages = naturalOrder, pf_events = naturalOrder,
     pf_attachments = naturalOrder,
     pf_env = map_of env,
     pf_net = (\<lambda>_ _ _ _. [NetConnect, NetData sampleReply]),
     pf_jwtSign = (\<lambda>_ _ c _. cl_sub c @ [0x2E] @ cl_sid c),
     pf_jwtVerify = (\<lambda>_ _ token. sampleVerify token),
     pf_sha256 = (\<lambda>s. 0x73 # s), pf_uuid = (\<lambda>n. replicate n 0x75),
     pf_signedUrl = (\<lambda>_ _ _ _. js ''signed''), pf_urlWithParam = (\<lambda>u _ v. Some (u @ v)),
     pf_castString = (\<lambda>j. case j of JStr s \<Rightarrow> Some s | _ \<Rightarrow> None), pf_showNum = (\<lambda>_. js ''n''),
     pf_gemini = (\<lambda>_ _ _ _. GeminiText (js ''hello''))\<rparr>"

lemma samplePlatform_sel [simp]:
  "pf_oids (samplePlatform env) = unaryCodec" "pf_newOid (samplePlatform env) = countingSupply"
  "pf_clock (samplePlatform env) = int" "pf_isoString (samplePlatform env) = (\<lambda>t. replicate (nat t) 0x74)"
  "pf_dateParse (samplePlatform env) = (\<lambda>s. Some (int (length s)))"
  "pf_number (samplePlatform env) = (\<lambda>s. Fin (of_nat (length s)))"
  "pf_lower (samplePlatform env) = (\<lambda>s. s)" "pf_nfkd (samplePlatform env) = (\<lambda>s. s)"
  "pf_foldCase (samplePlatform env) = (\<lambda>c. c)" "pf_clearsUndefined (samplePlatform env) = False"
  "pf_oddLimit (samplePlatform env) = (\<lambda>_. None)" "pf_libraryMessage (samplePlatform env) = (\<lambda>_. js ''error'')"
  "pf_users (samplePlatform env) = naturalOrder" "pf_sessions (samplePlatform env) = naturalOrder"
  "pf_conversations (samplePlatform env) = naturalOrder" "pf_participants (samplePlatform env) = naturalOrder"
  "pf_messages (samplePlatform env) = naturalOrder" "pf_events (samplePlatform env) = naturalOrder"
  "pf_attachments (samplePlatform env) = naturalOrder" "pf_env (samplePlatform env) = map_of env"
  "pf_net (samplePlatform env) = (\<lambda>_ _ _ _. [NetConnect, NetData sampleReply])"
  "pf_jwtSign (samplePlatform env) = (\<lambda>_ _ c _. cl_sub c @ [0x2E] @ cl_sid c)"
  "pf_jwtVerify (samplePlatform env) = (\<lambda>_ _ token. sampleVerify token)"
  "pf_sha256 (samplePlatform env) = (\<lambda>s. 0x73 # s)" "pf_uuid (samplePlatform env) = (\<lambda>n. replicate n 0x75)"
  "pf_signedUrl (samplePlatform env) = (\<lambda>_ _ _ _. js ''signed'')"
  "pf_urlWithParam (samplePlatform env) = (\<lambda>u _ v. Some (u @ v))"
  "pf_castString (samplePlatform env) = (\<lambda>j. case j of JStr s \<Rightarrow> Some s | _ \<Rightarrow> None)"
  "pf_showNum (samplePlatform env) = (\<lambda>_. js ''n'')"
  "pf_gemini (samplePlatform env) = (\<lambda>_ _ _ _. GeminiText (js ''hello''))"
  by (simp_all add: samplePlatform_def)

definition sampleUser :: "oid \<Rightarrow> string \<Rightarrow> user" where
  "sampleUser i name = \<lparr>usr_id = i, usr_googleId = None, usr_email = js (name @ ''@x''),
     usr_username = js name, usr_displayName = js name, usr_avatarUrl = None, usr_status = ''active'',
     usr_aiSettings = None, usr_localAuth = Some \<lparr>la_enabled = True, la_passwordSha1 = Some (js ''h''),
       la_passwordUpdatedAt = None, la_createdVia = None\<rparr>\<rparr>"

definition sampleSession :: "oid \<Rightarrow> oid \<Rightarrow> refresh_session" where
  "sampleSession i uid = \<lparr>ses_id = i, ses_userId = uid, ses_tokenHash = js ''s'', ses_issuedAt = 0,
     ses_expiresAt = 1000, ses_lastUsedAt = None, ses_revokedAt = None, ses_status = SessionActive,
     ses_createdBy = ''local-login''\<rparr>"

text \<open>Two users, ann (identifier 0) and bob (1), and a session of ann (2).\<close>

definition sampleWorld :: world where
  "sampleWorld = emptyWorld\<lparr>w_users := [sampleUser 0 ''ann'', sampleUser 1 ''bob''],
     w_sessions := [sampleSession 2 0], w_oidsIssued := 3\<rparr>"

definition localEnv :: "(string \<times> jstr) list" where
  "localEnv = [(''AUTH_LOCAL_ENABLED'', js ''true''), (''PROCESSOR_REMOTE_HOST'', js ''p'')]"

lemma sample_env [simp]:
  "envFault (readEnv (samplePlatform [])) = None"
  "envFault (readEnv (samplePlatform localEnv)) = None"
  "AUTH_LOCAL_ENABLED (readEnv (samplePlatform localEnv))"
  "\<not> CHAT_REVERSE_ENCRYPTION_ENABLED (readEnv (samplePlatform []))"
  "PROCESSOR_REMOTE_HOST (readEnv (samplePlatform localEnv)) = js ''p''"
  "ACCESS_TOKEN_TTL_SECONDS (readEnv (samplePlatform [])) = Fin 1800"
  "REFRESH_TOKEN_TTL_SECONDS (readEnv (samplePlatform [])) = Fin 604800"
  "ACCESS_TOKEN_SECRET (readEnv (samplePlatform [])) = js ''replace-with-access-token-secret''"
  "REFRESH_TOKEN_SECRET (readEnv (samplePlatform [])) = js ''replace-with-refresh-token-secret''"
  "ACCESS_TOKEN_TTL_SECONDS (readEnv (samplePlatform localEnv)) = Fin 1800"
  "REFRESH_TOKEN_TTL_SECONDS (readEnv (samplePlatform localEnv)) = Fin 604800"
  "ACCESS_TOKEN_SECRET (readEnv (samplePlatform localEnv)) = js ''replace-with-access-token-secret''"
  "REFRESH_TOKEN_SECRET (readEnv (samplePlatform localEnv)) = js ''replace-with-refresh-token-secret''"
  by (simp_all add: envFault_def readEnv_def badPositive_def isFinite_def leZero_def envNumber_def envText_def
      localEnv_def Let_def)

lemma sampleReply_payload: "readCString sampleReply 76 CHAT_MAX_RESULT = js ''h''"
proof -
  have "take 512 (drop 76 sampleReply) = 0x68 # replicate 511 0"
    by (simp add: sampleReply_def)
  then have "readCString sampleReply 76 CHAT_MAX_RESULT = bufferToString [0x68]"
    by (simp add: readCString_def wire_consts)
  also have "[0x68] = bufferFrom (js ''h'')"
    by (simp add: bufferFrom_ascii js_def)
  also have "bufferToString (bufferFrom (js ''h'')) = js ''h''"
    by (rule bufferToString_bufferFrom) (rule js_wellFormed)
  finally show ?thesis .
qed

lemma sampleReply_status: "readInt32LE sampleReply 8 = 0"
  by (simp add: readInt32LE_def readUInt32LE_def sampleReply_def nth_append)

lemma sample_exchange:
  "\<exists>r. exchange (samplePlatform env) errs req host port w = (Inr r, w\<lparr>w_netCalls := Suc (w_netCalls w)\<rparr>) \<and>
     rr_status r = STATUS_OK \<and> rr_payload r = js ''h''"
proof -
  have len: "length sampleReply = 588" by (simp add: sampleReply_def)
  have "runExchange errs [NetConnect, NetData sampleReply] = Inr (parseResponse sampleReply)"
    by (simp add: runExchange_def exchangeStart_def Let_def wire_consts len)
  then show ?thesis
    by (simp add: exchange_def act_simps parseResponse_def sampleReply_payload sampleReply_status STATUS_OK_def)
qed

text \<open>
  A direct conversation (3) of ann and bob with their participations (4, 5), a message of bob (6) and an
  uploaded file of ann (7).
\<close>

definition sampleConversation :: conversation where
  "sampleConversation = \<lparr>conv_id = 3, conv_type = Direct, conv_title = None, conv_createdBy = 0,
     conv_lastMessageAt = Some 10, conv_createdAt = 5, conv_updatedAt = 10\<rparr>"

definition sampleParticipant :: "oid \<Rightarrow> oid \<Rightarrow> participant_role \<Rightarrow> int \<Rightarrow> participant" where
  "sampleParticipant i uid role unread = \<lparr>part_id = i, part_conversationId = 3, part_userId = uid,
     part_role = role, part_status = Active, part_addedBy = None, part_joinedAt = 5, part_leftAt = None,
     part_lastReadMessageId = None, part_lastReadAt = None, part_unreadCount = unread\<rparr>"

definition sampleMessage :: message where
  "sampleMessage = \<lparr>msg_id = 6, msg_conversationId = 3, msg_senderId = 1, msg_content = js ''hello'',
     msg_reverseEncryptionState = Legacy, msg_encryptedContentVersion = None, msg_sentAt = 10,
     msg_deliveryStatus = DeliverySent, msg_seenState = Sent, msg_decodeErrorCode = None,
     msg_isAIBotMessage = False, msg_isAICommand = False, msg_moderationResult = None, msg_attachment = None\<rparr>"

definition sampleAttachment :: chat_attachment where
  "sampleAttachment = \<lparr>att_id = 7, att_conversationId = 3, att_messageId = None, att_uploaderId = 0,
     att_r2Key = js ''k'', att_originalName = js ''f.png'', att_mimeType = js ''image/png'', att_sizeBytes = Fin 1,
     att_isImage = True, att_status = Uploaded, att_createdAt = 6, att_uploadedAt = Some 7, att_confirmedAt = None\<rparr>"

definition chatWorld :: world where
  "chatWorld = sampleWorld\<lparr>w_conversations := [sampleConversation],
     w_participants := [sampleParticipant 4 0 Owner 1, sampleParticipant 5 1 Member 0],
     w_messages := [sampleMessage], w_attachments := [sampleAttachment], w_oidsIssued := 8\<rparr>"

lemmas chat_defs = chatWorld_def sampleConversation_def sampleParticipant_def sampleMessage_def
  sampleAttachment_def

lemmas sample_defs = sampleWorld_def emptyWorld_def sampleUser_def sampleSession_def

end
