(* ===== verification/AuthService.thy ===== *)
theory AuthService
  imports Samples
begin

text \<open>
  \<open>auth/auth.service.ts\<close>: user lookup and search, Google and local accounts, and the token pairs with
  their refresh sessions. JSON web tokens are signed and verified by a library (parameters of the
  platform); what the library does before it signs (it rejects an empty secret and a lifetime that is
  no whole number of seconds) is written out in \<open>jwtSign\<close>. Writes to the user and session collections
  go through \<open>insertUser\<close>, \<open>saveUser\<close> and \<open>insertSession\<close>, which enforce what the schemas declare:
  required strings are not empty and unique indexes hold.
\<close>

subsection \<open>Stored users, sessions and attempts\<close>

record google_auth_user =
  gu_googleId :: jstr
  gu_email :: jstr
  gu_displayName :: jstr
  gu_avatarUrl :: "jstr option"

record refresh_session_response =
  rsr_accessToken :: jstr
  rsr_user :: session_user
  rsr_expiresInSeconds :: jsnum

record issued_session =
  is_refreshToken :: jstr
  is_sessionId :: jstr
  is_response :: refresh_session_response

definition userValid :: "user \<Rightarrow> bool" where
  "userValid u \<longleftrightarrow> usr_email u \<noteq> [] \<and> usr_username u \<noteq> [] \<and> usr_displayName u \<noteq> []"

definition clashes :: "user \<Rightarrow> user \<Rightarrow> bool" where
  "clashes u v \<longleftrightarrow> usr_email u = usr_email v \<or> usr_username u = usr_username v \<or>
     (usr_googleId u \<noteq> None \<and> usr_googleId u = usr_googleId v)"

definition insertUser :: "user \<Rightarrow> unit act" where
  "insertUser u =
     bind (gets w_users) (\<lambda>us.
     if \<not> userValid u then throw ValidationError
     else if list_ex (clashes u) us then throw DuplicateKeyError
     else modify (\<lambda>w. w\<lparr>w_users := w_users w @ [u]\<rparr>))"

definition saveUser :: "user \<Rightarrow> unit act" where
  "saveUser u =
     bind (gets w_users) (\<lambda>us.
     if \<not> userValid u then throw ValidationError
     else if list_ex (\<lambda>v. usr_id v \<noteq> usr_id u \<and> clashes u v) us then throw DuplicateKeyError
     else modify (\<lambda>w. w\<lparr>w_users := updateById usr_id (usr_id u) (\<lambda>_. u) (w_users w)\<rparr>))"

definition validDate :: "time \<Rightarrow> bool" where
  "validDate t \<longleftrightarrow> \<bar>t\<bar> \<le> 8640000000000000"

definition insertSession :: "refresh_session \<Rightarrow> unit act" where
  "insertSession s =
     bind (gets w_sessions) (\<lambda>ss.
     if ses_tokenHash s = [] \<or> ses_createdBy s = [] \<or> \<not> validDate (ses_expiresAt s)
     then throw ValidationError
     else if list_ex (\<lambda>t. ses_tokenHash t = ses_tokenHash s) ss then throw DuplicateKeyError
     else modify (\<lambda>w. w\<lparr>w_sessions := w_sessions w @ [s]\<rparr>))"

definition saveSession :: "oid \<Rightarrow> (refresh_session \<Rightarrow> refresh_session) \<Rightarrow> unit act" where
  "saveSession i f = modify (\<lambda>w. w\<lparr>w_sessions := updateById ses_id i f (w_sessions w)\<rparr>)"

definition recordAttempt ::
    "auth_provider \<Rightarrow> attempt_result \<Rightarrow> jstr option \<Rightarrow> string option \<Rightarrow> jstr option \<Rightarrow> jstr option \<Rightarrow> unit act" where
  "recordAttempt provider result emailCandidate failureReason userId sessionId =
     modify (\<lambda>w. w\<lparr>w_attempts := w_attempts w @
       [\<lparr>atm_provider = provider, atm_emailCandidate = emailCandidate, atm_result = result,
         atm_failureReason = failureReason, atm_userId = userId, atm_sessionId = sessionId\<rparr>]\<rparr>)"

definition toSessionUser :: "platform \<Rightarrow> user \<Rightarrow> session_user" where
  "toSessionUser pf u = \<lparr>su_id = idStr pf (usr_id u), su_email = usr_email u, su_username = usr_username u,
     su_displayName = usr_displayName u, su_avatarUrl = usr_avatarUrl u\<rparr>"

subsection \<open>Looking users up\<close>

definition authFindById :: "platform \<Rightarrow> jstr \<Rightarrow> session_user option act" where
  "authFindById pf i =
     bind (castObjectId pf i) (\<lambda>uid.
     bind (gets w_users) (\<lambda>us.
     ret (map_option (toSessionUser pf) (findById usr_id uid us))))"

definition findByEmail :: "platform \<Rightarrow> jstr \<Rightarrow> user option act" where
  "findByEmail pf email =
     bind (gets w_users) (\<lambda>us. ret (findOne (pf_users pf) (\<lambda>u. usr_email u = normalizeEmail pf email) us))"

definition searchUsers :: "platform \<Rightarrow> jstr \<Rightarrow> jstr \<Rightarrow> session_user list act" where
  "searchUsers pf query currentUserId =
     (let trimmedQuery = trim query in
      if length trimmedQuery < 2 then ret []
      else
        let matches = regexTest pf (escapeRegex trimmedQuery) in
        bind (toObjectId pf currentUserId) (\<lambda>uid.
        bind (gets w_users) (\<lambda>us.
        ret (map (toSessionUser pf) (limitDocs 10
          (findSorted (pf_users pf) (\<lambda>u. bufferFrom (usr_username u))
             (\<lambda>u. usr_id u \<noteq> uid \<and>
                (matches (usr_email u) \<or> matches (usr_username u) \<or> matches (usr_displayName u))) us))))))"

subsection \<open>Tokens\<close>

definition isInteger :: "jsnum \<Rightarrow> bool" where
  "isInteger n = (case n of Fin q \<Rightarrow> of_int \<lfloor>q\<rfloor> = q | _ \<Rightarrow> False)"

definition jwtSign :: "platform \<Rightarrow> jstr \<Rightarrow> jsnum \<Rightarrow> claims \<Rightarrow> jstr act" where
  "jwtSign pf secret ttl c =
     (if secret = [] then throw (PlainError (js ''secretOrPrivateKey must have a value''))
      else if \<not> isInteger ttl
      then throw (PlainError (js ''\"expiresIn\" should be a number of seconds or string representing a timespan''))
      else bind (now pf) (\<lambda>iat. ret (pf_jwtSign pf secret ttl c iat)))"

definition jwtVerify :: "platform \<Rightarrow> jstr \<Rightarrow> jstr \<Rightarrow> (jwt_error + claims) act" where
  "jwtVerify pf secret token = bind (now pf) (\<lambda>t. ret (pf_jwtVerify pf secret t token))"

definition randomUUID :: "platform \<Rightarrow> jstr act" where
  "randomUUID pf = bind (gets w_uuidsIssued) (\<lambda>n.
     bind (modify (\<lambda>w. w\<lparr>w_uuidsIssued := Suc n\<rparr>)) (\<lambda>_. ret (pf_uuid pf n)))"

definition signAccessToken :: "platform \<Rightarrow> claims \<Rightarrow> jstr act" where
  "signAccessToken pf c =
     bind (backendEnv pf) (\<lambda>env. jwtSign pf (ACCESS_TOKEN_SECRET env) (ACCESS_TOKEN_TTL_SECONDS env) c)"

definition signRefreshToken :: "platform \<Rightarrow> claims \<Rightarrow> jstr act" where
  "signRefreshToken pf c =
     bind (backendEnv pf) (\<lambda>env. jwtSign pf (REFRESH_TOKEN_SECRET env) (REFRESH_TOKEN_TTL_SECONDS env) c)"

definition hashToken :: "platform \<Rightarrow> jstr \<Rightarrow> jstr" where
  "hashToken pf token = pf_sha256 pf token"

definition verifyAccessToken :: "platform \<Rightarrow> jstr \<Rightarrow> claims option act" where
  "verifyAccessToken pf token =
     bind (backendEnv pf) (\<lambda>env.
     bind (jwtVerify pf (ACCESS_TOKEN_SECRET env) token) (\<lambda>r.
     ret (case r of Inl _ \<Rightarrow> None | Inr c \<Rightarrow> Some c)))"

definition verifyRefreshToken :: "platform \<Rightarrow> jstr \<Rightarrow> claims act" where
  "verifyRefreshToken pf token =
     bind (backendEnv pf) (\<lambda>env.
     bind (jwtVerify pf (REFRESH_TOKEN_SECRET env) token) (\<lambda>r.
     case r of
       Inr c \<Rightarrow> ret c
     | Inl TokenExpiredError \<Rightarrow>
         throw (UnauthorizedException (codeBody ''refresh_token_expired'' ''Refresh token has expired''))
     | Inl JsonWebTokenError \<Rightarrow>
         throw (UnauthorizedException (codeBody ''refresh_token_invalid'' ''Refresh token is invalid''))))"

definition buildRefreshSessionResponse :: "platform \<Rightarrow> session_user \<Rightarrow> jstr \<Rightarrow> refresh_session_response act" where
  "buildRefreshSessionResponse pf user sessionId =
     bind (backendEnv pf) (\<lambda>env.
     bind (signAccessToken pf \<lparr>cl_type = ''access'', cl_sub = su_id user, cl_sid = sessionId, cl_jti = None\<rparr>) (\<lambda>token.
     ret \<lparr>rsr_accessToken = token, rsr_user = user, rsr_expiresInSeconds = ACCESS_TOKEN_TTL_SECONDS env\<rparr>))"

text \<open>The expiry of a session: the lifetime is a finite number here, because signing checks it first.\<close>

definition ttlMillis :: "jsnum \<Rightarrow> int" where
  "ttlMillis n = (case n of Fin q \<Rightarrow> \<lfloor>q * 1000\<rfloor> | _ \<Rightarrow> 0)"

definition issueTokenPair :: "platform \<Rightarrow> session_user \<Rightarrow> string \<Rightarrow> issued_session act" where
  "issueTokenPair pf user createdBy =
     bind (backendEnv pf) (\<lambda>env.
     bind (now pf) (\<lambda>issuedAt.
     let expiresAt = issuedAt + ttlMillis (REFRESH_TOKEN_TTL_SECONDS env) in
     bind (toObjectId pf (su_id user)) (\<lambda>userId.
     bind (freshOid pf) (\<lambda>sid.
     bind (randomUUID pf) (\<lambda>jti.
     bind (signRefreshToken pf
        \<lparr>cl_type = ''refresh'', cl_sub = su_id user, cl_sid = idStr pf sid, cl_jti = Some jti\<rparr>) (\<lambda>refreshToken.
     bind (insertSession
        \<lparr>ses_id = sid, ses_userId = userId, ses_tokenHash = hashToken pf refreshToken,
         ses_issuedAt = issuedAt, ses_expiresAt = expiresAt, ses_lastUsedAt = None, ses_revokedAt = None,
         ses_status = SessionActive, ses_createdBy = createdBy\<rparr>) (\<lambda>_.
     bind (recordAttempt RefreshToken Issued None None (Some (su_id user)) (Some (idStr pf sid))) (\<lambda>_.
     bind (buildRefreshSessionResponse pf user (idStr pf sid)) (\<lambda>resp.
     ret \<lparr>is_refreshToken = refreshToken, is_sessionId = idStr pf sid, is_response = resp\<rparr>)))))))))"

subsection \<open>Accounts\<close>

definition upsertGoogleUser :: "platform \<Rightarrow> google_auth_user \<Rightarrow> session_user act" where
  "upsertGoogleUser pf payload =
     (let normalizedEmail = normalizeEmail pf (gu_email payload);
          displayName = normalizeTextField (gu_displayName payload) in
      bind (gets w_users) (\<lambda>us.
      case findOne (pf_users pf) (\<lambda>u. usr_email u = normalizedEmail) us of
        Some existing \<Rightarrow>
          let saved = existing\<lparr>usr_googleId := Some (gu_googleId payload), usr_displayName := displayName,
                        usr_avatarUrl := gu_avatarUrl payload\<rparr> in
          bind (saveUser saved) (\<lambda>_. ret (toSessionUser pf saved))
      | None \<Rightarrow>
          let username = resolveUsernameCollision (deriveBaseUsername normalizedEmail) (map usr_username us) in
          bind (freshOid pf) (\<lambda>uid.
          let created = \<lparr>usr_id = uid, usr_googleId = Some (gu_googleId payload), usr_email = normalizedEmail,
                usr_username = username, usr_displayName = displayName, usr_avatarUrl = gu_avatarUrl payload,
                usr_status = ''active'', usr_aiSettings = None,
                usr_localAuth = Some \<lparr>la_enabled = False, la_passwordSha1 = None,
                  la_passwordUpdatedAt = None, la_createdVia = None\<rparr>\<rparr> in
          bind (insertUser created) (\<lambda>_. ret (toSessionUser pf created)))))"

definition mapAuthProcessingError :: "exn \<Rightarrow> exn" where
  "mapAuthProcessingError e =
     (case e of
        AuthProcessingError _ msg \<Rightarrow> ServiceUnavailableException
          \<lparr>body_error = None, body_code = Some ''local_auth_sha1_unavailable'', body_message = msg\<rparr>
      | _ \<Rightarrow> ServiceUnavailableException
          (codeBody ''local_auth_processing_failed'' ''Local authentication processing is unavailable''))"

definition registerLocalAccount :: "platform \<Rightarrow> register_dto \<Rightarrow> issued_session act" where
  "registerLocalAccount pf payload =
     bind (isLocalAuthEnabled pf) (\<lambda>enabled.
     if \<not> enabled
     then throw (BadRequestException (codeBody ''local_auth_disabled'' ''Local authentication is disabled''))
     else
       let email = normalizeEmail pf (rd_email payload);
           username = normalizeTextField (rd_username payload);
           displayName = normalizeTextField (rd_displayName payload) in
       bind (recordAttempt LocalRegister Started (Some email) None None None) (\<lambda>_.
       bind (gets w_users) (\<lambda>us.
       if list_ex (\<lambda>u. usr_email u = email) us
       then bind (recordAttempt LocalRegister Failed (Some email) (Some ''email-already-exists'') None None) (\<lambda>_.
              throw (ConflictException (codeBody ''email_already_exists'' ''Email already exists'')))
       else if list_ex (\<lambda>u. usr_username u = username) us
       then bind (recordAttempt LocalRegister Failed (Some email) (Some ''username-already-exists'') None None) (\<lambda>_.
              throw (ConflictException (codeBody ''username_already_exists'' ''Username already exists'')))
       else
         bind (catch (hashPasswordWithSha1 pf email (rd_password payload)) (\<lambda>e.
            bind (recordAttempt LocalRegister Failed (Some email) (Some ''sha1-processing-unavailable'') None None) (\<lambda>_.
            throw (mapAuthProcessingError e)))) (\<lambda>passwordSha1.
         bind (now pf) (\<lambda>updatedAt.
         bind (freshOid pf) (\<lambda>uid.
         let created = \<lparr>usr_id = uid, usr_googleId = None, usr_email = email, usr_username = username,
               usr_displayName = displayName, usr_avatarUrl = None, usr_status = ''active'',
               usr_aiSettings = None,
               usr_localAuth = Some \<lparr>la_enabled = True, la_passwordSha1 = Some passwordSha1,
                 la_passwordUpdatedAt = Some updatedAt, la_createdVia = Some ''register''\<rparr>\<rparr> in
         bind (insertUser created) (\<lambda>_.
         let sessionUser = toSessionUser pf created in
         bind (issueTokenPair pf sessionUser ''local-register'') (\<lambda>issued.
         bind (recordAttempt LocalRegister Succeeded (Some email) None (Some (su_id sessionUser))
                 (Some (is_sessionId issued))) (\<lambda>_.
         ret issued)))))))))"

definition loginFailure :: "jstr \<Rightarrow> string \<Rightarrow> jstr option \<Rightarrow> string \<Rightarrow> string \<Rightarrow> 'a act" where
  "loginFailure email reason userId code msg =
     bind (recordAttempt LocalLogin Failed (Some email) (Some reason) userId None) (\<lambda>_.
     throw (UnauthorizedException (codeBody code msg)))"

definition loginLocalAccount :: "platform \<Rightarrow> login_dto \<Rightarrow> issued_session act" where
  "loginLocalAccount pf payload =
     bind (isLocalAuthEnabled pf) (\<lambda>enabled.
     if \<not> enabled
     then throw (UnauthorizedException (codeBody ''local_auth_disabled'' ''Local authentication is disabled''))
     else
       let email = normalizeEmail pf (ld_email payload) in
       bind (recordAttempt LocalLogin Started (Some email) None None None) (\<lambda>_.
       bind (gets w_users) (\<lambda>us.
       case findOne (pf_users pf) (\<lambda>u. usr_email u = email) us of
         None \<Rightarrow> loginFailure email ''invalid-local-credentials'' None
                   ''local_auth_invalid_credentials'' ''Email or password is incorrect''
       | Some user \<Rightarrow>
           let uid = Some (idStr pf (usr_id user)) in
           if usr_status user \<noteq> ''active''
           then loginFailure email ''account-disabled'' uid
                  ''local_auth_account_disabled'' ''Account is not allowed to sign in''
           else
             let stored = (case usr_localAuth user of
                    None \<Rightarrow> []
                  | Some la \<Rightarrow> if la_enabled la then (case la_passwordSha1 la of None \<Rightarrow> [] | Some h \<Rightarrow> h) else []) in
             if stored = []
             then loginFailure email ''local-auth-not-enabled'' uid
                    ''local_auth_not_enabled'' ''Local sign-in is not available for this account''
             else
               bind (catch (hashPasswordWithSha1 pf email (ld_password payload)) (\<lambda>e.
                  bind (recordAttempt LocalLogin Failed (Some email) (Some ''sha1-processing-unavailable'') uid None) (\<lambda>_.
                  throw (mapAuthProcessingError e)))) (\<lambda>passwordSha1.
               if passwordSha1 \<noteq> stored
               then loginFailure email ''invalid-local-credentials'' uid
                      ''local_auth_invalid_credentials'' ''Email or password is incorrect''
               else
                 let sessionUser = toSessionUser pf user in
                 bind (issueTokenPair pf sessionUser ''local-login'') (\<lambda>issued.
                 bind (recordAttempt LocalLogin Succeeded (Some email) None (Some (su_id sessionUser))
                         (Some (is_sessionId issued))) (\<lambda>_.
                 ret issued))))))"

subsection \<open>Refreshing, revoking and authenticating\<close>

definition refreshFailure :: "claims \<Rightarrow> string \<Rightarrow> string \<Rightarrow> string \<Rightarrow> 'a act" where
  "refreshFailure c reason code msg =
     bind (recordAttempt RefreshToken Failed None (Some reason) (Some (cl_sub c)) (Some (cl_sid c))) (\<lambda>_.
     throw (UnauthorizedException (codeBody code msg)))"

definition refreshAccessToken :: "platform \<Rightarrow> jstr \<Rightarrow> refresh_session_response act" where
  "refreshAccessToken pf refreshToken =
     bind (verifyRefreshToken pf refreshToken) (\<lambda>c.
     bind (castObjectId pf (cl_sid c)) (\<lambda>sid.
     bind (gets w_sessions) (\<lambda>ss.
     case findById ses_id sid ss of
       None \<Rightarrow> refreshFailure c ''refresh-session-missing'' ''refresh_token_invalid'' ''Refresh token is invalid''
     | Some s \<Rightarrow>
         bind (now pf) (\<lambda>t.
         if ses_tokenHash s \<noteq> hashToken pf refreshToken
         then refreshFailure c ''refresh-token-mismatch'' ''refresh_token_invalid'' ''Refresh token is invalid''
         else if ses_revokedAt s \<noteq> None \<or> ses_status s = SessionRevoked
         then refreshFailure c ''refresh-token-revoked'' ''refresh_token_revoked'' ''Refresh token has been revoked''
         else if ses_expiresAt s \<le> t
         then bind (saveSession (ses_id s) (\<lambda>d. d\<lparr>ses_status := SessionExpired\<rparr>)) (\<lambda>_.
              refreshFailure c ''refresh-token-expired'' ''refresh_token_expired'' ''Refresh token has expired'')
         else
           bind (authFindById pf (cl_sub c)) (\<lambda>u.
           case u of
             None \<Rightarrow> refreshFailure c ''refresh-user-missing'' ''refresh_user_missing'' ''User is no longer available''
           | Some user \<Rightarrow>
               bind (saveSession (ses_id s) (\<lambda>d. d\<lparr>ses_lastUsedAt := Some t\<rparr>)) (\<lambda>_.
               bind (recordAttempt RefreshToken Renewed None None (Some (su_id user)) (Some (idStr pf (ses_id s)))) (\<lambda>_.
               buildRefreshSessionResponse pf user (idStr pf (ses_id s)))))))))"

definition revokeRefreshToken :: "platform \<Rightarrow> jstr \<Rightarrow> unit act" where
  "revokeRefreshToken pf refreshToken =
     bind (catch (bind (verifyRefreshToken pf refreshToken) (\<lambda>c. ret (Some c))) (\<lambda>_. ret None)) (\<lambda>r.
     case r of
       None \<Rightarrow> ret ()
     | Some c \<Rightarrow>
         bind (castObjectId pf (cl_sid c)) (\<lambda>sid.
         bind (gets w_sessions) (\<lambda>ss.
         case findById ses_id sid ss of
           None \<Rightarrow> ret ()
         | Some s \<Rightarrow>
             bind (now pf) (\<lambda>t.
             bind (saveSession (ses_id s) (\<lambda>d. d\<lparr>ses_revokedAt := Some t, ses_status := SessionRevoked\<rparr>)) (\<lambda>_.
             recordAttempt RefreshToken Revoked None None (Some (cl_sub c)) (Some (cl_sid c)))))))"

definition authenticateAccessToken :: "platform \<Rightarrow> jstr \<Rightarrow> session_user option act" where
  "authenticateAccessToken pf token =
     bind (verifyAccessToken pf token) (\<lambda>r.
     case r of
       None \<Rightarrow> ret None
     | Some c \<Rightarrow>
         bind (castObjectId pf (cl_sid c)) (\<lambda>sid.
         bind (gets w_sessions) (\<lambda>ss.
         case findById ses_id sid ss of
           None \<Rightarrow> ret None
         | Some s \<Rightarrow>
             if ses_status s \<noteq> SessionActive \<or> ses_revokedAt s \<noteq> None then ret None
             else bind (now pf) (\<lambda>t.
               if ses_expiresAt s \<le> t then ret None else authFindById pf (cl_sub c)))))"

subsection \<open>What the operations leave alone\<close>

lemma technical_tokens [technical_intros]:
  "technical (jwtVerify pf secret token)" "technical (randomUUID pf)" "technical (signAccessToken pf c)"
  "technical (signRefreshToken pf c)" "technical (verifyAccessToken pf token)"
  "technical (verifyRefreshToken pf token)" "technical (buildRefreshSessionResponse pf u sid)"
proof -
  show verify: "technical (jwtVerify pf secret token)" for secret token
    unfolding jwtVerify_def by (intro technical_intros)
  show "technical (randomUUID pf)"
    by (rule technicalI) (simp add: randomUUID_def act_simps dataOf_def)
  have jwt: "technical (jwtSign pf secret ttl c)" for secret ttl c
    unfolding jwtSign_def by (intro technical_intros)
  show sign: "technical (signAccessToken pf c)" "technical (signRefreshToken pf c)" for c
    unfolding signAccessToken_def signRefreshToken_def by (intro technical_intros jwt)+
  show "technical (verifyAccessToken pf token)"
    unfolding verifyAccessToken_def by (intro technical_intros verify)
  show "technical (verifyRefreshToken pf token)"
    unfolding verifyRefreshToken_def
    by (intro technical_intros verify) (auto intro: technical_intros split: sum.split jwt_error.split)
  show "technical (buildRefreshSessionResponse pf u sid)"
    unfolding buildRefreshSessionResponse_def by (intro technical_intros sign)
qed

lemma technical_lookup [technical_intros]:
  "technical (authFindById pf i)" "technical (findByEmail pf e)" "technical (searchUsers pf q i)"
  "technical (authenticateAccessToken pf token)"
  unfolding authFindById_def findByEmail_def searchUsers_def authenticateAccessToken_def Let_def
  by (intro technical_intros)+

lemmas keeps_auth_technical [keeps_intros] =
  technical_tokens [THEN technical_worldOk] technical_tokens [THEN technical_unusedId]
  technical_lookup [THEN technical_worldOk]

lemma keeps_recordAttempt [keeps_intros]:
  "keeps (worldOk pf) (recordAttempt p r e f u s)"
  by (simp add: recordAttempt_def keeps_modify)

lemma keeps_failures [keeps_intros]:
  "keeps (worldOk pf) (loginFailure email reason uid code msg)"
  "keeps (worldOk pf) (refreshFailure c reason code msg)"
  unfolding loginFailure_def refreshFailure_def by (intro keeps_intros)+

lemma keeps_saveSession [keeps_intros]:
  "(\<And>d. ses_id (f d) = ses_id d) \<Longrightarrow> keeps (worldOk pf) (saveSession i f)"
  unfolding saveSession_def by (intro keeps_modify worldOk_same_ids) (simp_all add: map_updateById)

lemma keeps_saveUser [keeps_intros]: "keeps (worldOk pf) (saveUser u)"
proof -
  have "map usr_id (updateById usr_id (usr_id u) (\<lambda>_. u) us) = map usr_id us" for us
    by (simp add: updateById_def)
  then show ?thesis
    unfolding saveUser_def by (intro keeps_intros keeps_modify worldOk_same_ids)
qed

lemma store_user [store_intros]:
  assumes "usr_id u = i" "\<And>a. keeps (worldOk pf) (f a)"
  shows "establishes (unusedId pf i) (worldOk pf) (bind (insertUser u) f)"
  using assms by (intro establishes_post establishesI)
    (auto simp: insertUser_def act_simps unusedId_worldOk worldOk_append)

lemma store_session [store_intros]:
  assumes "ses_id s = i" "\<And>a. keeps (worldOk pf) (f a)"
  shows "establishes (unusedId pf i) (worldOk pf) (bind (insertSession s) f)"
  using assms by (intro establishes_post establishesI)
    (auto simp: insertSession_def act_simps unusedId_worldOk worldOk_append)

lemma keeps_issueTokenPair [keeps_intros]: "keeps (worldOk pf) (issueTokenPair pf u origin)"
  unfolding issueTokenPair_def Let_def
  by (rule keeps_freshOid store_intros keeps_intros technical_intros establishes_technical | simp)+

lemma keeps_accounts [keeps_intros]:
  "keeps (worldOk pf) (upsertGoogleUser pf g)" "keeps (worldOk pf) (registerLocalAccount pf rd)"
  "keeps (worldOk pf) (loginLocalAccount pf ld)"
  unfolding upsertGoogleUser_def registerLocalAccount_def loginLocalAccount_def Let_def
  by (rule keeps_freshOid store_intros keeps_intros technical_intros establishes_technical | simp)+

lemma keeps_tokens [keeps_intros]:
  "keeps (worldOk pf) (refreshAccessToken pf token)" "keeps (worldOk pf) (revokeRefreshToken pf token)"
  unfolding refreshAccessToken_def revokeRefreshToken_def
  by (rule keeps_intros | simp)+

subsection \<open>The unique account names\<close>

definition usersSat :: "(user list \<Rightarrow> bool) \<Rightarrow> world \<Rightarrow> bool" where
  "usersSat P w \<longleftrightarrow> P (w_users w)"

text \<open>Every stored user has the required fields, and two users share no email, username or Google id.\<close>

definition accountsOk :: "user list \<Rightarrow> bool" where
  "accountsOk us \<longleftrightarrow>
     (\<forall>u\<in>set us. userValid u \<and> (\<forall>v\<in>set us. usr_id u \<noteq> usr_id v \<longrightarrow> \<not> clashes u v))"

lemma clashes_sym: "clashes u v \<longleftrightarrow> clashes v u"
  unfolding clashes_def by metis

lemma technical_usersSat: "technical m \<Longrightarrow> keeps (usersSat P) m"
  by (erule technical_keeps) (metis usersSat_def dataOf_eqD(1))

lemmas keeps_users_technical [keeps_intros] =
  technical_base [THEN technical_usersSat] technical_processor [THEN technical_usersSat]
  technical_tokens [THEN technical_usersSat] technical_lookup [THEN technical_usersSat]

lemma keeps_users_frame [keeps_intros]:
  "keeps (usersSat P) (freshOid pf)" "keeps (usersSat P) (recordAttempt p r e f u s)"
  "keeps (usersSat P) (insertSession ses)" "keeps (usersSat P) (saveSession i g)"
  by (auto intro!: keepsI simp: usersSat_def freshOid_run recordAttempt_def insertSession_def
      saveSession_def act_simps)

lemma keeps_insertUser [keeps_intros]: "keeps (usersSat accountsOk) (insertUser u)"
  by (rule keepsI)
    (auto simp: insertUser_def act_simps usersSat_def accountsOk_def list_ex_iff clashes_sym)

lemma keeps_saveUser_accounts [keeps_intros]: "keeps (usersSat accountsOk) (saveUser u)"
proof (rule keepsI)
  fix w assume ok: "usersSat accountsOk w"
  have "accountsOk (updateById usr_id (usr_id u) (\<lambda>_. u) (w_users w))"
    if "userValid u" "\<not> list_ex (\<lambda>v. usr_id v \<noteq> usr_id u \<and> clashes u v) (w_users w)"
    using ok that
    by (auto simp: usersSat_def accountsOk_def updateById_def list_ex_iff clashes_sym split: if_splits)
  then show "usersSat accountsOk (snd (saveUser u w))"
    using ok by (auto simp: saveUser_def act_simps usersSat_def)
qed

lemma keeps_users_tokens [keeps_intros]:
  "keeps (usersSat P) (issueTokenPair pf u origin)" "keeps (usersSat P) (loginLocalAccount pf ld)"
  "keeps (usersSat P) (refreshAccessToken pf token)" "keeps (usersSat P) (revokeRefreshToken pf token)"
  unfolding issueTokenPair_def loginLocalAccount_def loginFailure_def refreshAccessToken_def
    refreshFailure_def revokeRefreshToken_def Let_def
  by (rule keeps_intros | simp)+

lemma keeps_accounts_accounts [keeps_intros]:
  "keeps (usersSat accountsOk) (upsertGoogleUser pf g)"
  "keeps (usersSat accountsOk) (registerLocalAccount pf rd)"
  unfolding upsertGoogleUser_def registerLocalAccount_def Let_def
  by (rule keeps_intros | simp)+

text \<open>
  Registering, signing in with Google, logging in, refreshing and revoking all preserve that the
  stored accounts are valid and that no two of them share an email, a username or a Google id; logging
  in, refreshing and revoking change no account at all.
\<close>

theorem accounts_stay_unique:
  "keeps (usersSat accountsOk) (registerLocalAccount pf rd) \<and>
   keeps (usersSat accountsOk) (upsertGoogleUser pf g) \<and>
   keeps (usersSat (\<lambda>us. us = us\<^sub>0)) (loginLocalAccount pf ld) \<and>
   keeps (usersSat (\<lambda>us. us = us\<^sub>0)) (refreshAccessToken pf token) \<and>
   keeps (usersSat (\<lambda>us. us = us\<^sub>0)) (revokeRefreshToken pf token)"
  by (intro conjI keeps_intros)

subsection \<open>Sessions\<close>

text \<open>The session a token names, as far as the token verifies in the state.\<close>

lemma verifyRefreshToken_run:
  assumes "verifyRefreshToken pf token w = (r, w')"
  shows "w_sessions w' = w_sessions w" "w_users w' = w_users w"
  using technical_run [OF technical_tokens(6) assms] dataOf_eqD by blast+

lemma authFindById_run:
  "authFindById pf i w = (case parseOid (pf_oids pf) i of None \<Rightarrow> (Inl CastError, w)
     | Some uid \<Rightarrow> (Inr (map_option (toSessionUser pf) (findById usr_id uid (w_users w))), w))"
  by (simp add: authFindById_def castObjectId_def act_simps split: option.split)

text \<open>
  C25: an access token authenticates only while the session it names is stored, active, not
  revoked and not expired, and then it yields the stored user it names; authentication changes no stored data.
\<close>

theorem authenticate_sound:
  assumes "authenticateAccessToken pf token w = (Inr (Some user), w')"
  shows "\<exists>c s u t.
     pf_jwtVerify pf (ACCESS_TOKEN_SECRET (readEnv pf)) (pf_clock pf (w_clockReads w)) token = Inr c \<and>
     parseOid (pf_oids pf) (cl_sid c) = Some (ses_id s) \<and> s \<in> set (w_sessions w) \<and>
     ses_status s = SessionActive \<and> ses_revokedAt s = None \<and>
     t = pf_clock pf (Suc (w_clockReads w)) \<and> t < ses_expiresAt s \<and>
     u \<in> set (w_users w) \<and> parseOid (pf_oids pf) (cl_sub c) = Some (usr_id u) \<and>
     user = toSessionUser pf u \<and> dataOf w' = dataOf w"
proof -
  let ?env = "readEnv pf"
  from assms obtain c v where env: "envFault ?env = None"
    and c: "pf_jwtVerify pf (ACCESS_TOKEN_SECRET ?env) (pf_clock pf (w_clockReads w)) token = Inr c"
    and v: "v = w\<lparr>w_clockReads := Suc (w_clockReads w)\<rparr>"
    and rest: "bind (castObjectId pf (cl_sid c)) (\<lambda>sid. bind (gets w_sessions) (\<lambda>ss.
         case findById ses_id sid ss of None \<Rightarrow> ret None
         | Some s \<Rightarrow> if ses_status s \<noteq> SessionActive \<or> ses_revokedAt s \<noteq> None then ret None
             else bind (now pf) (\<lambda>t. if ses_expiresAt s \<le> t then ret None else authFindById pf (cl_sub c)))) v
       = (Inr (Some user), w')"
    by (auto simp: authenticateAccessToken_def verifyAccessToken_def jwtVerify_def backendEnv_def bind_Inr_iff
        now_run act_simps split: option.splits sum.splits)
  from rest obtain sid s where sid: "parseOid (pf_oids pf) (cl_sid c) = Some sid"
    and s: "findById ses_id sid (w_sessions w) = Some s"
    and live: "ses_status s = SessionActive" "ses_revokedAt s = None"
      "pf_clock pf (Suc (w_clockReads w)) < ses_expiresAt s"
    and user: "authFindById pf (cl_sub c) (v\<lparr>w_clockReads := Suc (w_clockReads v)\<rparr>) = (Inr (Some user), w')"
    by (auto simp: bind_Inr_iff castObjectId_def now_run act_simps v split: option.splits if_splits)
  from user obtain u where "parseOid (pf_oids pf) (cl_sub c) = Some (usr_id u)" "u \<in> set (w_users w)"
    "user = toSessionUser pf u"
    by (auto simp: authFindById_run v dest: findById_Some split: option.splits)
  moreover have "dataOf w' = dataOf w" by (rule technical_run [OF technical_lookup(4) assms])
  ultimately show ?thesis using c sid findById_Some [OF s] live by blast
qed

text \<open>A session that has been revoked.\<close>

definition sessionRevoked :: "oid \<Rightarrow> world \<Rightarrow> bool" where
  "sessionRevoked i w \<longleftrightarrow>
     (\<exists>s. findById ses_id i (w_sessions w) = Some s \<and> ses_revokedAt s \<noteq> None)"

lemma findById_append: "findById idf i ds = Some d \<Longrightarrow> findById idf i (ds @ es) = Some d"
  by (induction ds) (auto simp: findById_def)

lemma findById_updateById:
  assumes "\<And>d. idf (f d) = idf d"
  shows "findById idf i (updateById idf j f ds) =
    map_option (\<lambda>d. if idf d = j then f d else d) (findById idf i ds)"
  using assms by (induction ds) (auto simp: findById_def updateById_def)

lemma technical_revoked: "technical m \<Longrightarrow> keeps (sessionRevoked i) m"
  by (erule technical_keeps) (metis sessionRevoked_def dataOf_eqD(3))

lemmas keeps_revoked_technical [keeps_intros] =
  technical_base [THEN technical_revoked] technical_processor [THEN technical_revoked]
  technical_tokens [THEN technical_revoked] technical_lookup [THEN technical_revoked]

lemma keeps_revoked_frame [keeps_intros]:
  "keeps (sessionRevoked i) (freshOid pf)" "keeps (sessionRevoked i) (recordAttempt p r e f u s)"
  "keeps (sessionRevoked i) (insertUser v)" "keeps (sessionRevoked i) (saveUser v)"
  "keeps (sessionRevoked i) (insertSession ses)"
  by (auto intro!: keepsI simp: sessionRevoked_def freshOid_run recordAttempt_def insertSession_def
      insertUser_def saveUser_def act_simps findById_append)

lemma keeps_revoked_save [keeps_intros]:
  assumes "\<And>d. ses_id (f d) = ses_id d" "\<And>d. ses_revokedAt d \<noteq> None \<Longrightarrow> ses_revokedAt (f d) \<noteq> None"
  shows "keeps (sessionRevoked i) (saveSession j f)"
proof (rule keepsI)
  fix w assume "sessionRevoked i w"
  then obtain s where "findById ses_id i (w_sessions w) = Some s" "ses_revokedAt s \<noteq> None"
    unfolding sessionRevoked_def by blast
  then show "sessionRevoked i (snd (saveSession j f w))"
    using assms by (cases "ses_id s = j") (simp_all add: sessionRevoked_def saveSession_def act_simps findById_updateById)
qed

text \<open>
  Once a session is revoked it stays revoked: no registration, login, Google sign-in,
  token issue, refresh or further revocation brings it back.
\<close>

theorem revocation_is_permanent:
  "keeps (sessionRevoked i) (registerLocalAccount pf rd) \<and>
   keeps (sessionRevoked i) (loginLocalAccount pf ld) \<and>
   keeps (sessionRevoked i) (upsertGoogleUser pf g) \<and>
   keeps (sessionRevoked i) (issueTokenPair pf user origin) \<and>
   keeps (sessionRevoked i) (refreshAccessToken pf token) \<and>
   keeps (sessionRevoked i) (revokeRefreshToken pf token)"
  unfolding registerLocalAccount_def loginLocalAccount_def upsertGoogleUser_def issueTokenPair_def
    refreshAccessToken_def revokeRefreshToken_def loginFailure_def refreshFailure_def Let_def
  by (rule conjI keeps_intros | simp)+

lemma revoke_revokes:
  assumes "envFault (readEnv pf) = None"
    and "pf_jwtVerify pf (REFRESH_TOKEN_SECRET (readEnv pf)) (pf_clock pf (w_clockReads w)) token = Inr c"
    and "parseOid (pf_oids pf) (cl_sid c) = Some i" "i \<in> ses_id ` set (w_sessions w)"
  shows "\<exists>w\<^sub>1. revokeRefreshToken pf token w = (Inr (), w\<^sub>1) \<and> sessionRevoked i w\<^sub>1"
proof -
  obtain s where s: "findById ses_id i (w_sessions w) = Some s" "ses_id s = i"
    using assms(4) by (metis findById_None findById_Some option.exhaust)
  then show ?thesis
    using assms(1-3)
    by (simp add: revokeRefreshToken_def verifyRefreshToken_def jwtVerify_def backendEnv_def now_run catch_def
        bind_def castObjectId_def ret_def gets_def saveSession_def recordAttempt_def modify_def
        sessionRevoked_def findById_updateById)
qed

lemma revoked_not_authenticated:
  assumes "envFault (readEnv pf) = None" "sessionRevoked i w"
    and "pf_jwtVerify pf (ACCESS_TOKEN_SECRET (readEnv pf)) (pf_clock pf (w_clockReads w)) atoken = Inr c"
      "parseOid (pf_oids pf) (cl_sid c) = Some i"
  shows "\<exists>w'. authenticateAccessToken pf atoken w = (Inr None, w')"
  using assms
  by (auto simp: sessionRevoked_def authenticateAccessToken_def verifyAccessToken_def jwtVerify_def backendEnv_def now_run
      castObjectId_def act_simps bind_def gets_def ret_def)

text \<open>
  Revoking a refresh token that verifies revokes the session it names; afterwards an access
  token of that session no longer authenticates, and a refresh token of that session is refused with
  the code for a revoked or an invalid token.
\<close>

theorem revoke_locks_out:
  assumes "envFault (readEnv pf) = None"
    and "pf_jwtVerify pf (REFRESH_TOKEN_SECRET (readEnv pf)) (pf_clock pf (w_clockReads w)) token = Inr c"
    and "parseOid (pf_oids pf) (cl_sid c) = Some i" "i \<in> ses_id ` set (w_sessions w)"
    and "w\<^sub>1 = snd (revokeRefreshToken pf token w)"
    and "pf_jwtVerify pf (ACCESS_TOKEN_SECRET (readEnv pf)) (pf_clock pf (w_clockReads w\<^sub>1)) atoken = Inr c\<^sub>a"
      "parseOid (pf_oids pf) (cl_sid c\<^sub>a) = Some i"
    and "pf_jwtVerify pf (REFRESH_TOKEN_SECRET (readEnv pf)) (pf_clock pf (w_clockReads w\<^sub>1)) rtoken = Inr c\<^sub>r"
      "parseOid (pf_oids pf) (cl_sid c\<^sub>r) = Some i"
  shows "sessionRevoked i w\<^sub>1 \<and>
    fst (authenticateAccessToken pf atoken w\<^sub>1) = Inr None \<and>
    fst (refreshAccessToken pf rtoken w\<^sub>1) \<in>
      {Inl (UnauthorizedException (codeBody ''refresh_token_invalid'' ''Refresh token is invalid'')),
       Inl (UnauthorizedException (codeBody ''refresh_token_revoked'' ''Refresh token has been revoked''))}"
proof -
  have rev: "sessionRevoked i w\<^sub>1" using revoke_revokes [OF assms(1-4)] assms(5) by auto
  then obtain s' where s': "findById ses_id i (w_sessions w\<^sub>1) = Some s'" "ses_revokedAt s' \<noteq> None"
    by (auto simp: sessionRevoked_def)
  have "fst (authenticateAccessToken pf atoken w\<^sub>1) = Inr None"
    using revoked_not_authenticated [OF assms(1) rev assms(6,7)] by auto
  moreover have "fst (refreshAccessToken pf rtoken w\<^sub>1) \<in>
      {Inl (UnauthorizedException (codeBody ''refresh_token_invalid'' ''Refresh token is invalid'')),
       Inl (UnauthorizedException (codeBody ''refresh_token_revoked'' ''Refresh token has been revoked''))}"
    using assms(1,8,9) s'
    by (simp add: refreshAccessToken_def verifyRefreshToken_def jwtVerify_def backendEnv_def now_run
        castObjectId_def act_simps bind_def gets_def ret_def refreshFailure_def recordAttempt_def modify_def
        throw_def)
  ultimately show ?thesis using rev by blast
qed

subsection \<open>Issued tokens\<close>

lemma issueTokenPair_Inr:
  assumes "issueTokenPair pf user origin w = (Inr r, w\<^sub>1)"
  shows "\<exists>s. w_sessions w\<^sub>1 = w_sessions w @ [s] \<and> ses_id s = issue (pf_newOid pf) (w_oidsIssued w) \<and>
    is_sessionId r = idStr pf (ses_id s) \<and> parseOid (pf_oids pf) (su_id user) = Some (ses_userId s) \<and>
    ses_status s = SessionActive \<and> ses_revokedAt s = None \<and> ses_createdBy s = origin \<and>
    ses_expiresAt s = pf_clock pf (w_clockReads w) + ttlMillis (REFRESH_TOKEN_TTL_SECONDS (readEnv pf)) \<and>
    ses_tokenHash s = hashToken pf (is_refreshToken r) \<and> rsr_user (is_response r) = user \<and>
    w_users w\<^sub>1 = w_users w \<and> envFault (readEnv pf) = None"
  using assms
  by (auto simp: issueTokenPair_def signRefreshToken_def buildRefreshSessionResponse_def signAccessToken_def
      jwtSign_def backendEnv_def toObjectId_def bind_Inr_iff now_run freshOid_run randomUUID_def
      insertSession_def recordAttempt_def act_simps Let_def split: option.splits if_splits)


subsection \<open>Local login\<close>

text \<open>
  C34: a local login succeeds only for a stored, active account with local sign-in enabled whose
  stored password hash is what the remote processor returned for the given password. It then adds
  exactly one session, for that user, and returns that user's profile.
\<close>

theorem login_sound:
  assumes "loginLocalAccount pf payload w = (Inr r, w')"
  shows "\<exists>u la h s v v'.
     u \<in> set (w_users w) \<and> usr_email u = normalizeEmail pf (ld_email payload) \<and>
     usr_status u = ''active'' \<and> usr_localAuth u = Some la \<and> la_enabled la \<and>
     la_passwordSha1 la = Some h \<and> h \<noteq> [] \<and>
     hashPasswordWithSha1 pf (usr_email u) (ld_password payload) v = (Inr h, v') \<and>
     w_sessions w' = w_sessions w @ [s] \<and> ses_userId s = usr_id u \<and> ses_status s = SessionActive \<and>
     rsr_user (is_response r) = toSessionUser pf u"
proof -
  let ?email = "normalizeEmail pf (ld_email payload)"
  have catch_Inr: "catch m (\<lambda>e. bind (recordAttempt p q a b c d) (\<lambda>_. throw (g e))) v = (Inr x, v')
      \<longleftrightarrow> m v = (Inr x, v')" for m :: "'b act" and p q a b c d g v x v'
    by (auto simp: catch_def recordAttempt_def act_simps split: prod.splits sum.splits)
  let ?v = "w\<lparr>w_attempts := w_attempts w @ [\<lparr>atm_provider = LocalLogin, atm_emailCandidate = Some ?email,
    atm_result = Started, atm_failureReason = None, atm_userId = None, atm_sessionId = None\<rparr>]\<rparr>"
  from assms obtain u la h v' v\<^sub>1 where
    u: "findOne (pf_users pf) (\<lambda>u. usr_email u = ?email) (w_users w) = Some u"
    and facts: "usr_status u = ''active''" "usr_localAuth u = Some la" "la_enabled la"
      "la_passwordSha1 la = Some h" "h \<noteq> []"
    and hash: "hashPasswordWithSha1 pf ?email (ld_password payload) ?v = (Inr h, v')"
    and issue: "issueTokenPair pf (toSessionUser pf u) ''local-login'' v' = (Inr r, v\<^sub>1)"
    and w': "w_sessions w' = w_sessions v\<^sub>1"
    by (auto simp: loginLocalAccount_def loginFailure_def isLocalAuthEnabled_def backendEnv_def bind_Inr_iff
        recordAttempt_def [of LocalLogin Started] recordAttempt_def [of LocalLogin Succeeded]
        catch_Inr act_simps Let_def split: option.splits if_splits)
  have "w_sessions v' = w_sessions w"
    using dataOf_eqD(3) [OF technical_run [OF technical_processor(5) hash]] by simp
  with issueTokenPair_Inr [OF issue] w' obtain s where "w_sessions w' = w_sessions w @ [s]"
    "ses_userId s = usr_id u" "ses_status s = SessionActive" "rsr_user (is_response r) = toSessionUser pf u"
    by (auto simp: toSessionUser_def)
  moreover have "u \<in> set (w_users w)" "usr_email u = ?email" using findOne_Some [OF u] by auto
  ultimately show ?thesis using facts hash by metis
qed

subsection \<open>The operations on a concrete world\<close>

lemma sample_token: "sampleVerify [0x2E, 0x61, 0x61] =
    Inr \<lparr>cl_type = ''access'', cl_sub = [], cl_sid = [0x61, 0x61], cl_jti = None\<rparr>"
  by (simp add: sampleVerify_def)

lemma sample_authenticate:
  "authenticateAccessToken (samplePlatform []) [0x2E, 0x61, 0x61] sampleWorld =
     (Inr (Some (toSessionUser (samplePlatform []) (sampleUser 0 ''ann''))), sampleWorld\<lparr>w_clockReads := 2\<rparr>)"
  by (simp add: authenticateAccessToken_def verifyAccessToken_def jwtVerify_def backendEnv_def now_run
      castObjectId_def act_simps bind_def gets_def ret_def authFindById_run sample_token findById_def
      sample_defs)

theorem authenticate_sound_witness:
  "\<exists>s u. s \<in> set (w_sessions sampleWorld) \<and> ses_status s = SessionActive \<and> u \<in> set (w_users sampleWorld) \<and>
     fst (authenticateAccessToken (samplePlatform []) [0x2E, 0x61, 0x61] sampleWorld) =
       Inr (Some (toSessionUser (samplePlatform []) u))"
  using authenticate_sound [OF sample_authenticate] sample_authenticate by auto

theorem revoke_locks_out_witness:
  "sessionRevoked 2 (snd (revokeRefreshToken (samplePlatform []) [0x2E, 0x61, 0x61] sampleWorld))"
proof -
  have "2 \<in> ses_id ` set (w_sessions sampleWorld)" by (simp add: sample_defs)
  with revoke_locks_out [where pf = "samplePlatform []" and w = sampleWorld and i = 2
      and token = "[0x2E, 0x61, 0x61]" and atoken = "[0x2E, 0x61, 0x61]" and rtoken = "[0x2E, 0x61, 0x61]"]
  show ?thesis by (simp add: sample_token)
qed

lemma sample_issue:
  "\<exists>r w\<^sub>1. issueTokenPair (samplePlatform []) (toSessionUser (samplePlatform []) (sampleUser 1 ''bob''))
      ''google-login'' sampleWorld = (Inr r, w\<^sub>1) \<and>
     rsr_accessToken (is_response r) = [0x61, 0x2E, 0x61, 0x61, 0x61] \<and> is_sessionId r = [0x61, 0x61, 0x61] \<and>
     w_clockReads w\<^sub>1 = 3"
  by (simp add: issueTokenPair_def signRefreshToken_def buildRefreshSessionResponse_def signAccessToken_def
      jwtSign_def backendEnv_def toObjectId_def now_run freshOid_run randomUUID_def hashToken_def
      insertSession_def recordAttempt_def act_simps bind_def gets_def ret_def modify_def isInteger_def ttlMillis_def
      toSessionUser_def validDate_def sample_defs numeral_3_eq_3 js_def)


lemma sample_hash:
  assumes "w_authMessageId w < 2 ^ 32"
  shows "hashPasswordWithSha1 (samplePlatform localEnv) e p w =
    (Inr (js ''h''), w\<lparr>w_authMessageId := Suc (w_authMessageId w), w_netCalls := Suc (w_netCalls w)\<rparr>)"
proof -
  obtain buf where req: "buildSha1Request e p w = (Inr buf, w\<lparr>w_authMessageId := Suc (w_authMessageId w)\<rparr>)"
    using assms
    by (simp add: buildSha1Request_def nextAuthId_def writeUInt32LE_def act_simps wire_consts Let_def)
  obtain r where "exchange (samplePlatform localEnv) authErrors buf (js ''p'')
      (PROCESSOR_REMOTE_PORT (readEnv (samplePlatform localEnv)))
      (w\<lparr>w_authMessageId := Suc (w_authMessageId w)\<rparr>) =
      (Inr r, w\<lparr>w_authMessageId := Suc (w_authMessageId w), w_netCalls := Suc (w_netCalls w)\<rparr>)"
    "rr_status r = STATUS_OK" "rr_payload r = js ''h''"
    using sample_exchange [of localEnv authErrors buf "js ''p''"
        "PROCESSOR_REMOTE_PORT (readEnv (samplePlatform localEnv))"
        "w\<lparr>w_authMessageId := Suc (w_authMessageId w)\<rparr>"] by auto
  with req show ?thesis
    by (simp add: hashPasswordWithSha1_def sha1Exchange_def backendEnv_def bind_def ret_def)
qed

lemma sample_login:
  "\<exists>r w'. loginLocalAccount (samplePlatform localEnv) \<lparr>ld_email = js ''ann@x'', ld_password = js ''pw''\<rparr> sampleWorld
     = (Inr r, w')"
proof -
  let ?w = "sampleWorld\<lparr>w_attempts := [\<lparr>atm_provider = LocalLogin, atm_emailCandidate = Some (js ''ann@x''),
    atm_result = Started, atm_failureReason = None, atm_userId = None, atm_sessionId = None\<rparr>]\<rparr>"
  have "hashPasswordWithSha1 (samplePlatform localEnv) (js ''ann@x'') (js ''pw'') ?w =
      (Inr (js ''h''), ?w\<lparr>w_authMessageId := 2, w_netCalls := 1\<rparr>)"
    using sample_hash [of ?w] by (simp add: sample_defs)
  then have hash: "bind (catch (hashPasswordWithSha1 (samplePlatform localEnv) (js ''ann@x'') (js ''pw'')) h) f ?w =
      f (js ''h'') (?w\<lparr>w_authMessageId := 2, w_netCalls := 1\<rparr>)" for h and f :: "jstr \<Rightarrow> issued_session act"
    by (simp add: catch_def bind_def)
  have trim: "trim (js ''ann@x'') = js ''ann@x''"
    by (simp add: trim_def js_def isSpace_def)
  have ann: "findOne naturalOrder (\<lambda>u. usr_email u = js ''ann@x'') (w_users sampleWorld) = Some (sampleUser 0 ''ann'')"
    by (simp add: findOne_def findMany_def sample_defs)
  have start: "bind (recordAttempt LocalLogin Started (Some (js ''ann@x'')) None None None) f sampleWorld = f () ?w"
    for f :: "unit \<Rightarrow> issued_session act"
    by (simp add: recordAttempt_def act_simps sample_defs)
  have issue: "\<exists>r v. issueTokenPair (samplePlatform localEnv)
      (toSessionUser (samplePlatform localEnv) (sampleUser 0 ''ann'')) ''local-login''
      (?w\<lparr>w_authMessageId := 2, w_netCalls := 1\<rparr>) = (Inr r, v)"
    by (simp add: issueTokenPair_def signRefreshToken_def buildRefreshSessionResponse_def signAccessToken_def
      jwtSign_def backendEnv_def toObjectId_def now_run freshOid_run randomUUID_def hashToken_def
      insertSession_def recordAttempt_def act_simps bind_def gets_def ret_def modify_def isInteger_def ttlMillis_def
      toSessionUser_def validDate_def sample_defs js_def)
  have user: "usr_status (sampleUser 0 ''ann'') = ''active''"
    "usr_localAuth (sampleUser 0 ''ann'') = Some \<lparr>la_enabled = True, la_passwordSha1 = Some (js ''h''),
       la_passwordUpdatedAt = None, la_createdVia = None\<rparr>"
    by (simp_all add: sampleUser_def)
  have users: "w_users ?w = w_users sampleWorld" by simp
  from issue obtain r v where "issueTokenPair (samplePlatform localEnv)
      (toSessionUser (samplePlatform localEnv) (sampleUser 0 ''ann'')) ''local-login''
      (?w\<lparr>w_authMessageId := 2, w_netCalls := 1\<rparr>) = (Inr r, v)" by blast
  then show ?thesis
    by (simp add: loginLocalAccount_def isLocalAuthEnabled_def backendEnv_def normalizeEmail_def Let_def
        bind_ret trim start bind_gets_app users ann user hash bind_Inr)
      (simp add: bind_def recordAttempt_def modify_app ret_app)
qed

theorem login_sound_witness:
  "\<exists>r w' u. loginLocalAccount (samplePlatform localEnv) \<lparr>ld_email = js ''ann@x'', ld_password = js ''pw''\<rparr> sampleWorld
      = (Inr r, w') \<and> u \<in> set (w_users sampleWorld) \<and> usr_status u = ''active'' \<and>
      rsr_user (is_response r) = toSessionUser (samplePlatform localEnv) u"
proof -
  obtain r w' where run: "loginLocalAccount (samplePlatform localEnv)
      \<lparr>ld_email = js ''ann@x'', ld_password = js ''pw''\<rparr> sampleWorld = (Inr r, w')"
    using sample_login by blast
  from login_sound [OF this] run show ?thesis by blast
qed

end
