(* ===== verification/AuthController.thy ===== *)
theory AuthController
  imports Cookies AuthService
begin

text \<open>
  The HTTP side of the accounts: \<open>auth/auth.controller.ts\<close>, the guards \<open>auth/guards\<close>, the Google strategy
  and the session serializer. A handler is an action that answers with its result or with the exception it
  throws; cookies it sets or clears are logged in the world, and the user kept in an HTTP session is stored
  under the identifier of the session.
\<close>

record http_request =
  req_path :: "jstr option"
  req_authorization :: "jstr option"
  req_cookie :: "jstr option"
  req_session :: "nat option"
  req_user :: "session_user option"

subsection \<open>Guards\<close>

definition accessTokenMissing :: exn where
  "accessTokenMissing = UnauthorizedException (codeBody ''access_token_missing'' ''Access token is required'')"

definition accessTokenGuard :: "platform \<Rightarrow> http_request \<Rightarrow> http_request act" where
  "accessTokenGuard pf request =
     (let authorization = (case req_authorization request of None \<Rightarrow> [] | Some a \<Rightarrow> a) in
      if \<not> startsWith (js ''Bearer '') authorization then throw accessTokenMissing
      else
        let token = trim (drop (length (js ''Bearer '')) authorization) in
        if token = [] then throw accessTokenMissing
        else
          bind (authenticateAccessToken pf token) (\<lambda>user.
          case user of
            None \<Rightarrow> throw (UnauthorizedException (codeBody ''access_token_expired'' ''Access token is expired or invalid''))
          | Some u \<Rightarrow> ret (request\<lparr>req_user := Some u\<rparr>)))"

datatype google_options = FailureRedirect string | GoogleScope "string list"

definition getAuthenticateOptions :: "http_request \<Rightarrow> google_options" where
  "getAuthenticateOptions request =
     (let isCallback = (case req_path request of None \<Rightarrow> False | Some p \<Rightarrow> includesStr (js ''/callback'') p) in
      if isCallback then FailureRedirect ''/auth/google/failure'' else GoogleScope [''email'', ''profile''])"

definition sessionGuard :: "http_request \<Rightarrow> bool act" where
  "sessionGuard request =
     bind (gets (\<lambda>w. case req_session request of None \<Rightarrow> None | Some s \<Rightarrow> w_httpSessions w s)) (\<lambda>user.
     if user \<noteq> None then ret True
     else throw (UnauthorizedException
       \<lparr>body_error = Some ''Unauthorized'', body_code = None, body_message = js ''Authentication required''\<rparr>))"

subsection \<open>The Google strategy and the session serializer\<close>

record google_profile =
  gp_id :: jstr
  gp_displayName :: jstr
  gp_emails :: "jstr list option"
  gp_photos :: "jstr list option"

definition validateGoogle :: "platform \<Rightarrow> google_profile \<Rightarrow> session_user act" where
  "validateGoogle pf profile =
     (let primaryEmail = (case gp_emails profile of Some (e # _) \<Rightarrow> e | _ \<Rightarrow> []);
          picture = (case gp_photos profile of Some (p # _) \<Rightarrow> Some p | _ \<Rightarrow> None) in
      upsertGoogleUser pf \<lparr>gu_googleId = gp_id profile, gu_email = primaryEmail,
        gu_displayName = (if gp_displayName profile \<noteq> [] then gp_displayName profile else primaryEmail),
        gu_avatarUrl = picture\<rparr>)"

definition serializeUser :: "session_user \<Rightarrow> jstr" where
  "serializeUser user = su_id user"

definition deserializeUser :: "platform \<Rightarrow> jstr \<Rightarrow> session_user option act" where
  "deserializeUser pf i = authFindById pf i"

subsection \<open>Cookies and redirects\<close>

definition cookiePrefix :: "platform \<Rightarrow> jstr" where
  "cookiePrefix pf = REFRESH_COOKIE_NAME (readEnv pf) @ [0x3D]"

definition getRefreshTokenFromRequest :: "platform \<Rightarrow> http_request \<Rightarrow> jstr option act" where
  "getRefreshTokenFromRequest pf request =
     bind (backendEnv pf) (\<lambda>env.
     case req_cookie request of
       None \<Rightarrow> ret None
     | Some cookieHeader \<Rightarrow>
         if cookieHeader = [] then ret None
         else
           let cookieParts = map trim (splitOn 0x3B cookieHeader) in
           (case find (startsWith (cookiePrefix pf)) cookieParts of
              None \<Rightarrow> ret None
            | Some cookieValue \<Rightarrow>
                (case decodeURIComponent (drop (length (REFRESH_COOKIE_NAME env) + 1) cookieValue) of
                   None \<Rightarrow> throw URIError
                 | Some v \<Rightarrow> ret (Some v))))"

definition timesThousand :: "jsnum \<Rightarrow> jsnum" where
  "timesThousand n = (case n of Fin q \<Rightarrow> Fin (q * 1000) | x \<Rightarrow> x)"

definition setRefreshCookie :: "platform \<Rightarrow> jstr \<Rightarrow> unit act" where
  "setRefreshCookie pf refreshToken =
     bind (backendEnv pf) (\<lambda>env.
     modify (\<lambda>w. w\<lparr>w_cookies := w_cookies w @ [SetCookie (REFRESH_COOKIE_NAME env) refreshToken
       \<lparr>co_httpOnly = True, co_sameSite = ''lax'', co_secure = False,
        co_maxAge = Some (timesThousand (REFRESH_TOKEN_TTL_SECONDS env)), co_path = ''/''\<rparr>]\<rparr>))"

definition clearRefreshCookie :: "platform \<Rightarrow> unit act" where
  "clearRefreshCookie pf =
     bind (backendEnv pf) (\<lambda>env.
     modify (\<lambda>w. w\<lparr>w_cookies := w_cookies w @ [ClearCookie (REFRESH_COOKIE_NAME env)
       \<lparr>co_httpOnly = True, co_sameSite = ''lax'', co_secure = False, co_maxAge = None, co_path = ''/''\<rparr>]\<rparr>))"

definition buildFrontendRedirect :: "platform \<Rightarrow> jstr option \<Rightarrow> jstr act" where
  "buildFrontendRedirect pf error =
     (let frontendUrl = (case pf_env pf ''FRONTEND_APP_URL'' of None \<Rightarrow> js ''http://localhost:5173'' | Some u \<Rightarrow> u) in
      case error of
        None \<Rightarrow> ret frontendUrl
      | Some e \<Rightarrow>
          if e = [] then ret frontendUrl
          else (case pf_urlWithParam pf frontendUrl (js ''authError'') e of
                  None \<Rightarrow> throw TypeError | Some url \<Rightarrow> ret url))"

definition rememberUser :: "http_request \<Rightarrow> session_user \<Rightarrow> unit act" where
  "rememberUser request user =
     (case req_session request of
        None \<Rightarrow> ret ()
      | Some s \<Rightarrow> modify (\<lambda>w. w\<lparr>w_httpSessions := (w_httpSessions w)(s \<mapsto> user)\<rparr>))"

definition destroySession :: "http_request \<Rightarrow> unit act" where
  "destroySession request =
     (case req_session request of
        None \<Rightarrow> ret ()
      | Some s \<Rightarrow> modify (\<lambda>w. w\<lparr>w_httpSessions := (w_httpSessions w)(s := None)\<rparr>))"

subsection \<open>Handlers\<close>

definition startGoogleLogin :: "unit act" where
  "startGoogleLogin = recordAttempt Google Started None None None None"

text \<open>The callback and failure handlers answer with the address they redirect to.\<close>

definition handleGoogleCallback :: "platform \<Rightarrow> http_request \<Rightarrow> jstr act" where
  "handleGoogleCallback pf request =
     (case req_user request of
        None \<Rightarrow>
          bind (recordAttempt Google Failed None (Some ''missing-oauth-user'') None None) (\<lambda>_.
          buildFrontendRedirect pf (Some (js ''oauth_failed'')))
      | Some oauthUser \<Rightarrow>
          bind (rememberUser request oauthUser) (\<lambda>_.
          bind (issueTokenPair pf oauthUser ''google-login'') (\<lambda>issuedSession.
          bind (setRefreshCookie pf (is_refreshToken issuedSession)) (\<lambda>_.
          bind (recordAttempt Google Succeeded (Some (su_email oauthUser)) None (Some (su_id oauthUser)) None) (\<lambda>_.
          buildFrontendRedirect pf None)))))"

definition handleGoogleFailure :: "platform \<Rightarrow> jstr act" where
  "handleGoogleFailure pf =
     bind (recordAttempt Google Cancelled None (Some ''google-auth-cancelled'') None None) (\<lambda>_.
     buildFrontendRedirect pf (Some (js ''google_auth_cancelled'')))"

definition registerLocal :: "platform \<Rightarrow> register_dto \<Rightarrow> http_request \<Rightarrow> refresh_session_response act" where
  "registerLocal pf payload request =
     (case validateRegisterLocalAuthDto pf payload of
        Inl (code, msg) \<Rightarrow> throw (UnauthorizedException (codeBody code msg))
      | Inr validated \<Rightarrow>
          bind (registerLocalAccount pf validated) (\<lambda>issuedSession.
          bind (rememberUser request (rsr_user (is_response issuedSession))) (\<lambda>_.
          bind (setRefreshCookie pf (is_refreshToken issuedSession)) (\<lambda>_.
          ret (is_response issuedSession)))))"

definition loginLocal :: "platform \<Rightarrow> login_dto \<Rightarrow> http_request \<Rightarrow> refresh_session_response act" where
  "loginLocal pf payload request =
     (case validateLoginLocalAuthDto pf payload of
        Inl (code, msg) \<Rightarrow> throw (UnauthorizedException (codeBody code msg))
      | Inr validated \<Rightarrow>
          bind (loginLocalAccount pf validated) (\<lambda>issuedSession.
          bind (rememberUser request (rsr_user (is_response issuedSession))) (\<lambda>_.
          bind (setRefreshCookie pf (is_refreshToken issuedSession)) (\<lambda>_.
          ret (is_response issuedSession)))))"

definition getCurrentUser :: "platform \<Rightarrow> http_request \<Rightarrow> session_user option act" where
  "getCurrentUser pf request = bind (accessTokenGuard pf request) (\<lambda>r. ret (req_user r))"

text \<open>\<open>request.user!.id\<close>: the guard has set the user.\<close>

definition requestUserId :: "http_request \<Rightarrow> jstr act" where
  "requestUserId request = (case req_user request of None \<Rightarrow> throw TypeError | Some u \<Rightarrow> ret (su_id u))"

definition searchUsersHandler :: "platform \<Rightarrow> http_request \<Rightarrow> jstr option \<Rightarrow> session_user list act" where
  "searchUsersHandler pf request query =
     bind (accessTokenGuard pf request) (\<lambda>r.
     bind (requestUserId r) (\<lambda>userId.
     searchUsers pf (case query of None \<Rightarrow> [] | Some q \<Rightarrow> q) userId))"

definition refresh :: "platform \<Rightarrow> http_request \<Rightarrow> refresh_session_response act" where
  "refresh pf request =
     bind (getRefreshTokenFromRequest pf request) (\<lambda>refreshToken.
     case refreshToken of
       None \<Rightarrow> throw (UnauthorizedException (codeBody ''refresh_token_missing'' ''Refresh token is required''))
     | Some token \<Rightarrow>
         if token = []
         then throw (UnauthorizedException (codeBody ''refresh_token_missing'' ''Refresh token is required''))
         else catch (refreshAccessToken pf token) (\<lambda>e. bind (clearRefreshCookie pf) (\<lambda>_. throw e)))"

definition logout :: "platform \<Rightarrow> http_request \<Rightarrow> bool act" where
  "logout pf request =
     bind (getRefreshTokenFromRequest pf request) (\<lambda>refreshToken.
     bind (case refreshToken of
             None \<Rightarrow> ret ()
           | Some token \<Rightarrow> if token = [] then ret () else revokeRefreshToken pf token) (\<lambda>_.
     bind (clearRefreshCookie pf) (\<lambda>_.
     bind (destroySession request) (\<lambda>_.
     ret True))))"

definition getAuthStatus :: "(string \<times> string)" where
  "getAuthStatus = (''auth'', ''ready'')"

subsection \<open>The refresh cookie comes back\<close>

text \<open>What a browser sends for a list of cookies, each in the form name, equals sign, encoded value.\<close>

fun cookieHeaderOf :: "jstr list \<Rightarrow> jstr" where
  "cookieHeaderOf [] = []"
| "cookieHeaderOf [p] = p"
| "cookieHeaderOf (p # q # ps) = p @ [0x3B, 0x20] @ cookieHeaderOf (q # ps)"

lemma splitOn_no: "d \<notin> set s \<Longrightarrow> splitOn d s = [s]"
  by (induction s) auto

lemma splitOn_sep: "d \<notin> set p \<Longrightarrow> splitOn d (p @ d # s) = p # splitOn d s"
  by (induction p) auto

lemma splitOn_cookieHeader:
  "\<forall>p\<in>set (p0 # ps). 0x3B \<notin> set p \<Longrightarrow>
   map trim (splitOn 0x3B (cookieHeaderOf (p0 # ps))) = map trim (p0 # ps)"
proof (induction ps arbitrary: p0)
  case (Cons q ps)
  have "splitOn 0x3B (0x20 # s) = (case splitOn 0x3B s of [] \<Rightarrow> [[0x20]] | v # vs \<Rightarrow> (0x20 # v) # vs)" for s
    by simp
  moreover have "map trim (case splitOn 0x3B s of [] \<Rightarrow> [[0x20]] | v # vs \<Rightarrow> (0x20 # v) # vs) = map trim (splitOn 0x3B s)"
    if "splitOn 0x3B s \<noteq> []" for s
    using that by (cases "splitOn 0x3B s") (simp_all add: trim_def isSpace_def)
  moreover have "splitOn 0x3B (cookieHeaderOf (q # ps)) \<noteq> []"
    using Cons.IH [of q] Cons.prems by auto
  ultimately show ?case
    using Cons by (simp add: splitOn_sep del: splitOn.simps(2))
qed (simp add: splitOn_no)

lemma trim_no_space: "\<forall>c\<in>set s. \<not> isSpace c \<Longrightarrow> trim s = s"
proof -
  have "dropWhile isSpace t = t" if "\<forall>c\<in>set t. \<not> isSpace c" for t
    using that by (cases t) auto
  from this [of s] this [of "rev s"] show "\<forall>c\<in>set s. \<not> isSpace c \<Longrightarrow> trim s = s" by (simp add: trim_def)
qed

lemma equals_sign: "(0x3D :: jchar) \<noteq> 0x3B" "\<not> isSpace 0x3D"
  by (simp_all add: isSpace_def)

lemma setRefreshCookie_run:
  "setRefreshCookie pf token w = (Inr (), w\<^sub>1) \<Longrightarrow> envFault (readEnv pf) = None \<and>
   (\<exists>opts. w_cookies w\<^sub>1 = w_cookies w @ [SetCookie (REFRESH_COOKIE_NAME (readEnv pf)) token opts])"
  by (auto simp: setRefreshCookie_def backendEnv_def bind_def ret_def throw_def modify_def split: option.splits)

lemma read_cookie:
  assumes "envFault (readEnv pf) = None" "encodeURIComponent v = Some enc"
    and "\<forall>c\<in>set (REFRESH_COOKIE_NAME (readEnv pf)). c \<noteq> 0x3B \<and> \<not> isSpace c"
    and "\<forall>p\<in>set (before @ behind). 0x3B \<notin> set p" "\<forall>p\<in>set before. \<not> startsWith (cookiePrefix pf) (trim p)"
    and "req_cookie request = Some (cookieHeaderOf (before @ (cookiePrefix pf @ enc) # behind))"
  shows "getRefreshTokenFromRequest pf request w = (Inr (Some v), w)"
proof -
  let ?part = "cookiePrefix pf @ enc" and ?prefix = "cookiePrefix pf"
  have chars: "\<forall>c\<in>set ?part. c \<noteq> 0x3B \<and> \<not> isSpace c"
    using assms(3) encoded_chars [OF assms(2)] equals_sign by (auto simp: cookiePrefix_def)
  let ?parts = "before @ ?part # behind"
  have "map trim (splitOn 0x3B (cookieHeaderOf ?parts)) = map trim ?parts"
    using splitOn_cookieHeader [of "hd ?parts" "tl ?parts"] assms(4) chars by (cases before) auto
  moreover have "find (startsWith ?prefix) (map trim ?parts) = Some ?part"
  proof -
    have "find (startsWith ?prefix) (map trim before) = None"
      using assms(5) by (auto simp: find_None_iff)
    moreover have "trim ?part = ?part" using chars by (intro trim_no_space) auto
    moreover have "startsWith ?prefix ?part" by (simp add: startsWith_def)
    ultimately show ?thesis by (induction before) auto
  qed
  moreover have "?part \<noteq> []" by (simp add: cookiePrefix_def)
  then have "cookieHeaderOf ?parts \<noteq> []" by (cases before; cases behind; cases "tl before") auto
  ultimately show ?thesis
    using assms(1,6) decodeURIComponent_encodeURIComponent [OF assms(2)]
    by (simp add: getRefreshTokenFromRequest_def backendEnv_def bind_def ret_def Let_def) (simp add: cookiePrefix_def ret_def)
qed

text \<open>
  C8: a refresh cookie comes back whole: when the cookie the server has set is sent back, in encoded form
  and among any other cookies, the token read from the request is the token that was set. The cookie's name is
  free of separators and white space, and no cookie before it has the same name.
\<close>

theorem refresh_cookie_roundtrip:
  assumes "setRefreshCookie pf token w = (Inr (), w\<^sub>1)" "last (w_cookies w\<^sub>1) = SetCookie n v opts"
    and "encodeURIComponent v = Some enc" "\<forall>c\<in>set n. c \<noteq> 0x3B \<and> \<not> isSpace c"
    and "\<forall>p\<in>set (before @ behind). 0x3B \<notin> set p" "\<forall>p\<in>set before. \<not> startsWith (n @ [0x3D]) (trim p)"
    and "req_cookie request = Some (cookieHeaderOf (before @ (n @ 0x3D # enc) # behind))"
  shows "getRefreshTokenFromRequest pf request w\<^sub>2 = (Inr (Some token), w\<^sub>2)"
proof -
  from setRefreshCookie_run [OF assms(1)] assms(2) have n: "n = REFRESH_COOKIE_NAME (readEnv pf)" and v: "v = token"
    and env: "envFault (readEnv pf) = None" by auto
  then have "cookiePrefix pf = n @ [0x3D]" by (simp add: cookiePrefix_def)
  then show ?thesis
    using read_cookie [OF env assms(3), of before behind request] assms(4-7) n v by simp
qed

subsection \<open>Logging out\<close>

lemma getRefreshToken_env:
  "getRefreshTokenFromRequest pf request w = (Inr (Some token), w') \<Longrightarrow> envFault (readEnv pf) = None"
  by (auto simp: getRefreshTokenFromRequest_def backendEnv_def bind_def throw_def split: option.splits)

text \<open>
  C7: logging out ends the session for good. With the refresh token of a stored session in its cookie the
  request succeeds, the session is revoked, the cookie is cleared, the user kept in the HTTP session is gone,
  and every later request with an access token of that session is refused by the guard.
\<close>

theorem logout_ends_session:
  assumes "getRefreshTokenFromRequest pf request w = (Inr (Some token), w)" "token \<noteq> []"
    and "pf_jwtVerify pf (REFRESH_TOKEN_SECRET (readEnv pf)) (pf_clock pf (w_clockReads w)) token = Inr c"
    and "parseOid (pf_oids pf) (cl_sid c) = Some i" "i \<in> ses_id ` set (w_sessions w)"
    and "w\<^sub>1 = snd (logout pf request w)"
    and "pf_jwtVerify pf (ACCESS_TOKEN_SECRET (readEnv pf)) (pf_clock pf (w_clockReads w\<^sub>1)) atoken = Inr c\<^sub>a"
      "parseOid (pf_oids pf) (cl_sid c\<^sub>a) = Some i"
    and "req_authorization later = Some (js ''Bearer '' @ atoken)" "trim atoken = atoken" "atoken \<noteq> []"
  shows "fst (logout pf request w) = Inr True \<and> sessionRevoked i w\<^sub>1 \<and>
    (\<exists>opts. last (w_cookies w\<^sub>1) = ClearCookie (REFRESH_COOKIE_NAME (readEnv pf)) opts) \<and>
    fst (sessionGuard request w\<^sub>1) \<noteq> Inr True \<and>
    fst (accessTokenGuard pf later w\<^sub>1) =
      Inl (UnauthorizedException (codeBody ''access_token_expired'' ''Access token is expired or invalid''))"
proof -
  have env: "envFault (readEnv pf) = None" using getRefreshToken_env [OF assms(1)] .
  obtain v where v: "revokeRefreshToken pf token w = (Inr (), v)" "sessionRevoked i v"
    using revoke_revokes [OF env assms(3-5)] by blast
  let ?cleared = "v\<lparr>w_cookies := w_cookies v @ [ClearCookie (REFRESH_COOKIE_NAME (readEnv pf))
       \<lparr>co_httpOnly = True, co_sameSite = ''lax'', co_secure = False, co_maxAge = None, co_path = ''/''\<rparr>]\<rparr>"
  have run: "logout pf request w = (Inr True, case req_session request of None \<Rightarrow> ?cleared
      | Some s \<Rightarrow> ?cleared\<lparr>w_httpSessions := (w_httpSessions v)(s := None)\<rparr>)"
    using assms(1,2) env v(1)
    by (simp add: logout_def clearRefreshCookie_def destroySession_def backendEnv_def bind_def ret_def modify_def split: option.split)
  then have revoked: "sessionRevoked i w\<^sub>1"
    using v(2) assms(6) by (simp add: sessionRevoked_def split: option.split)
  from revoked_not_authenticated [OF env revoked assms(7,8)]
  obtain u where "authenticateAccessToken pf atoken w\<^sub>1 = (Inr None, u)" by blast
  with assms(9-11) have "fst (accessTokenGuard pf later w\<^sub>1) =
      Inl (UnauthorizedException (codeBody ''access_token_expired'' ''Access token is expired or invalid''))"
    by (simp add: accessTokenGuard_def bind_def throw_def Let_def)
  moreover have "fst (sessionGuard request w\<^sub>1) \<noteq> Inr True"
    using run assms(6) by (simp add: sessionGuard_def bind_def gets_def throw_def split: option.split)
  ultimately show ?thesis
    using run revoked assms(6) by (auto split: option.split)
qed

end
