(* ===== verification/ChatDisplay.thy ===== *)
theory ChatDisplay
  imports AuthService "HOL-Library.Product_Lexorder"
begin

text \<open>
  The reading side of \<open>chat/chat.service.ts\<close>: who takes part in a conversation, how a stored message is
  decrypted and presented, message pages, search, previews and the conversation list. None of these
  operations changes a document, and none of them fails because a message cannot be decrypted.
\<close>

subsection \<open>Participants\<close>

definition activeIn :: "oid \<Rightarrow> oid \<Rightarrow> participant \<Rightarrow> bool" where
  "activeIn cid uid p \<longleftrightarrow> part_conversationId p = cid \<and> part_userId p = uid \<and> part_status p = Active"

definition getActiveParticipant :: "platform \<Rightarrow> jstr \<Rightarrow> jstr \<Rightarrow> participant option act" where
  "getActiveParticipant pf conversationId userId =
     bind (toObjectId pf conversationId) (\<lambda>cid.
     bind (toObjectId pf userId) (\<lambda>uid.
     bind (gets w_participants) (\<lambda>ps.
     ret (findOne (pf_participants pf) (activeIn cid uid) ps))))"

definition getRequiredActiveParticipant :: "platform \<Rightarrow> jstr \<Rightarrow> jstr \<Rightarrow> participant act" where
  "getRequiredActiveParticipant pf conversationId userId =
     bind (getActiveParticipant pf conversationId userId) (\<lambda>r.
     case r of
       None \<Rightarrow> throw (ForbiddenException (js ''You are not an active participant of this conversation''))
     | Some p \<Rightarrow> ret p)"

definition getParticipantRole :: "platform \<Rightarrow> jstr \<Rightarrow> jstr \<Rightarrow> participant_role option act" where
  "getParticipantRole pf conversationId userId =
     bind (getActiveParticipant pf conversationId userId) (\<lambda>r. ret (map_option part_role r))"

definition getActiveParticipants :: "platform \<Rightarrow> jstr \<Rightarrow> participant list act" where
  "getActiveParticipants pf conversationId =
     bind (toObjectId pf conversationId) (\<lambda>cid.
     bind (gets w_participants) (\<lambda>ps.
     ret (findMany (pf_participants pf) (\<lambda>p. part_conversationId p = cid \<and> part_status p = Active) ps)))"

definition requireActiveParticipant :: "platform \<Rightarrow> jstr \<Rightarrow> jstr \<Rightarrow> participant act" where
  "requireActiveParticipant pf conversationId userId =
     bind (getActiveParticipant pf conversationId userId) (\<lambda>r.
     case r of
       None \<Rightarrow> throw (ForbiddenException (js ''You are not an active participant of this conversation''))
     | Some p \<Rightarrow> ret p)"

definition requireAdminOrOwner :: "platform \<Rightarrow> jstr \<Rightarrow> jstr \<Rightarrow> participant_role act" where
  "requireAdminOrOwner pf conversationId userId =
     bind (getParticipantRole pf conversationId userId) (\<lambda>r.
     case r of
       None \<Rightarrow> throw (ForbiddenException (js ''You do not have permission to perform this action''))
     | Some role \<Rightarrow>
         if role \<noteq> Admin \<and> role \<noteq> Owner
         then throw (ForbiddenException (js ''You do not have permission to perform this action''))
         else ret role)"

definition getMembershipEvents :: "platform \<Rightarrow> jstr \<Rightarrow> membership_event list act" where
  "getMembershipEvents pf conversationId =
     bind (toObjectId pf conversationId) (\<lambda>cid.
     bind (gets w_events) (\<lambda>es.
     ret (findSorted (pf_events pf) (\<lambda>e. - evt_occurredAt e) (\<lambda>e. evt_conversationId e = cid) es)))"

subsection \<open>Errors as seen by clients\<close>

definition exnCode :: "exn \<Rightarrow> string option" where
  "exnCode e = (case e of
      ChatProcessingError c _ \<Rightarrow> Some c
    | ChatDecodeError c _ \<Rightarrow> Some c
    | AuthProcessingError c _ \<Rightarrow> Some c
    | RangeError \<Rightarrow> Some ''ERR_OUT_OF_RANGE''
    | _ \<Rightarrow> None)"

definition exnMessage :: "platform \<Rightarrow> exn \<Rightarrow> jstr" where
  "exnMessage pf e = (case e of
      BadRequestException b \<Rightarrow> body_message b
    | UnauthorizedException b \<Rightarrow> body_message b
    | ForbiddenException m \<Rightarrow> m
    | NotFoundException b \<Rightarrow> body_message b
    | ConflictException b \<Rightarrow> body_message b
    | ServiceUnavailableException b \<Rightarrow> body_message b
    | ChatProcessingError _ m \<Rightarrow> m
    | ChatDecodeError _ m \<Rightarrow> m
    | AuthProcessingError _ m \<Rightarrow> m
    | PlainError m \<Rightarrow> m
    | _ \<Rightarrow> pf_libraryMessage pf e)"

definition normalizeRealtimeError :: "platform \<Rightarrow> exn \<Rightarrow> jstr option \<Rightarrow> realtime_error" where
  "normalizeRealtimeError pf e conversationId =
     (let coded = (\<lambda>b. \<lparr>re_code = (case body_code b of None \<Rightarrow> ''BAD_REQUEST'' | Some c \<Rightarrow> c),
                       re_message = body_message b, re_conversationId = conversationId\<rparr>) in
      case e of
        ForbiddenException _ \<Rightarrow> \<lparr>re_code = ''FORBIDDEN'',
          re_message = js ''You are not an active participant of this conversation'',
          re_conversationId = conversationId\<rparr>
      | BadRequestException b \<Rightarrow> coded b
      | ServiceUnavailableException b \<Rightarrow> coded b
      | _ \<Rightarrow> \<lparr>re_code = ''CHAT_ERROR'', re_message = exnMessage pf e, re_conversationId = conversationId\<rparr>)"

definition mapChatError :: "platform \<Rightarrow> exn \<Rightarrow> exn" where
  "mapChatError pf e = (case e of
      ChatDecodeError c m \<Rightarrow>
        BadRequestException \<lparr>body_error = Some ''DECODE_ERROR'', body_code = Some c, body_message = m\<rparr>
    | ChatProcessingError c m \<Rightarrow>
        ServiceUnavailableException \<lparr>body_error = Some ''CHAT_PROCESSING_ERROR'', body_code = Some c, body_message = m\<rparr>
    | ForbiddenException m \<Rightarrow> e
    | BadRequestException b \<Rightarrow> e
    | _ \<Rightarrow> BadRequestException \<lparr>body_error = Some ''CHAT_ERROR'', body_code = None, body_message = exnMessage pf e\<rparr>)"

definition decodeBinaryMessage :: "byte list \<Rightarrow> jstr act" where
  "decodeBinaryMessage buffer =
     (case textDecodeFatal buffer of
        None \<Rightarrow> throw (ChatDecodeError ''INVALID_UTF8'' (js ''Failed to decode binary payload as UTF-8''))
      | Some text \<Rightarrow>
          if trim text = [] then throw (ChatDecodeError ''EMPTY_MESSAGE'' (js ''Message content cannot be empty''))
          else ret text)"

subsection \<open>Presenting a message\<close>

definition buildSenderPresentation :: "platform \<Rightarrow> oid \<Rightarrow> (jstr option \<times> jstr option) act" where
  "buildSenderPresentation pf senderId =
     bind (authFindById pf (idStr pf senderId)) (\<lambda>sender.
     ret (map_option su_displayName sender, case sender of None \<Rightarrow> None | Some u \<Rightarrow> su_avatarUrl u))"

definition buildAttachmentPayload ::
    "platform \<Rightarrow> message_attachment option \<Rightarrow> oid \<Rightarrow> oid \<Rightarrow> oid \<Rightarrow> attachment_payload option" where
  "buildAttachmentPayload pf attachment senderId conversationId messageId =
     map_option (\<lambda>a. \<lparr>ap_attachmentId = idStr pf (ma_attachmentId a), ap_fileName = ma_fileName a,
       ap_mimeType = ma_mimeType a, ap_sizeBytes = ma_sizeBytes a, ap_isImage = ma_isImage a,
       ap_uploaderId = Some (idStr pf senderId), ap_conversationId = Some (idStr pf conversationId),
       ap_messageId = Some (idStr pf messageId)\<rparr>) attachment"

definition buildMessagePreview :: "display_message \<Rightarrow> jstr" where
  "buildMessagePreview d =
     (case msg_attachment (dm_message d) of
        Some a \<Rightarrow> (if ma_isImage a then txtImageTag else txtFileTag) @ ma_fileName a
      | None \<Rightarrow> dm_content d)"

definition failureCodeOf :: "exn \<Rightarrow> string" where
  "failureCodeOf e = (case exnCode e of Some c \<Rightarrow> c | None \<Rightarrow> ''REVERSE_DECRYPTION_UNAVAILABLE'')"

definition toDisplayMessage :: "platform \<Rightarrow> message \<Rightarrow> display_message act" where
  "toDisplayMessage pf m =
     bind (buildSenderPresentation pf (msg_senderId m)) (\<lambda>(name, avatar).
     catch
       (bind (decryptForDisplay pf (msg_content m) (msg_reverseEncryptionState m)
                (idStr pf (msg_senderId m)) (idStr pf (msg_conversationId m))) (\<lambda>display.
        ret \<lparr>dm_message = m, dm_senderDisplayName = name, dm_senderAvatarUrl = avatar,
             dm_content = disp_content display, dm_decodeErrorCode = disp_decodeErrorCode display,
             dm_displayState = disp_state display\<rparr>))
       (\<lambda>e. ret \<lparr>dm_message = m, dm_senderDisplayName = name, dm_senderAvatarUrl = avatar,
             dm_content = txtUndecodable, dm_decodeErrorCode = Some (failureCodeOf e),
             dm_displayState = DisplayDecodeFailed\<rparr>))"

definition realtimePayload ::
    "platform \<Rightarrow> message \<Rightarrow> jstr option \<Rightarrow> jstr option \<Rightarrow> jstr \<Rightarrow> string option \<Rightarrow> message_display_state \<Rightarrow> realtime_message" where
  "realtimePayload pf m name avatar content errorCode state =
     \<lparr>rm_messageId = idStr pf (msg_id m), rm_conversationId = idStr pf (msg_conversationId m),
      rm_senderId = idStr pf (msg_senderId m),
      rm_senderDisplayName = (if msg_isAIBotMessage m then Some (js ''ChatAI'') else name),
      rm_senderAvatarUrl = (if msg_isAIBotMessage m then None else avatar),
      rm_content = content, rm_sentAt = pf_isoString pf (msg_sentAt m), rm_seenState = msg_seenState m,
      rm_attachment = buildAttachmentPayload pf (msg_attachment m) (msg_senderId m) (msg_conversationId m) (msg_id m),
      rm_isTailOfSenderGroup = True, rm_decodeErrorCode = errorCode, rm_displayState = state,
      rm_isAIBotMessage = msg_isAIBotMessage m, rm_isAICommand = msg_isAICommand m,
      rm_moderationResult = msg_moderationResult m\<rparr>"

definition toRealtimeMessagePayload :: "platform \<Rightarrow> message \<Rightarrow> realtime_message act" where
  "toRealtimeMessagePayload pf m =
     catch
       (bind (decryptForDisplay pf (msg_content m) (msg_reverseEncryptionState m)
                (idStr pf (msg_senderId m)) (idStr pf (msg_conversationId m))) (\<lambda>display.
        bind (buildSenderPresentation pf (msg_senderId m)) (\<lambda>(name, avatar).
        ret (realtimePayload pf m name avatar (disp_content display) (disp_decodeErrorCode display)
               (disp_state display)))))
       (\<lambda>e.
        bind (buildSenderPresentation pf (msg_senderId m)) (\<lambda>(name, avatar).
        ret (realtimePayload pf m name avatar (msg_content m) (Some (failureCodeOf e)) DisplayDecodeFailed)))"

subsection \<open>Message pages, search and previews\<close>

definition latestMessage :: "platform \<Rightarrow> oid \<Rightarrow> message list \<Rightarrow> message option" where
  "latestMessage pf cid ms =
     (case findSorted (pf_messages pf) (\<lambda>m. - msg_sentAt m) (\<lambda>m. msg_conversationId m = cid) ms of
        [] \<Rightarrow> None | m # _ \<Rightarrow> Some m)"

definition minNum :: "jsnum \<Rightarrow> rat \<Rightarrow> jsnum" where
  "minNum n b = (case n of NaN \<Rightarrow> NaN | PosInfinity \<Rightarrow> Fin b | NegInfinity \<Rightarrow> NegInfinity | Fin q \<Rightarrow> Fin (min q b))"

text \<open>
  The limit of a query: a whole number is used as it is, what the database driver makes of any other
  number (or whether it rejects it) is a parameter.
\<close>

definition queryLimit :: "platform \<Rightarrow> jsnum \<Rightarrow> int act" where
  "queryLimit pf n =
     (if isInteger n then ret (case n of Fin q \<Rightarrow> \<lfloor>q\<rfloor> | _ \<Rightarrow> 0)
      else case pf_oddLimit pf n of None \<Rightarrow> throw CastError | Some k \<Rightarrow> ret k)"

definition dateFilter :: "platform \<Rightarrow> jstr option \<Rightarrow> (time \<Rightarrow> bool) act" where
  "dateFilter pf before =
     (case before of
        None \<Rightarrow> ret (\<lambda>_. True)
      | Some s \<Rightarrow>
          if s = [] then ret (\<lambda>_. True)
          else case pf_dateParse pf s of None \<Rightarrow> throw CastError | Some t \<Rightarrow> ret (\<lambda>x. x < t))"

definition withNext :: "'a list \<Rightarrow> ('a \<times> 'a option) list" where
  "withNext xs = zip xs (map Some (tl xs) @ [None])"

definition getMessages :: "platform \<Rightarrow> jstr \<Rightarrow> jstr option \<Rightarrow> jsnum \<Rightarrow> chat_message_payload list act" where
  "getMessages pf conversationId before limit =
     bind (toObjectId pf conversationId) (\<lambda>cid.
     bind (dateFilter pf before) (\<lambda>early.
     bind (queryLimit pf (minNum limit 50)) (\<lambda>n.
     bind (gets w_messages) (\<lambda>ms.
     let messages = limitDocs n (findSorted (pf_messages pf) (\<lambda>m. - msg_sentAt m)
                      (\<lambda>m. msg_conversationId m = cid \<and> early (msg_sentAt m)) ms);
         sortedMessages = rev messages in
     mapA (\<lambda>(m, nextMessage).
       bind (toDisplayMessage pf m) (\<lambda>d.
       ret \<lparr>cm_display = d,
            cm_attachment = buildAttachmentPayload pf (msg_attachment m) (msg_senderId m)
              (msg_conversationId m) (msg_id m),
            cm_isTailOfSenderGroup =
              (case nextMessage of Some n \<Rightarrow> idStr pf (msg_senderId n) \<noteq> idStr pf (msg_senderId m) | None \<Rightarrow> True),
            cm_isAIBotMessage = msg_isAIBotMessage m, cm_isAICommand = msg_isAICommand m,
            cm_moderationResult = msg_moderationResult m\<rparr>)) (withNext sortedMessages)))))"

definition buildConversationPreviewPayload :: "platform \<Rightarrow> jstr \<Rightarrow> jstr \<Rightarrow> conversation_preview act" where
  "buildConversationPreviewPayload pf conversationId userId =
     bind (toObjectId pf conversationId) (\<lambda>cid.
     bind (gets w_messages) (\<lambda>ms.
     let latest = latestMessage pf cid ms in
     bind (castObjectId pf conversationId) (\<lambda>cid'.
     bind (gets w_conversations) (\<lambda>cs.
     let conversation = findById conv_id cid' cs in
     bind (getActiveParticipant pf conversationId userId) (\<lambda>participant.
     bind (case latest of None \<Rightarrow> ret None | Some m \<Rightarrow> bind (toDisplayMessage pf m) (\<lambda>d. ret (Some d))) (\<lambda>preview.
     let unreadCount = (case participant of None \<Rightarrow> 0 | Some p \<Rightarrow> part_unreadCount p);
         known = (case latest of Some m \<Rightarrow> Some (msg_sentAt m)
                  | None \<Rightarrow> (case conversation of None \<Rightarrow> None | Some c \<Rightarrow> conv_lastMessageAt c)) in
     bind (case known of Some t \<Rightarrow> ret t | None \<Rightarrow> now pf) (\<lambda>lastMessageAt.
     ret \<lparr>cp_conversationId = conversationId,
          cp_lastMessagePreview = (case preview of None \<Rightarrow> [] | Some d \<Rightarrow> buildMessagePreview d),
          cp_lastMessageAt = pf_isoString pf lastMessageAt,
          cp_unreadCount = unreadCount, cp_hasUnread = (0 < unreadCount)\<rparr>)))))))"

definition buildConversationPreviewPayloads :: "platform \<Rightarrow> jstr \<Rightarrow> (jstr \<times> conversation_preview) list act" where
  "buildConversationPreviewPayloads pf conversationId =
     bind (getActiveParticipants pf conversationId) (\<lambda>participants.
     mapA (\<lambda>p.
       bind (buildConversationPreviewPayload pf conversationId (idStr pf (part_userId p))) (\<lambda>preview.
       ret (idStr pf (part_userId p), preview))) participants)"

definition searchMessages :: "platform \<Rightarrow> jstr \<Rightarrow> jstr \<Rightarrow> message_search_payload list act" where
  "searchMessages pf conversationId query =
     (let trimmedQuery = trim query in
      if length trimmedQuery < 2 then ret []
      else
        let searchRegex = escapeRegex trimmedQuery in
        bind (toObjectId pf conversationId) (\<lambda>cid.
        bind (gets w_messages) (\<lambda>ms.
        let messages = limitDocs 100 (findSorted (pf_messages pf) (\<lambda>m. - msg_sentAt m)
                         (\<lambda>m. msg_conversationId m = cid) ms) in
        bind (mapA (\<lambda>m.
          bind (toDisplayMessage pf m) (\<lambda>d.
          ret \<lparr>ms_messageId = idStr pf (msg_id m), ms_conversationId = idStr pf (msg_conversationId m),
               ms_senderId = idStr pf (msg_senderId m), ms_senderDisplayName = dm_senderDisplayName d,
               ms_senderAvatarUrl = dm_senderAvatarUrl d, ms_content = dm_content d,
               ms_encryptedContent = msg_content m, ms_sentAt = pf_isoString pf (msg_sentAt m),
               ms_decodeErrorCode = dm_decodeErrorCode d, ms_displayState = dm_displayState d\<rparr>)) messages) (\<lambda>displayMessages.
        ret (take 20 (filter (\<lambda>m. regexTest pf searchRegex (ms_content m)) displayMessages))))))"

subsection \<open>The conversation list\<close>

definition lastFor :: "('a \<Rightarrow> bool) \<Rightarrow> 'a list \<Rightarrow> 'a option" where
  "lastFor P xs = find P (rev xs)"

definition summaryOf ::
    "platform \<Rightarrow> jstr \<Rightarrow> participant list \<Rightarrow> conversation \<Rightarrow> conversation_summary act" where
  "summaryOf pf userId participations c =
     bind (gets w_messages) (\<lambda>ms.
     let latest = latestMessage pf (conv_id c) ms;
         unreadCount = (case lastFor (\<lambda>p. part_conversationId p = conv_id c) participations of
                          None \<Rightarrow> 0 | Some p \<Rightarrow> part_unreadCount p) in
     bind (if conv_type c = Direct
           then bind (gets w_participants) (\<lambda>ps.
                case find (\<lambda>p. idStr pf (part_userId p) \<noteq> userId)
                       (findMany (pf_participants pf)
                          (\<lambda>p. part_conversationId p = conv_id c \<and> part_status p = Active) ps) of
                  None \<Rightarrow> ret None
                | Some peer \<Rightarrow> authFindById pf (idStr pf (part_userId peer)))
           else ret None) (\<lambda>directPeer.
     bind (case latest of None \<Rightarrow> ret None | Some m \<Rightarrow> bind (toDisplayMessage pf m) (\<lambda>d. ret (Some d))) (\<lambda>shown.
     ret \<lparr>cs_id = idStr pf (conv_id c), cs_type = conv_type c, cs_title = conv_title c,
          cs_createdBy = idStr pf (conv_createdBy c), cs_createdAt = pf_isoString pf (conv_createdAt c),
          cs_updatedAt = pf_isoString pf (conv_updatedAt c),
          cs_lastMessageAt = map_option (pf_isoString pf)
            (case latest of Some m \<Rightarrow> Some (msg_sentAt m) | None \<Rightarrow> conv_lastMessageAt c),
          cs_displayTitle =
            (case directPeer of
               Some u \<Rightarrow> su_displayName u
             | None \<Rightarrow> (case conv_title c of Some t \<Rightarrow> t
                        | None \<Rightarrow> if conv_type c = Direct then txtNewChat else txtGroupChat)),
          cs_displayAvatarUrl = (case directPeer of None \<Rightarrow> None | Some u \<Rightarrow> su_avatarUrl u),
          cs_lastMessagePreview = map_option buildMessagePreview shown,
          cs_unreadCount = unreadCount, cs_hasUnread = (0 < unreadCount), cs_directPeer = directPeer\<rparr>)))"

text \<open>Documents without \<open>lastMessageAt\<close> come last in the descending order.\<close>

definition recencyKey :: "conversation \<Rightarrow> nat \<times> int" where
  "recencyKey c = (case conv_lastMessageAt c of None \<Rightarrow> (1, 0) | Some t \<Rightarrow> (0, - t))"

definition listConversationsForUser :: "platform \<Rightarrow> jstr \<Rightarrow> conversation_summary list act" where
  "listConversationsForUser pf userId =
     bind (toObjectId pf userId) (\<lambda>uid.
     bind (gets w_participants) (\<lambda>ps.
     let participations = findMany (pf_participants pf) (\<lambda>p. part_userId p = uid \<and> part_status p = Active) ps;
         conversationIds = map part_conversationId participations in
     bind (gets w_conversations) (\<lambda>cs.
     mapA (summaryOf pf userId participations)
       (findSorted (pf_conversations pf) recencyKey (\<lambda>c. conv_id c \<in> set conversationIds) cs))))"

subsection \<open>Reading changes nothing\<close>

lemma technical_case_prod [technical_intros]:
  "(\<And>x y. technical (f x y)) \<Longrightarrow> technical (case z of (x, y) \<Rightarrow> f x y)"
  by (simp split: prod.split)

lemma technical_snd: "technical m \<Longrightarrow> dataOf (snd (m w)) = dataOf w"
  by (simp add: frames_def keeps_def)

lemma technical_participants [technical_intros]:
  "technical (getActiveParticipant pf c u)" "technical (getRequiredActiveParticipant pf c u)"
  "technical (getParticipantRole pf c u)" "technical (getActiveParticipants pf c)"
  "technical (requireActiveParticipant pf c u)" "technical (requireAdminOrOwner pf c u)"
  "technical (getMembershipEvents pf c)"
  unfolding getActiveParticipant_def getRequiredActiveParticipant_def getParticipantRole_def
    getActiveParticipants_def requireActiveParticipant_def requireAdminOrOwner_def getMembershipEvents_def
  by (intro technical_intros)+

lemma technical_display [technical_intros]:
  "technical (buildSenderPresentation pf i)" "technical (toDisplayMessage pf m)"
  "technical (toRealtimeMessagePayload pf m)" "technical (queryLimit pf n)" "technical (dateFilter pf b)"
  unfolding buildSenderPresentation_def toDisplayMessage_def toRealtimeMessagePayload_def queryLimit_def
    dateFilter_def
  by (intro technical_intros)+

lemma technical_reading [technical_intros]:
  "technical (getMessages pf c b n)" "technical (buildConversationPreviewPayload pf c u)"
  "technical (buildConversationPreviewPayloads pf c)" "technical (searchMessages pf c q)"
  "technical (listConversationsForUser pf u)"
  unfolding getMessages_def buildConversationPreviewPayload_def buildConversationPreviewPayloads_def
    searchMessages_def listConversationsForUser_def summaryOf_def Let_def
  by (intro technical_intros)+

lemmas keeps_reading [keeps_intros] =
  technical_participants [THEN technical_worldOk] technical_display [THEN technical_worldOk]
  technical_reading [THEN technical_worldOk]

text \<open>
  Listing conversations, paging, searching and previewing leave every document, socket and
  emitted event as it was, whatever they return or throw.
\<close>

theorem reading_changes_nothing:
  "dataOf (snd (getMessages pf c b n w)) = dataOf w \<and>
   dataOf (snd (searchMessages pf c q w)) = dataOf w \<and>
   dataOf (snd (buildConversationPreviewPayloads pf c w)) = dataOf w \<and>
   dataOf (snd (listConversationsForUser pf u w)) = dataOf w"
  by (intro conjI technical_snd technical_reading)

subsection \<open>Display never fails\<close>

lemma buildSenderPresentation_run:
  "\<exists>name avatar. buildSenderPresentation pf i w = (Inr (name, avatar), w)"
  by (simp add: buildSenderPresentation_def bind_def authFindById_run ret_def)

text \<open>
  A stored message can always be displayed: when decryption succeeds its text is shown and the
  state is \<open>ready\<close>, and when it throws anything the placeholder text is shown with the failure code and
  the state \<open>decode_failed\<close>; no exception escapes.
\<close>

theorem toDisplayMessage_outcome:
  "\<exists>d w'. toDisplayMessage pf m w = (Inr d, w') \<and> dm_message d = m \<and>
    (case fst (decryptForDisplay pf (msg_content m) (msg_reverseEncryptionState m)
             (idStr pf (msg_senderId m)) (idStr pf (msg_conversationId m)) w) of
       Inr shown \<Rightarrow> dm_content d = disp_content shown \<and> dm_displayState d = disp_state shown
     | Inl e \<Rightarrow> dm_content d = txtUndecodable \<and> dm_displayState d = DisplayDecodeFailed \<and>
                dm_decodeErrorCode d = Some (failureCodeOf e))"
proof -
  obtain name avatar where "buildSenderPresentation pf (msg_senderId m) w = (Inr (name, avatar), w)"
    using buildSenderPresentation_run by blast
  then show ?thesis
    by (auto simp: toDisplayMessage_def bind_def catch_def ret_def split: prod.splits sum.splits)
qed

lemma toDisplayMessage_total: "\<exists>d w'. toDisplayMessage pf m w = (Inr d, w') \<and> dm_message d = m"
proof -
  obtain name avatar where "buildSenderPresentation pf (msg_senderId m) w = (Inr (name, avatar), w)"
    using buildSenderPresentation_run by blast
  then show ?thesis
    by (auto simp: toDisplayMessage_def bind_def catch_def ret_def split: prod.splits sum.splits)
qed

lemma toDisplayMessage_Inr: "toDisplayMessage pf m w = (Inr d, w') \<Longrightarrow> dm_message d = m"
  using toDisplayMessage_total [of pf m w] by auto

subsection \<open>Message pages\<close>

lemma length_withNext [simp]: "length (withNext xs) = length xs"
  by (cases xs) (simp_all add: withNext_def)

lemma nth_withNext:
  "i < length xs \<Longrightarrow> withNext xs ! i = (xs ! i, if Suc i < length xs then Some (xs ! Suc i) else None)"
  by (cases xs) (auto simp: withNext_def nth_append)

lemma map_fst_withNext [simp]: "map fst (withNext xs) = xs"
  by (cases xs) (simp_all add: withNext_def)

definition pageOf :: "platform \<Rightarrow> oid \<Rightarrow> (time \<Rightarrow> bool) \<Rightarrow> int \<Rightarrow> message list \<Rightarrow> message list" where
  "pageOf pf cid early n ms = rev (limitDocs n (findSorted (pf_messages pf) (\<lambda>m. - msg_sentAt m)
     (\<lambda>m. msg_conversationId m = cid \<and> early (msg_sentAt m)) ms))"

lemma sorted_neg_iff: "sorted (map (\<lambda>m. - f m) xs) \<longleftrightarrow> sorted (map f (rev xs))"
  for f :: "'a \<Rightarrow> int"
  by (simp add: sorted_wrt_map sorted_wrt_rev)

lemma sorted_limitDocs: "sorted (map f ds) \<Longrightarrow> sorted (map f (limitDocs n ds))"
  by (simp add: limitDocs_def sorted_wrt_map sorted_wrt_take)

lemma pageOf_sorted: "sorted (map msg_sentAt (pageOf pf cid early n ms))"
  unfolding pageOf_def
  by (subst sorted_neg_iff [symmetric], rule sorted_limitDocs) (rule findSorted_sorted)

lemma pageOf_subset: "m \<in> set (pageOf pf cid early n ms) \<Longrightarrow>
    m \<in> set ms \<and> msg_conversationId m = cid \<and> early (msg_sentAt m)"
  using limitDocs_subset by (fastforce simp: pageOf_def)

lemma in_set_dropI: "x \<in> set xs \<Longrightarrow> x \<notin> set (take k xs) \<Longrightarrow> x \<in> set (drop k xs)"
  by (metis Un_iff append_take_drop_id set_append)

lemma pageOf_newest:
  assumes "m \<in> set (pageOf pf cid early n ms)" "m' \<in> set ms" "msg_conversationId m' = cid"
    "early (msg_sentAt m')" "m' \<notin> set (pageOf pf cid early n ms)"
  shows "msg_sentAt m' \<le> msg_sentAt m"
proof -
  let ?all = "findSorted (pf_messages pf) (\<lambda>m. - msg_sentAt m)
     (\<lambda>m. msg_conversationId m = cid \<and> early (msg_sentAt m)) ms"
  have n: "n \<noteq> 0" using assms by (auto simp: pageOf_def limitDocs_def)
  have "m' \<in> set ?all" using assms by simp
  moreover have "m' \<notin> set (take (nat \<bar>n\<bar>) ?all)"
    using assms(5) n by (simp add: pageOf_def limitDocs_def)
  ultimately have "m' \<in> set (drop (nat \<bar>n\<bar>) ?all)"
    by (rule in_set_dropI)
  moreover have "m \<in> set (take (nat \<bar>n\<bar>) ?all)"
    using assms(1) n by (simp add: pageOf_def limitDocs_def)
  moreover have "sorted (map (\<lambda>m. - msg_sentAt m) (take (nat \<bar>n\<bar>) ?all @ drop (nat \<bar>n\<bar>) ?all))"
    by (simp only: append_take_drop_id) (rule findSorted_sorted)
  ultimately show ?thesis by (auto simp: sorted_append simp del: append_take_drop_id)
qed

lemma pageOf_length: "1 \<le> n \<Longrightarrow> length (pageOf pf cid early n ms) \<le> nat n"
  by (simp add: pageOf_def limitDocs_def)

definition tailOk :: "chat_message_payload list \<Rightarrow> bool" where
  "tailOk page \<longleftrightarrow> (\<forall>i<length page. cm_isTailOfSenderGroup (page ! i) \<longleftrightarrow>
     (Suc i < length page \<longrightarrow>
        msg_senderId (dm_message (cm_display (page ! Suc i))) \<noteq> msg_senderId (dm_message (cm_display (page ! i)))))"

lemma getMessages_run:
  assumes "parseOid (pf_oids pf) conversationId = Some cid" "dateFilter pf before w = (Inr early, w)"
    "isInteger (minNum limit 50)" "minNum limit 50 = Fin q"
  shows "\<exists>page w'. getMessages pf conversationId before limit w = (Inr page, w') \<and>
    map (\<lambda>p. dm_message (cm_display p)) page = pageOf pf cid early \<lfloor>q\<rfloor> (w_messages w) \<and> tailOk page"
proof -
  let ?page = "pageOf pf cid early \<lfloor>q\<rfloor> (w_messages w)"
  let ?f = "\<lambda>(m, nextMessage).
       bind (toDisplayMessage pf m) (\<lambda>d.
       ret \<lparr>cm_display = d,
            cm_attachment = buildAttachmentPayload pf (msg_attachment m) (msg_senderId m)
              (msg_conversationId m) (msg_id m),
            cm_isTailOfSenderGroup =
              (case nextMessage of Some n \<Rightarrow> idStr pf (msg_senderId n) \<noteq> idStr pf (msg_senderId m) | None \<Rightarrow> True),
            cm_isAIBotMessage = msg_isAIBotMessage m, cm_isAICommand = msg_isAICommand m,
            cm_moderationResult = msg_moderationResult m\<rparr>)"
  let ?R = "\<lambda>(m, nxt) p. dm_message (cm_display p) = m \<and>
      (cm_isTailOfSenderGroup p \<longleftrightarrow> (case nxt of Some n \<Rightarrow> msg_senderId n \<noteq> msg_senderId m | None \<Rightarrow> True))"
  have "\<exists>p v'. ?f x v = (Inr p, v') \<and> ?R x p" for x v
  proof -
    obtain m nxt where x: "x = (m, nxt)" by fastforce
    obtain d v' where d: "toDisplayMessage pf m v = (Inr d, v')" "dm_message d = m"
      using toDisplayMessage_total by blast
    then show ?thesis by (auto simp: x bind_def ret_def split: option.splits)
  qed
  then obtain page w' where page: "mapA ?f (withNext ?page) w = (Inr page, w')"
    "list_all2 ?R (withNext ?page) page"
    using mapA_total [of "withNext ?page" ?f ?R w] by blast
  have run: "getMessages pf conversationId before limit w = mapA ?f (withNext ?page) w"
    using assms by (simp add: getMessages_def toObjectId_def bind_def ret_def gets_def queryLimit_def pageOf_def Let_def)
  have len: "length page = length ?page" using page(2) by (auto dest: list_all2_lengthD)
  have nth: "?R (?page ! i, if Suc i < length ?page then Some (?page ! Suc i) else None) (page ! i)"
    if "i < length ?page" for i
    using list_all2_nthD [OF page(2), of i] that by (simp add: nth_withNext)
  have "map (\<lambda>p. dm_message (cm_display p)) page = ?page"
    using len nth by (intro nth_equalityI) auto
  moreover have "tailOk page"
    using len nth by (auto simp: tailOk_def split: if_splits)
  ultimately show ?thesis using run page(1) by auto
qed


text \<open>
  A limit of zero is not capped at fifty: the page then holds every message of the conversation.
\<close>

theorem getMessages_limit_zero:
  assumes "parseOid (pf_oids pf) conversationId = Some cid"
  shows "\<exists>page w'. getMessages pf conversationId None (Fin 0) w = (Inr page, w') \<and>
    length page = length (filter (\<lambda>m. msg_conversationId m = cid) (w_messages w))"
proof -
  have "dateFilter pf None w = (Inr (\<lambda>_. True), w)" by (simp add: dateFilter_def ret_def)
  from getMessages_run [OF assms this, of "Fin 0" 0] obtain page w' where
    run: "getMessages pf conversationId None (Fin 0) w = (Inr page, w')" and
    ms: "map (\<lambda>p. dm_message (cm_display p)) page = pageOf pf cid (\<lambda>_. True) 0 (w_messages w)"
    by (auto simp: minNum_def isInteger_def)
  have "length page = length (pageOf pf cid (\<lambda>_. True) 0 (w_messages w))"
    using ms by (metis length_map)
  with run show ?thesis
    by (simp add: pageOf_def limitDocs_def findSorted_def findMany_def)
qed

subsection \<open>Search and the conversation list\<close>

lemma list_all2_source:
  assumes "list_all2 R xs ys" "y \<in> set ys"
  obtains x where "x \<in> set xs" "R x y"
  using assms by (induction rule: list_all2_induct) auto

lemma distinct_findSorted:
  assumes "distinct (map f ds)"
  shows "distinct (map f (findSorted ord key P ds))"
proof -
  have "mset (map f (findSorted ord key P ds)) = mset (map f (filter P ds))"
    by (simp add: findSorted_def findMany_def)
  then have "distinct (map f (findSorted ord key P ds)) = distinct (map f (filter P ds))"
    by (rule mset_eq_imp_distinct_iff)
  with assms show ?thesis by (simp add: distinct_map_filter)
qed

lemma displayA_total:
  "\<exists>d w'. (case z of None \<Rightarrow> ret None | Some m \<Rightarrow> bind (toDisplayMessage pf m) (\<lambda>d. ret (Some d))) w = (Inr d, w')"
  using toDisplayMessage_total [of pf "the z" w] by (auto simp: bind_def ret_def split: option.splits)

text \<open>
  A search of a valid conversation always returns, with at most twenty results; every result is a
  message of this conversation whose displayed text contains the trimmed query up to letter case, and
  a query of fewer than two characters finds nothing.
\<close>

theorem searchMessages_results:
  assumes "parseOid (pf_oids pf) conversationId = Some cid"
  shows "\<exists>res w'. searchMessages pf conversationId query w = (Inr res, w') \<and> length res \<le> 20 \<and>
    (length (trim query) < 2 \<longrightarrow> res = []) \<and>
    (\<forall>r\<in>set res. (\<exists>m\<in>set (w_messages w). msg_conversationId m = cid \<and> ms_messageId r = idStr pf (msg_id m)) \<and>
       (\<exists>a b. map (pf_foldCase pf) (ms_content r) = a @ map (pf_foldCase pf) (trim query) @ b))"
proof (cases "length (trim query) < 2")
  case True
  then show ?thesis by (simp add: searchMessages_def ret_def)
next
  case False
  let ?ms = "limitDocs 100 (findSorted (pf_messages pf) (\<lambda>m. - msg_sentAt m) (\<lambda>m. msg_conversationId m = cid) (w_messages w))"
  let ?f = "\<lambda>m. bind (toDisplayMessage pf m) (\<lambda>d.
      ret \<lparr>ms_messageId = idStr pf (msg_id m), ms_conversationId = idStr pf (msg_conversationId m),
           ms_senderId = idStr pf (msg_senderId m), ms_senderDisplayName = dm_senderDisplayName d,
           ms_senderAvatarUrl = dm_senderAvatarUrl d, ms_content = dm_content d,
           ms_encryptedContent = msg_content m, ms_sentAt = pf_isoString pf (msg_sentAt m),
           ms_decodeErrorCode = dm_decodeErrorCode d, ms_displayState = dm_displayState d\<rparr>)"
  have "\<exists>p v'. ?f m v = (Inr p, v') \<and> ms_messageId p = idStr pf (msg_id m)" for m v
    using toDisplayMessage_total [of pf m v] by (auto simp: bind_def ret_def)
  then obtain ps w' where ps: "mapA ?f ?ms w = (Inr ps, w')"
    "list_all2 (\<lambda>m p. ms_messageId p = idStr pf (msg_id m)) ?ms ps"
    using mapA_total [of ?ms ?f "\<lambda>m p. ms_messageId p = idStr pf (msg_id m)" w] by blast
  let ?res = "take 20 (filter (\<lambda>m. regexTest pf (escapeRegex (trim query)) (ms_content m)) ps)"
  have run: "searchMessages pf conversationId query w = (Inr ?res, w')"
    using False ps(1) assms
    by (simp add: searchMessages_def toObjectId_def gets_def bind_def ret_def Let_def)
  have "\<exists>m\<in>set (w_messages w). msg_conversationId m = cid \<and> ms_messageId r = idStr pf (msg_id m)"
    if "r \<in> set ps" for r
  proof -
    from ps(2) that obtain m where "m \<in> set ?ms" "ms_messageId r = idStr pf (msg_id m)"
      by (rule list_all2_source)
    moreover from this(1) have "m \<in> set (w_messages w)" "msg_conversationId m = cid"
      using limitDocs_subset [of 100 "findSorted (pf_messages pf) (\<lambda>m. - msg_sentAt m)
        (\<lambda>m. msg_conversationId m = cid) (w_messages w)"] by auto
    ultimately show ?thesis by blast
  qed
  moreover have "\<exists>a b. map (pf_foldCase pf) (ms_content r) = a @ map (pf_foldCase pf) (trim query) @ b"
    if "r \<in> set ?res" for r
    using in_set_takeD [OF that] by (simp add: regexTest_def includesStr_iff)
  ultimately show ?thesis
    using run False by (intro exI [of _ ?res] exI [of _ w'] conjI) (auto dest: in_set_takeD)
qed

lemma summaryOf_total:
  "\<exists>s w'. summaryOf pf userId ps c w = (Inr s, w') \<and> cs_id s = idStr pf (conv_id c) \<and>
     (cs_hasUnread s \<longleftrightarrow> 0 < cs_unreadCount s)"
proof -
  have peer: "\<exists>r. (if conv_type c = Direct
           then bind (gets w_participants) (\<lambda>ps.
                case find (\<lambda>p. idStr pf (part_userId p) \<noteq> userId)
                       (findMany (pf_participants pf)
                          (\<lambda>p. part_conversationId p = conv_id c \<and> part_status p = Active) ps) of
                  None \<Rightarrow> ret None
                | Some peer \<Rightarrow> authFindById pf (idStr pf (part_userId peer)))
           else ret None) w = (Inr r, w)"
    by (simp add: bind_def gets_def ret_def authFindById_run split: option.split)
  then obtain r where r: "(if conv_type c = Direct
           then bind (gets w_participants) (\<lambda>ps.
                case find (\<lambda>p. idStr pf (part_userId p) \<noteq> userId)
                       (findMany (pf_participants pf)
                          (\<lambda>p. part_conversationId p = conv_id c \<and> part_status p = Active) ps) of
                  None \<Rightarrow> ret None
                | Some peer \<Rightarrow> authFindById pf (idStr pf (part_userId peer)))
           else ret None) w = (Inr r, w)" by blast
  obtain d w' where d: "(case latestMessage pf (conv_id c) (w_messages w) of None \<Rightarrow> ret None
      | Some m \<Rightarrow> bind (toDisplayMessage pf m) (\<lambda>d. ret (Some d))) w = (Inr d, w')"
    using displayA_total by blast
  show ?thesis
    unfolding summaryOf_def Let_def bind_gets_app bind_Inr [where m = "if _ then _ else _", OF r]
      bind_Inr [where m = "case_option _ _ _", OF d]
    by (simp add: ret_def)
qed

text \<open>
  C36: the conversation list of a user always returns exactly the conversations in which the user has
  an active participation, each once, and each is flagged unread exactly when its counter is positive.
\<close>

theorem listConversations_exact:
  assumes "parseOid (pf_oids pf) userId = Some uid" "worldOk pf w"
  shows "\<exists>res w'. listConversationsForUser pf userId w = (Inr res, w') \<and> distinct (map cs_id res) \<and>
    cs_id ` set res = {idStr pf (conv_id c) |c. c \<in> set (w_conversations w) \<and>
       (\<exists>p\<in>set (w_participants w). activeIn (conv_id c) uid p)} \<and>
    (\<forall>s\<in>set res. cs_hasUnread s \<longleftrightarrow> 0 < cs_unreadCount s)"
proof -
  let ?ps = "findMany (pf_participants pf) (\<lambda>p. part_userId p = uid \<and> part_status p = Active) (w_participants w)"
  let ?cs = "findSorted (pf_conversations pf) recencyKey
      (\<lambda>c. conv_id c \<in> set (map part_conversationId ?ps)) (w_conversations w)"
  let ?R = "\<lambda>c s. cs_id s = idStr pf (conv_id c) \<and> (cs_hasUnread s \<longleftrightarrow> 0 < cs_unreadCount s)"
  obtain res w' where res: "mapA (summaryOf pf userId ?ps) ?cs w = (Inr res, w')" "list_all2 ?R ?cs res"
    using mapA_total [of ?cs "summaryOf pf userId ?ps" ?R w] summaryOf_total by blast
  have ids: "map cs_id res = map (\<lambda>c. idStr pf (conv_id c)) ?cs"
    using res(2) by (induction rule: list_all2_induct) auto
  have "distinct (map conv_id ?cs)"
    using assms(2) by (intro distinct_findSorted) (simp add: worldOk_def unique_ids_defs)
  then have "distinct (map (idStr pf) (map conv_id ?cs))"
    by (simp add: distinct_map inj_on_def)
  then have "distinct (map cs_id res)" by (simp only: ids map_map comp_def)
  moreover have "cs_id ` set res = (\<lambda>c. idStr pf (conv_id c)) ` set ?cs"
    using arg_cong [OF ids, of set] by (simp only: set_map)
  moreover have "(\<lambda>c. idStr pf (conv_id c)) ` set ?cs = {idStr pf (conv_id c) |c. c \<in> set (w_conversations w) \<and>
       (\<exists>p\<in>set (w_participants w). activeIn (conv_id c) uid p)}"
  proof -
    have "c \<in> set ?cs \<longleftrightarrow> c \<in> set (w_conversations w) \<and> (\<exists>p\<in>set (w_participants w). activeIn (conv_id c) uid p)"
      for c by (auto simp: activeIn_def image_iff)
    then show ?thesis by blast
  qed
  moreover have "\<forall>s\<in>set res. cs_hasUnread s \<longleftrightarrow> 0 < cs_unreadCount s"
    using res(2) by (induction rule: list_all2_induct) auto
  moreover have "listConversationsForUser pf userId w = (Inr res, w')"
    using res(1) assms(1)
    by (simp add: listConversationsForUser_def toObjectId_def gets_def bind_def ret_def Let_def)
  ultimately show ?thesis by (simp only:) blast
qed

end
