(* ===== verification/ChatMembership.thy ===== *)
theory ChatMembership
  imports ChatDisplay
begin

text \<open>
  Conversations and their members in \<open>chat/chat.service.ts\<close>: creating a conversation, finding the direct
  conversation of two users, adding, removing and leaving. The documents a call creates are stored
  in the order of the source, and an identifier that does not parse throws at the place where the source
  constructs it, after the writes that come before it.
\<close>

subsection \<open>Storing documents\<close>

definition insertConversation :: "conversation \<Rightarrow> unit act" where
  "insertConversation c = modify (\<lambda>w. w\<lparr>w_conversations := w_conversations w @ [c]\<rparr>)"

definition insertParticipant :: "participant \<Rightarrow> unit act" where
  "insertParticipant p = modify (\<lambda>w. w\<lparr>w_participants := w_participants w @ [p]\<rparr>)"

definition insertEvent :: "membership_event \<Rightarrow> unit act" where
  "insertEvent e = modify (\<lambda>w. w\<lparr>w_events := w_events w @ [e]\<rparr>)"

definition newParticipant :: "oid \<Rightarrow> oid \<Rightarrow> oid \<Rightarrow> participant_role \<Rightarrow> oid option \<Rightarrow> time \<Rightarrow> participant" where
  "newParticipant i cid uid role addedBy joinedAt =
     \<lparr>part_id = i, part_conversationId = cid, part_userId = uid, part_role = role, part_status = Active,
      part_addedBy = addedBy, part_joinedAt = joinedAt, part_leftAt = None, part_lastReadMessageId = None,
      part_lastReadAt = None, part_unreadCount = 0\<rparr>"

definition createParticipant :: "platform \<Rightarrow> oid \<Rightarrow> oid \<Rightarrow> participant_role \<Rightarrow> oid option \<Rightarrow> time \<Rightarrow> unit act" where
  "createParticipant pf cid uid role addedBy joinedAt =
     bind (freshOid pf) (\<lambda>i.
     bind (insertParticipant (newParticipant i cid uid role addedBy joinedAt)) ret)"

definition createEvent :: "platform \<Rightarrow> oid \<Rightarrow> membership_event_type \<Rightarrow> oid \<Rightarrow> oid option \<Rightarrow> time \<Rightarrow> unit act" where
  "createEvent pf cid ty target actor t =
     bind (freshOid pf) (\<lambda>i.
     bind (insertEvent \<lparr>evt_id = i, evt_conversationId = cid, evt_type = ty, evt_targetUserId = target,
             evt_actorUserId = actor, evt_occurredAt = t\<rparr>) ret)"

subsection \<open>Direct conversations\<close>

definition arrayFromSet :: "'a list \<Rightarrow> 'a list" where
  "arrayFromSet xs = fold (\<lambda>x acc. if x \<in> set acc then acc else acc @ [x]) xs []"

definition pairConversation :: "platform \<Rightarrow> jstr \<Rightarrow> jstr \<Rightarrow> participant list \<Rightarrow> conversation \<Rightarrow> bool" where
  "pairConversation pf userAId userBId ps c \<longleftrightarrow>
     (let members = filter (\<lambda>p. part_conversationId p = conv_id c) ps;
          ids = map (\<lambda>p. idStr pf (part_userId p)) members in
      length members = 2 \<and> userAId \<in> set ids \<and> userBId \<in> set ids)"

definition findDirectConversation :: "platform \<Rightarrow> jstr \<Rightarrow> jstr option \<Rightarrow> conversation option act" where
  "findDirectConversation pf userAId userB =
     bind (toObjectId pf userAId) (\<lambda>a.
     case userB of
       None \<Rightarrow> ret None
     | Some userBId \<Rightarrow>
       bind (toObjectId pf userBId) (\<lambda>b.
       bind (gets w_participants) (\<lambda>ps.
       let allParticipants = findMany (pf_participants pf) (\<lambda>p. part_userId p = a \<or> part_userId p = b) ps;
           idsOf = (\<lambda>key. map part_conversationId (filter (\<lambda>p. idStr pf (part_userId p) = key) allParticipants));
           shared = filter (\<lambda>i. i \<in> set (idsOf userBId)) (idsOf userAId) in
       if shared = [] then ret None
       else
         bind (gets w_conversations) (\<lambda>cs.
         let conversations = findSorted (pf_conversations pf) (\<lambda>c. - conv_updatedAt c)
               (\<lambda>c. conv_id c \<in> set shared \<and> conv_type c = Direct) cs in
         ret (find (pairConversation pf userAId userBId ps) conversations)))))"

subsection \<open>Creating a conversation\<close>

definition participantDoc :: "platform \<Rightarrow> jstr \<Rightarrow> jstr \<Rightarrow> (oid \<times> participant_role \<times> oid option \<times> time) act" where
  "participantDoc pf creatorId uid =
     bind (toObjectId pf uid) (\<lambda>u.
     bind (if uid = creatorId then ret None
           else bind (toObjectId pf creatorId) (\<lambda>c. ret (Some c))) (\<lambda>addedBy.
     bind (now pf) (\<lambda>joinedAt.
     ret (u, if uid = creatorId then Owner else Member, addedBy, joinedAt))))"

definition eventDoc :: "platform \<Rightarrow> jstr \<Rightarrow> jstr \<Rightarrow> (membership_event_type \<times> oid \<times> oid option \<times> time) act" where
  "eventDoc pf creatorId uid =
     bind (toObjectId pf uid) (\<lambda>u.
     bind (if uid = creatorId then ret None
           else bind (toObjectId pf creatorId) (\<lambda>c. ret (Some c))) (\<lambda>actor.
     bind (now pf) (\<lambda>occurredAt.
     ret (if uid = creatorId then Joined else Added, u, actor, occurredAt))))"

definition createConversation ::
    "platform \<Rightarrow> conversation_type \<Rightarrow> jstr \<Rightarrow> jstr list \<Rightarrow> jstr option \<Rightarrow> conversation act" where
  "createConversation pf ty creatorId participantIds title =
     bind (if ty = Direct
           then
             let target = (case participantIds of [] \<Rightarrow> None | x # _ \<Rightarrow> Some x) in
             if target = Some creatorId
             then throw (BadRequestException (errorBody ''INVALID_DIRECT_CONVERSATION''
                    ''Cannot create a direct conversation with yourself''))
             else findDirectConversation pf creatorId target
           else ret None) (\<lambda>existing.
     case existing of
       Some c \<Rightarrow> ret c
     | None \<Rightarrow>
         bind (toObjectId pf creatorId) (\<lambda>creator.
         bind (now pf) (\<lambda>t.
         bind (freshOid pf) (\<lambda>cid.
         let conversation = \<lparr>conv_id = cid, conv_type = ty, conv_title = title, conv_createdBy = creator,
               conv_lastMessageAt = None, conv_createdAt = t, conv_updatedAt = t\<rparr> in
         bind (insertConversation conversation) (\<lambda>_.
         let allParticipantIds = arrayFromSet (creatorId # participantIds) in
         bind (mapA (participantDoc pf creatorId) allParticipantIds) (\<lambda>docs.
         bind (mapA (\<lambda>(u, role, addedBy, joinedAt). createParticipant pf cid u role addedBy joinedAt) docs) (\<lambda>_.
         bind (mapA (eventDoc pf creatorId) allParticipantIds) (\<lambda>evs.
         bind (mapA (\<lambda>(ety, u, actor, occurredAt). createEvent pf cid ety u actor occurredAt) evs) (\<lambda>_.
         ret conversation)))))))))"

subsection \<open>Members\<close>

definition addMember :: "platform \<Rightarrow> jstr \<Rightarrow> jstr \<Rightarrow> jstr \<Rightarrow> bool act" where
  "addMember pf conversationId userId actorId =
     bind (getActiveParticipant pf conversationId userId) (\<lambda>existing.
     if existing \<noteq> None then ret True
     else
       bind (toObjectId pf conversationId) (\<lambda>cid.
       bind (toObjectId pf userId) (\<lambda>uid.
       bind (toObjectId pf actorId) (\<lambda>actor.
       bind (now pf) (\<lambda>joinedAt.
       bind (createParticipant pf cid uid Member (Some actor) joinedAt) (\<lambda>_.
       bind (now pf) (\<lambda>t.
       bind (createEvent pf cid Added uid (Some actor) t) (\<lambda>_.
       ret False))))))))"

text \<open>Ending one active participation of the user, if there is one.\<close>

definition endParticipation :: "platform \<Rightarrow> oid \<Rightarrow> oid \<Rightarrow> participant_status \<Rightarrow> time \<Rightarrow> unit act" where
  "endParticipation pf cid uid status t =
     modify (\<lambda>w. w\<lparr>w_participants := updateOne part_id (pf_participants pf) (activeIn cid uid)
       (\<lambda>p. p\<lparr>part_status := status, part_leftAt := Some t\<rparr>) (w_participants w)\<rparr>)"

definition removeMember :: "platform \<Rightarrow> jstr \<Rightarrow> jstr \<Rightarrow> jstr \<Rightarrow> unit act" where
  "removeMember pf conversationId userId actorId =
     bind (toObjectId pf conversationId) (\<lambda>cid.
     bind (toObjectId pf userId) (\<lambda>uid.
     bind (now pf) (\<lambda>leftAt.
     bind (endParticipation pf cid uid Removed leftAt) (\<lambda>_.
     bind (toObjectId pf actorId) (\<lambda>actor.
     bind (now pf) (\<lambda>t.
     createEvent pf cid RemovedEvent uid (Some actor) t))))))"

definition markConversationLeft :: "platform \<Rightarrow> jstr \<Rightarrow> jstr \<Rightarrow> unit act" where
  "markConversationLeft pf conversationId userId =
     bind (toObjectId pf conversationId) (\<lambda>cid.
     bind (toObjectId pf userId) (\<lambda>uid.
     bind (now pf) (\<lambda>leftAt.
     bind (endParticipation pf cid uid Left leftAt) (\<lambda>_.
     bind (now pf) (\<lambda>t.
     createEvent pf cid LeftEvent uid None t)))))"

definition leaveConversation :: "platform \<Rightarrow> jstr \<Rightarrow> jstr \<Rightarrow> unit act" where
  "leaveConversation pf conversationId userId = markConversationLeft pf conversationId userId"

definition deleteConversationForUser :: "platform \<Rightarrow> jstr \<Rightarrow> jstr \<Rightarrow> unit act" where
  "deleteConversationForUser pf conversationId userId = markConversationLeft pf conversationId userId"

text \<open>Participants of a direct conversation who left come back when the other side writes.\<close>

definition restoreDirectParticipantsIfNeeded :: "platform \<Rightarrow> jstr \<Rightarrow> jstr \<Rightarrow> participant list act" where
  "restoreDirectParticipantsIfNeeded pf conversationId senderId =
     bind (castObjectId pf conversationId) (\<lambda>i.
     bind (gets w_conversations) (\<lambda>cs.
     case findById conv_id i cs of
       None \<Rightarrow> ret []
     | Some c \<Rightarrow>
         if conv_type c \<noteq> Direct then ret []
         else
           bind (toObjectId pf conversationId) (\<lambda>cid.
           bind (gets w_participants) (\<lambda>ps.
           let toRestore = filter (\<lambda>p. idStr pf (part_userId p) \<noteq> senderId \<and> part_status p = Left)
                 (findSorted (pf_participants pf) part_joinedAt (\<lambda>p. part_conversationId p = cid) ps) in
           if toRestore = [] then ret []
           else
             bind (mapA (\<lambda>p. modify (\<lambda>w. w\<lparr>w_participants := updateById part_id (part_id p)
                (\<lambda>d. d\<lparr>part_status := Active,
                       part_leftAt := (if pf_clearsUndefined pf then None else part_leftAt d)\<rparr>)
                (w_participants w)\<rparr>)) toRestore) (\<lambda>_.
             bind (gets w_participants) (\<lambda>ps'.
             ret (findMany (pf_participants pf) (\<lambda>p. part_id p \<in> part_id ` set toRestore) ps')))))))"

subsection \<open>The invariant of the world\<close>

lemma store_conversation [store_intros]:
  assumes "conv_id c = i" "\<And>a. keeps (worldOk pf) (f a)"
  shows "establishes (unusedId pf i) (worldOk pf) (bind (insertConversation c) f)"
  using assms by (intro establishes_post establishesI)
    (auto simp: insertConversation_def act_simps worldOk_append)

lemma store_participant [store_intros]:
  assumes "part_id p = i" "0 \<le> part_unreadCount p" "\<And>a. keeps (worldOk pf) (f a)"
  shows "establishes (unusedId pf i) (worldOk pf) (bind (insertParticipant p) f)"
  using assms by (intro establishes_post establishesI)
    (auto simp: insertParticipant_def act_simps worldOk_append)

lemma store_event [store_intros]:
  assumes "evt_id e = i" "\<And>a. keeps (worldOk pf) (f a)"
  shows "establishes (unusedId pf i) (worldOk pf) (bind (insertEvent e) f)"
  using assms by (intro establishes_post establishesI)
    (auto simp: insertEvent_def act_simps worldOk_append)

lemma keeps_create [keeps_intros]:
  "keeps (worldOk pf) (createParticipant pf cid u role a t)"
  "keeps (worldOk pf) (createEvent pf cid ty u actor t)"
  unfolding createParticipant_def createEvent_def newParticipant_def
  by (rule keeps_freshOid store_intros keeps_intros | simp)+

lemma worldOk_updateParticipants:
  assumes "worldOk pf w" "\<And>d. part_id (f d) = part_id d" "\<And>d. 0 \<le> part_unreadCount d \<Longrightarrow> 0 \<le> part_unreadCount (f d)"
  shows "worldOk pf (w\<lparr>w_participants := updateById part_id i f (w_participants w)\<rparr>)"
    and "worldOk pf (w\<lparr>w_participants := updateMany P f (w_participants w)\<rparr>)"
    and "worldOk pf (w\<lparr>w_participants := updateOne part_id ord P f (w_participants w)\<rparr>)"
proof -
  have nonneg: "\<forall>p\<in>set (w_participants w). 0 \<le> part_unreadCount p" using assms(1) by (simp add: worldOk_def)
  then have upd: "\<forall>p\<in>set (updateById part_id j f (w_participants w)). 0 \<le> part_unreadCount p" for j
    using assms(3) by (auto simp: updateById_def)
  show "worldOk pf (w\<lparr>w_participants := updateById part_id i f (w_participants w)\<rparr>)"
    using assms(1,2) upd by (intro worldOk_same_ids) (simp_all add: map_updateById)
  show "worldOk pf (w\<lparr>w_participants := updateMany P f (w_participants w)\<rparr>)"
    using assms nonneg by (intro worldOk_same_ids) (auto simp: map_updateMany updateMany_def)
  show "worldOk pf (w\<lparr>w_participants := updateOne part_id ord P f (w_participants w)\<rparr>)"
    using assms(1,2) upd nonneg
    by (intro worldOk_same_ids) (auto simp: map_updateById updateOne_def split: option.splits)
qed

lemma keeps_endParticipation [keeps_intros]: "keeps (worldOk pf) (endParticipation pf' cid uid st t)"
  unfolding endParticipation_def by (rule keeps_modify) (simp add: worldOk_updateParticipants)

lemma technical_documents [technical_intros]:
  "technical (participantDoc pf c u)" "technical (eventDoc pf c u)" "technical (findDirectConversation pf a b)"
  unfolding participantDoc_def eventDoc_def findDirectConversation_def Let_def
  by (intro technical_intros)+

lemmas keeps_documents [keeps_intros] = technical_documents [THEN technical_worldOk]

lemma keeps_membership [keeps_intros]:
  "keeps (worldOk pf) (createConversation pf ty creator ps title)"
  "keeps (worldOk pf) (addMember pf c u a)" "keeps (worldOk pf) (removeMember pf c u a)"
  "keeps (worldOk pf) (leaveConversation pf c u)" "keeps (worldOk pf) (deleteConversationForUser pf c u)"
  unfolding createConversation_def addMember_def removeMember_def leaveConversation_def
    deleteConversationForUser_def markConversationLeft_def Let_def
  by (rule keeps_freshOid store_intros keeps_intros | simp)+

lemma keeps_restore [keeps_intros]: "keeps (worldOk pf) (restoreDirectParticipantsIfNeeded pf c u)"
  unfolding restoreDirectParticipantsIfNeeded_def Let_def
  by (rule keeps_intros keeps_modify | simp add: worldOk_updateParticipants)+

subsection \<open>One direct conversation per pair of users\<close>

text \<open>The conversation the search for a direct conversation of two users finds.\<close>

definition sharedBy :: "oid \<Rightarrow> oid \<Rightarrow> participant list \<Rightarrow> conversation \<Rightarrow> bool" where
  "sharedBy a b ps c \<longleftrightarrow> conv_type c = Direct \<and>
     (\<exists>p\<in>set ps. part_conversationId p = conv_id c \<and> part_userId p = a) \<and>
     (\<exists>p\<in>set ps. part_conversationId p = conv_id c \<and> part_userId p = b)"

definition directOf :: "platform \<Rightarrow> oid \<Rightarrow> oid \<Rightarrow> world \<Rightarrow> conversation option" where
  "directOf pf a b w =
     find (pairConversation pf (idStr pf a) (idStr pf b) (w_participants w))
       (findSorted (pf_conversations pf) (\<lambda>c. - conv_updatedAt c) (sharedBy a b (w_participants w)) (w_conversations w))"

lemma findDirectConversation_run:
  "findDirectConversation pf (idStr pf a) (Some (idStr pf b)) w = (Inr (directOf pf a b w), w)"
proof -
  let ?ps = "w_participants w"
  let ?all = "findMany (pf_participants pf) (\<lambda>p. part_userId p = a \<or> part_userId p = b) ?ps"
  let ?ids = "\<lambda>key. map part_conversationId (filter (\<lambda>p. part_userId p = key) ?all)"
  let ?shared = "filter (\<lambda>i. i \<in> set (?ids b)) (?ids a)"
  have set_shared: "i \<in> set ?shared \<longleftrightarrow> (\<exists>p\<in>set ?ps. part_conversationId p = i \<and> part_userId p = a) \<and>
      (\<exists>p\<in>set ?ps. part_conversationId p = i \<and> part_userId p = b)" for i
    by (auto simp: image_iff)
  then have pred: "(\<lambda>c. conv_id c \<in> set ?shared \<and> conv_type c = Direct) = sharedBy a b ?ps"
    by (auto simp: sharedBy_def fun_eq_iff)
  have "directOf pf a b w = None" if "?shared = []"
  proof -
    have "\<not> sharedBy a b ?ps c" for c using pred that by (metis list.set(1) empty_iff)
    then have "findSorted (pf_conversations pf) (\<lambda>c. - conv_updatedAt c) (sharedBy a b ?ps) (w_conversations w) = []"
      by (simp flip: set_empty)
    then show ?thesis by (simp add: directOf_def)
  qed
  moreover have "findDirectConversation pf (idStr pf a) (Some (idStr pf b)) w =
      (Inr (if ?shared = [] then None else directOf pf a b w), w)"
    unfolding findDirectConversation_def directOf_def pred [symmetric]
    by (simp add: act_simps Let_def toObjectId_idStr)
  ultimately show ?thesis by simp
qed

lemma directOf_sym: "directOf pf a b w = directOf pf b a w"
proof -
  have "sharedBy a b ps = sharedBy b a ps" for ps by (auto simp: sharedBy_def fun_eq_iff)
  moreover have "pairConversation pf x y ps = pairConversation pf y x ps" for x y ps
    by (auto simp: pairConversation_def fun_eq_iff Let_def)
  ultimately show ?thesis by (simp add: directOf_def)
qed

lemma find_SomeD: "find P xs = Some x \<Longrightarrow> x \<in> set xs \<and> P x"
  by (induction xs) (auto split: if_splits)

lemma directOf_Some_iff:
  assumes "worldOk pf w"
    and "\<And>c'. c' \<in> set (w_conversations w) \<Longrightarrow> sharedBy a b (w_participants w) c' \<Longrightarrow>
      pairConversation pf (idStr pf a) (idStr pf b) (w_participants w) c' \<Longrightarrow> c' = c"
    and "c \<in> set (w_conversations w)" "sharedBy a b (w_participants w) c"
      "pairConversation pf (idStr pf a) (idStr pf b) (w_participants w) c"
  shows "directOf pf a b w = Some c"
proof -
  let ?P = "pairConversation pf (idStr pf a) (idStr pf b) (w_participants w)"
  let ?cs = "findSorted (pf_conversations pf) (\<lambda>c. - conv_updatedAt c) (sharedBy a b (w_participants w)) (w_conversations w)"
  have "find ?P ?cs \<noteq> None" unfolding find_None_iff using assms(3-5) by auto
  then obtain d where "find ?P ?cs = Some d" by blast
  moreover from find_SomeD [OF this] have "d = c" using assms(2) by simp
  ultimately show ?thesis by (simp add: directOf_def)
qed

lemma directOf_None:
  "directOf pf a b w = None \<Longrightarrow> c \<in> set (w_conversations w) \<Longrightarrow> sharedBy a b (w_participants w) c \<Longrightarrow>
    \<not> pairConversation pf (idStr pf a) (idStr pf b) (w_participants w) c"
  by (auto simp: directOf_def find_None_iff)

lemma createDirect_new:
  assumes "a \<noteq> b" "directOf pf a b w = None"
    and "createConversation pf Direct (idStr pf a) [idStr pf b] title w = (r, w\<^sub>1)"
  shows "\<exists>c p q. r = Inr c \<and> w_conversations w\<^sub>1 = w_conversations w @ [c] \<and>
    w_participants w\<^sub>1 = w_participants w @ [p, q] \<and> conv_id c = issue (pf_newOid pf) (w_oidsIssued w) \<and>
    conv_type c = Direct \<and> part_conversationId p = conv_id c \<and> part_conversationId q = conv_id c \<and>
    part_userId p = a \<and> part_userId q = b \<and> part_role p = Owner \<and> part_role q = Member \<and>
    part_status p = Active \<and> part_status q = Active"
  using assms
  by (auto simp: createConversation_def Let_def findDirectConversation_run bind_def ret_def arrayFromSet_def
      participantDoc_def eventDoc_def toObjectId_idStr now_run freshOid_run insertConversation_def
      createParticipant_def createEvent_def insertParticipant_def insertEvent_def modify_def newParticipant_def)

text \<open>
  C31: creating a direct conversation is idempotent and symmetric: after two distinct users have one,
  creating it again from either side returns the same conversation and changes nothing.
\<close>

theorem direct_conversation_unique:
  assumes "worldOk pf w" "a \<noteq> b"
    and "\<forall>p\<in>set (w_participants w). part_conversationId p \<in> conv_id ` set (w_conversations w)"
    and "createConversation pf Direct (idStr pf a) [idStr pf b] title w = (Inr c, w\<^sub>1)"
  shows "createConversation pf Direct (idStr pf a) [idStr pf b] title' w\<^sub>1 = (Inr c, w\<^sub>1) \<and>
    createConversation pf Direct (idStr pf b) [idStr pf a] title' w\<^sub>1 = (Inr c, w\<^sub>1)"
proof -
  have again: "createConversation pf Direct (idStr pf x) [idStr pf y] title' w\<^sub>1 = (Inr c, w\<^sub>1)"
    if "directOf pf x y w\<^sub>1 = Some c" "x \<noteq> y" for x y
    using that by (simp add: createConversation_def Let_def findDirectConversation_run bind_def ret_def)
  have "directOf pf a b w\<^sub>1 = Some c"
  proof (cases "directOf pf a b w")
    case (Some d)
    then have "createConversation pf Direct (idStr pf a) [idStr pf b] title w = (Inr d, w)"
      using assms(2) by (simp add: createConversation_def Let_def findDirectConversation_run bind_def ret_def)
    with assms(4) Some show ?thesis by simp
  next
    case None
    let ?i = "issue (pf_newOid pf) (w_oidsIssued w)"
    from createDirect_new [OF assms(2) None assms(4)] obtain p q where
      cs: "w_conversations w\<^sub>1 = w_conversations w @ [c]" and
      ps: "w_participants w\<^sub>1 = w_participants w @ [p, q]" and
      c: "conv_id c = ?i" "conv_type c = Direct" and
      p: "part_conversationId p = ?i" "part_userId p = a" and
      q: "part_conversationId q = ?i" "part_userId q = b" by auto
    have fresh: "?i \<notin> conv_id ` set (w_conversations w)"
      using assms(1) fresh_not_issued [of pf w] by (auto simp: worldOk_def)
    then have none: "filter (\<lambda>p. part_conversationId p = ?i) (w_participants w) = []"
      using assms(3) by (metis (mono_tags, lifting) filter_False)
    have w1: "worldOk pf w\<^sub>1"
      using keeps_run [OF keeps_membership(1) assms(1) assms(4)] .
    show ?thesis
    proof (rule directOf_Some_iff [OF w1])
      fix c' assume c': "c' \<in> set (w_conversations w\<^sub>1)" "sharedBy a b (w_participants w\<^sub>1) c'"
        "pairConversation pf (idStr pf a) (idStr pf b) (w_participants w\<^sub>1) c'"
      show "c' = c"
      proof (rule ccontr)
        assume "c' \<noteq> c"
        with c'(1) cs have in_w: "c' \<in> set (w_conversations w)" by simp
        with fresh have "conv_id c' \<noteq> ?i" by (metis imageI)
        then have "sharedBy a b (w_participants w) c'"
          "pairConversation pf (idStr pf a) (idStr pf b) (w_participants w) c'"
          using c'(2,3) p q by (auto simp: sharedBy_def pairConversation_def ps)
        with directOf_None [OF None in_w] show False by blast
      qed
    next
      show "c \<in> set (w_conversations w\<^sub>1)" by (simp add: cs)
      show "sharedBy a b (w_participants w\<^sub>1) c" using c p q by (auto simp: sharedBy_def ps)
      show "pairConversation pf (idStr pf a) (idStr pf b) (w_participants w\<^sub>1) c"
        using c p q none by (simp add: pairConversation_def ps Let_def)
    qed
  qed
  with again assms(2) directOf_sym show ?thesis by metis
qed

subsection \<open>Joining and leaving\<close>

lemma getActiveParticipant_run:
  "parseOid (pf_oids pf) c = Some cid \<Longrightarrow> parseOid (pf_oids pf) u = Some uid \<Longrightarrow>
   getActiveParticipant pf c u w = (Inr (findOne (pf_participants pf) (activeIn cid uid) (w_participants w)), w)"
  by (simp add: getActiveParticipant_def toObjectId_def act_simps)

text \<open>
  Adding a member either finds the user already active and changes nothing, or stores exactly one
  active participation with role \<open>member\<close> and one \<open>added\<close> event; adding the same user again then finds the
  user active.
\<close>

theorem addMember_effect:
  assumes "addMember pf c u actor w = (Inr already, w\<^sub>1)"
  shows "addMember pf c u actor w\<^sub>1 = (Inr True, w\<^sub>1) \<and>
    (if already then w\<^sub>1 = w
     else \<exists>p e cid uid. parseOid (pf_oids pf) c = Some cid \<and> parseOid (pf_oids pf) u = Some uid \<and>
       \<not> list_ex (activeIn cid uid) (w_participants w) \<and>
       w_participants w\<^sub>1 = w_participants w @ [p] \<and> activeIn cid uid p \<and> part_role p = Member \<and>
       w_events w\<^sub>1 = w_events w @ [e] \<and> evt_type e = Added \<and> evt_targetUserId e = uid)"
proof -
  from assms obtain cid uid where ids: "parseOid (pf_oids pf) c = Some cid" "parseOid (pf_oids pf) u = Some uid"
    by (auto simp: addMember_def getActiveParticipant_def toObjectId_def bind_Inr_iff throw_def split: option.splits)
  have again: "addMember pf c u actor v = (Inr True, v)"
    if "findOne (pf_participants pf) (activeIn cid uid) (w_participants v) \<noteq> None" for v
    using that by (simp add: addMember_def bind_def getActiveParticipant_run [OF ids] ret_def)
  show ?thesis
  proof (cases "findOne (pf_participants pf) (activeIn cid uid) (w_participants w)")
    case (Some p)
    with again [of w] assms show ?thesis by simp
  next
    case None
    then have none: "\<not> list_ex (activeIn cid uid) (w_participants w)"
      by (simp add: findOne_None list_ex_iff)
    from assms None ids obtain p e where w1: "w_participants w\<^sub>1 = w_participants w @ [p]" "activeIn cid uid p"
      "part_role p = Member" "w_events w\<^sub>1 = w_events w @ [e]" "evt_type e = Added" "evt_targetUserId e = uid"
      and "\<not> already"
      by (auto simp: addMember_def bind_def getActiveParticipant_run [OF ids] toObjectId_def now_run freshOid_run
          createParticipant_def createEvent_def insertParticipant_def insertEvent_def modify_def ret_def throw_def
          newParticipant_def activeIn_def split: option.splits)
    moreover have "findOne (pf_participants pf) (activeIn cid uid) (w_participants w\<^sub>1) \<noteq> None"
      unfolding findOne_None using w1(1,2) by auto
    ultimately show ?thesis using again [of w\<^sub>1] ids none by auto
  qed
qed

lemma endParticipation_none:
  assumes "\<forall>p\<in>set ps. \<forall>q\<in>set ps. activeIn cid uid p \<and> activeIn cid uid q \<longrightarrow> part_id p = part_id q" "st \<noteq> Active"
  shows "findOne ord (activeIn cid uid) (updateOne part_id ord' (activeIn cid uid)
     (\<lambda>p. p\<lparr>part_status := st, part_leftAt := Some t\<rparr>) ps) = None"
proof (cases "findOne ord' (activeIn cid uid) ps")
  case None
  then have "\<forall>p\<in>set ps. \<not> activeIn cid uid p" by (simp add: findOne_None)
  then show ?thesis unfolding updateOne_def None option.case by (simp add: findOne_None)
next
  case (Some p)
  then have "p \<in> set ps" "activeIn cid uid p" by (auto dest: findOne_Some)
  with assms(1) have sole: "part_id q = part_id p" if "q \<in> set ps" "activeIn cid uid q" for q
    using that by blast
  have "\<not> activeIn cid uid (if part_id q = part_id p then q\<lparr>part_status := st, part_leftAt := Some t\<rparr> else q)"
    if "q \<in> set ps" for q
    using sole [OF that] assms(2) by (cases "part_id q = part_id p") (auto simp: activeIn_def)
  then show ?thesis
    unfolding updateOne_def Some option.case findOne_None updateById_def set_map by blast
qed

text \<open>
  When a user has a single active participation in a conversation, being removed and leaving both
  end the access: every later call that requires an active participant is refused.
\<close>

theorem leaving_ends_access:
  assumes "parseOid (pf_oids pf) c = Some cid" "parseOid (pf_oids pf) u = Some uid"
    and "\<forall>p\<in>set (w_participants w). \<forall>q\<in>set (w_participants w).
      activeIn cid uid p \<and> activeIn cid uid q \<longrightarrow> part_id p = part_id q"
  shows "fst (getRequiredActiveParticipant pf c u (snd (removeMember pf c u actor w))) =
      Inl (ForbiddenException (js ''You are not an active participant of this conversation'')) \<and>
    fst (getRequiredActiveParticipant pf c u (snd (leaveConversation pf c u w))) =
      Inl (ForbiddenException (js ''You are not an active participant of this conversation''))"
proof -
  have "w_participants (snd (removeMember pf c u actor w)) =
      updateOne part_id (pf_participants pf) (activeIn cid uid)
        (\<lambda>p. p\<lparr>part_status := Removed, part_leftAt := Some (pf_clock pf (w_clockReads w))\<rparr>) (w_participants w)"
    using assms(1,2)
    by (simp add: removeMember_def toObjectId_def bind_def ret_def throw_def now_run endParticipation_def modify_def
        createEvent_def freshOid_run insertEvent_def split: option.split)
  moreover have "w_participants (snd (leaveConversation pf c u w)) =
      updateOne part_id (pf_participants pf) (activeIn cid uid)
        (\<lambda>p. p\<lparr>part_status := Left, part_leftAt := Some (pf_clock pf (w_clockReads w))\<rparr>) (w_participants w)"
    using assms(1,2)
    by (simp add: leaveConversation_def markConversationLeft_def toObjectId_def bind_def ret_def now_run
        endParticipation_def modify_def createEvent_def freshOid_run insertEvent_def)
  ultimately show ?thesis
    using endParticipation_none [OF assms(3)]
    by (simp add: getRequiredActiveParticipant_def bind_def getActiveParticipant_run [OF assms(1,2)] throw_def)
qed

end
