(* ===== verification/ChatMessages.thy ===== *)
theory ChatMessages
  imports ChatMembership
begin

text \<open>
  The writing side of \<open>chat/chat.service.ts\<close>: sending messages (with attachments, by clients and by the
  AI assistant), unread counters, read receipts and moderation results.
\<close>

subsection \<open>Sending\<close>

definition insertMessage :: "message \<Rightarrow> unit act" where
  "insertMessage m = modify (\<lambda>w. w\<lparr>w_messages := w_messages w @ [m]\<rparr>)"

definition givenId :: "jstr option \<Rightarrow> jstr option" where
  "givenId v = (case v of None \<Rightarrow> None | Some s \<Rightarrow> if s = [] then None else Some s)"

definition resolveAttachment :: "platform \<Rightarrow> jstr \<Rightarrow> jstr \<Rightarrow> jstr option \<Rightarrow> chat_attachment option act" where
  "resolveAttachment pf conversationId senderId attachmentIdValue =
     (case givenId attachmentIdValue of
        None \<Rightarrow> ret None
      | Some s \<Rightarrow>
          (case parseOid (pf_oids pf) s of
             None \<Rightarrow> throw (BadRequestException (codeBody ''INVALID_ATTACHMENT_ID'' ''Attachment ID is invalid''))
           | Some aid \<Rightarrow>
               bind (gets w_attachments) (\<lambda>atts.
               case findById att_id aid atts of
                 None \<Rightarrow> throw (BadRequestException (codeBody ''ATTACHMENT_NOT_FOUND'' ''Attachment not found''))
               | Some a \<Rightarrow>
                   if idStr pf (att_conversationId a) \<noteq> conversationId
                   then throw (BadRequestException (codeBody ''ATTACHMENT_NOT_FOUND'' ''Attachment not found''))
                   else if idStr pf (att_uploaderId a) \<noteq> senderId
                   then throw (ForbiddenException (js ''Attachment does not belong to this user''))
                   else if att_status a \<noteq> Uploaded
                   then throw (BadRequestException (codeBody ''ATTACHMENT_NOT_READY'' ''Attachment upload is not ready''))
                   else ret (Some a))))"

definition touchConversation :: "platform \<Rightarrow> oid \<Rightarrow> time \<Rightarrow> unit act" where
  "touchConversation pf cid sentAt =
     bind (now pf) (\<lambda>t.
     modify (\<lambda>w. w\<lparr>w_conversations := updateById conv_id cid
       (\<lambda>c. c\<lparr>conv_lastMessageAt := Some sentAt, conv_updatedAt := t\<rparr>) (w_conversations w)\<rparr>))"

definition incrementUnreadForOtherParticipants :: "platform \<Rightarrow> jstr \<Rightarrow> jstr \<Rightarrow> unit act" where
  "incrementUnreadForOtherParticipants pf conversationId senderId =
     bind (toObjectId pf conversationId) (\<lambda>cid.
     bind (toObjectId pf senderId) (\<lambda>sid.
     modify (\<lambda>w. w\<lparr>w_participants := updateMany
       (\<lambda>p. part_conversationId p = cid \<and> part_userId p \<noteq> sid \<and> part_status p = Active)
       (\<lambda>p. p\<lparr>part_unreadCount := part_unreadCount p + 1\<rparr>) (w_participants w)\<rparr>)))"

definition attachTo :: "platform \<Rightarrow> oid \<Rightarrow> chat_attachment option \<Rightarrow> unit act" where
  "attachTo pf mid att =
     (case att of
        None \<Rightarrow> ret ()
      | Some a \<Rightarrow>
          bind (now pf) (\<lambda>t.
          modify (\<lambda>w. w\<lparr>w_attachments := updateById att_id (att_id a)
            (\<lambda>d. d\<lparr>att_messageId := Some mid, att_status := Attached, att_confirmedAt := Some t\<rparr>)
            (w_attachments w)\<rparr>)))"

definition markOwnRead :: "participant \<Rightarrow> message \<Rightarrow> unit act" where
  "markOwnRead sender m =
     modify (\<lambda>w. w\<lparr>w_participants := updateById part_id (part_id sender)
       (\<lambda>p. p\<lparr>part_lastReadMessageId := Some (msg_id m), part_lastReadAt := Some (msg_sentAt m),
              part_unreadCount := 0\<rparr>) (w_participants w)\<rparr>)"

abbreviation emptyMessage :: exn where
  "emptyMessage \<equiv> BadRequestException (codeBody ''EMPTY_MESSAGE'' ''Message content cannot be empty'')"

text \<open>Storing the message and its effects on the attachment, the conversation and the counters.\<close>

definition postMessage ::
    "platform \<Rightarrow> jstr \<Rightarrow> jstr \<Rightarrow> participant \<Rightarrow> encrypted_content \<Rightarrow> chat_attachment option \<Rightarrow> bool \<Rightarrow> message act" where
  "postMessage pf conversationId senderId activeSender encrypted attachmentDocument isAICommand =
     bind (toObjectId pf conversationId) (\<lambda>cid.
     bind (toObjectId pf senderId) (\<lambda>sid.
     bind (now pf) (\<lambda>sentAt.
     bind (freshOid pf) (\<lambda>mid.
     let m = \<lparr>msg_id = mid, msg_conversationId = cid, msg_senderId = sid,
           msg_content = enc_content encrypted, msg_reverseEncryptionState = enc_state encrypted,
           msg_encryptedContentVersion = (if enc_state encrypted = Encrypted then Some ''reverse-v1'' else None),
           msg_sentAt = sentAt, msg_deliveryStatus = DeliverySent, msg_seenState = Sent,
           msg_decodeErrorCode = enc_decodeErrorCode encrypted, msg_isAIBotMessage = False,
           msg_isAICommand = isAICommand, msg_moderationResult = None,
           msg_attachment = map_option (\<lambda>a. \<lparr>ma_attachmentId = att_id a, ma_fileName = att_originalName a,
             ma_mimeType = att_mimeType a, ma_sizeBytes = att_sizeBytes a, ma_isImage = att_isImage a\<rparr>)
             attachmentDocument\<rparr> in
     bind (insertMessage m) (\<lambda>_.
     bind (attachTo pf mid attachmentDocument) (\<lambda>_.
     bind (touchConversation pf cid sentAt) (\<lambda>_.
     bind (markOwnRead activeSender m) (\<lambda>_.
     bind (incrementUnreadForOtherParticipants pf conversationId senderId) (\<lambda>_.
     ret m)))))))))"

definition sendMessage ::
    "platform \<Rightarrow> jstr \<Rightarrow> jstr \<Rightarrow> jstr \<Rightarrow> jstr option \<Rightarrow> bool \<Rightarrow> (message \<times> participant list) act" where
  "sendMessage pf conversationId senderId content attachmentIdValue isAICommand =
     (let trimmedContent = trim content in
      if trimmedContent = [] \<and> givenId attachmentIdValue = None then throw emptyMessage
      else
        bind (getRequiredActiveParticipant pf conversationId senderId) (\<lambda>activeSender.
        bind (restoreDirectParticipantsIfNeeded pf conversationId senderId) (\<lambda>restoredParticipants.
        bind (resolveAttachment pf conversationId senderId attachmentIdValue) (\<lambda>attachmentDocument.
        if trimmedContent = [] \<and> attachmentDocument = None then throw emptyMessage
        else
          bind (if trimmedContent \<noteq> [] then encryptForStorage pf trimmedContent senderId conversationId
                else ret \<lparr>enc_content = [], enc_state = Legacy, enc_decodeErrorCode = None\<rparr>) (\<lambda>encrypted.
          bind (postMessage pf conversationId senderId activeSender encrypted attachmentDocument isAICommand) (\<lambda>m.
          ret (m, restoredParticipants)))))))"

record send_result =
  sr_message :: realtime_message
  sr_previewByUserId :: "(jstr \<times> conversation_preview) list"
  sr_restoredParticipants :: "participant list"

definition sendRealtimeMessage ::
    "platform \<Rightarrow> jstr \<Rightarrow> jstr \<Rightarrow> jstr \<Rightarrow> jstr option \<Rightarrow> bool \<Rightarrow> send_result act" where
  "sendRealtimeMessage pf conversationId senderId content attachmentIdValue isAICommand =
     bind (if givenId attachmentIdValue \<noteq> None
           then sendMessage pf conversationId senderId content attachmentIdValue isAICommand
           else if isAICommand then sendMessage pf conversationId senderId content None True
           else sendMessage pf conversationId senderId content None False) (\<lambda>(m, restoredParticipants).
     bind (toRealtimeMessagePayload pf m) (\<lambda>payload.
     bind (buildConversationPreviewPayloads pf conversationId) (\<lambda>previews.
     ret \<lparr>sr_message = payload, sr_previewByUserId = previews, sr_restoredParticipants = restoredParticipants\<rparr>)))"

definition sendAiBotMessage :: "platform \<Rightarrow> jstr \<Rightarrow> jstr \<Rightarrow> jstr \<Rightarrow> send_result act" where
  "sendAiBotMessage pf conversationId requesterId content =
     bind (toObjectId pf conversationId) (\<lambda>cid.
     bind (toObjectId pf requesterId) (\<lambda>sid.
     bind (now pf) (\<lambda>sentAt.
     bind (freshOid pf) (\<lambda>mid.
     let m = \<lparr>msg_id = mid, msg_conversationId = cid, msg_senderId = sid, msg_content = content,
           msg_reverseEncryptionState = Legacy, msg_encryptedContentVersion = None, msg_sentAt = sentAt,
           msg_deliveryStatus = DeliverySent, msg_seenState = Sent, msg_decodeErrorCode = None,
           msg_isAIBotMessage = True, msg_isAICommand = False, msg_moderationResult = None,
           msg_attachment = None\<rparr> in
     bind (insertMessage m) (\<lambda>_.
     bind (touchConversation pf cid sentAt) (\<lambda>_.
     bind (incrementUnreadForOtherParticipants pf conversationId requesterId) (\<lambda>_.
     bind (toRealtimeMessagePayload pf m) (\<lambda>payload.
     bind (buildConversationPreviewPayloads pf conversationId) (\<lambda>previews.
     ret \<lparr>sr_message = payload, sr_previewByUserId = previews, sr_restoredParticipants = []\<rparr>)))))))))"

text \<open>
  Mongoose casts the fields of the update to their types (a number that is not one is refused) but does
  not check the allowed values of \<open>sentiment\<close>, since an update runs no validators.
\<close>

definition castModeration :: "platform \<Rightarrow> moderation_dto \<Rightarrow> moderation_result act" where
  "castModeration pf dto =
     (case pf_castString pf (md_sentiment dto) of
        None \<Rightarrow> throw CastError
      | Some s \<Rightarrow>
          if md_sentimentScore dto = NaN \<or> md_toxicityScore dto = NaN then throw CastError
          else ret \<lparr>mod_sentiment = Some s, mod_sentimentScore = Some (md_sentimentScore dto),
            mod_toxicityScore = Some (md_toxicityScore dto), mod_isToxic = Some (md_isToxic dto),
            mod_warningMessage = md_warningMessage dto\<rparr>)"

definition saveMessageModerationResult :: "platform \<Rightarrow> jstr \<Rightarrow> moderation_dto \<Rightarrow> unit act" where
  "saveMessageModerationResult pf messageId moderationResult =
     bind (toObjectId pf messageId) (\<lambda>mid.
     bind (castModeration pf moderationResult) (\<lambda>result.
     modify (\<lambda>w. w\<lparr>w_messages := updateById msg_id mid (\<lambda>m. m\<lparr>msg_moderationResult := Some result\<rparr>)
       (w_messages w)\<rparr>)))"

subsection \<open>Reading\<close>

definition markConversationRead :: "platform \<Rightarrow> jstr \<Rightarrow> jstr \<Rightarrow> mark_read_payload act" where
  "markConversationRead pf conversationId userId =
     bind (getRequiredActiveParticipant pf conversationId userId) (\<lambda>participant.
     bind (toObjectId pf conversationId) (\<lambda>cid.
     bind (gets w_messages) (\<lambda>ms.
     case latestMessage pf cid ms of
       None \<Rightarrow>
         bind (modify (\<lambda>w. w\<lparr>w_participants := updateById part_id (part_id participant)
            (\<lambda>p. p\<lparr>part_unreadCount := 0\<rparr>) (w_participants w)\<rparr>)) (\<lambda>_.
         ret \<lparr>mr_conversationId = conversationId, mr_unreadCount = 0, mr_lastReadMessageId = None\<rparr>)
     | Some latest \<Rightarrow>
         bind (now pf) (\<lambda>t.
         bind (modify (\<lambda>w. w\<lparr>w_participants := updateById part_id (part_id participant)
            (\<lambda>p. p\<lparr>part_lastReadMessageId := Some (msg_id latest), part_lastReadAt := Some t,
                   part_unreadCount := 0\<rparr>) (w_participants w)\<rparr>)) (\<lambda>_.
         bind (gets w_participants) (\<lambda>ps.
         let others = map part_userId (filter (\<lambda>p. idStr pf (part_userId p) \<noteq> userId)
               (findMany (pf_participants pf) (\<lambda>p. part_conversationId p = cid \<and> part_status p = Active) ps)) in
         bind (whenA (others \<noteq> [])
            (modify (\<lambda>w. w\<lparr>w_messages := updateMany
               (\<lambda>m. msg_conversationId m = cid \<and> msg_senderId m \<in> set others \<and> msg_sentAt m \<le> msg_sentAt latest)
               (\<lambda>m. m\<lparr>msg_seenState := Seen\<rparr>) (w_messages w)\<rparr>))) (\<lambda>_.
         ret \<lparr>mr_conversationId = conversationId, mr_unreadCount = 0,
              mr_lastReadMessageId = Some (idStr pf (msg_id latest))\<rparr>)))))))"

subsection \<open>The invariant of the world\<close>

lemma store_message [store_intros]:
  assumes "msg_id m = i" "\<And>a. keeps (worldOk pf) (f a)"
  shows "establishes (unusedId pf i) (worldOk pf) (bind (insertMessage m) f)"
  using assms by (intro establishes_post establishesI)
    (auto simp: insertMessage_def act_simps worldOk_append)

lemma technical_resolveAttachment [technical_intros]: "technical (resolveAttachment pf c s a)"
  unfolding resolveAttachment_def by (intro technical_intros)

lemmas keeps_resolveAttachment [keeps_intros] = technical_resolveAttachment [THEN technical_worldOk]

lemma technical_castModeration [technical_intros]: "technical (castModeration pf dto)"
  unfolding castModeration_def by (intro technical_intros)

lemmas keeps_castModeration [keeps_intros] = technical_castModeration [THEN technical_worldOk]

lemma keeps_message_steps [keeps_intros]:
  "keeps (worldOk pf) (touchConversation pf' cid t)"
  "keeps (worldOk pf) (incrementUnreadForOtherParticipants pf' c s)"
  "keeps (worldOk pf) (attachTo pf' mid att)" "keeps (worldOk pf) (markOwnRead p m)"
  "keeps (worldOk pf) (saveMessageModerationResult pf' i r)"
  unfolding touchConversation_def incrementUnreadForOtherParticipants_def attachTo_def markOwnRead_def
    saveMessageModerationResult_def
  by (rule keeps_intros keeps_modify | simp add: worldOk_updateParticipants worldOk_same_ids map_updateById)+

lemma keeps_sending [keeps_intros]:
  "keeps (worldOk pf) (sendMessage pf c s t a b)" "keeps (worldOk pf) (sendRealtimeMessage pf c s t a b)"
  "keeps (worldOk pf) (sendAiBotMessage pf c s t)" "keeps (worldOk pf) (markConversationRead pf c s)"
proof -
  show send: "keeps (worldOk pf) (sendMessage pf c s t a b)" for c s t a b
    unfolding sendMessage_def postMessage_def Let_def by (rule keeps_freshOid store_intros keeps_intros | simp)+
  show "keeps (worldOk pf) (sendRealtimeMessage pf c s t a b)"
    unfolding sendRealtimeMessage_def by (rule keeps_intros send | simp)+
  show "keeps (worldOk pf) (sendAiBotMessage pf c s t)"
    unfolding sendAiBotMessage_def Let_def by (rule keeps_freshOid store_intros keeps_intros | simp)+
  show "keeps (worldOk pf) (markConversationRead pf c s)"
    unfolding markConversationRead_def Let_def
    by (rule keeps_intros keeps_modify
      | simp add: worldOk_updateParticipants worldOk_same_ids map_updateMany)+
qed

subsection \<open>The phases of sending\<close>

definition restoredFrom :: "participant \<Rightarrow> participant \<Rightarrow> bool" where
  "restoredFrom d d' \<longleftrightarrow> d' = d \<or> (\<exists>l. d' = d\<lparr>part_status := Active, part_leftAt := l\<rparr>)"

lemma restoredFrom_trans: "restoredFrom a b \<Longrightarrow> restoredFrom b c \<Longrightarrow> restoredFrom a c"
  by (auto simp: restoredFrom_def)

lemma restoredFrom_same:
  "restoredFrom d d' \<Longrightarrow> part_id d' = part_id d \<and> part_conversationId d' = part_conversationId d \<and>
     part_userId d' = part_userId d \<and> part_unreadCount d' = part_unreadCount d"
  by (auto simp: restoredFrom_def)

lemma mapA_modify: "mapA (\<lambda>x. modify (h x)) xs w = (Inr (map (\<lambda>_. ()) xs), fold h xs w)"
  by (induction xs arbitrary: w) (simp_all add: bind_def modify_def ret_def)

lemma fold_restore:
  "\<exists>f. fold (\<lambda>p w. w\<lparr>w_participants := updateById part_id (part_id p)
       (\<lambda>d. d\<lparr>part_status := Active, part_leftAt := (if b then None else part_leftAt d)\<rparr>) (w_participants w)\<rparr>) xs w
     = w\<lparr>w_participants := map f (w_participants w)\<rparr> \<and> (\<forall>d. restoredFrom d (f d))"
proof (induction xs arbitrary: w)
  case Nil
  then show ?case by (intro exI [of _ id]) (simp add: restoredFrom_def)
next
  case (Cons p xs)
  let ?u = "\<lambda>d. if part_id d = part_id p
      then d\<lparr>part_status := Active, part_leftAt := (if b then None else part_leftAt d)\<rparr> else d"
  let ?w = "w\<lparr>w_participants := map ?u (w_participants w)\<rparr>"
  obtain f where f: "fold (\<lambda>p w. w\<lparr>w_participants := updateById part_id (part_id p)
       (\<lambda>d. d\<lparr>part_status := Active, part_leftAt := (if b then None else part_leftAt d)\<rparr>) (w_participants w)\<rparr>) xs ?w
     = ?w\<lparr>w_participants := map f (w_participants ?w)\<rparr>" "\<forall>d. restoredFrom d (f d)"
    using Cons.IH by blast
  have "restoredFrom d (?u d)" for d unfolding restoredFrom_def by metis
  then have "restoredFrom d (f (?u d))" for d using f(2) restoredFrom_trans by blast
  with f(1) show ?case
    by (intro exI [of _ "f \<circ> ?u"]) (simp add: updateById_def)
qed

lemma restore_run:
  assumes "restoreDirectParticipantsIfNeeded pf c s w = (r, v)"
  shows "\<exists>f. v = w\<lparr>w_participants := map f (w_participants w)\<rparr> \<and> (\<forall>d. restoredFrom d (f d))"
proof -
  have keep: "\<exists>f. w = w\<lparr>w_participants := map f (w_participants w)\<rparr> \<and> (\<forall>d. restoredFrom d (f d))"
    by (intro exI [of _ id]) (simp add: restoredFrom_def)
  show ?thesis
    using assms keep fold_restore [of "pf_clearsUndefined pf" _ w]
    by (auto simp: restoreDirectParticipantsIfNeeded_def castObjectId_def toObjectId_def act_simps bind_def gets_def
        ret_def throw_def mapA_modify Let_def split: option.splits if_splits)
qed

lemma resolveAttachment_Inr:
  assumes "resolveAttachment pf c s att v = (Inr r, v')"
  shows "v' = v \<and> (case r of
      None \<Rightarrow> givenId att = None
    | Some a \<Rightarrow> findById att_id (att_id a) (w_attachments v) = Some a \<and> a \<in> set (w_attachments v) \<and>
        idStr pf (att_conversationId a) = c \<and> idStr pf (att_uploaderId a) = s \<and> att_status a = Uploaded)"
proof (cases "givenId att")
  case None
  with assms show ?thesis by (simp add: resolveAttachment_def ret_def)
next
  case (Some i)
  note given = this
  show ?thesis
  proof (cases "parseOid (pf_oids pf) i")
    case None
    with assms given show ?thesis by (simp add: resolveAttachment_def throw_def)
  next
    case (Some aid)
    show ?thesis
    proof (cases "findById att_id aid (w_attachments v)")
      case None
      with assms given Some show ?thesis by (simp add: resolveAttachment_def bind_def gets_def throw_def)
    next
      case (Some a)
      with assms given \<open>parseOid (pf_oids pf) i = Some aid\<close>
      have "r = Some a \<and> v' = v \<and> idStr pf (att_conversationId a) = c \<and> idStr pf (att_uploaderId a) = s \<and>
          att_status a = Uploaded"
        by (simp add: resolveAttachment_def bind_def gets_def ret_def throw_def split: if_splits)
      with findById_Some [OF Some] Some show ?thesis by simp
    qed
  qed
qed

definition attachedAs :: "chat_attachment option \<Rightarrow> message \<Rightarrow> chat_attachment list \<Rightarrow> chat_attachment list \<Rightarrow> bool" where
  "attachedAs a m atts atts' \<longleftrightarrow> (case a of
      None \<Rightarrow> msg_attachment m = None \<and> atts' = atts
    | Some x \<Rightarrow> msg_attachment m = Some \<lparr>ma_attachmentId = att_id x, ma_fileName = att_originalName x,
          ma_mimeType = att_mimeType x, ma_sizeBytes = att_sizeBytes x, ma_isImage = att_isImage x\<rparr> \<and>
        (\<exists>t. atts' = updateById att_id (att_id x)
          (\<lambda>d. d\<lparr>att_messageId := Some (msg_id m), att_status := Attached, att_confirmedAt := Some t\<rparr>) atts))"

lemma postMessage_run:
  assumes "parseOid (pf_oids pf) c = Some cid" "parseOid (pf_oids pf) s = Some sid"
  shows "\<exists>m v'. postMessage pf c s sender enc a ai v = (Inr m, v') \<and>
    w_messages v' = w_messages v @ [m] \<and> msg_id m = issue (pf_newOid pf) (w_oidsIssued v) \<and>
    msg_conversationId m = cid \<and> msg_senderId m = sid \<and> msg_isAICommand m = ai \<and> \<not> msg_isAIBotMessage m \<and>
    msg_content m = enc_content enc \<and> msg_seenState m = Sent \<and>
    attachedAs a m (w_attachments v) (w_attachments v') \<and>
    w_participants v' = updateMany
       (\<lambda>p. part_conversationId p = cid \<and> part_userId p \<noteq> sid \<and> part_status p = Active)
       (\<lambda>p. p\<lparr>part_unreadCount := part_unreadCount p + 1\<rparr>)
       (updateById part_id (part_id sender)
         (\<lambda>p. p\<lparr>part_lastReadMessageId := Some (msg_id m), part_lastReadAt := Some (msg_sentAt m),
                part_unreadCount := 0\<rparr>) (w_participants v))"
  using assms
  by (cases a) (auto simp: postMessage_def toObjectId_def bind_def ret_def now_run freshOid_run insertMessage_def
      modify_def attachTo_def touchConversation_def markOwnRead_def incrementUnreadForOtherParticipants_def Let_def
      attachedAs_def)

lemma getRequired_Inr:
  assumes "getRequiredActiveParticipant pf c s w = (Inr p, v)"
  shows "\<exists>cid sid. v = w \<and> parseOid (pf_oids pf) c = Some cid \<and> parseOid (pf_oids pf) s = Some sid \<and>
    findOne (pf_participants pf) (activeIn cid sid) (w_participants w) = Some p"
  using assms
  by (auto simp: getRequiredActiveParticipant_def getActiveParticipant_def toObjectId_def bind_def gets_def ret_def
      throw_def split: option.splits)

lemma resolveAttachment_participants:
  "resolveAttachment pf c s att (w\<lparr>w_participants := ps\<rparr>) =
     (fst (resolveAttachment pf c s att w), w\<lparr>w_participants := ps\<rparr>)"
  by (auto simp: resolveAttachment_def bind_def gets_def ret_def throw_def split: option.splits)

lemma sendMessage_Inr:
  assumes "sendMessage pf c s content att ai w = (Inr (m, restored), w')"
  obtains cid sid sender f a where
    "parseOid (pf_oids pf) c = Some cid" "parseOid (pf_oids pf) s = Some sid"
    "findOne (pf_participants pf) (activeIn cid sid) (w_participants w) = Some sender"
    "\<forall>d. restoredFrom d (f d)"
    "fst (resolveAttachment pf c s att w) = Inr a"
    "w_messages w' = w_messages w @ [m]" "msg_id m = issue (pf_newOid pf) (w_oidsIssued w)"
    "msg_conversationId m = cid" "msg_senderId m = sid" "msg_isAICommand m = ai" "\<not> msg_isAIBotMessage m"
    "attachedAs a m (w_attachments w) (w_attachments w')"
    "w_participants w' = updateMany
       (\<lambda>p. part_conversationId p = cid \<and> part_userId p \<noteq> sid \<and> part_status p = Active)
       (\<lambda>p. p\<lparr>part_unreadCount := part_unreadCount p + 1\<rparr>)
       (updateById part_id (part_id sender)
         (\<lambda>p. p\<lparr>part_lastReadMessageId := Some (msg_id m), part_lastReadAt := Some (msg_sentAt m),
                part_unreadCount := 0\<rparr>) (map f (w_participants w)))"
proof -
  from assms have nonempty: "\<not> (trim content = [] \<and> givenId att = None)"
    by (auto simp: sendMessage_def Let_def throw_def split: if_splits)
  with assms obtain sender w0 w1 w2 a enc w3 where
    sender: "getRequiredActiveParticipant pf c s w = (Inr sender, w0)" and
    restore: "restoreDirectParticipantsIfNeeded pf c s w0 = (Inr restored, w1)" and
    resolve: "resolveAttachment pf c s att w1 = (Inr a, w2)" and
    enc: "(if trim content \<noteq> [] then encryptForStorage pf (trim content) s c
           else ret \<lparr>enc_content = [], enc_state = Legacy, enc_decodeErrorCode = None\<rparr>) w2 = (Inr enc, w3)" and
    post: "postMessage pf c s sender enc a ai w3 = (Inr m, w')"
    by (auto simp: sendMessage_def Let_def bind_Inr_iff ret_def throw_def split: if_splits)
  from getRequired_Inr [OF sender] obtain cid sid where
    ids: "parseOid (pf_oids pf) c = Some cid" "parseOid (pf_oids pf) s = Some sid" and
    p: "findOne (pf_participants pf) (activeIn cid sid) (w_participants w) = Some sender" and w0: "w0 = w"
    by auto
  from restore_run [OF restore] obtain f where
    w1: "w1 = w\<lparr>w_participants := map f (w_participants w)\<rparr>" and f: "\<forall>d. restoredFrom d (f d)"
    by (auto simp: w0)
  have a: "fst (resolveAttachment pf c s att w) = Inr a" and w2: "w2 = w1"
    using resolve by (auto simp: w1 resolveAttachment_participants)
  have "technical (if trim content \<noteq> [] then encryptForStorage pf (trim content) s c
           else ret \<lparr>enc_content = [], enc_state = Legacy, enc_decodeErrorCode = None\<rparr>)"
    by (intro technical_intros)
  from dataOf_eqD [OF technical_run [OF this enc]] have w3: "w_messages w3 = w_messages w"
    "w_attachments w3 = w_attachments w" "w_participants w3 = map f (w_participants w)"
    "w_oidsIssued w3 = w_oidsIssued w"
    by (simp_all add: w2 w1)
  from postMessage_run [OF ids, of sender enc a ai w3] show thesis
    using that [OF ids p f a] by (simp add: post w3)
qed

definition messagesSat :: "(message list \<Rightarrow> chat_attachment list \<Rightarrow> bool) \<Rightarrow> world \<Rightarrow> bool" where
  "messagesSat P w \<longleftrightarrow> P (w_messages w) (w_attachments w)"

lemma technical_messagesSat: "technical m \<Longrightarrow> keeps (messagesSat P) m"
  by (erule technical_keeps) (metis messagesSat_def dataOf_eqD(6,8))

lemma keeps_messages_restore: "keeps (messagesSat P) (restoreDirectParticipantsIfNeeded pf c s)"
proof (rule keepsI)
  fix w assume "messagesSat P w"
  moreover obtain r v where run: "restoreDirectParticipantsIfNeeded pf c s w = (r, v)" by fastforce
  moreover from restore_run [OF run] obtain f where "v = w\<lparr>w_participants := map f (w_participants w)\<rparr>" by blast
  ultimately show "messagesSat P (snd (restoreDirectParticipantsIfNeeded pf c s w))"
    by (simp add: messagesSat_def)
qed

lemma atomic_postMessage: "atomicOn (messagesSat P) (postMessage pf c s sender enc a ai)"
proof (cases "parseOid (pf_oids pf) c = None \<or> parseOid (pf_oids pf) s = None")
  case True
  then show ?thesis
    by (auto simp: atomicOn_def postMessage_def toObjectId_def bind_def ret_def throw_def split: option.splits)
next
  case False
  then obtain cid sid where "parseOid (pf_oids pf) c = Some cid" "parseOid (pf_oids pf) s = Some sid" by auto
  from postMessage_run [OF this, of sender enc a ai] show ?thesis
    unfolding atomicOn_def by (metis Inl_Inr_False prod.inject)
qed

lemma atomic_sendMessage: "atomicOn (messagesSat P) (sendMessage pf c s content att ai)"
  unfolding sendMessage_def Let_def
  by (intro atomic_if atomic_bind atomic_bind_last atomic_postMessage keeps_messages_restore atomic_keeps [OF keeps_throw]
      technical_messagesSat technical_intros) (simp add: ret_def)

text \<open>
  C26: a message is sent only by a user with an active participation in the conversation. A
  successful send appends exactly one message, from this sender to this conversation, with a new
  identifier; any failed send leaves the messages and the attachments as they were.
\<close>

theorem sendMessage_outcome:
  "case sendMessage pf c s content att ai w of
     (Inr (m, restored), w') \<Rightarrow>
       w_messages w' = w_messages w @ [m] \<and>
       parseOid (pf_oids pf) c = Some (msg_conversationId m) \<and> parseOid (pf_oids pf) s = Some (msg_senderId m) \<and>
       msg_id m = issue (pf_newOid pf) (w_oidsIssued w) \<and>
       list_ex (activeIn (msg_conversationId m) (msg_senderId m)) (w_participants w)
   | (Inl e, w') \<Rightarrow> w_messages w' = w_messages w \<and> w_attachments w' = w_attachments w"
proof -
  obtain r w' where run: "sendMessage pf c s content att ai w = (r, w')" by fastforce
  show ?thesis
  proof (cases r)
    case (Inl e)
    let ?P = "\<lambda>ms as. ms = w_messages w \<and> as = w_attachments w"
    have "messagesSat ?P w'"
      by (rule atomicOnD [OF atomic_sendMessage _ run [unfolded Inl]]) (simp add: messagesSat_def)
    then show ?thesis by (simp add: run Inl messagesSat_def)
  next
    case (Inr mr)
    obtain m restored where mr: "mr = (m, restored)" by fastforce
    from run [unfolded Inr mr] obtain cid sid sender where
      ids: "parseOid (pf_oids pf) c = Some cid" "parseOid (pf_oids pf) s = Some sid" and
      sender: "findOne (pf_participants pf) (activeIn cid sid) (w_participants w) = Some sender" and
      m: "w_messages w' = w_messages w @ [m]" "msg_id m = issue (pf_newOid pf) (w_oidsIssued w)"
        "msg_conversationId m = cid" "msg_senderId m = sid"
      by (rule sendMessage_Inr)
    with findOne_Some [OF sender] show ?thesis by (auto simp: run Inr mr list_ex_iff)
  qed
qed

subsection \<open>Unread counters\<close>

text \<open>
  C27: after a successful send every other participant of the conversation who is active then has
  one more unread message, the sender's own counter is zero, and every other counter, in this or
  another conversation, is as before; no participation appears or disappears.
\<close>

theorem sendMessage_counters:
  assumes "worldOk pf w" "sendMessage pf c s content att ai w = (Inr (m, restored), w')"
  shows "\<exists>f sender. w_participants w' = map f (w_participants w) \<and> sender \<in> set (w_participants w) \<and>
    activeIn (msg_conversationId m) (msg_senderId m) sender \<and>
    (\<forall>p\<in>set (w_participants w).
       part_id (f p) = part_id p \<and> part_userId (f p) = part_userId p \<and>
       part_unreadCount (f p) =
         (if part_id p = part_id sender then 0
          else if part_conversationId p = msg_conversationId m \<and> part_userId p \<noteq> msg_senderId m \<and>
                  part_status (f p) = Active
          then part_unreadCount p + 1 else part_unreadCount p))"
proof -
  from assms(2) obtain cid sid sender f where
    sender: "findOne (pf_participants pf) (activeIn cid sid) (w_participants w) = Some sender" and
    f: "\<forall>d. restoredFrom d (f d)" and m: "msg_conversationId m = cid" "msg_senderId m = sid" and
    w': "w_participants w' = updateMany
       (\<lambda>p. part_conversationId p = cid \<and> part_userId p \<noteq> sid \<and> part_status p = Active)
       (\<lambda>p. p\<lparr>part_unreadCount := part_unreadCount p + 1\<rparr>)
       (updateById part_id (part_id sender)
         (\<lambda>p. p\<lparr>part_lastReadMessageId := Some (msg_id m), part_lastReadAt := Some (msg_sentAt m),
                part_unreadCount := 0\<rparr>) (map f (w_participants w)))"
    by (rule sendMessage_Inr)
  let ?own = "\<lambda>p. if part_id p = part_id sender
      then p\<lparr>part_lastReadMessageId := Some (msg_id m), part_lastReadAt := Some (msg_sentAt m), part_unreadCount := 0\<rparr> else p"
  let ?inc = "\<lambda>p. if part_conversationId p = cid \<and> part_userId p \<noteq> sid \<and> part_status p = Active
      then p\<lparr>part_unreadCount := part_unreadCount p + 1\<rparr> else p"
  define g where "g = (\<lambda>p. ?inc (?own (f p)))"
  have map: "w_participants w' = map g (w_participants w)"
    by (simp add: w' updateMany_def updateById_def g_def)
  have act: "sender \<in> set (w_participants w)" "activeIn cid sid sender" using findOne_Some [OF sender] by auto
  have own: "part_userId p = sid" if "p \<in> set (w_participants w)" "part_id p = part_id sender" for p
  proof -
    have "p = sender" using assms(1) that act(1) parts.lookup_eq [of w "part_id sender"]
      by (metis option.inject worldOk_def)
    with act show ?thesis by (simp add: activeIn_def)
  qed
  have "part_id (g p) = part_id p \<and> part_userId (g p) = part_userId p \<and>
      part_unreadCount (g p) =
         (if part_id p = part_id sender then 0
          else if part_conversationId p = cid \<and> part_userId p \<noteq> sid \<and> part_status (g p) = Active
          then part_unreadCount p + 1 else part_unreadCount p)"
    if "p \<in> set (w_participants w)" for p
    using own [OF that] restoredFrom_same [OF spec [OF f, of p]] by (simp add: g_def)
  then have "\<forall>p\<in>set (w_participants w). part_id (g p) = part_id p \<and> part_userId (g p) = part_userId p \<and>
      part_unreadCount (g p) =
         (if part_id p = part_id sender then 0
          else if part_conversationId p = msg_conversationId m \<and> part_userId p \<noteq> msg_senderId m \<and> part_status (g p) = Active
          then part_unreadCount p + 1 else part_unreadCount p)"
    unfolding m by blast
  then show ?thesis using map act unfolding m by blast
qed

subsection \<open>Read receipts\<close>

lemma latestMessage_max:
  assumes "latestMessage pf cid ms = Some l" "m \<in> set ms" "msg_conversationId m = cid"
  shows "msg_sentAt m \<le> msg_sentAt l"
proof -
  let ?xs = "findSorted (pf_messages pf) (\<lambda>m. - msg_sentAt m) (\<lambda>m. msg_conversationId m = cid) ms"
  have "m \<in> set ?xs" using assms by simp
  moreover obtain xs where "?xs = l # xs" using assms(1) by (auto simp: latestMessage_def split: list.splits)
  moreover have "sorted (map (\<lambda>m. - msg_sentAt m) ?xs)" by (rule findSorted_sorted)
  ultimately show ?thesis by auto
qed

text \<open>
  C29: marking a conversation read requires an active participation, sets its counter to zero and
  leaves every other participation alone; it reports the newest message of the conversation, and
  afterwards every message that another active participant has sent there is marked seen.
\<close>

theorem markConversationRead_effect:
  assumes "markConversationRead pf c (idStr pf uid) w = (Inr r, w')"
  shows "\<exists>cid p. parseOid (pf_oids pf) c = Some cid \<and> p \<in> set (w_participants w) \<and> activeIn cid uid p \<and>
    mr_unreadCount r = 0 \<and>
    mr_lastReadMessageId r = map_option (\<lambda>m. idStr pf (msg_id m)) (latestMessage pf cid (w_messages w)) \<and>
    (\<forall>q\<in>set (w_participants w'). part_id q = part_id p \<longrightarrow> part_unreadCount q = 0) \<and>
    (\<forall>q\<in>set (w_participants w). part_id q \<noteq> part_id p \<longrightarrow> q \<in> set (w_participants w')) \<and>
    (\<forall>m\<in>set (w_messages w'). \<forall>q\<in>set (w_participants w).
       msg_conversationId m = cid \<and> part_userId q \<noteq> uid \<and> activeIn cid (msg_senderId m) q \<longrightarrow> msg_seenState m = Seen)"
proof -
  from assms obtain p w0 where req: "getRequiredActiveParticipant pf c (idStr pf uid) w = (Inr p, w0)"
    by (auto simp: markConversationRead_def bind_Inr_iff)
  from getRequired_Inr [OF this] obtain cid where w0: "w0 = w" and cid: "parseOid (pf_oids pf) c = Some cid"
    and p: "findOne (pf_participants pf) (activeIn cid uid) (w_participants w) = Some p" by auto
  have p_in: "p \<in> set (w_participants w)" "activeIn cid uid p" using findOne_Some [OF p] by auto
  note run = assms [unfolded markConversationRead_def bind_def req w0, simplified]
  show ?thesis
  proof (cases "latestMessage pf cid (w_messages w)")
    case None
    then have none: "\<forall>m\<in>set (w_messages w). msg_conversationId m \<noteq> cid"
      by (auto simp: latestMessage_def split: list.splits)
        (metis (mono_tags, lifting) empty_iff findSorted_set list.set(1) mem_Collect_eq)
    from run None cid have "r = \<lparr>mr_conversationId = c, mr_unreadCount = 0, mr_lastReadMessageId = None\<rparr>"
      "w' = w\<lparr>w_participants := updateById part_id (part_id p) (\<lambda>p. p\<lparr>part_unreadCount := 0\<rparr>) (w_participants w)\<rparr>"
      by (simp_all add: toObjectId_def ret_def gets_def modify_def)
    with cid p_in None none show ?thesis by (auto simp: updateById_def image_iff)
  next
    case (Some l)
    let ?upd = "\<lambda>q. q\<lparr>part_lastReadMessageId := Some (msg_id l), part_lastReadAt := Some (pf_clock pf (w_clockReads w)),
        part_unreadCount := 0\<rparr>"
    let ?ps = "updateById part_id (part_id p) ?upd (w_participants w)"
    let ?others = "map part_userId (filter (\<lambda>q. part_userId q \<noteq> uid)
        (findMany (pf_participants pf) (\<lambda>q. part_conversationId q = cid \<and> part_status q = Active) ?ps))"
    let ?P = "\<lambda>m. msg_conversationId m = cid \<and> msg_senderId m \<in> set ?others \<and> msg_sentAt m \<le> msg_sentAt l"
    have "r = \<lparr>mr_conversationId = c, mr_unreadCount = 0, mr_lastReadMessageId = Some (idStr pf (msg_id l))\<rparr> \<and>
        w_participants w' = ?ps \<and>
        w_messages w' = (if ?others \<noteq> [] then updateMany ?P (\<lambda>m. m\<lparr>msg_seenState := Seen\<rparr>) (w_messages w)
             else w_messages w)"
      using run Some cid
      by (cases "?others = []") (auto simp: toObjectId_def ret_def gets_def modify_def now_run whenA_def bind_def Let_def)
    then have r: "r = \<lparr>mr_conversationId = c, mr_unreadCount = 0, mr_lastReadMessageId = Some (idStr pf (msg_id l))\<rparr>"
      and ps: "w_participants w' = ?ps"
      and ms: "w_messages w' = (if ?others \<noteq> [] then updateMany ?P (\<lambda>m. m\<lparr>msg_seenState := Seen\<rparr>) (w_messages w)
             else w_messages w)" by blast+
    have others: "msg_senderId m \<in> set ?others"
      if "q \<in> set (w_participants w)" "part_userId q \<noteq> uid" "activeIn cid (msg_senderId m) q" for m q
    proof -
      have "(if part_id q = part_id p then ?upd q else q) \<in> set ?ps" using that(1) by (auto simp: updateById_def)
      with that(2,3) show ?thesis by (auto simp: activeIn_def image_iff split: if_splits)
    qed
    have "msg_seenState m = Seen"
      if "m \<in> set (w_messages w')" "q \<in> set (w_participants w)" "msg_conversationId m = cid" "part_userId q \<noteq> uid"
        "activeIn cid (msg_senderId m) q" for m q
    proof -
      have "msg_senderId m \<in> set ?others" using others that by blast
      then have "?others \<noteq> []" by (metis empty_iff list.set(1))
      with that(1) obtain m0 where "m0 \<in> set (w_messages w)" "m = (if ?P m0 then m0\<lparr>msg_seenState := Seen\<rparr> else m0)"
        unfolding ms updateMany_def by auto
      then show ?thesis
        using latestMessage_max [OF Some] that(3) \<open>msg_senderId m \<in> set ?others\<close> by (auto split: if_splits)
    qed
    moreover have "\<forall>q\<in>set ?ps. part_id q = part_id p \<longrightarrow> part_unreadCount q = 0"
      "\<forall>q\<in>set (w_participants w). part_id q \<noteq> part_id p \<longrightarrow> q \<in> set ?ps"
      by (auto simp: updateById_def image_iff)
    ultimately show ?thesis using cid p_in Some r ps by auto
  qed
qed

subsection \<open>Messages and their attachments\<close>

text \<open>
  Every attachment a message shows is stored as attached to exactly this message, and an attachment is
  attached exactly when it names a message.
\<close>

definition attachmentsOk :: "message list \<Rightarrow> chat_attachment list \<Rightarrow> bool" where
  "attachmentsOk ms as \<longleftrightarrow>
     (\<forall>m\<in>set ms. \<forall>x. msg_attachment m = Some x \<longrightarrow>
        (\<exists>a\<in>set as. att_id a = ma_attachmentId x \<and> att_status a = Attached \<and> att_messageId a = Some (msg_id m))) \<and>
     (\<forall>a\<in>set as. att_status a = Attached \<longleftrightarrow> att_messageId a \<noteq> None)"

definition chatOk :: "platform \<Rightarrow> world \<Rightarrow> bool" where
  "chatOk pf w \<longleftrightarrow> worldOk pf w \<and> attachmentsOk (w_messages w) (w_attachments w)"

lemma attachmentsOk_attach:
  assumes ok: "attachmentsOk ms as" and uniq: "distinct (map att_id as)"
    and a: "case a of None \<Rightarrow> True | Some x \<Rightarrow> x \<in> set as \<and> att_status x = Uploaded"
    and at': "attachedAs a m as as'"
  shows "attachmentsOk (ms @ [m]) as'"
proof (cases a)
  case None
  with ok at' show ?thesis by (auto simp: attachedAs_def attachmentsOk_def)
next
  case (Some x)
  with at' obtain t where as': "as' = updateById att_id (att_id x)
      (\<lambda>d. d\<lparr>att_messageId := Some (msg_id m), att_status := Attached, att_confirmedAt := Some t\<rparr>) as"
    and m: "msg_attachment m = Some \<lparr>ma_attachmentId = att_id x, ma_fileName = att_originalName x,
          ma_mimeType = att_mimeType x, ma_sizeBytes = att_sizeBytes x, ma_isImage = att_isImage x\<rparr>"
    by (auto simp: attachedAs_def)
  let ?u = "\<lambda>d. if att_id d = att_id x
      then d\<lparr>att_messageId := Some (msg_id m), att_status := Attached, att_confirmedAt := Some t\<rparr> else d"
  have set': "set as' = ?u ` set as" by (simp add: as' updateById_def)
  have x: "x \<in> set as" "att_status x = Uploaded" using a Some by auto
  have old: "b \<in> set as'" if "b \<in> set as" "att_status b = Attached" for b
  proof -
    have "att_id b \<noteq> att_id x"
    proof
      assume "att_id b = att_id x"
      then have "b = x" using that(1) x(1) uniq by (auto simp: distinct_map dest: inj_onD)
      with that(2) x(2) show False by simp
    qed
    then have "?u b = b" by simp
    then show ?thesis using imageI [OF that(1), of ?u] unfolding set' by (simp only:)
  qed
  have new: "?u x \<in> set as'" using x unfolding set' by blast
  have "\<exists>b\<in>set as'. att_id b = ma_attachmentId y \<and> att_status b = Attached \<and> att_messageId b = Some (msg_id m0)"
    if "m0 \<in> set (ms @ [m])" "msg_attachment m0 = Some y" for m0 y
  proof (cases "m0 = m")
    case True
    with new m that(2) show ?thesis by (intro bexI [of _ "?u x"]) auto
  next
    case False
    with that(1) have "m0 \<in> set ms" by simp
    with ok that(2) obtain b where "b \<in> set as" "att_id b = ma_attachmentId y" "att_status b = Attached"
      "att_messageId b = Some (msg_id m0)" unfolding attachmentsOk_def by blast
    with old show ?thesis by blast
  qed
  moreover have "att_status (?u b) = Attached \<longleftrightarrow> att_messageId (?u b) \<noteq> None" if "b \<in> set as" for b
    using ok that unfolding attachmentsOk_def by simp
  ultimately show ?thesis unfolding attachmentsOk_def set' by blast
qed

lemma keeps_chatOk_sendMessage: "keeps (chatOk pf) (sendMessage pf c s content att ai)"
proof (rule keepsI)
  fix w assume ok: "chatOk pf w"
  obtain r w' where run: "sendMessage pf c s content att ai w = (r, w')" by fastforce
  have w': "worldOk pf w'" using keeps_run [OF keeps_sending(1) _ run] ok by (simp add: chatOk_def)
  have "attachmentsOk (w_messages w') (w_attachments w')"
  proof (cases r)
    case (Inl e)
    have "messagesSat attachmentsOk w'"
      by (rule atomicOnD [OF atomic_sendMessage _ run [unfolded Inl]]) (use ok in \<open>simp add: messagesSat_def chatOk_def\<close>)
    then show ?thesis by (simp add: messagesSat_def)
  next
    case (Inr mr)
    obtain m restored where mr: "mr = (m, restored)" by fastforce
    from run [unfolded Inr mr] obtain a where
      a: "fst (resolveAttachment pf c s att w) = Inr a" and m: "w_messages w' = w_messages w @ [m]" and
      att: "attachedAs a m (w_attachments w) (w_attachments w')"
      by (rule sendMessage_Inr)
    from a obtain v where "resolveAttachment pf c s att w = (Inr a, v)" by (metis prod.collapse)
    from resolveAttachment_Inr [OF this] have "case a of None \<Rightarrow> True | Some x \<Rightarrow> x \<in> set (w_attachments w) \<and> att_status x = Uploaded"
      by (auto split: option.splits)
    moreover have "distinct (map att_id (w_attachments w))" "attachmentsOk (w_messages w) (w_attachments w)"
      using ok by (auto simp: chatOk_def worldOk_def unique_ids_defs)
    ultimately show ?thesis unfolding m using att by (intro attachmentsOk_attach)
  qed
  with w' show "chatOk pf (snd (sendMessage pf c s content att ai w))" by (simp add: run chatOk_def)
qed

lemma technical_chatOk: "technical m \<Longrightarrow> keeps (chatOk pf) m"
  by (erule technical_keeps) (metis chatOk_def dataOf_eqD(6,8) worldOk_dataOf(1))

lemma chatOk_from: "keeps (worldOk pf) m \<Longrightarrow> keeps (messagesSat attachmentsOk) m \<Longrightarrow> keeps (chatOk pf) m"
  by (simp add: keeps_def chatOk_def messagesSat_def)

lemma attachmentsOk_same:
  assumes "attachmentsOk ms as" "map (\<lambda>m. (msg_id m, msg_attachment m)) ms' = map (\<lambda>m. (msg_id m, msg_attachment m)) ms"
  shows "attachmentsOk ms' as"
proof -
  have "(\<lambda>m. (msg_id m, msg_attachment m)) ` set ms' = (\<lambda>m. (msg_id m, msg_attachment m)) ` set ms"
    using assms(2) by (rule map_image_eq)
  then have "\<exists>m0\<in>set ms. msg_id m0 = msg_id m \<and> msg_attachment m0 = msg_attachment m" if "m \<in> set ms'" for m
    using that by (smt (verit) imageE imageI prod.inject)
  with assms(1) show ?thesis unfolding attachmentsOk_def by metis
qed

text \<open>
  C28: sending never breaks the bookkeeping of attachments: each attachment shown by a message is
  stored as attached to this very message and to no other, because only an attachment that is
  uploaded and not yet attached is accepted.
\<close>

theorem attachment_used_once:
  assumes "chatOk pf w" "sendMessage pf c s content att ai w = (r, w')"
  shows "chatOk pf w' \<and>
    (\<forall>m\<in>set (w_messages w'). \<forall>m'\<in>set (w_messages w'). \<forall>x x'.
       msg_attachment m = Some x \<and> msg_attachment m' = Some x' \<and> ma_attachmentId x = ma_attachmentId x' \<longrightarrow> m = m')"
proof -
  have ok: "chatOk pf w'" using keeps_run [OF keeps_chatOk_sendMessage assms] .
  have "m = m'" if m: "m \<in> set (w_messages w')" "m' \<in> set (w_messages w')" "msg_attachment m = Some x"
    "msg_attachment m' = Some x'" "ma_attachmentId x = ma_attachmentId x'" for m m' x x'
  proof -
    from ok m obtain a a' where "a \<in> set (w_attachments w')" "att_id a = ma_attachmentId x" "att_messageId a = Some (msg_id m)"
      "a' \<in> set (w_attachments w')" "att_id a' = ma_attachmentId x'" "att_messageId a' = Some (msg_id m')"
      unfolding chatOk_def attachmentsOk_def by metis
    moreover from this m(5) have "a = a'"
      using ok atts.lookup_eq [of w'] by (metis chatOk_def option.inject worldOk_def)
    ultimately have "msg_id m = msg_id m'" by simp
    then show ?thesis using ok m(1,2) msgs.lookup_eq [of w'] by (metis chatOk_def option.inject worldOk_def)
  qed
  with ok show ?thesis by blast
qed

end
