(* ===== verification/ChatAttachments.thy ===== *)
theory ChatAttachments
  imports ChatMessages
begin

text \<open>
  \<open>chat/chat-attachment.service.ts\<close>: files are stored outside the database. The service registers a
  draft and hands out a signed upload URL, records the finished upload, answers status queries, signs
  downloads and lists the files of a conversation. The signer of the object store is a parameter.
\<close>

subsection \<open>Storage keys\<close>

definition MAX_FILE_SIZE_BYTES :: rat where
  "MAX_FILE_SIZE_BYTES = 25 * 1024 * 1024"

definition PRESIGNED_URL_TTL_SECONDS :: int where
  "PRESIGNED_URL_TTL_SECONDS = 15 * 60"

definition IMAGE_MIME_PREFIX :: jstr where
  "IMAGE_MIME_PREFIX = js ''image/''"

definition keyChar :: "jchar \<Rightarrow> bool" where
  "keyChar c \<longleftrightarrow> (0x61 \<le> c \<and> c \<le> 0x7A) \<or> (0x41 \<le> c \<and> c \<le> 0x5A) \<or> (0x30 \<le> c \<and> c \<le> 0x39) \<or>
     c = 0x2E \<or> c = 0x5F \<or> c = 0x2D"

text \<open>\<open>s.replace(/[...]+/g, r)\<close>: every maximal run of matching characters becomes one \<open>r\<close>.\<close>

fun replaceRuns :: "(jchar \<Rightarrow> bool) \<Rightarrow> jchar \<Rightarrow> bool \<Rightarrow> jstr \<Rightarrow> jstr" where
  "replaceRuns P r inRun [] = []"
| "replaceRuns P r inRun (c # cs) =
     (if P c then (if inRun then replaceRuns P r True cs else r # replaceRuns P r True cs)
      else c # replaceRuns P r False cs)"

text \<open>\<open>s.replace(/^c+|c+$/g, '')\<close>.\<close>

definition stripEnds :: "jchar \<Rightarrow> jstr \<Rightarrow> jstr" where
  "stripEnds c s = rev (dropWhile ((=) c) (rev (dropWhile ((=) c) s)))"

definition sanitizedName :: "platform \<Rightarrow> jstr \<Rightarrow> jstr" where
  "sanitizedName pf fileName =
     (let s = take 128 (stripEnds 0x5F (replaceRuns ((=) 0x5F) 0x5F False
                (replaceRuns (\<lambda>c. \<not> keyChar c) 0x5F False (pf_nfkd pf fileName)))) in
      if s = [] then js ''file'' else s)"

definition buildR2Key :: "platform \<Rightarrow> jstr \<Rightarrow> jstr \<Rightarrow> jstr \<Rightarrow> jstr" where
  "buildR2Key pf conversationId attachmentId fileName =
     js ''attachments/'' @ conversationId @ js ''/'' @ attachmentId @ js ''/'' @ sanitizedName pf fileName"

definition buildContentDisposition :: "jstr \<Rightarrow> jstr" where
  "buildContentDisposition fileName =
     (let safeName = filter (\<lambda>c. c \<noteq> 0x22) fileName in
      js ''attachment; filename='' @ [0x22] @ safeName @ [0x22])"

subsection \<open>Configuration\<close>

definition getS3Client :: "platform \<Rightarrow> s3_client act" where
  "getS3Client pf =
     bind (backendEnv pf) (\<lambda>env.
     if R2_ACCOUNT_ID env = [] \<or> R2_ACCESS_KEY_ID env = [] \<or> R2_SECRET_ACCESS_KEY env = [] \<or> R2_BUCKET_NAME env = []
     then throw (BadRequestException (errorBody ''R2_CONFIG_MISSING'' ''R2 configuration is incomplete''))
     else ret \<lparr>s3_region = js ''auto'',
       s3_endpoint = js ''https://'' @ R2_ACCOUNT_ID env @ js ''.r2.cloudflarestorage.com'',
       s3_accessKeyId = R2_ACCESS_KEY_ID env, s3_secretAccessKey = R2_SECRET_ACCESS_KEY env\<rparr>)"

definition getBucketName :: "platform \<Rightarrow> jstr act" where
  "getBucketName pf =
     bind (backendEnv pf) (\<lambda>env.
     if R2_BUCKET_NAME env = []
     then throw (BadRequestException (errorBody ''R2_BUCKET_MISSING'' ''R2 bucket name is missing''))
     else ret (R2_BUCKET_NAME env))"

definition getSignedUrl :: "platform \<Rightarrow> s3_client \<Rightarrow> s3_command \<Rightarrow> jstr act" where
  "getSignedUrl pf client command =
     gets (\<lambda>w. pf_signedUrl pf (w_clockReads w) client command PRESIGNED_URL_TTL_SECONDS)"

definition requireObjectId :: "platform \<Rightarrow> jstr \<Rightarrow> string \<Rightarrow> string \<Rightarrow> oid act" where
  "requireObjectId pf value code msg =
     (case parseOid (pf_oids pf) value of
        None \<Rightarrow> throw (BadRequestException (errorBody code msg))
      | Some i \<Rightarrow> ret i)"

abbreviation conversationIdOf :: "platform \<Rightarrow> jstr \<Rightarrow> oid act" where
  "conversationIdOf pf value \<equiv> requireObjectId pf value ''INVALID_CONVERSATION_ID'' ''Conversation ID is invalid''"

abbreviation attachmentIdOf :: "platform \<Rightarrow> jstr \<Rightarrow> oid act" where
  "attachmentIdOf pf value \<equiv> requireObjectId pf value ''INVALID_ATTACHMENT_ID'' ''Attachment ID is invalid''"

abbreviation attachmentNotFound :: exn where
  "attachmentNotFound \<equiv> NotFoundException (errorBody ''ATTACHMENT_NOT_FOUND'' ''Attachment not found'')"

subsection \<open>Operations\<close>

record upload_input =
  ui_conversationId :: jstr
  ui_fileName :: jstr
  ui_mimeType :: jstr
  ui_sizeBytes :: jsnum

record presigned_upload =
  pu_attachmentId :: jstr
  pu_r2Key :: jstr
  pu_presignedUrl :: jstr
  pu_expiresAt :: jstr

definition insertAttachment :: "chat_attachment \<Rightarrow> unit act" where
  "insertAttachment a = modify (\<lambda>w. w\<lparr>w_attachments := w_attachments w @ [a]\<rparr>)"

definition badFileSize :: "jsnum \<Rightarrow> bool" where
  "badFileSize n \<longleftrightarrow> \<not> isFinite n \<or> leZero n \<or> gtNum n MAX_FILE_SIZE_BYTES"

definition generatePresignedUploadUrl :: "platform \<Rightarrow> jstr \<Rightarrow> upload_input \<Rightarrow> presigned_upload act" where
  "generatePresignedUploadUrl pf userId input =
     bind (conversationIdOf pf (ui_conversationId input)) (\<lambda>conversationId.
     let fileName = trim (ui_fileName input); mimeType = trim (ui_mimeType input) in
     if fileName = [] then throw (BadRequestException (errorBody ''INVALID_FILE_NAME'' ''File name is required''))
     else if mimeType = [] then throw (BadRequestException (errorBody ''INVALID_MIME_TYPE'' ''MIME type is required''))
     else if badFileSize (ui_sizeBytes input)
     then throw (BadRequestException (errorBody ''INVALID_FILE_SIZE''
            ''File size must be greater than 0 and no larger than 25MB''))
     else
       bind (gets w_conversations) (\<lambda>cs.
       if findById conv_id conversationId cs = None
       then throw (NotFoundException (errorBody ''CONVERSATION_NOT_FOUND'' ''Conversation not found''))
       else
         bind (getRequiredActiveParticipant pf (idStr pf conversationId) userId) (\<lambda>_.
         bind (freshOid pf) (\<lambda>attachmentId.
         let r2Key = buildR2Key pf (idStr pf conversationId) (idStr pf attachmentId) fileName;
             isImage = startsWith IMAGE_MIME_PREFIX mimeType in
         bind (toObjectId pf userId) (\<lambda>uploaderId.
         bind (now pf) (\<lambda>createdAt.
         bind (insertAttachment \<lparr>att_id = attachmentId, att_conversationId = conversationId, att_messageId = None,
                 att_uploaderId = uploaderId, att_r2Key = r2Key, att_originalName = fileName,
                 att_mimeType = mimeType, att_sizeBytes = ui_sizeBytes input, att_isImage = isImage,
                 att_status = Draft, att_createdAt = createdAt, att_uploadedAt = None, att_confirmedAt = None\<rparr>) (\<lambda>_.
         bind (getBucketName pf) (\<lambda>bucket.
         bind (getS3Client pf) (\<lambda>client.
         bind (getSignedUrl pf client (PutObjectCommand bucket r2Key mimeType)) (\<lambda>presignedUrl.
         bind (now pf) (\<lambda>t.
         ret \<lparr>pu_attachmentId = idStr pf attachmentId, pu_r2Key = r2Key, pu_presignedUrl = presignedUrl,
              pu_expiresAt = pf_isoString pf (t + PRESIGNED_URL_TTL_SECONDS * 1000)\<rparr>)))))))))))"

definition toAttachmentPayload :: "platform \<Rightarrow> chat_attachment \<Rightarrow> attachment_payload" where
  "toAttachmentPayload pf input = \<lparr>ap_attachmentId = idStr pf (att_id input), ap_fileName = att_originalName input,
     ap_mimeType = att_mimeType input, ap_sizeBytes = att_sizeBytes input, ap_isImage = att_isImage input,
     ap_uploaderId = Some (idStr pf (att_uploaderId input)),
     ap_conversationId = Some (idStr pf (att_conversationId input)),
     ap_messageId = map_option (idStr pf) (att_messageId input)\<rparr>"

definition markAttachmentUploaded :: "platform \<Rightarrow> jstr \<Rightarrow> jstr \<Rightarrow> jstr \<Rightarrow> attachment_payload act" where
  "markAttachmentUploaded pf conversationIdValue attachmentIdValue userId =
     bind (conversationIdOf pf conversationIdValue) (\<lambda>conversationId.
     bind (attachmentIdOf pf attachmentIdValue) (\<lambda>attachmentId.
     bind (getRequiredActiveParticipant pf (idStr pf conversationId) userId) (\<lambda>_.
     bind (gets w_attachments) (\<lambda>atts.
     case findById att_id attachmentId atts of
       None \<Rightarrow> throw attachmentNotFound
     | Some a \<Rightarrow>
         if idStr pf (att_conversationId a) \<noteq> idStr pf conversationId then throw attachmentNotFound
         else if idStr pf (att_uploaderId a) \<noteq> userId
         then throw (ForbiddenException (js ''Attachment does not belong to this user''))
         else if att_status a = Attached
         then throw (BadRequestException (errorBody ''ATTACHMENT_ALREADY_ATTACHED'' ''Attachment was already attached''))
         else
           bind (now pf) (\<lambda>t.
           bind (modify (\<lambda>w. w\<lparr>w_attachments := updateById att_id (att_id a)
              (\<lambda>d. d\<lparr>att_status := Uploaded, att_uploadedAt := Some t\<rparr>) (w_attachments w)\<rparr>)) (\<lambda>_.
           ret (toAttachmentPayload pf (a\<lparr>att_status := Uploaded, att_uploadedAt := Some t\<rparr>))))))))"

record attachment_state =
  as_attachmentId :: jstr
  as_status :: attachment_status
  as_messageId :: "jstr option"
  as_uploadedAt :: "jstr option"
  as_confirmedAt :: "jstr option"

definition getAttachmentStatus :: "platform \<Rightarrow> jstr \<Rightarrow> jstr \<Rightarrow> attachment_state act" where
  "getAttachmentStatus pf attachmentIdValue userId =
     bind (attachmentIdOf pf attachmentIdValue) (\<lambda>attachmentId.
     bind (gets w_attachments) (\<lambda>atts.
     case findById att_id attachmentId atts of
       None \<Rightarrow> throw attachmentNotFound
     | Some a \<Rightarrow>
         bind (getRequiredActiveParticipant pf (idStr pf (att_conversationId a)) userId) (\<lambda>_.
         ret \<lparr>as_attachmentId = idStr pf (att_id a), as_status = att_status a,
              as_messageId = map_option (idStr pf) (att_messageId a),
              as_uploadedAt = map_option (pf_isoString pf) (att_uploadedAt a),
              as_confirmedAt = map_option (pf_isoString pf) (att_confirmedAt a)\<rparr>)))"

record presigned_download =
  pd_presignedUrl :: jstr
  pd_expiresAt :: jstr
  pd_fileName :: jstr
  pd_mimeType :: jstr
  pd_sizeBytes :: jsnum

definition generatePresignedDownloadUrl :: "platform \<Rightarrow> jstr \<Rightarrow> jstr \<Rightarrow> presigned_download act" where
  "generatePresignedDownloadUrl pf attachmentIdValue userId =
     bind (attachmentIdOf pf attachmentIdValue) (\<lambda>attachmentId.
     bind (gets w_attachments) (\<lambda>atts.
     case findById att_id attachmentId atts of
       None \<Rightarrow> throw attachmentNotFound
     | Some a \<Rightarrow>
         if att_status a \<noteq> Attached then throw attachmentNotFound
         else
           bind (getRequiredActiveParticipant pf (idStr pf (att_conversationId a)) userId) (\<lambda>_.
           bind (getBucketName pf) (\<lambda>bucket.
           bind (getS3Client pf) (\<lambda>client.
           bind (getSignedUrl pf client (GetObjectCommand bucket (att_r2Key a) (att_mimeType a)
              (buildContentDisposition (att_originalName a)))) (\<lambda>presignedUrl.
           bind (now pf) (\<lambda>t.
           ret \<lparr>pd_presignedUrl = presignedUrl,
                pd_expiresAt = pf_isoString pf (t + PRESIGNED_URL_TTL_SECONDS * 1000),
                pd_fileName = att_originalName a, pd_mimeType = att_mimeType a,
                pd_sizeBytes = att_sizeBytes a\<rparr>)))))))"

record attachment_item =
  ai_attachmentId :: jstr
  ai_conversationId :: jstr
  ai_uploaderId :: jstr
  ai_messageId :: "jstr option"
  ai_fileName :: jstr
  ai_mimeType :: jstr
  ai_sizeBytes :: jsnum
  ai_isImage :: bool
  ai_createdAt :: jstr

definition attachmentItem :: "platform \<Rightarrow> chat_attachment \<Rightarrow> attachment_item" where
  "attachmentItem pf a = \<lparr>ai_attachmentId = idStr pf (att_id a), ai_conversationId = idStr pf (att_conversationId a),
     ai_uploaderId = idStr pf (att_uploaderId a), ai_messageId = map_option (idStr pf) (att_messageId a),
     ai_fileName = att_originalName a, ai_mimeType = att_mimeType a, ai_sizeBytes = att_sizeBytes a,
     ai_isImage = att_isImage a, ai_createdAt = pf_isoString pf (att_createdAt a)\<rparr>"

text \<open>\<open>Math.min(Math.max(Number(limit) || 20, 1), 50)\<close>; an absent limit is 20.\<close>

definition safeLimit :: "jsnum option \<Rightarrow> rat" where
  "safeLimit limit =
     (case limit of
        None \<Rightarrow> 20
      | Some NaN \<Rightarrow> 20
      | Some PosInfinity \<Rightarrow> 50
      | Some NegInfinity \<Rightarrow> 1
      | Some (Fin q) \<Rightarrow> min (max (if q = 0 then 20 else q) 1) 50)"

definition listConversationAttachments ::
    "platform \<Rightarrow> jstr \<Rightarrow> jstr \<Rightarrow> jstr option \<Rightarrow> jsnum option \<Rightarrow> (attachment_item list \<times> bool) act" where
  "listConversationAttachments pf conversationIdValue userId before limit =
     bind (conversationIdOf pf conversationIdValue) (\<lambda>conversationId.
     bind (getRequiredActiveParticipant pf (idStr pf conversationId) userId) (\<lambda>_.
     bind (dateFilter pf before) (\<lambda>early.
     bind (queryLimit pf (Fin (safeLimit limit + 1))) (\<lambda>n.
     bind (gets w_attachments) (\<lambda>atts.
     let found = limitDocs n (findSorted (pf_attachments pf) (\<lambda>a. - att_createdAt a)
           (\<lambda>a. att_conversationId a = conversationId \<and> att_status a = Attached \<and> early (att_createdAt a)) atts);
         hasMore = safeLimit limit < of_nat (length found) in
     ret (map (attachmentItem pf) (take (nat \<lfloor>safeLimit limit\<rfloor>) found), hasMore))))))"

text \<open>
  Two private methods of the class repeat those of the chat service; nothing calls them.
\<close>

definition attIncrementUnreadForOtherParticipants :: "platform \<Rightarrow> jstr \<Rightarrow> jstr \<Rightarrow> unit act" where
  "attIncrementUnreadForOtherParticipants = incrementUnreadForOtherParticipants"

definition attRestoreDirectParticipantsIfNeeded :: "platform \<Rightarrow> jstr \<Rightarrow> jstr \<Rightarrow> participant list act" where
  "attRestoreDirectParticipantsIfNeeded = restoreDirectParticipantsIfNeeded"

subsection \<open>Invariants\<close>

lemma store_attachment [store_intros]:
  assumes "att_id a = i" "\<And>x. keeps (worldOk pf) (f x)"
  shows "establishes (unusedId pf i) (worldOk pf) (bind (insertAttachment a) f)"
  using assms by (intro establishes_post establishesI)
    (auto simp: insertAttachment_def act_simps worldOk_append)

lemma technical_backendEnv [technical_intros]: "technical (backendEnv pf)"
  unfolding backendEnv_def by (intro technical_intros)

lemma technical_attachments [technical_intros]:
  "technical (getS3Client pf)" "technical (getBucketName pf)" "technical (getSignedUrl pf cl co)"
  "technical (requireObjectId pf v code msg)" "technical (getAttachmentStatus pf a u)"
  "technical (generatePresignedDownloadUrl pf a u)" "technical (listConversationAttachments pf c u b l)"
  unfolding getS3Client_def getBucketName_def getSignedUrl_def requireObjectId_def getAttachmentStatus_def
    generatePresignedDownloadUrl_def listConversationAttachments_def Let_def
  by (intro technical_intros)+

lemmas keeps_attachment_queries [keeps_intros] = technical_attachments [THEN technical_worldOk]

lemma keeps_uploads [keeps_intros]:
  "keeps (worldOk pf) (generatePresignedUploadUrl pf u input)"
  "keeps (worldOk pf) (markAttachmentUploaded pf c a u)"
  unfolding generatePresignedUploadUrl_def markAttachmentUploaded_def Let_def
  by (rule keeps_freshOid store_intros keeps_intros technical_intros establishes_technical keeps_modify
    | simp add: worldOk_same_ids map_updateById)+

subsection \<open>What an upload request and its completion do\<close>

lemma getRequired_state: "\<exists>x. getRequiredActiveParticipant pf c s w = (x, w)"
  by (auto simp: getRequiredActiveParticipant_def getActiveParticipant_def toObjectId_def bind_def gets_def
      ret_def throw_def split: option.splits)

lemma requireObjectId_run:
  "requireObjectId pf v c m w = (case parseOid (pf_oids pf) v of
     None \<Rightarrow> Inl (BadRequestException (errorBody c m)) | Some i \<Rightarrow> Inr i, w)"
  by (simp add: requireObjectId_def ret_def throw_def split: option.split)

lemma signing_state:
  "\<exists>x. getBucketName pf w = (x, w)" "\<exists>x. getS3Client pf w = (x, w)" "\<exists>x. getSignedUrl pf cl co w = (x, w)"
  by (auto simp: getBucketName_def getS3Client_def getSignedUrl_def backendEnv_def bind_def ret_def throw_def gets_def
      split: option.splits)

text \<open>The draft an accepted upload request stores.\<close>

definition draftOf :: "platform \<Rightarrow> upload_input \<Rightarrow> oid \<Rightarrow> oid \<Rightarrow> oid \<Rightarrow> time \<Rightarrow> chat_attachment" where
  "draftOf pf input i cid uid t = \<lparr>att_id = i, att_conversationId = cid, att_messageId = None, att_uploaderId = uid,
     att_r2Key = buildR2Key pf (idStr pf cid) (idStr pf i) (trim (ui_fileName input)),
     att_originalName = trim (ui_fileName input), att_mimeType = trim (ui_mimeType input),
     att_sizeBytes = ui_sizeBytes input, att_isImage = startsWith IMAGE_MIME_PREFIX (trim (ui_mimeType input)),
     att_status = Draft, att_createdAt = t, att_uploadedAt = None, att_confirmedAt = None\<rparr>"

lemma upload_cases:
  assumes "generatePresignedUploadUrl pf u input w = (r, w')"
  obtains (refused) e where "r = Inl e" "w' = w"
  | (stored) cid uid p where "parseOid (pf_oids pf) (ui_conversationId input) = Some cid"
      "parseOid (pf_oids pf) u = Some uid" "trim (ui_fileName input) \<noteq> []" "trim (ui_mimeType input) \<noteq> []"
      "\<not> badFileSize (ui_sizeBytes input)" "cid \<in> conv_id ` set (w_conversations w)"
      "p \<in> set (w_participants w)" "activeIn cid uid p"
      "w_attachments w' = w_attachments w @
         [draftOf pf input (issue (pf_newOid pf) (w_oidsIssued w)) cid uid (pf_clock pf (w_clockReads w))]"
      "w_messages w' = w_messages w"
      "(\<exists>e. r = Inl e) \<or> (\<exists>y. r = Inr y \<and> pu_attachmentId y = idStr pf (issue (pf_newOid pf) (w_oidsIssued w)))"
proof (cases "parseOid (pf_oids pf) (ui_conversationId input)")
  case None
  with assms refused show ?thesis
    by (auto simp: generatePresignedUploadUrl_def bind_def requireObjectId_run)
next
  case (Some cid)
  note start = assms [unfolded generatePresignedUploadUrl_def bind_def requireObjectId_run Some, simplified, unfolded Let_def]
  let ?bad = "trim (ui_fileName input) = [] \<or> trim (ui_mimeType input) = [] \<or> badFileSize (ui_sizeBytes input) \<or>
    findById conv_id cid (w_conversations w) = None"
  show ?thesis
  proof (cases "?bad")
    case True
    with start have "\<exists>e. (r, w') = (Inl e, w)"
      by (elim disjE) (simp_all add: throw_def gets_def split: if_splits, blast+)
    with refused show ?thesis by blast
  next
    case False
    obtain x where x: "getRequiredActiveParticipant pf (idStr pf cid) u w = (x, w)"
      using getRequired_state by blast
    show ?thesis
    proof (cases x)
      case (Inl e)
      with start x False have "r = Inl e \<and> w' = w" by (auto simp: gets_def)
      with refused show ?thesis by blast
    next
      case (Inr p)
      from getRequired_Inr [OF x [unfolded Inr]] obtain uid where uid: "parseOid (pf_oids pf) u = Some uid"
        and p: "findOne (pf_participants pf) (activeIn cid uid) (w_participants w) = Some p" by auto
      let ?i = "issue (pf_newOid pf) (w_oidsIssued w)"
      let ?w = "w\<lparr>w_oidsIssued := Suc (w_oidsIssued w), w_clockReads := Suc (w_clockReads w),
         w_attachments := w_attachments w @ [draftOf pf input ?i cid uid (pf_clock pf (w_clockReads w))]\<rparr>"
      from signing_state(1) [of pf ?w] obtain b where b: "getBucketName pf ?w = (b, ?w)" by blast
      from signing_state(2) [of pf ?w] obtain cl where cl: "getS3Client pf ?w = (cl, ?w)" by blast
      have "w_attachments w' = w_attachments ?w \<and> w_messages w' = w_messages w \<and>
          ((\<exists>e. r = Inl e) \<or> (\<exists>y. r = Inr y \<and> pu_attachmentId y = idStr pf ?i))"
        using start x Inr False uid b cl
        by (auto simp: gets_def freshOid_run toObjectId_def ret_def now_run insertAttachment_def modify_def
            draftOf_def getSignedUrl_def split: sum.splits)
      moreover have "cid \<in> conv_id ` set (w_conversations w)"
        using False by (metis findById_None)
      ultimately show ?thesis
        using stored [OF Some uid] False findOne_Some [OF p] by (simp, blast)
    qed
  qed
qed

lemma markUploaded_cases:
  assumes "markAttachmentUploaded pf c a u w = (r, w')"
  obtains (refused) e where "r = Inl e" "w' = w"
  | (uploaded) x t where "x \<in> set (w_attachments w)" "att_status x \<noteq> Attached" "idStr pf (att_uploaderId x) = u"
      "parseOid (pf_oids pf) a = Some (att_id x)" "parseOid (pf_oids pf) c = Some (att_conversationId x)"
      "\<exists>p\<in>set (w_participants w). activeIn (att_conversationId x) (att_uploaderId x) p"
      "w' = w\<lparr>w_clockReads := Suc (w_clockReads w), w_attachments := updateById att_id (att_id x)
         (\<lambda>d. d\<lparr>att_status := Uploaded, att_uploadedAt := Some t\<rparr>) (w_attachments w)\<rparr>"
      "r = Inr (toAttachmentPayload pf (x\<lparr>att_status := Uploaded, att_uploadedAt := Some t\<rparr>))"
proof -
  define y where "y cid = fst (getRequiredActiveParticipant pf (idStr pf cid) u w)" for cid
  have y: "getRequiredActiveParticipant pf (idStr pf cid) u w = (y cid, w)" for cid
    using getRequired_state [of pf "idStr pf cid" u w] by (auto simp: y_def)
  have "(\<exists>e. r = Inl e \<and> w' = w) \<or>
    (\<exists>cid x t p. parseOid (pf_oids pf) c = Some cid \<and> parseOid (pf_oids pf) a = Some (att_id x) \<and> y cid = Inr p \<and>
       x \<in> set (w_attachments w) \<and> att_status x \<noteq> Attached \<and>
       idStr pf (att_uploaderId x) = u \<and> att_conversationId x = cid \<and>
       w' = w\<lparr>w_clockReads := Suc (w_clockReads w), w_attachments := updateById att_id (att_id x)
         (\<lambda>d. d\<lparr>att_status := Uploaded, att_uploadedAt := Some t\<rparr>) (w_attachments w)\<rparr> \<and>
       r = Inr (toAttachmentPayload pf (x\<lparr>att_status := Uploaded, att_uploadedAt := Some t\<rparr>)))"
    using assms y
    by (auto simp: markAttachmentUploaded_def bind_def requireObjectId_run gets_def throw_def now_run modify_def ret_def
        dest!: findById_Some split: option.splits sum.splits if_splits)
  then show ?thesis
  proof (elim disjE exE conjE)
    fix cid x t p
    assume *: "parseOid (pf_oids pf) c = Some cid" "parseOid (pf_oids pf) a = Some (att_id x)" "y cid = Inr p"
       "x \<in> set (w_attachments w)" "att_status x \<noteq> Attached" "idStr pf (att_uploaderId x) = u" "att_conversationId x = cid"
       "w' = w\<lparr>w_clockReads := Suc (w_clockReads w), w_attachments := updateById att_id (att_id x)
         (\<lambda>d. d\<lparr>att_status := Uploaded, att_uploadedAt := Some t\<rparr>) (w_attachments w)\<rparr>"
       "r = Inr (toAttachmentPayload pf (x\<lparr>att_status := Uploaded, att_uploadedAt := Some t\<rparr>))"
    from getRequired_Inr [OF y [of cid, unfolded *(3)]] *(6)
    have "findOne (pf_participants pf) (activeIn cid (att_uploaderId x)) (w_participants w) = Some p" by auto
    from findOne_Some [OF this] have "\<exists>p\<in>set (w_participants w). activeIn (att_conversationId x) (att_uploaderId x) p"
      using *(7) by auto
    with * uploaded show ?thesis by blast
  qed (use refused in blast)
qed

subsection \<open>Storage keys stay apart\<close>

lemma replaceRuns_set: "set (replaceRuns P r b s) \<subseteq> insert r {c \<in> set s. \<not> P c}"
  by (induction P r b s rule: replaceRuns.induct) auto

lemma set_stripEnds: "set (stripEnds c s) \<subseteq> set s"
  unfolding stripEnds_def by (metis set_dropWhileD set_rev subsetI)

lemma sanitizedName_shape:
  "sanitizedName pf f \<noteq> []" "length (sanitizedName pf f) \<le> 128" "list_all keyChar (sanitizedName pf f)"
proof -
  let ?s = "replaceRuns (\<lambda>c. \<not> keyChar c) 0x5F False (pf_nfkd pf f)"
  have dflt: "list_all keyChar (js ''file'')" by (simp add: js_def keyChar_def)
  have under: "keyChar 0x5F" by (simp add: keyChar_def)
  have "set ?s \<subseteq> {c. keyChar c}" using replaceRuns_set [of "\<lambda>c. \<not> keyChar c" "0x5F" False "pf_nfkd pf f"] under by auto
  then have "set (replaceRuns ((=) 0x5F) 0x5F False ?s) \<subseteq> {c. keyChar c}"
    using replaceRuns_set [of "(=) 0x5F" "0x5F" False ?s] under by auto
  then have "set (take 128 (stripEnds 0x5F (replaceRuns ((=) 0x5F) 0x5F False ?s))) \<subseteq> {c. keyChar c}"
    using set_stripEnds in_set_takeD by fastforce
  then show "list_all keyChar (sanitizedName pf f)"
    using dflt by (auto simp: sanitizedName_def Let_def list_all_iff)
  show "sanitizedName pf f \<noteq> []" "length (sanitizedName pf f) \<le> 128" by (auto simp: sanitizedName_def Let_def)
qed

lemma split_at_unique:
  assumes "a @ c # x = b @ c # y" "c \<notin> set a" "c \<notin> set b"
  shows "a = b \<and> x = y"
  using assms
proof (induction a arbitrary: b)
  case Nil
  then show ?case by (cases b) auto
next
  case (Cons d a)
  then show ?case by (cases b) auto
qed

lemma buildR2Key_inject:
  assumes "buildR2Key pf (idStr pf c) (idStr pf a) f = buildR2Key pf (idStr pf c') (idStr pf a') f'"
    and "\<And>i. 0x2F \<notin> set (idStr pf i)"
  shows "c = c' \<and> a = a'"
proof -
  have slash: "js ''/'' = [0x2F]" by (simp add: js_def)
  from assms(1) have "idStr pf c @ 0x2F # idStr pf a @ 0x2F # sanitizedName pf f =
      idStr pf c' @ 0x2F # idStr pf a' @ 0x2F # sanitizedName pf f'"
    by (simp add: buildR2Key_def slash)
  from split_at_unique [OF this assms(2,2)] have "idStr pf c = idStr pf c'"
    "idStr pf a @ 0x2F # sanitizedName pf f = idStr pf a' @ 0x2F # sanitizedName pf f'" by auto
  with split_at_unique [OF this(2) assms(2,2)] show ?thesis by simp
qed

text \<open>Every stored file has the key that was built for it.\<close>

definition keysOk :: "platform \<Rightarrow> world \<Rightarrow> bool" where
  "keysOk pf w \<longleftrightarrow> (\<forall>a\<in>set (w_attachments w).
     \<exists>f. att_r2Key a = buildR2Key pf (idStr pf (att_conversationId a)) (idStr pf (att_id a)) f)"

lemma keysOk_upload: "keeps (keysOk pf) (generatePresignedUploadUrl pf u input)"
proof (rule keepsI)
  fix w assume ok: "keysOk pf w"
  obtain r w' where run: "generatePresignedUploadUrl pf u input w = (r, w')" by fastforce
  from run ok have "keysOk pf w'"
    by (cases rule: upload_cases) (auto simp: keysOk_def draftOf_def)
  with run show "keysOk pf (snd (generatePresignedUploadUrl pf u input w))" by simp
qed

text \<open>
  A storage key is the conversation, the attachment and a name of one to 128 characters from the
  letters, digits, dot, dash and underscore. When identifiers contain no slash, no two attachments share
  a key, and a new upload request keeps it so.
\<close>

theorem storage_keys_distinct:
  assumes "\<And>i. 0x2F \<notin> set (idStr pf i)" "keysOk pf w" "generatePresignedUploadUrl pf u input w = (r, w')"
  shows "keysOk pf w' \<and>
    (\<forall>a\<in>set (w_attachments w'). \<forall>b\<in>set (w_attachments w'). att_r2Key a = att_r2Key b \<longrightarrow> att_id a = att_id b) \<and>
    (\<forall>a\<in>set (w_attachments w'). \<exists>name. att_r2Key a = js ''attachments/'' @ idStr pf (att_conversationId a) @ js ''/'' @
       idStr pf (att_id a) @ js ''/'' @ name \<and> name \<noteq> [] \<and> length name \<le> 128 \<and> list_all keyChar name)"
proof -
  have ok: "keysOk pf w'" by (rule keeps_run [OF keysOk_upload assms(2,3)])
  have "att_id a = att_id b" if "a \<in> set (w_attachments w')" "b \<in> set (w_attachments w')" "att_r2Key a = att_r2Key b" for a b
  proof -
    from ok that obtain f g where "buildR2Key pf (idStr pf (att_conversationId a)) (idStr pf (att_id a)) f =
        buildR2Key pf (idStr pf (att_conversationId b)) (idStr pf (att_id b)) g"
      unfolding keysOk_def by metis
    from buildR2Key_inject [OF this assms(1)] show ?thesis by simp
  qed
  moreover have "\<exists>name. att_r2Key a = js ''attachments/'' @ idStr pf (att_conversationId a) @ js ''/'' @
       idStr pf (att_id a) @ js ''/'' @ name \<and> name \<noteq> [] \<and> length name \<le> 128 \<and> list_all keyChar name"
    if "a \<in> set (w_attachments w')" for a
    using ok that sanitizedName_shape unfolding keysOk_def buildR2Key_def by blast
  ultimately show ?thesis using ok by blast
qed

subsection \<open>The life of an attachment\<close>

fun stage :: "attachment_status \<Rightarrow> nat" where
  "stage Draft = 0"
| "stage Uploaded = 1"
| "stage Attached = 2"

text \<open>
  \<open>progress as as'\<close>: no attachment is lost or falls back to an earlier stage, and one that is attached
  is not changed at all.
\<close>

definition progress :: "chat_attachment list \<Rightarrow> chat_attachment list \<Rightarrow> bool" where
  "progress as as' \<longleftrightarrow> (\<forall>a\<in>set as. \<exists>a'\<in>set as'. att_id a' = att_id a \<and>
     stage (att_status a) \<le> stage (att_status a') \<and> (if att_status a = Attached then a' = a else True))"

lemma progress_refl: "progress as as"
  unfolding progress_def by auto

lemma progress_append: "progress as (as @ bs)"
  unfolding progress_def by auto

lemma progress_update:
  assumes "distinct (map att_id as)" "x \<in> set as" "att_status x \<noteq> Attached" "att_id (f x) = att_id x"
    "stage (att_status x) \<le> stage (att_status (f x))"
  shows "progress as (updateById att_id (att_id x) f as)"
proof -
  have "\<exists>a'\<in>set (updateById att_id (att_id x) f as). att_id a' = att_id a \<and>
      stage (att_status a) \<le> stage (att_status a') \<and> (if att_status a = Attached then a' = a else True)"
    if "a \<in> set as" for a
  proof (cases "att_id a = att_id x")
    case True
    with assms(1,2) that have "a = x" by (auto simp: distinct_map dest: inj_onD)
    with assms that show ?thesis by (intro bexI [of _ "f x"]) (auto simp: updateById_def image_iff)
  next
    case False
    with that show ?thesis by (intro bexI [of _ a]) (auto simp: updateById_def image_iff)
  qed
  then show ?thesis unfolding progress_def by blast
qed

lemma worldOk_att_ids: "worldOk pf w \<Longrightarrow> distinct (map att_id (w_attachments w))"
  by (simp add: worldOk_def unique_ids_defs)

lemma stage_max: "stage s \<le> 2"
  by (cases s) auto

lemma progress_send:
  assumes "worldOk pf w"
  shows "progress (w_attachments w) (w_attachments (snd (sendMessage pf c s content att ai w)))"
proof -
  obtain r w' where run: "sendMessage pf c s content att ai w = (r, w')" by fastforce
  have "progress (w_attachments w) (w_attachments w')"
  proof (cases r)
    case (Inl e)
    have "messagesSat (\<lambda>_ as. as = w_attachments w) w'"
      by (rule atomicOnD [OF atomic_sendMessage _ run [unfolded Inl]]) (simp add: messagesSat_def)
    then show ?thesis by (simp add: messagesSat_def progress_refl)
  next
    case (Inr mr)
    obtain m restored where mr: "mr = (m, restored)" by fastforce
    from run [unfolded Inr mr] obtain a where a: "fst (resolveAttachment pf c s att w) = Inr a"
      and att: "attachedAs a m (w_attachments w) (w_attachments w')"
      by (rule sendMessage_Inr)
    from a obtain v where "resolveAttachment pf c s att w = (Inr a, v)" by (metis prod.collapse)
    from resolveAttachment_Inr [OF this] att worldOk_att_ids [OF assms] show ?thesis
      by (cases a) (auto simp: attachedAs_def progress_refl intro!: progress_update)
  qed
  with run show ?thesis by simp
qed


lemma attachmentsOk_progress:
  assumes "attachmentsOk ms as" "progress as as'" "\<forall>a\<in>set as'. att_status a = Attached \<longleftrightarrow> att_messageId a \<noteq> None"
  shows "attachmentsOk ms as'"
proof -
  have "a \<in> set as'" if "a \<in> set as" "att_status a = Attached" for a
    using assms(2) that unfolding progress_def by metis
  with assms(1,3) show ?thesis unfolding attachmentsOk_def by meson
qed

lemma keeps_chatOk_uploads:
  "keeps (chatOk pf) (generatePresignedUploadUrl pf u input)" "keeps (chatOk pf) (markAttachmentUploaded pf c a u)"
proof (rule_tac [!] keepsI)
  fix w assume ok: "chatOk pf w"
  then have w: "worldOk pf w" and att: "attachmentsOk (w_messages w) (w_attachments w)" by (simp_all add: chatOk_def)
  note names = att [unfolded attachmentsOk_def, THEN conjunct2]
  obtain r w1 where up: "generatePresignedUploadUrl pf u input w = (r, w1)" by fastforce
  then have "attachmentsOk (w_messages w1) (w_attachments w1)"
  proof (cases rule: upload_cases)
    case (stored cid uid p)
    then show ?thesis using attachmentsOk_progress [OF att progress_append] names by (simp add: draftOf_def)
  qed (use att in simp)
  with keeps_run [OF keeps_uploads(1) w up] up show "chatOk pf (snd (generatePresignedUploadUrl pf u input w))"
    by (simp add: chatOk_def)
  obtain r' w2 where mark: "markAttachmentUploaded pf c a u w = (r', w2)" by fastforce
  then have "attachmentsOk (w_messages w2) (w_attachments w2)"
  proof (cases rule: markUploaded_cases)
    case (uploaded x t)
    let ?f = "\<lambda>d. d\<lparr>att_status := Uploaded, att_uploadedAt := Some t\<rparr>"
    have "stage (att_status x) \<le> 1" using uploaded(2) by (cases "att_status x") auto
    then have "progress (w_attachments w) (updateById att_id (att_id x) ?f (w_attachments w))"
      using uploaded worldOk_att_ids [OF w] by (intro progress_update) auto
    moreover have "att_status b = Attached \<longleftrightarrow> att_messageId b \<noteq> None"
      if b: "b \<in> set (updateById att_id (att_id x) ?f (w_attachments w))" for b
    proof -
      have "att_messageId d = None" if "att_id d = att_id x" "d \<in> set (w_attachments w)" for d
      proof -
        have "d = x" using that uploaded(1) worldOk_att_ids [OF w] by (auto simp: distinct_map dest: inj_onD)
        with uploaded(1,2) names show ?thesis by blast
      qed
      with b names show ?thesis by (auto simp: updateById_def)
    qed
    ultimately show ?thesis using attachmentsOk_progress [OF att] uploaded(7) by simp
  qed (use att in simp)
  with keeps_run [OF keeps_uploads(2) w mark] mark show "chatOk pf (snd (markAttachmentUploaded pf c a u w))"
    by (simp add: chatOk_def)
qed

subsection \<open>Outcomes\<close>

text \<open>
  An upload request either changes nothing, or it stores exactly one new draft for an active
  participant of an existing conversation, with a size from above zero to 25 MiB. A successful answer names
  that draft; a missing storage configuration is reported only after the draft was stored.
\<close>

theorem upload_request_outcome:
  "case generatePresignedUploadUrl pf u input w of (r, w') \<Rightarrow>
     ((\<exists>e. r = Inl e) \<and> w' = w) \<or>
     (\<exists>d p. w_attachments w' = w_attachments w @ [d] \<and> att_status d = Draft \<and> att_messageId d = None \<and>
        att_id d = issue (pf_newOid pf) (w_oidsIssued w) \<and>
        att_conversationId d \<in> conv_id ` set (w_conversations w) \<and>
        p \<in> set (w_participants w) \<and> activeIn (att_conversationId d) (att_uploaderId d) p \<and>
        parseOid (pf_oids pf) u = Some (att_uploaderId d) \<and>
        (\<exists>q. att_sizeBytes d = Fin q \<and> 0 < q \<and> q \<le> 26214400) \<and>
        ((\<exists>e. r = Inl e) \<or> (\<exists>y. r = Inr y \<and> pu_attachmentId y = idStr pf (att_id d))))"
proof -
  obtain r w' where run: "generatePresignedUploadUrl pf u input w = (r, w')" by fastforce
  then have "((\<exists>e. r = Inl e) \<and> w' = w) \<or>
     (\<exists>d p. w_attachments w' = w_attachments w @ [d] \<and> att_status d = Draft \<and> att_messageId d = None \<and>
        att_id d = issue (pf_newOid pf) (w_oidsIssued w) \<and>
        att_conversationId d \<in> conv_id ` set (w_conversations w) \<and>
        p \<in> set (w_participants w) \<and> activeIn (att_conversationId d) (att_uploaderId d) p \<and>
        parseOid (pf_oids pf) u = Some (att_uploaderId d) \<and>
        (\<exists>q. att_sizeBytes d = Fin q \<and> 0 < q \<and> q \<le> 26214400) \<and>
        ((\<exists>e. r = Inl e) \<or> (\<exists>y. r = Inr y \<and> pu_attachmentId y = idStr pf (att_id d))))"
  proof (cases rule: upload_cases)
    case (stored cid uid p)
    have "\<exists>q. ui_sizeBytes input = Fin q \<and> 0 < q \<and> q \<le> 26214400"
      using stored(5) by (cases "ui_sizeBytes input")
        (auto simp: badFileSize_def isFinite_def leZero_def gtNum_def MAX_FILE_SIZE_BYTES_def)
    then show ?thesis
      using stored by (intro disjI2 exI [of _ "draftOf pf input (issue (pf_newOid pf) (w_oidsIssued w)) cid uid
         (pf_clock pf (w_clockReads w))"] exI [of _ p]) (auto simp: draftOf_def)
  qed blast
  with run show ?thesis by simp
qed

text \<open>
  C39: a download is signed only for a file that is attached to a message, and only for a user with an
  active participation in its conversation; it changes no stored data.
\<close>

theorem download_access:
  assumes "generatePresignedDownloadUrl pf a u w = (Inr d, w')"
  shows "\<exists>x uid. x \<in> set (w_attachments w) \<and> parseOid (pf_oids pf) a = Some (att_id x) \<and> att_status x = Attached \<and>
    parseOid (pf_oids pf) u = Some uid \<and> (\<exists>p\<in>set (w_participants w). activeIn (att_conversationId x) uid p) \<and>
    pd_fileName d = att_originalName x \<and> pd_sizeBytes d = att_sizeBytes x \<and> dataOf w' = dataOf w"
proof -
  from assms obtain i x p v where x: "findById att_id i (w_attachments w) = Some x"
    "parseOid (pf_oids pf) a = Some i" "att_status x = Attached"
    and p: "getRequiredActiveParticipant pf (idStr pf (att_conversationId x)) u w = (Inr p, v)"
    and d: "pd_fileName d = att_originalName x" "pd_sizeBytes d = att_sizeBytes x"
    by (auto simp: generatePresignedDownloadUrl_def bind_Inr_iff requireObjectId_run gets_app throw_app ret_app
        split: option.splits if_splits)
  from getRequired_Inr [OF p] obtain uid where "parseOid (pf_oids pf) u = Some uid"
    and one: "findOne (pf_participants pf) (activeIn (att_conversationId x) uid) (w_participants w) = Some p" by auto
  moreover have "\<exists>p\<in>set (w_participants w). activeIn (att_conversationId x) uid p" using findOne_Some [OF one] by blast
  moreover have "dataOf w' = dataOf w" by (rule technical_run [OF technical_attachments(6) assms])
  ultimately show ?thesis using x d findById_Some [OF x(1)] by blast
qed

lemma safeLimit_bounds: "1 \<le> safeLimit l \<and> safeLimit l \<le> 50"
  by (auto simp: safeLimit_def split: option.split jsnum.split)

text \<open>
  For an active participant and any whole-numbered or absent limit, the file list of a conversation is a
  page of at most fifty attached files of this conversation, and \<open>hasMore\<close> says exactly whether more of
  them match than the page may hold.
\<close>

theorem attachment_page:
  assumes "getRequiredActiveParticipant pf (idStr pf cid) u w = (Inr p, w)" "dateFilter pf before w = (Inr early, w)"
    and "limit = None \<or> limit = Some (Fin (of_int n))"
  shows "\<exists>k items more. listConversationAttachments pf (idStr pf cid) u before limit w = (Inr (items, more), w) \<and>
    1 \<le> k \<and> k \<le> 50 \<and> length items \<le> k \<and>
    (let ms = filter (\<lambda>a. att_conversationId a = cid \<and> att_status a = Attached \<and> early (att_createdAt a)) (w_attachments w) in
     set items \<subseteq> attachmentItem pf ` set ms \<and> (more \<longleftrightarrow> k < length ms) \<and> length items = min k (length ms))"
proof -
  define k where "k = nat \<lfloor>safeLimit limit\<rfloor>"
  let ?P = "\<lambda>a. att_conversationId a = cid \<and> att_status a = Attached \<and> early (att_createdAt a)"
  let ?all = "findSorted (pf_attachments pf) (\<lambda>a. - att_createdAt a) ?P (w_attachments w)"
  let ?ms = "filter ?P (w_attachments w)"
  have int: "\<exists>i. safeLimit limit = of_int i"
  proof (cases limit)
    case (Some l)
    with assms(3) have l: "l = Fin (of_int n)" by simp
    have "min (max (if n = 0 then 20 else rat_of_int n) 1) 50 = rat_of_int (min (max (if n = 0 then 20 else n) 1) 50)"
      by (simp add: min_def max_def)
    then show ?thesis by (auto simp: Some l safeLimit_def)
  qed (auto simp: safeLimit_def intro: exI [of _ 20])
  then obtain i where i: "safeLimit limit = of_int i" by blast
  have bounds: "1 \<le> i" "i \<le> 50" using safeLimit_bounds [of limit] by (simp_all add: i)
  then have k: "k = nat i" "safeLimit limit = of_nat k" "1 \<le> k" "k \<le> 50" by (auto simp: k_def i)
  have lim: "queryLimit pf (Fin (safeLimit limit + 1)) w = (Inr (int k + 1), w)"
    using bounds by (simp add: queryLimit_def isInteger_def k i ret_def)
  note lim = lim [unfolded k(2)]
  have len: "length ?all = length ?ms" by (simp add: findSorted_def findMany_def)
  have take: "limitDocs (int k + 1) ?all = take (Suc k) ?all" by (simp add: limitDocs_def nat_add_distrib)
  let ?items = "map (attachmentItem pf) (take k (take (Suc k) ?all))"
  have run: "listConversationAttachments pf (idStr pf cid) u before limit w =
      (Inr (?items, of_nat k < (of_nat (length (take (Suc k) ?all)) :: rat)), w)"
    by (simp add: listConversationAttachments_def bind_def requireObjectId_run assms(1,2) lim gets_def ret_def Let_def take k(2))
  have "set ?items \<subseteq> attachmentItem pf ` set ?ms"
    using set_take_subset [of k "take (Suc k) ?all"] set_take_subset [of "Suc k" ?all] by (auto simp del: take_take)
  moreover have "of_nat k < (of_nat (length (take (Suc k) ?all)) :: rat) \<longleftrightarrow> k < length ?ms" by (auto simp: len)
  moreover have "length ?items = min k (length ?ms)" by (simp add: len)
  ultimately show ?thesis using run k(3,4) by (intro exI [of _ k]) (auto simp: Let_def simp del: take_take)
qed

end
