(* ===== verification/AiService.thy ===== *)
theory AiService
  imports Json ChatAttachments
begin

text \<open>
  The services of \<open>backend/src/modules/ai\<close>: the configuration with its rotation over API keys and models
  (\<open>ai-config.service.ts\<close>), the calls to the model with fail-over (\<open>ai.service.ts\<close>), the chat bot
  (\<open>ai-chatbot.service.ts\<close>), reply suggestions (\<open>ai-suggestions.service.ts\<close>) and moderation
  (\<open>ai-moderation.service.ts\<close>). What the model answers to a call is a parameter of the platform.
\<close>

subsection \<open>Configuration\<close>

definition listSetting :: "jstr \<Rightarrow> jstr list" where
  "listSetting v = filter (\<lambda>item. item \<noteq> []) (map trim (splitOn 0x2C v))"

definition getApiKeys :: "platform \<Rightarrow> jstr list" where
  "getApiKeys pf = listSetting (GEMINI_API_KEYS (readEnv pf))"

definition getModels :: "platform \<Rightarrow> jstr list" where
  "getModels pf = listSetting (GEMINI_MODELS (readEnv pf))"

definition initAiConfig :: "platform \<Rightarrow> unit act" where
  "initAiConfig pf =
     bind (backendEnv pf) (\<lambda>_.
     modify (\<lambda>w. w\<lparr>w_keyIndex := 0, w_modelIndex := 0,
       w_keyStates := map (\<lambda>k. \<lparr>ks_apiKey = k, ks_consecutiveFailures = 0, ks_isRateLimited = False,
         ks_lastErrorAt = None\<rparr>) (getApiKeys pf)\<rparr>))"

definition getCurrentApiKey :: "platform \<Rightarrow> jstr option act" where
  "getCurrentApiKey pf =
     (let keys = getApiKeys pf in
      gets (\<lambda>w. if keys = [] then None else Some (keys ! (w_keyIndex w mod length keys))))"

definition getCurrentModel :: "platform \<Rightarrow> jstr act" where
  "getCurrentModel pf =
     (let models = getModels pf in
      gets (\<lambda>w. if models = [] then js ''gemini-1.5-flash'' else models ! (w_modelIndex w mod length models)))"

definition rotateApiKey :: "platform \<Rightarrow> jstr option act" where
  "rotateApiKey pf =
     (let keys = getApiKeys pf in
      bind (whenA (keys \<noteq> []) (modify (\<lambda>w. w\<lparr>w_keyIndex := Suc (w_keyIndex w) mod length keys\<rparr>))) (\<lambda>_.
      getCurrentApiKey pf))"

definition rotateModel :: "platform \<Rightarrow> jstr act" where
  "rotateModel pf =
     (let models = getModels pf in
      bind (whenA (models \<noteq> []) (modify (\<lambda>w. w\<lparr>w_modelIndex := Suc (w_modelIndex w) mod length models\<rparr>))) (\<lambda>_.
      getCurrentModel pf))"

text \<open>\<open>keyStates.find(...)\<close> and a change of the object it returns.\<close>

fun updateFirst :: "('a \<Rightarrow> bool) \<Rightarrow> ('a \<Rightarrow> 'a) \<Rightarrow> 'a list \<Rightarrow> 'a list" where
  "updateFirst P f [] = []"
| "updateFirst P f (x # xs) = (if P x then f x # xs else x # updateFirst P f xs)"

definition markKeyFailure :: "platform \<Rightarrow> jstr \<Rightarrow> bool \<Rightarrow> unit act" where
  "markKeyFailure pf apiKey isRateLimited =
     bind (gets w_keyStates) (\<lambda>states.
     if list_ex (\<lambda>s. ks_apiKey s = apiKey) states
     then bind (now pf) (\<lambda>t.
       modify (\<lambda>w. w\<lparr>w_keyStates := updateFirst (\<lambda>s. ks_apiKey s = apiKey)
         (\<lambda>s. s\<lparr>ks_consecutiveFailures := ks_consecutiveFailures s + 1, ks_isRateLimited := isRateLimited,
                ks_lastErrorAt := Some t\<rparr>) (w_keyStates w)\<rparr>))
     else ret ())"

definition markKeySuccess :: "jstr \<Rightarrow> unit act" where
  "markKeySuccess apiKey =
     modify (\<lambda>w. w\<lparr>w_keyStates := updateFirst (\<lambda>s. ks_apiKey s = apiKey)
       (\<lambda>s. s\<lparr>ks_consecutiveFailures := 0, ks_isRateLimited := False, ks_lastErrorAt := None\<rparr>) (w_keyStates w)\<rparr>)"

definition getKeyStates :: "ai_key_state list act" where
  "getKeyStates = gets w_keyStates"

abbreviation getMaxContextMessages :: "platform \<Rightarrow> jsnum" where
  "getMaxContextMessages pf \<equiv> GEMINI_MAX_CONTEXT_MESSAGES (readEnv pf)"

subsection \<open>Calling the model\<close>

record generated =
  gen_text :: jstr
  gen_model :: jstr
  gen_apiKey :: jstr

definition rateLimited :: "jstr \<Rightarrow> bool" where
  "rateLimited errorMessage \<longleftrightarrow>
     includesStr (js ''429'') errorMessage \<or> includesStr (js ''quota'') errorMessage \<or>
     includesStr (js ''RESOURCE_EXHAUSTED'') errorMessage"

text \<open>The request with the time limit it is raced against.\<close>

definition timed :: "platform \<Rightarrow> gemini_request \<Rightarrow> gemini_request" where
  "timed pf request = request\<lparr>gr_timeoutMs := Some (case gr_timeoutMs request of
     Some t \<Rightarrow> t | None \<Rightarrow> GEMINI_REQUEST_TIMEOUT_MS (readEnv pf))\<rparr>"

definition callGemini :: "platform \<Rightarrow> jstr \<Rightarrow> jstr \<Rightarrow> gemini_request \<Rightarrow> jstr act" where
  "callGemini pf apiKey modelName request =
     bind (gets (\<lambda>w. pf_gemini pf (w_aiCalls w) apiKey modelName (timed pf request))) (\<lambda>outcome.
     bind (modify (\<lambda>w. w\<lparr>w_aiCalls := Suc (w_aiCalls w)\<rparr>)) (\<lambda>_.
     case outcome of
       GeminiText t \<Rightarrow> ret t
     | GeminiFailure m \<Rightarrow> throw (PlainError m)
     | GeminiTimeout \<Rightarrow> throw (ServiceUnavailableException (codeBody ''AI_TIMEOUT'' ''AI request timed out''))))"

text \<open>One pass of the inner loop: the result, or the error it caught.\<close>

definition attemptModel :: "platform \<Rightarrow> gemini_request \<Rightarrow> jstr \<Rightarrow> nat \<Rightarrow> (generated + exn) act" where
  "attemptModel pf request apiKey modelAttempt =
     bind (if modelAttempt = 0
           then (case gr_model request of Some m \<Rightarrow> ret m | None \<Rightarrow> getCurrentModel pf)
           else rotateModel pf) (\<lambda>modelName.
     catch
       (bind (callGemini pf apiKey modelName request) (\<lambda>answer.
        let text = trim answer in
        bind (markKeySuccess apiKey) (\<lambda>_.
        if text = [] then throw (BadRequestException (codeBody ''AI_EMPTY_RESPONSE'' ''AI returned empty response''))
        else ret (Inl \<lparr>gen_text = text, gen_model = modelName, gen_apiKey = apiKey\<rparr>))))
       (\<lambda>e. bind (markKeyFailure pf apiKey (rateLimited (exnMessage pf e))) (\<lambda>_. ret (Inr e))))"

text \<open>The inner loop over the models and the outer loop over the keys, with the number of passes left.\<close>

primrec tryModels ::
    "platform \<Rightarrow> gemini_request \<Rightarrow> jstr \<Rightarrow> nat \<Rightarrow> nat \<Rightarrow> exn option \<Rightarrow> (generated + exn option) act" where
  "tryModels pf request apiKey 0 modelAttempt lastError = ret (Inr lastError)"
| "tryModels pf request apiKey (Suc left) modelAttempt lastError =
     bind (attemptModel pf request apiKey modelAttempt) (\<lambda>r.
     case r of
       Inl g \<Rightarrow> ret (Inl g)
     | Inr e \<Rightarrow> tryModels pf request apiKey left (Suc modelAttempt) (Some e))"

primrec tryKeys :: "platform \<Rightarrow> gemini_request \<Rightarrow> nat \<Rightarrow> nat \<Rightarrow> exn option \<Rightarrow> (generated + exn option) act" where
  "tryKeys pf request models 0 lastError = ret (Inr lastError)"
| "tryKeys pf request models (Suc left) lastError =
     bind (getCurrentApiKey pf) (\<lambda>apiKey.
     bind (tryModels pf request (case apiKey of Some k \<Rightarrow> k | None \<Rightarrow> hd (getApiKeys pf)) models 0 lastError) (\<lambda>r.
     case r of
       Inl g \<Rightarrow> ret (Inl g)
     | Inr e \<Rightarrow> bind (rotateApiKey pf) (\<lambda>_. tryKeys pf request models left e)))"

definition generateContent :: "platform \<Rightarrow> gemini_request \<Rightarrow> generated act" where
  "generateContent pf request =
     (let apiKeys = getApiKeys pf;
          models = (case gr_model request of
                      Some m \<Rightarrow> if m \<noteq> [] then [m] else getModels pf | None \<Rightarrow> getModels pf) in
      if apiKeys = []
      then throw (ServiceUnavailableException (codeBody ''AI_MISSING_API_KEY'' ''Gemini API key is not configured''))
      else if models = []
      then throw (ServiceUnavailableException (codeBody ''AI_MISSING_MODEL'' ''Gemini model is not configured''))
      else
        bind (tryKeys pf request (length models) (length apiKeys) None) (\<lambda>r.
        case r of
          Inl g \<Rightarrow> ret g
        | Inr (Some e) \<Rightarrow> throw (ServiceUnavailableException
            \<lparr>body_error = None, body_code = Some ''AI_SERVICE_UNAVAILABLE'', body_message = exnMessage pf e\<rparr>)
        | Inr None \<Rightarrow> throw (ServiceUnavailableException
            (codeBody ''AI_SERVICE_UNAVAILABLE'' ''AI service is unavailable''))))"

definition generateText :: "platform \<Rightarrow> gemini_request \<Rightarrow> jstr act" where
  "generateText pf request = bind (generateContent pf request) (\<lambda>parsed. ret (gen_text parsed))"

definition generateJson :: "platform \<Rightarrow> gemini_request \<Rightarrow> json act" where
  "generateJson pf request =
     bind (generateContent pf request) (\<lambda>parsed.
     case jsonParse (pf_number pf) (gen_text parsed) of
       Some v \<Rightarrow> ret v
     | None \<Rightarrow> throw (BadRequestException (codeBody ''AI_INVALID_RESPONSE'' ''AI returned malformed JSON response'')))"

subsection \<open>The chat bot\<close>

fun joinWith :: "jstr \<Rightarrow> jstr list \<Rightarrow> jstr" where
  "joinWith sep [] = []"
| "joinWith sep [x] = x"
| "joinWith sep (x # y # ys) = x @ sep @ joinWith sep (y # ys)"

abbreviation lineBreak :: jstr where "lineBreak \<equiv> [0xA]"

text \<open>\<open>s.replace(p, '')\<close> with a string pattern removes its first occurrence only.\<close>

fun removeFirst :: "jstr \<Rightarrow> jstr \<Rightarrow> jstr" where
  "removeFirst p [] = []"
| "removeFirst p (c # cs) = (if startsWith p (c # cs) then drop (length p) (c # cs) else c # removeFirst p cs)"

definition shouldReply :: "jstr \<Rightarrow> bool" where
  "shouldReply content =
     (let trimmed = trim content in
      startsWith (js ''/ai'') trimmed \<or> includesStr (js ''@chatai'') trimmed)"

definition buildPrompt :: "jstr \<Rightarrow> jstr" where
  "buildPrompt content = trim (removeFirst (js ''/ai'') (removeFirst (js ''@chatai'') content))"

definition toAiConversationContext :: "(jstr \<times> jstr) list \<Rightarrow> jstr option \<Rightarrow> gemini_message list" where
  "toAiConversationContext messages botUserId =
     filter (\<lambda>m. trim (gm_text m) \<noteq> [])
       (map (\<lambda>(senderId, content).
          \<lparr>gm_role = (case botUserId of
               Some b \<Rightarrow> if b \<noteq> [] \<and> senderId = b then RoleModel else RoleUser | None \<Rightarrow> RoleUser),
           gm_text = content\<rparr>) messages)"

text \<open>\<open>messages.slice(Math.max(messages.length - maxMessages, 0))\<close>\<close>

definition normalizeConversationContext :: "'a list \<Rightarrow> jsnum \<Rightarrow> 'a list" where
  "normalizeConversationContext messages maxMessages =
     (case maxMessages of
        Fin q \<Rightarrow> drop (nat \<lfloor>max (of_nat (length messages) - q) 0\<rfloor>) messages
      | NegInfinity \<Rightarrow> []
      | _ \<Rightarrow> messages)"

definition roleName :: "gemini_role \<Rightarrow> jstr" where
  "roleName r = (case r of RoleUser \<Rightarrow> js ''user'' | RoleModel \<Rightarrow> js ''model'')"

definition generateResponse :: "platform \<Rightarrow> jstr \<Rightarrow> jstr \<Rightarrow> jstr act" where
  "generateResponse pf conversationId content =
     (let prompt = buildPrompt content in
      bind (getMessages pf conversationId None (getMaxContextMessages pf)) (\<lambda>messages.
      let context = normalizeConversationContext
            (toAiConversationContext
               (map (\<lambda>m. (idStr pf (msg_senderId (dm_message (cm_display m))), dm_content (cm_display m))) messages) None)
            (getMaxContextMessages pf) in
      bind (getCurrentModel pf) (\<lambda>model.
      bind (generateText pf \<lparr>gr_model = Some model,
          gr_messages = [\<lparr>gm_role = RoleUser, gm_text = joinWith lineBreak
            ([js ''You are a helpful chat assistant inside a realtime messaging app.'',
              js ''Answer concisely in Vietnamese unless the user clearly asks for another language.'',
              js ''Recent conversation context:''] @
             map (\<lambda>m. roleName (gm_role m) @ js '': '' @ gm_text m) context @
             [js ''Current user request: '' @ (if prompt \<noteq> [] then prompt else trim content)])\<rparr>],
          gr_responseMimeType = None, gr_timeoutMs = Some (GEMINI_REQUEST_TIMEOUT_MS (readEnv pf))\<rparr>) (\<lambda>text.
      ret (trim text)))))"

subsection \<open>Suggestions\<close>

definition numbered :: "nat \<Rightarrow> jstr \<Rightarrow> jstr" where
  "numbered i text = js ''Message '' @ showNat (Suc i) @ js '': '' @ trim text"

definition suggestionPrompt :: "jstr list \<Rightarrow> jstr" where
  "suggestionPrompt recent =
     (let context = drop (length recent - 10) recent in
      joinWith lineBreak
        [js ''Generate exactly 3 short reply suggestions for this chat conversation.'',
         js ''Base the reply language primarily on the latest 2-3 messages in the conversation.'',
         js ''If the latest messages are in English, return English suggestions. If the latest messages are in Vietnamese, return Vietnamese suggestions.'',
         js ''Use older messages only as supporting context, not as the main language signal.'',
         js ''Match the tone and language of the most recent messages naturally.'',
         js ''Each suggestion must be under 50 characters.'',
         js ''Return ONLY a JSON array of exactly 3 strings.'',
         js ''Recent conversation context:'',
         joinWith lineBreak (map (\<lambda>(i, t). numbered i t) (List.enumerate 0 context)),
         js ''Latest message: '' @ trim (last recent)])"

definition suggestionText :: "json \<Rightarrow> jstr option" where
  "suggestionText item = (case item of JStr s \<Rightarrow> if trim s \<noteq> [] then Some s else None | _ \<Rightarrow> None)"

definition pickSuggestions :: "json list \<Rightarrow> jstr list" where
  "pickSuggestions items = take 3 (List.map_filter suggestionText items)"

definition generateSuggestions :: "platform \<Rightarrow> jstr \<Rightarrow> jstr list act" where
  "generateSuggestions pf conversationId =
     bind (getMessages pf conversationId None (Fin 10)) (\<lambda>messages.
     let recent = filter (\<lambda>t. trim t \<noteq> []) (map (\<lambda>m. dm_content (cm_display m)) messages) in
     if recent = [] then ret []
     else
       bind (getCurrentModel pf) (\<lambda>model.
       bind (generateJson pf \<lparr>gr_model = Some model,
           gr_messages = [\<lparr>gm_role = RoleUser, gm_text = suggestionPrompt recent\<rparr>],
           gr_responseMimeType = Some ''application/json'',
           gr_timeoutMs = Some (GEMINI_SUGGESTION_TIMEOUT_MS (readEnv pf))\<rparr>) (\<lambda>response.
       case response of JArr items \<Rightarrow> ret (pickSuggestions items) | _ \<Rightarrow> throw TypeError)))"

subsection \<open>Moderation\<close>

fun jsonText :: "platform \<Rightarrow> json \<Rightarrow> jstr" where
  "jsonText pf JNull = js ''null''"
| "jsonText pf (JBool b) = (if b then js ''true'' else js ''false'')"
| "jsonText pf (JNum n) = pf_showNum pf n"
| "jsonText pf (JStr s) = s"
| "jsonText pf (JArr vs) = joinWith (js '','') (map (\<lambda>v. if v = JNull then [] else jsonText pf v) vs)"
| "jsonText pf (JObj ms) = js ''[object Object]''"

text \<open>\<open>Number(v)\<close> and \<open>Boolean(v)\<close> of a parsed value; an absent member counts as \<open>undefined\<close>.\<close>

definition jsonNumber :: "platform \<Rightarrow> json \<Rightarrow> jsnum" where
  "jsonNumber pf v =
     (case v of JNum n \<Rightarrow> n | JBool b \<Rightarrow> Fin (if b then 1 else 0) | JNull \<Rightarrow> Fin 0 | _ \<Rightarrow> pf_number pf (jsonText pf v))"

definition truthy :: "json option \<Rightarrow> bool" where
  "truthy v =
     (case v of
        None \<Rightarrow> False | Some JNull \<Rightarrow> False | Some (JBool b) \<Rightarrow> b | Some (JStr s) \<Rightarrow> s \<noteq> []
      | Some (JNum n) \<Rightarrow> n \<noteq> NaN \<and> n \<noteq> Fin 0 | Some _ \<Rightarrow> True)"

definition orElse :: "json option \<Rightarrow> json \<Rightarrow> json" where
  "orElse v d = (case v of None \<Rightarrow> d | Some JNull \<Rightarrow> d | Some x \<Rightarrow> x)"

definition normalizeWarningMessage :: "platform \<Rightarrow> jstr \<Rightarrow> bool \<Rightarrow> jstr option" where
  "normalizeWarningMessage pf warningMessage isToxic =
     (if \<not> isToxic then None
      else if warningMessage = [] then Some txtWarning
      else
        let normalized = pf_lower pf warningMessage in
        if includesStr (js ''offensive language'') normalized \<or> includesStr (js ''offensive'') normalized \<or>
           includesStr (js ''toxic'') normalized
        then Some txtWarning
        else Some warningMessage)"

definition moderationOf :: "platform \<Rightarrow> jstr \<Rightarrow> json \<Rightarrow> moderation_dto" where
  "moderationOf pf messageId result =
     (let warningMessage = (case jsonField ''warningMessage'' result of Some (JStr s) \<Rightarrow> trim s | _ \<Rightarrow> []);
          isToxic = truthy (jsonField ''isToxic'' result) in
      \<lparr>md_messageId = messageId,
       md_sentiment = orElse (jsonField ''sentiment'' result) (JStr (js ''neutral'')),
       md_sentimentScore = jsonNumber pf (orElse (jsonField ''sentimentScore'' result) (JNum (Fin 0))),
       md_toxicityScore = jsonNumber pf (orElse (jsonField ''toxicityScore'' result) (JNum (Fin 0))),
       md_isToxic = isToxic,
       md_warningMessage = normalizeWarningMessage pf warningMessage isToxic\<rparr>)"

definition analyzeMessage :: "platform \<Rightarrow> jstr \<Rightarrow> jstr \<Rightarrow> moderation_dto act" where
  "analyzeMessage pf messageId content =
     bind (getCurrentModel pf) (\<lambda>model.
     bind (generateJson pf \<lparr>gr_model = Some model,
         gr_messages = [\<lparr>gm_role = RoleUser, gm_text = joinWith lineBreak
           [js ''Analyze the following chat message and return JSON only.'',
            js ''JSON shape: {\"sentiment\":\"positive|neutral|negative\",\"sentimentScore\":number,\"toxicityScore\":number,\"isToxic\":boolean,\"warningMessage\":string}'',
            js ''warningMessage should be empty when isToxic is false.'',
            js ''warningMessage must be in Vietnamese when isToxic is true.'',
            js ''Message: '' @ content]\<rparr>],
         gr_responseMimeType = Some ''application/json'',
         gr_timeoutMs = Some (GEMINI_MODERATION_TIMEOUT_MS (readEnv pf))\<rparr>) (\<lambda>result.
     if result = JNull then throw TypeError else ret (moderationOf pf messageId result)))"

subsection \<open>What the AI services leave alone\<close>

lemma consults_config [consult_intros]:
  "consults (getCurrentApiKey pf)" "consults (getCurrentModel pf)" "consults (rotateApiKey pf)"
  "consults (rotateModel pf)" "consults (markKeyFailure pf k b)" "consults (markKeySuccess k)" "consults (initAiConfig pf)"
  unfolding initAiConfig_def getCurrentApiKey_def getCurrentModel_def rotateApiKey_def rotateModel_def
    markKeyFailure_def markKeySuccess_def Let_def
  by (rule consult_intros frames_modify consults_technical technical_intros | simp)+

lemma consults_callGemini [consult_intros]: "consults (callGemini pf k m r)"
  unfolding callGemini_def
  by (rule consult_intros frames_modify | simp split: gemini_outcome.split | intro conjI allI impI)+

lemma consults_attempts [consult_intros]:
  "consults (attemptModel pf r k n)" "consults (tryModels pf r k l a e)" "consults (tryKeys pf r m l e)"
proof -
  show one: "consults (attemptModel pf r k n)" for k n
    unfolding attemptModel_def Let_def by (intro consult_intros)
  show models: "consults (tryModels pf r k l a e)" for k l a e
    by (induction l arbitrary: a e) (auto intro!: consult_intros one split: sum.split)
  show "consults (tryKeys pf r m l e)"
    by (induction l arbitrary: e) (auto intro!: consult_intros models split: sum.split)
qed

lemma consults_generate [consult_intros]:
  "consults (generateContent pf r)" "consults (generateText pf r)" "consults (generateJson pf r)"
proof -
  show "consults (generateContent pf r)"
    unfolding generateContent_def Let_def
    by (auto intro!: consult_intros split: option.split)
  then show "consults (generateText pf r)" "consults (generateJson pf r)"
    unfolding generateText_def generateJson_def by (auto intro!: consult_intros split: option.split)
qed

lemmas consults_getMessages [consult_intros] = technical_reading(1) [THEN consults_technical]

lemma consults_assistants [consult_intros]:
  "consults (generateResponse pf c t)" "consults (generateSuggestions pf c)" "consults (analyzeMessage pf m t)"
  unfolding generateResponse_def generateSuggestions_def analyzeMessage_def Let_def
  by (intro consult_intros | simp split: json.split | auto intro!: consult_intros split: json.split)+

lemmas quiet_assistants [quiet_intros] = consults_assistants [THEN quiet_consults]

subsection \<open>Fail-over between keys\<close>

text \<open>Every call with this key is answered with some text.\<close>

definition answers :: "platform \<Rightarrow> gemini_request \<Rightarrow> jstr \<Rightarrow> bool" where
  "answers pf request key \<longleftrightarrow> (\<forall>n model. \<exists>t. pf_gemini pf n key model (timed pf request) = GeminiText t \<and> trim t \<noteq> [])"

lemma getCurrentModel_total: "\<exists>m. getCurrentModel pf w = (Inr m, w)"
  by (simp add: getCurrentModel_def gets_def Let_def)

lemma rotateModel_total: "\<exists>m w'. rotateModel pf w = (Inr m, w') \<and> w_keyIndex w' = w_keyIndex w \<and> w_aiCalls w' = w_aiCalls w"
  by (cases "getModels pf = []") (simp_all add: rotateModel_def getCurrentModel_def gets_def bind_def whenA_def modify_def ret_def Let_def)

lemma attemptModel_total:
  "\<exists>r w'. attemptModel pf request key n w = (Inr r, w') \<and> w_keyIndex w' = w_keyIndex w \<and>
     w_aiCalls w' = Suc (w_aiCalls w) \<and> (answers pf request key \<longrightarrow> (\<exists>g. r = Inl g))"
proof -
  define pick where "pick = (if n = 0 then (case gr_model request of Some m \<Rightarrow> ret m | None \<Rightarrow> getCurrentModel pf)
      else rotateModel pf)"
  obtain m v where name: "pick w = (Inr m, v)" and v: "w_keyIndex v = w_keyIndex w" "w_aiCalls v = w_aiCalls w"
    using rotateModel_total [of pf w] getCurrentModel_total [of pf w]
    by (cases "n = 0"; cases "gr_model request") (auto simp: ret_def pick_def)
  note run = attemptModel_def [of pf request key n, folded pick_def]
  have fail: "\<exists>u. bind (markKeyFailure pf key b) (\<lambda>_. ret (Inr e)) x = (Inr (Inr e), u) \<and>
      w_keyIndex u = w_keyIndex x \<and> w_aiCalls u = w_aiCalls x" for b e x
    by (simp add: markKeyFailure_def bind_def gets_def now_run modify_def ret_def)
  show ?thesis
  proof (cases "pf_gemini pf (w_aiCalls v) key m (timed pf request)")
    case (GeminiText t)
    have "answers pf request key \<Longrightarrow> trim t \<noteq> []" unfolding answers_def by (metis GeminiText gemini_outcome.inject(1))
    with GeminiText name v fail show ?thesis
      by (cases "trim t = []")
        (auto simp: run callGemini_def name catch_def markKeySuccess_def
          bind_def gets_def modify_def ret_def throw_def Let_def markKeyFailure_def now_run)
  next
    case (GeminiFailure e)
    have "\<not> answers pf request key" unfolding answers_def by (metis GeminiFailure gemini_outcome.distinct(1))
    with GeminiFailure name v show ?thesis
      by (auto simp: run callGemini_def name catch_def bind_def gets_def modify_def ret_def
          throw_def Let_def markKeyFailure_def now_run)
  next
    case GeminiTimeout
    have "\<not> answers pf request key" unfolding answers_def by (metis GeminiTimeout gemini_outcome.distinct(3))
    with GeminiTimeout name v show ?thesis
      by (auto simp: run callGemini_def name catch_def bind_def gets_def modify_def ret_def
          throw_def Let_def markKeyFailure_def now_run)
  qed
qed

lemma tryModels_total:
  "\<exists>r w'. tryModels pf request key l a e w = (Inr r, w') \<and> w_keyIndex w' = w_keyIndex w \<and>
     (case r of
        Inl g \<Rightarrow> True
      | Inr e' \<Rightarrow> w_aiCalls w' = w_aiCalls w + l \<and> \<not> (answers pf request key \<and> 0 < l) \<and> (e' = None \<longrightarrow> l = 0 \<and> e = None))"
proof (induction l arbitrary: a e w)
  case (Suc l)
  obtain r v where r: "attemptModel pf request key a w = (Inr r, v)" "w_keyIndex v = w_keyIndex w"
    "w_aiCalls v = Suc (w_aiCalls w)" "answers pf request key \<longrightarrow> (\<exists>g. r = Inl g)"
    using attemptModel_total [of pf request key a w] by blast
  show ?case
  proof (cases r)
    case (Inl g)
    with r show ?thesis by (simp add: bind_def ret_def)
  next
    case (Inr e1)
    have step: "tryModels pf request key (Suc l) a e w = tryModels pf request key l (Suc a) (Some e1) v"
      using r(1) Inr by (simp add: bind_def)
    from r(4) Inr have "\<not> answers pf request key" by auto
    with Suc.IH [of "Suc a" "Some e1" v] r(2,3) show ?thesis unfolding step
      by (elim exE conjE) (intro exI conjI, assumption, auto split: sum.splits)
  qed
qed (simp add: ret_def)

lemma rotateApiKey_run:
  assumes "getApiKeys pf \<noteq> []"
  shows "\<exists>k. rotateApiKey pf w = (Inr k, w\<lparr>w_keyIndex := Suc (w_keyIndex w) mod length (getApiKeys pf)\<rparr>)"
  using assms by (simp add: rotateApiKey_def getCurrentApiKey_def bind_def whenA_def modify_def gets_def Let_def)

lemma tryKeys_total:
  assumes "getApiKeys pf \<noteq> []" "0 < models"
  shows "\<exists>r w'. tryKeys pf request models l e w = (Inr r, w') \<and>
     (case r of
        Inl g \<Rightarrow> True
      | Inr e' \<Rightarrow> w_aiCalls w' = w_aiCalls w + l * models \<and>
          w_keyIndex w' mod length (getApiKeys pf) = (w_keyIndex w + l) mod length (getApiKeys pf) \<and>
          (\<forall>j<l. \<not> answers pf request (getApiKeys pf ! ((w_keyIndex w + j) mod length (getApiKeys pf)))) \<and>
          (e' = None \<longrightarrow> l = 0 \<and> e = None))"
proof (induction l arbitrary: e w)
  case (Suc l)
  let ?n = "length (getApiKeys pf)"
  let ?key = "getApiKeys pf ! (w_keyIndex w mod ?n)"
  have key: "getCurrentApiKey pf w = (Inr (Some ?key), w)"
    using assms(1) by (simp add: getCurrentApiKey_def gets_def Let_def)
  obtain r v where r: "tryModels pf request ?key models 0 e w = (Inr r, v)" "w_keyIndex v = w_keyIndex w"
    "case r of Inl g \<Rightarrow> True
      | Inr e' \<Rightarrow> w_aiCalls v = w_aiCalls w + models \<and> \<not> (answers pf request ?key \<and> 0 < models) \<and>
          (e' = None \<longrightarrow> models = 0 \<and> e = None)"
    using tryModels_total [of pf request ?key models 0 e w] by blast
  show ?case
  proof (cases r)
    case (Inl g)
    with key r(1) show ?thesis by (simp add: bind_def ret_def)
  next
    case (Inr e1)
    let ?v = "v\<lparr>w_keyIndex := Suc (w_keyIndex w) mod ?n\<rparr>"
    obtain k where rot: "rotateApiKey pf v = (Inr k, ?v)" using rotateApiKey_run [OF assms(1), of v] r(2) by auto
    obtain r2 w2 where IH: "tryKeys pf request models l e1 ?v = (Inr r2, w2)"
      "case r2 of Inl g \<Rightarrow> True
        | Inr e' \<Rightarrow> w_aiCalls w2 = w_aiCalls ?v + l * models \<and> w_keyIndex w2 mod ?n = (w_keyIndex ?v + l) mod ?n \<and>
          (\<forall>j<l. \<not> answers pf request (getApiKeys pf ! ((w_keyIndex ?v + j) mod ?n))) \<and> (e' = None \<longrightarrow> l = 0 \<and> e1 = None)"
      using Suc.IH [of e1 ?v] by blast
    have run: "tryKeys pf request models (Suc l) e w = (Inr r2, w2)"
      using key r(1) Inr rot IH(1) by (simp add: bind_def)
    have first: "\<not> answers pf request ?key" "w_aiCalls v = w_aiCalls w + models" "e1 \<noteq> None"
      using r(3) Inr assms(2) by auto
    have "\<forall>j<Suc l. \<not> answers pf request (getApiKeys pf ! ((w_keyIndex w + j) mod ?n))"
      if "\<forall>j<l. \<not> answers pf request (getApiKeys pf ! ((Suc (w_keyIndex w) mod ?n + j) mod ?n))"
    proof (intro allI impI)
      fix j assume "j < Suc l"
      then show "\<not> answers pf request (getApiKeys pf ! ((w_keyIndex w + j) mod ?n))"
        using that first(1) by (cases j) (auto simp: mod_add_left_eq)
    qed
    then show ?thesis using run IH(2) first(2,3) by (auto simp: mod_add_left_eq split: sum.splits)
  qed
qed (simp add: ret_def)

lemma all_keys_reached:
  assumes "k \<in> set keys"
  shows "\<exists>j<length keys. keys ! ((i + j) mod length keys) = k"
proof -
  let ?n = "length keys"
  obtain m where m: "m < ?n" "keys ! m = k" using assms by (metis in_set_conv_nth)
  let ?j = "(m + (?n - i mod ?n)) mod ?n"
  have "(i + ?j) mod ?n = (i mod ?n + (m + (?n - i mod ?n))) mod ?n" by (simp add: mod_simps)
  also have "i mod ?n + (m + (?n - i mod ?n)) = m + ?n"
    using mod_less_divisor [of ?n i] m(1) by linarith
  finally have "(i + ?j) mod ?n = m" using m(1) by simp
  moreover have "?j < ?n" by (rule mod_less_divisor) (rule order.strict_trans1 [OF le0 m(1)])
  ultimately show ?thesis using m(2) by (intro exI [of _ ?j] conjI) (simp_all only:)
qed

text \<open>The models one call may use.\<close>

definition candidateModels :: "platform \<Rightarrow> gemini_request \<Rightarrow> jstr list" where
  "candidateModels pf request =
     (case gr_model request of Some m \<Rightarrow> if m \<noteq> [] then [m] else getModels pf | None \<Rightarrow> getModels pf)"

text \<open>
  C40: fail-over works: as long as one configured API key is answered, wherever the rotation stands
  and however the other keys fail, a request is answered with a text that is not blank.
\<close>

theorem generateContent_failover:
  assumes "k \<in> set (getApiKeys pf)" "answers pf request k" "candidateModels pf request \<noteq> []"
  shows "\<exists>g w'. generateContent pf request w = (Inr g, w')"
proof -
  have keys: "getApiKeys pf \<noteq> []" using assms(1) by auto
  obtain r w' where r: "tryKeys pf request (length (candidateModels pf request)) (length (getApiKeys pf)) None w = (Inr r, w')"
    "case r of Inl g \<Rightarrow> True | Inr e' \<Rightarrow> (\<forall>j<length (getApiKeys pf). \<not> answers pf request
       (getApiKeys pf ! ((w_keyIndex w + j) mod length (getApiKeys pf))))"
    using tryKeys_total [OF keys, of "length (candidateModels pf request)" request "length (getApiKeys pf)" None w] assms(3)
    by (fastforce split: sum.splits)
  with all_keys_reached [OF assms(1), of "w_keyIndex w"] assms(2) obtain g where "r = Inl g"
    by (auto split: sum.splits)
  with r(1) keys assms(3) show ?thesis
    by (simp add: generateContent_def candidateModels_def [symmetric] bind_def ret_def Let_def)
qed

text \<open>
  A request ends after finitely many calls whatever the model does. Without a key or a model it is
  refused at once; when it fails with both configured, every key was tried with every model exactly once, the
  error says that the service is unavailable, and the rotation stands where it stood.
\<close>

theorem generateContent_outcome:
  "case generateContent pf request w of
     (Inr g, w') \<Rightarrow> getApiKeys pf \<noteq> [] \<and> candidateModels pf request \<noteq> []
   | (Inl e, w') \<Rightarrow>
       if getApiKeys pf = []
       then e = ServiceUnavailableException (codeBody ''AI_MISSING_API_KEY'' ''Gemini API key is not configured'') \<and> w' = w
       else if candidateModels pf request = []
       then e = ServiceUnavailableException (codeBody ''AI_MISSING_MODEL'' ''Gemini model is not configured'') \<and> w' = w
       else (\<exists>m. e = ServiceUnavailableException \<lparr>body_error = None, body_code = Some ''AI_SERVICE_UNAVAILABLE'', body_message = m\<rparr>) \<and>
         w_aiCalls w' = w_aiCalls w + length (getApiKeys pf) * length (candidateModels pf request) \<and>
         w_keyIndex w' mod length (getApiKeys pf) = w_keyIndex w mod length (getApiKeys pf)"
proof -
  consider (none) "getApiKeys pf = [] \<or> candidateModels pf request = []"
    | (both) "getApiKeys pf \<noteq> []" "candidateModels pf request \<noteq> []" by blast
  then show ?thesis
  proof cases
    case none
    then show ?thesis by (auto simp: generateContent_def candidateModels_def [symmetric] throw_def Let_def)
  next
    case both
    obtain r w' where r: "tryKeys pf request (length (candidateModels pf request)) (length (getApiKeys pf)) None w = (Inr r, w')"
      "case r of Inl g \<Rightarrow> True
        | Inr e' \<Rightarrow> w_aiCalls w' = w_aiCalls w + length (getApiKeys pf) * length (candidateModels pf request) \<and>
          w_keyIndex w' mod length (getApiKeys pf) = (w_keyIndex w + length (getApiKeys pf)) mod length (getApiKeys pf) \<and> e' \<noteq> None"
      using tryKeys_total [OF both(1), of "length (candidateModels pf request)" request "length (getApiKeys pf)" None w] both
      by (fastforce split: sum.splits)
    then show ?thesis
      using both by (auto simp: generateContent_def candidateModels_def [symmetric] bind_def ret_def throw_def Let_def
          split: sum.splits option.splits)
  qed
qed

subsection \<open>What the assistants return\<close>

lemma suggestionText_Some: "suggestionText item = Some s \<Longrightarrow> trim s \<noteq> []"
  by (cases item) (auto simp: suggestionText_def split: if_splits)

lemma pickSuggestions_shape: "length (pickSuggestions items) \<le> 3 \<and> (\<forall>s\<in>set (pickSuggestions items). trim s \<noteq> [])"
proof -
  have "\<exists>x. f x = Some y" if "y \<in> set (List.map_filter f xs)" for f :: "json \<Rightarrow> jstr option" and xs y
    using that by (auto simp: List.map_filter_def)
  then show ?thesis unfolding pickSuggestions_def by (auto dest!: in_set_takeD dest: suggestionText_Some)
qed

lemma array_only:
  "(case r of JArr items \<Rightarrow> ret (f items) | _ \<Rightarrow> throw TypeError) w = (Inr x, w') \<Longrightarrow> \<exists>items. x = f items"
  by (cases r) (auto simp: ret_def throw_def)

lemma generateSuggestions_Inr:
  assumes "generateSuggestions pf c w = (Inr ss, w')"
  shows "ss = [] \<or> (\<exists>items. ss = pickSuggestions items)"
  using assms unfolding generateSuggestions_def
  by (auto simp: Let_def ret_app bind_Inr_iff dest!: array_only split: if_splits)

lemma analyzeMessage_Inr:
  assumes "analyzeMessage pf m t w = (Inr d, w')"
  shows "\<exists>r. d = moderationOf pf m r"
  using assms unfolding analyzeMessage_def
  by (elim bind_Inr_E) (simp add: ret_app throw_app split: if_splits, blast)

lemma normalizeWarning_shape:
  "(normalizeWarningMessage pf t b = None \<longleftrightarrow> \<not> b) \<and> normalizeWarningMessage pf t b \<noteq> Some []"
proof -
  have "txtWarning \<noteq> []" by (simp add: txtWarning_def)
  then show ?thesis by (simp add: normalizeWarningMessage_def Let_def)
qed

text \<open>
  Suggestions are at most three texts, none of them blank, and none at all when the conversation has
  no text to answer to. A moderation result belongs to the message it was asked for and carries a warning, never
  a blank one, exactly when the message is judged toxic. Neither changes a document.
\<close>

theorem assistant_results:
  assumes "generateSuggestions pf c w = (Inr ss, w\<^sub>1)" "analyzeMessage pf m t v = (Inr d, v\<^sub>1)"
  shows "length ss \<le> 3 \<and> (\<forall>s\<in>set ss. trim s \<noteq> []) \<and> docsOf w\<^sub>1 = docsOf w \<and>
    md_messageId d = m \<and> (md_isToxic d \<longleftrightarrow> md_warningMessage d \<noteq> None) \<and> md_warningMessage d \<noteq> Some [] \<and>
    docsOf v\<^sub>1 = docsOf v"
proof -
  have "length ss \<le> 3 \<and> (\<forall>s\<in>set ss. trim s \<noteq> [])"
    using generateSuggestions_Inr [OF assms(1)] pickSuggestions_shape by auto
  moreover obtain r where d: "d = moderationOf pf m r" using analyzeMessage_Inr [OF assms(2)] by blast
  have "md_messageId d = m" "md_isToxic d \<longleftrightarrow> md_warningMessage d \<noteq> None" "md_warningMessage d \<noteq> Some []"
    using normalizeWarning_shape [of pf] by (simp_all add: d moderationOf_def Let_def)
  moreover have "docsOf w\<^sub>1 = docsOf w" "docsOf v\<^sub>1 = docsOf v"
    using frames_run [OF quiet_assistants(2) assms(1)] frames_run [OF quiet_assistants(3) assms(2)] by blast+
  ultimately show ?thesis by blast
qed

end
