(* ===== verification/ChatWitnesses.thy ===== *)
theory ChatWitnesses
  imports ChatAttachments
begin

text \<open>
  The properties of the chat service on a concrete world: ann (identifier 0) and bob (1) share the direct
  conversation 3, bob has written once and ann has uploaded a file.
\<close>

abbreviation demo :: platform where "demo \<equiv> samplePlatform []"

abbreviation convId :: jstr where "convId \<equiv> [0x61, 0x61, 0x61]"
abbreviation annId :: jstr where "annId \<equiv> []"
abbreviation bobId :: jstr where "bobId \<equiv> [0x61]"
abbreviation fileId :: jstr where "fileId \<equiv> [0x61, 0x61, 0x61, 0x61, 0x61, 0x61, 0x61]"

lemma demo_ids [simp]:
  "parseOid (pf_oids demo) convId = Some 3" "parseOid (pf_oids demo) annId = Some 0"
  "parseOid (pf_oids demo) bobId = Some 1" "parseOid (pf_oids demo) fileId = Some 7"
  "idStr demo 0 = annId" "idStr demo 1 = bobId" "idStr demo 3 = convId"
  by (simp_all add: numeral_3_eq_3)

lemma chatWorld_ok: "worldOk demo chatWorld"
  by (auto simp: worldOk_def unique_ids_defs issuedIds_def sample_defs chat_defs)

lemma chatWorld_chatOk: "chatOk demo chatWorld"
  using chatWorld_ok by (simp add: chatOk_def attachmentsOk_def chat_defs)

subsection \<open>Reading\<close>


theorem getMessages_limit_zero_witness:
  "\<exists>page w'. getMessages demo convId None (Fin 0) chatWorld = (Inr page, w') \<and> length page = 1"
  using getMessages_limit_zero [OF demo_ids(1), of chatWorld] by (simp add: chat_defs)

theorem searchMessages_results_witness:
  "\<exists>res w'. searchMessages demo convId (js ''ell'') chatWorld = (Inr res, w') \<and> length res \<le> 20"
  using searchMessages_results [OF demo_ids(1), of "js ''ell''" chatWorld] by blast

theorem listConversations_exact_witness:
  "\<exists>res w'. listConversationsForUser demo bobId chatWorld = (Inr res, w') \<and> cs_id ` set res = {convId}"
proof -
  have "{idStr demo (conv_id c) |c. c \<in> set (w_conversations chatWorld) \<and>
      (\<exists>p\<in>set (w_participants chatWorld). activeIn (conv_id c) 1 p)} = {convId}"
    by (auto simp: chat_defs activeIn_def numeral_3_eq_3)
  with listConversations_exact [OF demo_ids(3) chatWorld_ok] show ?thesis by auto
qed

subsection \<open>Membership\<close>

theorem direct_conversation_unique_witness:
  "createConversation demo Direct bobId [annId] None chatWorld = (Inr sampleConversation, chatWorld)"
proof -
  have pair: "directOf demo 0 1 chatWorld = Some sampleConversation"
    by (simp add: directOf_def findSorted_def findMany_def sharedBy_def pairConversation_def chat_defs Let_def)
  then have "createConversation demo Direct annId [bobId] None chatWorld = (Inr sampleConversation, chatWorld)"
    using findDirectConversation_run [of demo 0 1 chatWorld]
    by (simp add: createConversation_def bind_def ret_def)
  moreover have "\<forall>p\<in>set (w_participants chatWorld). part_conversationId p \<in> conv_id ` set (w_conversations chatWorld)"
    by (simp add: chat_defs)
  ultimately show ?thesis
    using direct_conversation_unique [OF chatWorld_ok, of 0 1 None sampleConversation chatWorld None] by simp
qed

lemma demo_addMember:
  "\<exists>w'. addMember demo convId [0x61, 0x61] annId chatWorld = (Inr False, w')"
  by (simp add: addMember_def getActiveParticipant_def toObjectId_def bind_def gets_def ret_def now_run freshOid_run
      createParticipant_def createEvent_def insertParticipant_def insertEvent_def modify_def findOne_def findMany_def
      activeIn_def chat_defs)

theorem addMember_effect_witness:
  "\<exists>w'. addMember demo convId [0x61, 0x61] annId chatWorld = (Inr False, w') \<and>
     addMember demo convId [0x61, 0x61] annId w' = (Inr True, w')"
  using demo_addMember addMember_effect by blast

theorem leaving_ends_access_witness:
  "fst (getRequiredActiveParticipant demo convId bobId (snd (leaveConversation demo convId bobId chatWorld))) =
     Inl (ForbiddenException (js ''You are not an active participant of this conversation''))"
  by (rule leaving_ends_access [OF demo_ids(1,3), THEN conjunct2]) (simp add: chat_defs activeIn_def)

subsection \<open>Messages\<close>

lemma demo_send:
  "\<exists>m r w'. sendMessage demo convId annId (js ''hi'') (Some fileId) False chatWorld = (Inr (m, r), w')"
  by (simp add: sendMessage_def postMessage_def trim_def js_def isSpace_def Let_def givenId_def
      getRequiredActiveParticipant_def getActiveParticipant_def toObjectId_def castObjectId_def bind_def gets_def ret_def
      now_run freshOid_run findOne_def findMany_def activeIn_def restoreDirectParticipantsIfNeeded_def findById_def
      findSorted_def resolveAttachment_def encryptForStorage_def backendEnv_def insertMessage_def modify_def attachTo_def
      touchConversation_def markOwnRead_def incrementUnreadForOtherParticipants_def chat_defs numeral_3_eq_3)

theorem sendMessage_counters_witness:
  "\<exists>m r w' f. sendMessage demo convId annId (js ''hi'') (Some fileId) False chatWorld = (Inr (m, r), w') \<and>
     w_participants w' = map f (w_participants chatWorld)"
  using demo_send sendMessage_counters [OF chatWorld_ok] by blast

theorem attachment_used_once_witness:
  "\<exists>r w'. sendMessage demo convId annId (js ''hi'') (Some fileId) False chatWorld = (r, w') \<and> chatOk demo w'"
  using demo_send attachment_used_once [OF chatWorld_chatOk] by blast

lemma demo_read: "\<exists>r w'. markConversationRead demo convId (idStr demo 0) chatWorld = (Inr r, w')"
  by (simp add: markConversationRead_def getRequiredActiveParticipant_def getActiveParticipant_def toObjectId_def
      bind_def gets_def ret_def now_run findOne_def findMany_def activeIn_def latestMessage_def findSorted_def modify_def
      whenA_def Let_def chat_defs split: list.split)

theorem markConversationRead_effect_witness:
  "\<exists>r w'. markConversationRead demo convId (idStr demo 0) chatWorld = (Inr r, w') \<and> mr_unreadCount r = 0"
proof -
  obtain r w' where run: "markConversationRead demo convId (idStr demo 0) chatWorld = (Inr r, w')"
    using demo_read by blast
  from markConversationRead_effect [OF run] run show ?thesis by blast
qed

subsection \<open>Attachments\<close>

theorem storage_keys_distinct_witness:
  "keysOk demo (snd (generatePresignedUploadUrl demo annId
      \<lparr>ui_conversationId = convId, ui_fileName = js ''a b'', ui_mimeType = js ''text/plain'', ui_sizeBytes = Fin 1\<rparr>
      (chatWorld\<lparr>w_attachments := []\<rparr>)))"
proof -
  have "keysOk demo (chatWorld\<lparr>w_attachments := []\<rparr>)" by (simp add: keysOk_def)
  moreover have "0x2F \<notin> set (idStr demo i)" for i by simp
  ultimately show ?thesis using storage_keys_distinct [of demo] by (metis prod.collapse)
qed


definition storageEnv :: "(string \<times> jstr) list" where
  "storageEnv = [(''R2_ACCOUNT_ID'', js ''a''), (''R2_ACCESS_KEY_ID'', js ''k''), (''R2_SECRET_ACCESS_KEY'', js ''s''),
     (''R2_BUCKET_NAME'', js ''b'')]"

lemma storage_env [simp]:
  "envFault (readEnv (samplePlatform storageEnv)) = None" "R2_ACCOUNT_ID (readEnv (samplePlatform storageEnv)) = js ''a''"
  "R2_ACCESS_KEY_ID (readEnv (samplePlatform storageEnv)) = js ''k''"
  "R2_SECRET_ACCESS_KEY (readEnv (samplePlatform storageEnv)) = js ''s''"
  "R2_BUCKET_NAME (readEnv (samplePlatform storageEnv)) = js ''b''"
  by (simp_all add: envFault_def readEnv_def badPositive_def isFinite_def leZero_def envNumber_def envText_def
      storageEnv_def Let_def)

definition sharedFileWorld :: world where
  "sharedFileWorld = chatWorld\<lparr>w_attachments := [sampleAttachment\<lparr>att_status := Attached, att_messageId := Some 6\<rparr>]\<rparr>"

lemma storage_download:
  "\<exists>d w'. generatePresignedDownloadUrl (samplePlatform storageEnv) fileId bobId sharedFileWorld = (Inr d, w')"
  by (simp add: generatePresignedDownloadUrl_def requireObjectId_def bind_def ret_def gets_def findById_def
      getRequiredActiveParticipant_def getActiveParticipant_def toObjectId_def findOne_def findMany_def activeIn_def
      getBucketName_def getS3Client_def getSignedUrl_def backendEnv_def now_run sharedFileWorld_def chat_defs numeral_3_eq_3)

theorem download_access_witness:
  "\<exists>d w'. generatePresignedDownloadUrl (samplePlatform storageEnv) fileId bobId sharedFileWorld = (Inr d, w') \<and>
     dataOf w' = dataOf sharedFileWorld"
  using storage_download download_access by blast

theorem attachment_page_witness:
  "\<exists>items more. listConversationAttachments demo convId bobId None (Some (Fin 0)) sharedFileWorld =
     (Inr (items, more), sharedFileWorld) \<and> length items = 1"
proof -
  have "getRequiredActiveParticipant demo (idStr demo 3) bobId sharedFileWorld =
      (Inr (sampleParticipant 5 1 Member 0), sharedFileWorld)"
    by (simp add: getRequiredActiveParticipant_def getActiveParticipant_def toObjectId_def findOne_def findMany_def
        activeIn_def bind_def ret_def gets_def sharedFileWorld_def chat_defs numeral_3_eq_3)
  moreover have "dateFilter demo None sharedFileWorld = (Inr (\<lambda>_. True), sharedFileWorld)"
    by (simp add: dateFilter_def ret_def)
  ultimately obtain k items more where
    "listConversationAttachments demo (idStr demo 3) bobId None (Some (Fin 0)) sharedFileWorld =
       (Inr (items, more), sharedFileWorld)" "1 \<le> k"
    "length items = min k (length (filter (\<lambda>a. att_conversationId a = 3 \<and> att_status a = Attached \<and> True)
       (w_attachments sharedFileWorld)))"
    using attachment_page [of demo 3 bobId sharedFileWorld _ None "\<lambda>_. True" "Some (Fin 0)" 0] by (auto simp: Let_def)
  then show ?thesis by (auto simp: sharedFileWorld_def chat_defs numeral_3_eq_3)
qed

end
