(* ===== verification/ChatGateway.thy ===== *)
theory ChatGateway
  imports AiService ChatWitnesses
begin

text \<open>
  \<open>chat/chat.gateway.ts\<close> with \<open>chat/utils/socket-auth.util.ts\<close> and
  \<open>chat/utils/socket-conversation.util.ts\<close>: the realtime side of the chat. Sockets are kept in the world with
  the rooms they are in; every emission is logged with the sockets that receive it, which are those in the
  room at that moment. Work that a handler starts without awaiting it (moderation, the bot's reply) is
  queued in the world and run by \<open>runPending\<close>, in any order and at any later time.
\<close>

subsection \<open>Rooms and socket state\<close>

definition getConversationRoom :: "jstr \<Rightarrow> jstr" where
  "getConversationRoom conversationId = js ''conversation:'' @ conversationId"

definition getUserRoom :: "jstr \<Rightarrow> jstr" where
  "getUserRoom userId = js ''user:'' @ userId"

definition getJoinedConversationIds :: "socket_data \<Rightarrow> jstr list" where
  "getJoinedConversationIds client = (case sock_joined client of None \<Rightarrow> [] | Some ids \<Rightarrow> ids)"

definition markConversationJoined :: "jstr \<Rightarrow> socket_data \<Rightarrow> socket_data" where
  "markConversationJoined conversationId client =
     (let current = getJoinedConversationIds client in
      if conversationId \<in> set current then client else client\<lparr>sock_joined := Some (current @ [conversationId])\<rparr>)"

definition socketConversationLeft :: "jstr \<Rightarrow> socket_data \<Rightarrow> socket_data" where
  "socketConversationLeft conversationId client =
     client\<lparr>sock_joined := Some (filter (\<lambda>joinedId. joinedId \<noteq> conversationId) (getJoinedConversationIds client))\<rparr>"

definition joinRoom :: "jstr \<Rightarrow> socket_data \<Rightarrow> socket_data" where
  "joinRoom room client = client\<lparr>sock_rooms := List.insert room (sock_rooms client)\<rparr>"

definition leaveRoom :: "jstr \<Rightarrow> socket_data \<Rightarrow> socket_data" where
  "leaveRoom room client = client\<lparr>sock_rooms := filter (\<lambda>r. r \<noteq> room) (sock_rooms client)\<rparr>"

text \<open>An event reaches the gateway of the namespace its socket is connected to.\<close>

definition socketOf :: "namespace \<Rightarrow> nat \<Rightarrow> world \<Rightarrow> socket_data option" where
  "socketOf ns i w =
     (case map_of (w_sockets w) i of None \<Rightarrow> None | Some d \<Rightarrow> if sock_namespace d = ns then Some d else None)"

definition mapSocket ::
    "namespace \<Rightarrow> nat \<Rightarrow> (socket_data \<Rightarrow> socket_data) \<Rightarrow> (nat \<times> socket_data) list \<Rightarrow> (nat \<times> socket_data) list" where
  "mapSocket ns i f ss = map (\<lambda>(j, d). (j, if j = i \<and> sock_namespace d = ns then f d else d)) ss"

definition onSocket :: "namespace \<Rightarrow> nat \<Rightarrow> (socket_data \<Rightarrow> socket_data) \<Rightarrow> unit act" where
  "onSocket ns i f = modify (\<lambda>w. w\<lparr>w_sockets := mapSocket ns i f (w_sockets w)\<rparr>)"

definition recipients :: "namespace \<Rightarrow> emit_target \<Rightarrow> (nat \<times> socket_data) list \<Rightarrow> nat list" where
  "recipients ns target sockets =
     map fst (filter (\<lambda>(i, d). sock_namespace d = ns \<and>
       (case target of
          ToRoom room \<Rightarrow> room \<in> set (sock_rooms d)
        | ToRoomExcept j room \<Rightarrow> i \<noteq> j \<and> room \<in> set (sock_rooms d)
        | ToSocket j \<Rightarrow> i = j)) sockets)"

definition emit :: "namespace \<Rightarrow> emit_target \<Rightarrow> string \<Rightarrow> payload \<Rightarrow> unit act" where
  "emit ns target event p =
     modify (\<lambda>w. w\<lparr>w_emitted := w_emitted w @ [\<lparr>em_namespace = ns, em_target = target, em_event = event,
       em_recipients = recipients ns target (w_sockets w), em_payload = p\<rparr>]\<rparr>)"

subsection \<open>Connecting\<close>

record handshake =
  hs_authToken :: "jstr option"
  hs_authorization :: "jstr option"

definition bearer :: jstr where
  "bearer = js ''Bearer ''"

definition readToken :: "handshake \<Rightarrow> jstr option" where
  "readToken hs =
     (let fromHeader =
        (case hs_authorization hs of
           None \<Rightarrow> None
         | Some a \<Rightarrow>
             if startsWith bearer a \<and> trim (drop (length bearer) a) \<noteq> []
             then Some (trim (drop (length bearer) a)) else None) in
      case hs_authToken hs of
        None \<Rightarrow> fromHeader
      | Some t \<Rightarrow> if trim t \<noteq> [] then Some (trim t) else fromHeader)"

definition authenticateSocketClient :: "platform \<Rightarrow> handshake \<Rightarrow> session_user option act" where
  "authenticateSocketClient pf hs =
     (case readToken hs of
        None \<Rightarrow> ret None
      | Some token \<Rightarrow> authenticateAccessToken pf token)"

text \<open>
  The middleware of the namespace: the result is the error a refused connection is told. An accepted socket
  has no room yet.
\<close>

definition afterInit :: "platform \<Rightarrow> nat \<Rightarrow> handshake \<Rightarrow> (string \<times> string) option act" where
  "afterInit pf client hs =
     bind (authenticateSocketClient pf hs) (\<lambda>user.
     case user of
       None \<Rightarrow> ret (Some (''UNAUTHORIZED'', ''Access token is required or invalid''))
     | Some u \<Rightarrow>
         bind (modify (\<lambda>w. w\<lparr>w_sockets := AList.update client
            \<lparr>sock_namespace = ChatNamespace, sock_user = Some u, sock_joined = Some [], sock_rooms = []\<rparr> (w_sockets w)\<rparr>)) (\<lambda>_.
         ret None))"

definition getClientUser :: "namespace \<Rightarrow> nat \<Rightarrow> session_user act" where
  "getClientUser ns client =
     bind (gets (socketOf ns client)) (\<lambda>d.
     case d of
       None \<Rightarrow> throw (PlainError (js ''Socket user is missing''))
     | Some s \<Rightarrow>
         (case sock_user s of None \<Rightarrow> throw (PlainError (js ''Socket user is missing'')) | Some u \<Rightarrow> ret u))"

definition handleConnection :: "nat \<Rightarrow> unit act" where
  "handleConnection client =
     bind (getClientUser ChatNamespace client) (\<lambda>user.
     bind (onSocket ChatNamespace client (joinRoom (getUserRoom (su_id user)))) (\<lambda>_.
     emit ChatNamespace (ToSocket client) ''connection_status_changed'' (ConnectionState ''connected'')))"

definition handleDisconnect :: "nat \<Rightarrow> unit act" where
  "handleDisconnect client =
     bind (gets (\<lambda>w. case socketOf ChatNamespace client w of None \<Rightarrow> [] | Some d \<Rightarrow> getJoinedConversationIds d)) (\<lambda>ids.
     bind (mapA (\<lambda>c. onSocket ChatNamespace client (\<lambda>d. socketConversationLeft c (leaveRoom (getConversationRoom c) d))) ids) (\<lambda>_.
     ret ()))"

text \<open>What the server does around the handlers: a connection attempt and the end of a connection.\<close>

definition connectChat :: "platform \<Rightarrow> nat \<Rightarrow> handshake \<Rightarrow> (string \<times> string) option act" where
  "connectChat pf client hs =
     bind (afterInit pf client hs) (\<lambda>refused.
     case refused of
       Some e \<Rightarrow> ret (Some e)
     | None \<Rightarrow> bind (handleConnection client) (\<lambda>_. ret None))"

definition disconnectChat :: "nat \<Rightarrow> unit act" where
  "disconnectChat client =
     bind (handleDisconnect client) (\<lambda>_.
     modify (\<lambda>w. w\<lparr>w_sockets := AList.delete client (w_sockets w)\<rparr>))"

subsection \<open>Events\<close>

datatype 'a socket_ack = AckOk 'a | AckError realtime_error

definition toErrorAck :: "platform \<Rightarrow> exn \<Rightarrow> jstr option \<Rightarrow> 'a socket_ack" where
  "toErrorAck pf e conversationId = AckError (normalizeRealtimeError pf e conversationId)"

definition handleJoinConversation :: "platform \<Rightarrow> nat \<Rightarrow> jstr \<Rightarrow> jstr socket_ack act" where
  "handleJoinConversation pf client conversationId =
     bind (getClientUser ChatNamespace client) (\<lambda>user.
     catch
       (bind (getRequiredActiveParticipant pf conversationId (su_id user)) (\<lambda>_.
        bind (onSocket ChatNamespace client (joinRoom (getConversationRoom conversationId))) (\<lambda>_.
        bind (onSocket ChatNamespace client (markConversationJoined conversationId)) (\<lambda>_.
        ret (AckOk conversationId)))))
       (\<lambda>e. ret (toErrorAck pf e (Some conversationId))))"

definition handleLeaveConversation :: "nat \<Rightarrow> jstr \<Rightarrow> jstr socket_ack act" where
  "handleLeaveConversation client conversationId =
     bind (onSocket ChatNamespace client (leaveRoom (getConversationRoom conversationId))) (\<lambda>_.
     bind (onSocket ChatNamespace client (socketConversationLeft conversationId)) (\<lambda>_.
     ret (AckOk conversationId)))"

definition emitConversationPreviews :: "(jstr \<times> conversation_preview) list \<Rightarrow> unit act" where
  "emitConversationPreviews entries =
     bind (mapA (\<lambda>(userId, preview).
       emit ChatNamespace (ToRoom (getUserRoom userId)) ''conversation_preview_updated'' (PreviewPayload preview)) entries)
       (\<lambda>_. ret ())"

definition emitRealtimeMessage :: "jstr \<Rightarrow> jstr list \<Rightarrow> realtime_message \<Rightarrow> unit act" where
  "emitRealtimeMessage conversationId participantUserIds m =
     bind (emit ChatNamespace (ToRoom (getConversationRoom conversationId)) ''message_delivered'' (MessagePayload m)) (\<lambda>_.
     bind (mapA (\<lambda>userId. emit ChatNamespace (ToRoom (getUserRoom userId)) ''message_delivered'' (MessagePayload m))
       participantUserIds) (\<lambda>_. ret ()))"

definition startTask :: "background \<Rightarrow> unit act" where
  "startTask t = modify (\<lambda>w. w\<lparr>w_pending := w_pending w @ [t]\<rparr>)"

record send_payload =
  sp_conversationId :: jstr
  sp_content :: jstr
  sp_attachmentId :: "jstr option"

definition handleSendMessage :: "platform \<Rightarrow> nat \<Rightarrow> send_payload \<Rightarrow> realtime_message socket_ack act" where
  "handleSendMessage pf client p =
     bind (getClientUser ChatNamespace client) (\<lambda>user.
     catch
       (let content = trim (sp_content p); isAICommand = shouldReply content in
        bind (sendRealtimeMessage pf (sp_conversationId p) (su_id user) content (sp_attachmentId p) isAICommand) (\<lambda>result.
        bind (emitConversationPreviews (sr_previewByUserId result)) (\<lambda>_.
        bind (emitRealtimeMessage (sp_conversationId p) (map fst (sr_previewByUserId result)) (sr_message result)) (\<lambda>_.
        bind (whenA (AI_MODERATION_ENABLED (readEnv pf) \<and> content \<noteq> [])
          (startTask (AnalyzeMessage (sp_conversationId p) (rm_messageId (sr_message result)) (su_id user) content))) (\<lambda>_.
        bind (whenA (AI_CHATBOT_ENABLED (readEnv pf) \<and> shouldReply content)
          (startTask (GenerateReply (sp_conversationId p) (su_id user) content))) (\<lambda>_.
        ret (AckOk (sr_message result))))))))
       (\<lambda>e. ret (toErrorAck pf e (Some (sp_conversationId p)))))"

text \<open>The two promise chains the handler does not await; both swallow every error.\<close>

fun runBackground :: "platform \<Rightarrow> background \<Rightarrow> unit act" where
  "runBackground pf (AnalyzeMessage conversationId messageId userId content) =
     catch
       (bind (analyzeMessage pf messageId content) (\<lambda>moderationResult.
        bind (saveMessageModerationResult pf messageId moderationResult) (\<lambda>_.
        bind (emit ChatNamespace (ToRoom (getConversationRoom conversationId)) ''ai:moderation:result''
          (ModerationPayload conversationId (moderationResult\<lparr>md_messageId := messageId\<rparr>))) (\<lambda>_.
        emit ChatNamespace (ToRoom (getUserRoom userId)) ''ai:moderation:result''
          (ModerationPayload conversationId (moderationResult\<lparr>md_messageId := messageId\<rparr>))))))
       (\<lambda>_. ret ())"
| "runBackground pf (GenerateReply conversationId userId content) =
     catch
       (bind (generateResponse pf conversationId content) (\<lambda>aiContent.
        if aiContent = [] then ret ()
        else
          bind (sendAiBotMessage pf conversationId userId aiContent) (\<lambda>aiResult.
          bind (emitConversationPreviews (sr_previewByUserId aiResult)) (\<lambda>_.
          emitRealtimeMessage conversationId (map fst (sr_previewByUserId aiResult)) (sr_message aiResult)))))
       (\<lambda>_. ret ())"

definition runPending :: "platform \<Rightarrow> nat \<Rightarrow> unit act" where
  "runPending pf n =
     bind (gets w_pending) (\<lambda>tasks.
     if n < length tasks
     then bind (modify (\<lambda>w. w\<lparr>w_pending := take n tasks @ drop (Suc n) tasks\<rparr>)) (\<lambda>_. runBackground pf (tasks ! n))
     else ret ())"

definition handleMarkConversationRead :: "platform \<Rightarrow> nat \<Rightarrow> jstr \<Rightarrow> mark_read_payload socket_ack act" where
  "handleMarkConversationRead pf client conversationId =
     bind (getClientUser ChatNamespace client) (\<lambda>user.
     catch
       (bind (markConversationRead pf conversationId (su_id user)) (\<lambda>result.
        bind (buildConversationPreviewPayloads pf conversationId) (\<lambda>previews.
        bind (emitConversationPreviews previews) (\<lambda>_.
        bind (emit ChatNamespace (ToRoom (getUserRoom (su_id user))) ''conversation_read_updated'' (ReadPayload result)) (\<lambda>_.
        bind (emit ChatNamespace (ToRoom (getConversationRoom conversationId)) ''conversation_read_updated'' (ReadPayload result)) (\<lambda>_.
        ret (AckOk result)))))))
       (\<lambda>e. ret (toErrorAck pf e (Some conversationId))))"

definition handleTypingPresence :: "platform \<Rightarrow> nat \<Rightarrow> jstr \<Rightarrow> bool \<Rightarrow> (jstr \<times> bool) socket_ack act" where
  "handleTypingPresence pf client conversationId isTyping =
     bind (getClientUser ChatNamespace client) (\<lambda>user.
     catch
       (bind (getRequiredActiveParticipant pf conversationId (su_id user)) (\<lambda>_.
        bind (now pf) (\<lambda>t.
        bind (emit ChatNamespace (ToRoomExcept client (getConversationRoom conversationId)) ''typing_presence_updated''
          (TypingPresence conversationId (su_id user) isTyping (pf_isoString pf (t + 4000)))) (\<lambda>_.
        ret (AckOk (conversationId, isTyping))))))
       (\<lambda>e. ret (toErrorAck pf e (Some conversationId))))"

subsection \<open>The database under the gateway\<close>

lemma quiet_sockets [quiet_intros]:
  "quiet (onSocket ns i f)" "quiet (emit ns t ev p)" "quiet (startTask tk)" "quiet (getClientUser ns i)"
  unfolding onSocket_def emit_def startTask_def getClientUser_def
  by (rule quiet_intros frames_modify | simp)+

lemma technical_authenticateSocket [technical_intros]: "technical (authenticateSocketClient pf hs)"
  unfolding authenticateSocketClient_def by (intro technical_intros)

lemma quiet_connecting [quiet_intros]:
  "quiet (afterInit pf i hs)" "quiet (handleConnection i)" "quiet (handleDisconnect i)" "quiet (connectChat pf i hs)"
  "quiet (disconnectChat i)" "quiet (handleJoinConversation pf i c)" "quiet (handleLeaveConversation i c)"
  "quiet (emitConversationPreviews es)" "quiet (emitRealtimeMessage c us m)" "quiet (handleTypingPresence pf i c b)"
proof -
  show after: "quiet (afterInit pf i hs)" and conn: "quiet (handleConnection i)" and dis: "quiet (handleDisconnect i)"
    unfolding afterInit_def handleConnection_def handleDisconnect_def
    by (rule quiet_intros frames_modify quiet_technical technical_intros | simp)+
  show "quiet (connectChat pf i hs)" "quiet (disconnectChat i)"
    unfolding connectChat_def disconnectChat_def by (rule quiet_intros frames_modify after conn dis | simp)+
  show "quiet (handleJoinConversation pf i c)" "quiet (handleLeaveConversation i c)" "quiet (handleTypingPresence pf i c b)"
    unfolding handleJoinConversation_def handleLeaveConversation_def handleTypingPresence_def
    by (rule quiet_intros quiet_technical technical_intros | simp)+
  show "quiet (emitConversationPreviews es)" "quiet (emitRealtimeMessage c us m)"
    unfolding emitConversationPreviews_def emitRealtimeMessage_def
    by (rule quiet_intros)+
qed

text \<open>Conversely, the services leave sockets, emissions and queued work alone.\<close>

lemma wire_freshOid [wire_intros]: "frames wire (freshOid pf)"
  by (rule framesI) (simp add: freshOid_run wire_def)

lemma wire_restore [wire_intros]: "frames wire (restoreDirectParticipantsIfNeeded pf c s)"
proof (rule framesI)
  fix w
  obtain r v where run: "restoreDirectParticipantsIfNeeded pf c s w = (r, v)" by fastforce
  from restore_run [OF this] run show "wire (snd (restoreDirectParticipantsIfNeeded pf c s w)) = wire w"
    by (auto simp: wire_def)
qed

lemma wire_services [wire_intros]:
  "frames wire (sendMessage pf c s t a b)" "frames wire (sendRealtimeMessage pf c s t a b)"
  "frames wire (sendAiBotMessage pf c s t)" "frames wire (markConversationRead pf c s)"
  "frames wire (saveMessageModerationResult pf i r)" "frames wire (removeMember pf c u actor)"
  "frames wire (leaveConversation pf c u)"
proof -
  note defs = postMessage_def insertMessage_def touchConversation_def incrementUnreadForOtherParticipants_def
    attachTo_def markOwnRead_def Let_def
  show send: "frames wire (sendMessage pf c s t a b)" for c s t a b
    unfolding sendMessage_def defs
    by (rule wire_intros frames_modify wire_technical technical_intros | simp add: wire_def)+
  show "frames wire (sendRealtimeMessage pf c s t a b)"
    unfolding sendRealtimeMessage_def by (rule wire_intros send wire_technical technical_intros)+
  show "frames wire (sendAiBotMessage pf c s t)"
    unfolding sendAiBotMessage_def defs
    by (rule wire_intros frames_modify wire_technical technical_intros | simp add: wire_def)+
  show "frames wire (markConversationRead pf c s)" "frames wire (saveMessageModerationResult pf i r)"
    unfolding markConversationRead_def saveMessageModerationResult_def Let_def
    by (rule wire_intros frames_modify wire_technical technical_intros | simp add: wire_def)+
  show "frames wire (removeMember pf c u actor)" "frames wire (leaveConversation pf c u)"
    unfolding removeMember_def leaveConversation_def ChatMembership.markConversationLeft_def endParticipation_def
      createEvent_def insertEvent_def
    by (rule wire_intros frames_modify wire_technical technical_intros | simp add: wire_def)+
qed

lemmas wire_assistants [wire_intros] = consults_assistants [THEN wire_consults]

subsection \<open>Rooms\<close>

lemma getConversationRoom_inject [simp]: "getConversationRoom a = getConversationRoom b \<longleftrightarrow> a = b"
  by (simp add: getConversationRoom_def)

lemma rooms_apart [simp]: "getConversationRoom a \<noteq> getUserRoom b" "getUserRoom b \<noteq> getConversationRoom a"
  by (simp_all add: getConversationRoom_def getUserRoom_def js_def)

text \<open>
  A connected socket has a user, and it is in no other room than the room of that user and, in the chat
  namespace, the rooms of the conversations it has joined.
\<close>

definition socketOk :: "socket_data \<Rightarrow> bool" where
  "socketOk d \<longleftrightarrow>
     (case sock_user d of
        None \<Rightarrow> False
      | Some u \<Rightarrow> set (sock_rooms d) \<subseteq> insert (getUserRoom (su_id u))
          (if sock_namespace d = ChatNamespace then getConversationRoom ` set (getJoinedConversationIds d) else {}))"

definition roomsOk :: "world \<Rightarrow> bool" where
  "roomsOk w \<longleftrightarrow> distinct (map fst (w_sockets w)) \<and> list_all (\<lambda>(i, d). socketOk d) (w_sockets w)"

lemma roomsOk_cong: "w_sockets v = w_sockets w \<Longrightarrow> roomsOk v = roomsOk w"
  by (simp add: roomsOk_def)

lemma roomsOk_wire: "frames wire m \<Longrightarrow> keeps roomsOk m"
  by (erule frames_keeps) (simp add: wire_def roomsOk_def)

lemma roomsOk_technical: "technical m \<Longrightarrow> keeps roomsOk m"
  by (intro roomsOk_wire wire_technical)

lemma roomsOk_other:
  "keeps roomsOk (emit ns t ev p)" "keeps roomsOk (startTask tk)"
  by (rule keepsI, simp add: emit_def startTask_def modify_def roomsOk_def)+

lemma mapSocket_fst [simp]: "map fst (mapSocket ns i f ss) = map fst ss"
  by (induction ss) (auto simp: mapSocket_def)

lemma mapSocket_elem:
  "(j, e) \<in> set (mapSocket ns i f ss) \<Longrightarrow>
     (j, e) \<in> set ss \<or> (\<exists>d. (j, d) \<in> set ss \<and> j = i \<and> sock_namespace d = ns \<and> e = f d)"
  by (auto simp: mapSocket_def split: if_splits)

lemma mapSocket_twice:
  assumes "\<And>d. sock_namespace (f d) = sock_namespace d"
  shows "mapSocket ns i g (mapSocket ns i f ss) = mapSocket ns i (g \<circ> f) ss"
  using assms by (induction ss) (auto simp: mapSocket_def)

lemma roomsOk_onSocket:
  assumes "\<And>d. socketOk d \<Longrightarrow> sock_namespace d = ns \<Longrightarrow> socketOk (f d)"
  shows "keeps roomsOk (onSocket ns i f)"
  using assms by (intro keepsI) (fastforce simp: onSocket_def modify_def roomsOk_def list_all_iff dest: mapSocket_elem)

lemma onSocket_bind_twice:
  assumes "\<And>d. sock_namespace (f d) = sock_namespace d"
  shows "bind (onSocket ns i f) (\<lambda>_. bind (onSocket ns i g) h) = bind (onSocket ns i (g \<circ> f)) h"
  by (intro ext) (simp add: onSocket_def bind_def modify_def mapSocket_twice [OF assms])

lemma socketOk_steps:
  "socketOk d \<Longrightarrow> sock_namespace d = ChatNamespace \<Longrightarrow>
     socketOk ((markConversationJoined c \<circ> joinRoom (getConversationRoom c)) d)"
  "socketOk d \<Longrightarrow> sock_namespace d = ChatNamespace \<Longrightarrow>
     socketOk (socketConversationLeft c (leaveRoom (getConversationRoom c) d))"
  by (auto simp: socketOk_def markConversationJoined_def joinRoom_def socketConversationLeft_def leaveRoom_def
      getJoinedConversationIds_def Let_def split: option.splits)

lemma namespace_rooms [simp]:
  "sock_namespace (joinRoom r d) = sock_namespace d" "sock_namespace (leaveRoom r d) = sock_namespace d"
  by (simp_all add: joinRoom_def leaveRoom_def)

lemma technical_getClientUser [technical_intros]: "technical (getClientUser ns i)"
  unfolding getClientUser_def by (intro technical_intros)

lemma roomsOk_accept:
  assumes "socketOk d" shows "keeps roomsOk (modify (\<lambda>w. w\<lparr>w_sockets := AList.update i d (w_sockets w)\<rparr>))"
proof (rule keeps_modify)
  fix w assume w: "roomsOk w"
  have "set (AList.update i d xs) \<subseteq> insert (i, d) (set xs)" for xs
    by (induction xs) auto
  with w assms show "roomsOk (w\<lparr>w_sockets := AList.update i d (w_sockets w)\<rparr>)"
    by (fastforce simp: roomsOk_def list_all_iff distinct_update)
qed

lemma roomsOk_delete: "keeps roomsOk (modify (\<lambda>w. w\<lparr>w_sockets := AList.delete i (w_sockets w)\<rparr>))"
proof (rule keeps_modify)
  fix w assume w: "roomsOk w"
  have "AList.delete i (w_sockets w) = filter (\<lambda>(k, _). i \<noteq> k) (w_sockets w)" by (simp add: AList.delete_eq)
  with w distinct_delete [of "w_sockets w" i] show "roomsOk (w\<lparr>w_sockets := AList.delete i (w_sockets w)\<rparr>)"
    by (auto simp: roomsOk_def list_all_iff)
qed

lemma roomsOk_ownRoom:
  assumes "\<And>u. keeps roomsOk (k u)"
  shows "keeps roomsOk (bind (getClientUser ns i) (\<lambda>u. bind (onSocket ns i (joinRoom (getUserRoom (su_id u)))) (\<lambda>_. k u)))"
proof (rule keepsI)
  fix w assume w: "roomsOk w"
  show "roomsOk (snd (bind (getClientUser ns i) (\<lambda>u. bind (onSocket ns i (joinRoom (getUserRoom (su_id u)))) (\<lambda>_. k u)) w))"
  proof (cases "\<exists>d u. socketOf ns i w = Some d \<and> sock_user d = Some u")
    case False
    with w show ?thesis by (auto simp: getClientUser_def bind_def gets_def throw_def split: option.splits)
  next
    case True
    then obtain d u where d: "map_of (w_sockets w) i = Some d" "sock_user d = Some u" "getClientUser ns i w = (Inr u, w)"
      by (auto simp: getClientUser_def socketOf_def bind_def gets_def ret_def split: option.splits if_splits)
    let ?v = "snd (onSocket ns i (joinRoom (getUserRoom (su_id u))) w)"
    have "d' = d" if "(i, d') \<in> set (w_sockets w)" for d'
      using w d(1) that by (auto simp: roomsOk_def)
    moreover have "socketOk (joinRoom (getUserRoom (su_id u)) d)" if "socketOk d"
      using that d(2) by (auto simp: socketOk_def joinRoom_def getJoinedConversationIds_def split: option.splits if_splits)
    ultimately have "socketOk e" if "(j, e) \<in> set (w_sockets ?v)" for j e
      using w mapSocket_elem [of j e ns i "joinRoom (getUserRoom (su_id u))" "w_sockets w"] that
      by (fastforce simp: onSocket_def modify_def roomsOk_def list_all_iff)
    then have "list_all (\<lambda>(i, d). socketOk d) (w_sockets ?v)" by (auto simp: list_all_iff)
    then have "roomsOk ?v" using w by (simp add: roomsOk_def onSocket_def modify_def)
    with d(3) keepsD [OF assms] show ?thesis by (simp add: bind_def onSocket_def modify_def)
  qed
qed

lemma roomsOk_joining:
  "keeps roomsOk (handleJoinConversation pf i c)" "keeps roomsOk (handleLeaveConversation i c)"
  "keeps roomsOk (handleTypingPresence pf i c b)"
proof -
  show "keeps roomsOk (handleJoinConversation pf i c)"
    unfolding handleJoinConversation_def onSocket_bind_twice [of "joinRoom r" for r, OF namespace_rooms(1)]
    by (rule keeps_intros roomsOk_onSocket roomsOk_technical technical_intros socketOk_steps(1) | assumption)+
  have "socketOk ((socketConversationLeft c \<circ> leaveRoom (getConversationRoom c)) d)"
    if "socketOk d" "sock_namespace d = ChatNamespace" for d
    using socketOk_steps(2) [OF that] by simp
  then show "keeps roomsOk (handleLeaveConversation i c)"
    unfolding handleLeaveConversation_def onSocket_bind_twice [of "leaveRoom r" for r, OF namespace_rooms(2)]
    by (intro keeps_intros roomsOk_onSocket)
  show "keeps roomsOk (handleTypingPresence pf i c b)"
    unfolding handleTypingPresence_def
    by (rule keeps_intros roomsOk_other roomsOk_technical technical_intros)+
qed

lemma roomsOk_emits:
  "keeps roomsOk (emitConversationPreviews es)" "keeps roomsOk (emitRealtimeMessage c us m)"
  unfolding emitConversationPreviews_def emitRealtimeMessage_def
  by (rule keeps_intros roomsOk_other)+

lemmas roomsOk_services = wire_services [THEN roomsOk_wire]

lemmas roomsOk_assistants = wire_assistants [THEN roomsOk_wire]

lemma roomsOk_background: "keeps roomsOk (runBackground pf t)"
proof (cases t)
  case (AnalyzeMessage c m u x)
  then show ?thesis
    by (simp, intro keeps_intros roomsOk_other roomsOk_services roomsOk_assistants)
next
  case (GenerateReply c u x)
  then show ?thesis
    by (simp, intro keeps_intros roomsOk_emits roomsOk_services roomsOk_assistants)
qed

text \<open>
  A socket only ever sits in the room of the user it authenticated as and in the rooms of
  conversations it joined: every event of the gateway, every connection, disconnection and background task
  keeps it so.
\<close>

theorem rooms_stay_own:
  "keeps roomsOk (connectChat pf i hs) \<and> keeps roomsOk (disconnectChat i) \<and>
   keeps roomsOk (handleJoinConversation pf i c) \<and> keeps roomsOk (handleLeaveConversation i c) \<and>
   keeps roomsOk (handleSendMessage pf i p) \<and> keeps roomsOk (handleMarkConversationRead pf i c) \<and>
   keeps roomsOk (handleTypingPresence pf i c b) \<and> keeps roomsOk (runPending pf n)"
proof (intro conjI roomsOk_joining)
  have accept: "socketOk \<lparr>sock_namespace = ChatNamespace, sock_user = Some u, sock_joined = Some [], sock_rooms = []\<rparr>" for u
    by (simp add: socketOk_def)
  show "keeps roomsOk (connectChat pf i hs)"
    unfolding connectChat_def afterInit_def handleConnection_def
    by (rule roomsOk_ownRoom keeps_intros roomsOk_accept accept roomsOk_other roomsOk_technical technical_intros)+
  show "keeps roomsOk (disconnectChat i)"
    unfolding disconnectChat_def handleDisconnect_def
    by (rule keeps_intros roomsOk_onSocket roomsOk_delete socketOk_steps(2) | assumption)+
  show "keeps roomsOk (handleSendMessage pf i p)"
    unfolding handleSendMessage_def Let_def
    by (rule keeps_intros roomsOk_emits roomsOk_other roomsOk_services roomsOk_technical technical_intros)+
  show "keeps roomsOk (handleMarkConversationRead pf i c)"
    unfolding handleMarkConversationRead_def
    by (rule keeps_intros roomsOk_emits roomsOk_other roomsOk_services roomsOk_technical technical_intros)+
  show "keeps roomsOk (runPending pf n)"
    unfolding runPending_def
    by (rule keeps_intros roomsOk_background keeps_modify | simp add: roomsOk_def)+
qed

subsection \<open>Delivery\<close>

definition emissionOf :: "namespace \<Rightarrow> emit_target \<Rightarrow> string \<Rightarrow> payload \<Rightarrow> (nat \<times> socket_data) list \<Rightarrow> emission" where
  "emissionOf ns target event p ss = \<lparr>em_namespace = ns, em_target = target, em_event = event,
     em_recipients = recipients ns target ss, em_payload = p\<rparr>"

lemma emit_run: "emit ns t ev p w = (Inr (), w\<lparr>w_emitted := w_emitted w @ [emissionOf ns t ev p (w_sockets w)]\<rparr>)"
  by (simp add: emit_def modify_def emissionOf_def)

lemma mapA_emit_run:
  "mapA (\<lambda>x. emit ns (t x) ev (p x)) xs w = (Inr (map (\<lambda>_. ()) xs),
     w\<lparr>w_emitted := w_emitted w @ map (\<lambda>x. emissionOf ns (t x) ev (p x) (w_sockets w)) xs\<rparr>)"
  by (induction xs arbitrary: w) (simp_all add: bind_def ret_def emit_run)

lemma emitConversationPreviews_run:
  "emitConversationPreviews es w = (Inr (), w\<lparr>w_emitted := w_emitted w @
     map (\<lambda>(u, p). emissionOf ChatNamespace (ToRoom (getUserRoom u)) ''conversation_preview_updated'' (PreviewPayload p)
       (w_sockets w)) es\<rparr>)"
  using mapA_emit_run [of ChatNamespace "\<lambda>x. ToRoom (getUserRoom (fst x))" "''conversation_preview_updated''"
      "\<lambda>x. PreviewPayload (snd x)" es w]
  by (simp add: emitConversationPreviews_def bind_def ret_def split_def)

lemma emitRealtimeMessage_run:
  "emitRealtimeMessage c us m w = (Inr (), w\<lparr>w_emitted := w_emitted w @
     emissionOf ChatNamespace (ToRoom (getConversationRoom c)) ''message_delivered'' (MessagePayload m) (w_sockets w) #
     map (\<lambda>u. emissionOf ChatNamespace (ToRoom (getUserRoom u)) ''message_delivered'' (MessagePayload m) (w_sockets w)) us\<rparr>)"
  by (simp add: emitRealtimeMessage_def bind_def ret_def emit_run mapA_emit_run)

text \<open>What a delivered message makes the gateway emit.\<close>

definition sentEmissions ::
    "jstr \<Rightarrow> (jstr \<times> conversation_preview) list \<Rightarrow> realtime_message \<Rightarrow> (nat \<times> socket_data) list \<Rightarrow> emission list" where
  "sentEmissions c previews m ss =
     map (\<lambda>(u, pr). emissionOf ChatNamespace (ToRoom (getUserRoom u)) ''conversation_preview_updated'' (PreviewPayload pr) ss)
       previews @
     emissionOf ChatNamespace (ToRoom (getConversationRoom c)) ''message_delivered'' (MessagePayload m) ss #
     map (\<lambda>u. emissionOf ChatNamespace (ToRoom (getUserRoom u)) ''message_delivered'' (MessagePayload m) ss) (map fst previews)"

lemma sent_to_user:
  assumes "u \<in> set (map fst previews)"
  shows "emissionOf ChatNamespace (ToRoom (getUserRoom u)) ''message_delivered'' (MessagePayload m) ss \<in> set (sentEmissions c previews m ss)"
  using imageI [OF assms, of "\<lambda>u. emissionOf ChatNamespace (ToRoom (getUserRoom u)) ''message_delivered'' (MessagePayload m) ss"]
  unfolding sentEmissions_def set_append list.set set_map by blast

lemma getClientUser_state: "\<exists>x. getClientUser ns i w = (x, w)"
  by (simp add: getClientUser_def bind_def gets_def ret_def throw_def split: option.split)

lemma room_recipients:
  "(i, d) \<in> set ss \<Longrightarrow> sock_namespace d = ns \<Longrightarrow> room \<in> set (sock_rooms d) \<Longrightarrow> i \<in> set (recipients ns (ToRoom room) ss)"
  by (force simp: recipients_def)

lemma previews_of_active:
  assumes "buildConversationPreviewPayloads pf c w = (Inr es, w')" "parseOid (pf_oids pf) c = Some cid"
  shows "set (map fst es) = (\<lambda>q. idStr pf (part_userId q)) ` {q \<in> set (w_participants w). part_conversationId q = cid \<and> part_status q = Active}"
proof -
  from assms obtain ps v where ps: "getActiveParticipants pf c w = (Inr ps, v)" and
    es: "mapA (\<lambda>p. bind (buildConversationPreviewPayload pf c (idStr pf (part_userId p))) (\<lambda>preview.
       ret (idStr pf (part_userId p), preview))) ps v = (Inr es, w')"
    by (auto simp: buildConversationPreviewPayloads_def bind_Inr_iff)
  have "list_all2 (\<lambda>p e. fst e = idStr pf (part_userId p)) ps es"
    by (rule mapA_result [OF es]) (auto simp: bind_Inr_iff ret_def)
  then have "map fst es = map (\<lambda>p. idStr pf (part_userId p)) ps" by (induction rule: list_all2_induct) auto
  moreover have "set ps = {q \<in> set (w_participants w). part_conversationId q = cid \<and> part_status q = Active}"
    using ps assms(2) by (auto simp: getActiveParticipants_def toObjectId_def bind_def gets_def ret_def)
  ultimately show ?thesis by auto
qed

lemma handleSendMessage_ok:
  assumes "handleSendMessage pf client p w = (Inr (AckOk m), w')"
  obtains user result v tasks where "getClientUser ChatNamespace client w = (Inr user, w)"
    "sendRealtimeMessage pf (sp_conversationId p) (su_id user) (trim (sp_content p)) (sp_attachmentId p)
       (shouldReply (trim (sp_content p))) w = (Inr result, v)"
    "m = sr_message result"
    "w' = v\<lparr>w_emitted := w_emitted v @
       sentEmissions (sp_conversationId p) (sr_previewByUserId result) m (w_sockets v), w_pending := w_pending v @ tasks\<rparr>"
proof -
  obtain x where x: "getClientUser ChatNamespace client w = (x, w)"
    using getClientUser_state by blast
  show ?thesis
  proof (cases x)
    case (Inl e)
    with assms x show ?thesis by (simp add: handleSendMessage_def bind_def)
  next
    case (Inr user)
    obtain r v where run: "sendRealtimeMessage pf (sp_conversationId p) (su_id user) (trim (sp_content p)) (sp_attachmentId p)
       (shouldReply (trim (sp_content p))) w = (r, v)" by fastforce
    show ?thesis
    proof (cases r)
      case (Inl e)
      with assms x Inr run show ?thesis
        by (simp add: handleSendMessage_def bind_def catch_def ret_def toErrorAck_def Let_def)
    next
      case (Inr result)
      define check where "check = (AI_MODERATION_ENABLED (readEnv pf) \<and> trim (sp_content p) \<noteq> [])"
      define bot where "bot = (AI_CHATBOT_ENABLED (readEnv pf) \<and> shouldReply (trim (sp_content p)))"
      show ?thesis
        by (rule that [of user result v
              "(if check then [AnalyzeMessage (sp_conversationId p) (rm_messageId (sr_message result)) (su_id user) (trim (sp_content p))] else []) @
               (if bot then [GenerateReply (sp_conversationId p) (su_id user) (trim (sp_content p))] else [])"])
          (use assms x \<open>x = Inr user\<close> run Inr in \<open>auto simp: handleSendMessage_def bind_def catch_def ret_def
             emitConversationPreviews_run emitRealtimeMessage_run whenA_def startTask_def modify_def sentEmissions_def Let_def
             check_def [symmetric] bot_def [symmetric] split: if_splits\<close>)
    qed
  qed
qed

text \<open>
  When a send event is acknowledged, the message is delivered to every connected socket of every user
  who is an active participant of the conversation afterwards, the sender included: the socket is among the
  recipients of a delivery that this event emitted.
\<close>

theorem send_event_delivery:
  assumes "handleSendMessage pf client p w = (Inr (AckOk m), w')"
    and "parseOid (pf_oids pf) (sp_conversationId p) = Some cid"
    and "q \<in> set (w_participants w')" "part_conversationId q = cid" "part_status q = Active"
    and "(i, d) \<in> set (w_sockets w)" "sock_namespace d = ChatNamespace"
      "getUserRoom (idStr pf (part_userId q)) \<in> set (sock_rooms d)"
  shows "\<exists>e\<in>set (drop (length (w_emitted w)) (w_emitted w')). em_event e = ''message_delivered'' \<and>
    em_payload e = MessagePayload m \<and> i \<in> set (em_recipients e)"
proof -
  from assms(1) obtain user result v tasks where user: "getClientUser ChatNamespace client w = (Inr user, w)" and
    run: "sendRealtimeMessage pf (sp_conversationId p) (su_id user) (trim (sp_content p)) (sp_attachmentId p)
       (shouldReply (trim (sp_content p))) w = (Inr result, v)" and m: "m = sr_message result" and
    w': "w' = v\<lparr>w_emitted := w_emitted v @
       sentEmissions (sp_conversationId p) (sr_previewByUserId result) m (w_sockets v), w_pending := w_pending v @ tasks\<rparr>"
    by (rule handleSendMessage_ok)
  have wire: "w_sockets v = w_sockets w" "w_emitted v = w_emitted w"
    using frames_run [OF wire_services(2) run] by (simp_all add: wire_def)
  from run obtain v0 where pre: "buildConversationPreviewPayloads pf (sp_conversationId p) v0 = (Inr (sr_previewByUserId result), v)"
    by (auto simp: sendRealtimeMessage_def bind_Inr_iff ret_def split: prod.splits)
  have "w_participants v0 = w_participants v"
    using dataOf_eqD(5) [OF frames_run [OF technical_reading(3) pre]] by simp
  with previews_of_active [OF pre assms(2)] assms(3-5) w'
  have "idStr pf (part_userId q) \<in> set (map fst (sr_previewByUserId result))" by auto
  then have "emissionOf ChatNamespace (ToRoom (getUserRoom (idStr pf (part_userId q)))) ''message_delivered'' (MessagePayload m) (w_sockets w)
      \<in> set (drop (length (w_emitted w)) (w_emitted w'))"
    using sent_to_user by (simp add: w' wire)
  then show ?thesis
    by (rule rev_bexI) (use room_recipients [OF assms(6-8)] in \<open>simp add: emissionOf_def\<close>)
qed

text \<open>
  Removing a member or leaving a conversation does not take the user's sockets out of the
  conversation's room: a socket that has joined before goes on receiving every message delivered there.
\<close>

theorem removed_member_still_receives:
  assumes "(i, d) \<in> set (w_sockets w)" "sock_namespace d = ChatNamespace" "getConversationRoom c \<in> set (sock_rooms d)"
    and "w\<^sub>1 \<in> {snd (removeMember pf c u actor w), snd (leaveConversation pf c u w)}"
    and "handleSendMessage pf client p w\<^sub>1 = (Inr (AckOk m), w\<^sub>2)" "sp_conversationId p = c"
  shows "\<exists>e\<in>set (drop (length (w_emitted w)) (w_emitted w\<^sub>2)). em_event e = ''message_delivered'' \<and>
    em_payload e = MessagePayload m \<and> i \<in> set (em_recipients e)"
proof -
  have "wire w\<^sub>1 = wire w"
    using assms(4) frames_run [OF wire_services(6), of pf c u actor w] frames_run [OF wire_services(7), of pf c u w]
    by (auto simp: prod_eq_iff)
  moreover from assms(5) obtain user result v tasks where "getClientUser ChatNamespace client w\<^sub>1 = (Inr user, w\<^sub>1)" and
    run: "sendRealtimeMessage pf (sp_conversationId p) (su_id user) (trim (sp_content p)) (sp_attachmentId p)
       (shouldReply (trim (sp_content p))) w\<^sub>1 = (Inr result, v)" and "m = sr_message result" and
    w': "w\<^sub>2 = v\<lparr>w_emitted := w_emitted v @
       sentEmissions (sp_conversationId p) (sr_previewByUserId result) m (w_sockets v), w_pending := w_pending v @ tasks\<rparr>"
    by (rule handleSendMessage_ok)
  moreover have "wire v = wire w\<^sub>1" by (rule frames_run [OF wire_services(2) run])
  ultimately have wire: "w_sockets v = w_sockets w" "w_emitted v = w_emitted w" by (simp_all add: wire_def)
  then have "emissionOf ChatNamespace (ToRoom (getConversationRoom c)) ''message_delivered'' (MessagePayload m) (w_sockets w)
      \<in> set (drop (length (w_emitted w)) (w_emitted w\<^sub>2))"
    by (simp add: w' assms(6) sentEmissions_def)
  then show ?thesis
    by (rule rev_bexI) (use room_recipients [OF assms(1-3)] in \<open>simp add: emissionOf_def\<close>)
qed

subsection \<open>Answers\<close>

lemma toRealtimeMessagePayload_total:
  "\<exists>r w'. toRealtimeMessagePayload pf m w = (Inr r, w') \<and> rm_messageId r = idStr pf (msg_id m)"
proof -
  obtain x v where x: "decryptForDisplay pf (msg_content m) (msg_reverseEncryptionState m)
      (idStr pf (msg_senderId m)) (idStr pf (msg_conversationId m)) w = (x, v)" by fastforce
  obtain name avatar where "buildSenderPresentation pf (msg_senderId m) v = (Inr (name, avatar), v)"
    using buildSenderPresentation_run by blast
  with x show ?thesis
    by (cases x) (simp_all add: toRealtimeMessagePayload_def catch_def bind_def ret_def realtimePayload_def)
qed

lemma previews_total:
  assumes "parseOid (pf_oids pf) c = Some cid"
  shows "\<exists>es w'. buildConversationPreviewPayloads pf c w = (Inr es, w')"
proof -
  let ?f = "\<lambda>q. bind (buildConversationPreviewPayload pf c (idStr pf (part_userId q))) (\<lambda>preview.
       ret (idStr pf (part_userId q), preview))"
  have one: "\<exists>y v'. bind (buildConversationPreviewPayload pf c (idStr pf (part_userId q))) (\<lambda>preview.
       ret (idStr pf (part_userId q), preview)) v = (Inr y, v') \<and> True" for q v
  proof (cases "latestMessage pf cid (w_messages v)")
    case None
    with assms show ?thesis
      by (simp add: buildConversationPreviewPayload_def getActiveParticipant_def toObjectId_def castObjectId_def bind_def
          gets_def ret_def now_run Let_def split: option.split)
  next
    case (Some l)
    obtain d v' where "toDisplayMessage pf l v = (Inr d, v')" using toDisplayMessage_total by blast
    with Some assms show ?thesis
      by (simp add: buildConversationPreviewPayload_def getActiveParticipant_def toObjectId_def castObjectId_def bind_def
          gets_def ret_def now_run Let_def split: option.split)
  qed
  obtain ps where ps: "getActiveParticipants pf c w = (Inr ps, w)"
    using assms by (simp add: getActiveParticipants_def toObjectId_def bind_def gets_def ret_def)
  moreover obtain es w' where "mapA ?f ps w = (Inr es, w')"
    using mapA_total [of ps ?f "\<lambda>_ _. True" w] one by blast
  ultimately show ?thesis by (simp add: buildConversationPreviewPayloads_def bind_Inr)
qed

lemma sendRealtime_cases:
  assumes "sendRealtimeMessage pf c s t a b w = (r, w')"
  shows "case r of
      Inr result \<Rightarrow> \<exists>m. w_messages w' = w_messages w @ [m] \<and> rm_messageId (sr_message result) = idStr pf (msg_id m)
    | Inl e \<Rightarrow> w_messages w' = w_messages w \<and> w_attachments w' = w_attachments w"
proof -
  define send where "send = (if givenId a \<noteq> None then sendMessage pf c s t a b
     else if b then sendMessage pf c s t None True else sendMessage pf c s t None False)"
  then obtain a' b' where send': "send = sendMessage pf c s t a' b'" by (auto split: if_splits)
  note run = assms [unfolded sendRealtimeMessage_def send_def [symmetric] send']
  obtain x v where x: "sendMessage pf c s t a' b' w = (x, v)" by fastforce
  show ?thesis
  proof (cases x)
    case (Inl e)
    have "messagesSat (\<lambda>ms as. ms = w_messages w \<and> as = w_attachments w) v"
      by (rule atomicOnD [OF atomic_sendMessage _ x [unfolded Inl]]) (simp add: messagesSat_def)
    moreover have "r = Inl e" "w' = v"
      using run x Inl by (simp_all add: bind_def)
    ultimately show ?thesis by (simp add: messagesSat_def)
  next
    case (Inr mr)
    obtain m restored where mr: "mr = (m, restored)" by fastforce
    from x [unfolded Inr mr] obtain cid where cid: "parseOid (pf_oids pf) c = Some cid" and
      ms: "w_messages v = w_messages w @ [m]" by (rule sendMessage_Inr)
    obtain y u where y: "toRealtimeMessagePayload pf m v = (Inr y, u)" "rm_messageId y = idStr pf (msg_id m)"
      using toRealtimeMessagePayload_total by blast
    obtain es u' where es: "buildConversationPreviewPayloads pf c u = (Inr es, u')" using previews_total [OF cid] by blast
    have "r = Inr \<lparr>sr_message = y, sr_previewByUserId = es, sr_restoredParticipants = restored\<rparr>" "w' = u'"
      using run x Inr mr y(1) es by (simp_all add: bind_def ret_def)
    moreover have "w_messages u' = w_messages v"
      using dataOf_eqD(6) [OF frames_run [OF technical_reading(3) es]] dataOf_eqD(6) [OF frames_run [OF technical_display(3) y(1)]]
      by simp
    ultimately show ?thesis using ms y(2) by simp
  qed
qed

text \<open>
  A send event of a connected socket is always answered. A positive answer means that exactly one message
  was stored, and names it; an error answer means that no message or attachment was changed, nothing was
  emitted and no background work was started.
\<close>

theorem send_event_answer:
  "case handleSendMessage pf client p w of
     (Inl e, w') \<Rightarrow> w' = w \<and> \<not> (\<exists>d u. socketOf ChatNamespace client w = Some d \<and> sock_user d = Some u)
   | (Inr (AckOk m), w') \<Rightarrow> \<exists>x. w_messages w' = w_messages w @ [x] \<and> rm_messageId m = idStr pf (msg_id x)
   | (Inr (AckError e), w') \<Rightarrow>
       w_messages w' = w_messages w \<and> w_attachments w' = w_attachments w \<and>
       w_emitted w' = w_emitted w \<and> w_pending w' = w_pending w"
proof -
  obtain x where x: "getClientUser ChatNamespace client w = (x, w)" using getClientUser_state by blast
  show ?thesis
  proof (cases x)
    case (Inl e)
    with x show ?thesis
      by (auto simp: handleSendMessage_def bind_def getClientUser_def gets_def ret_def throw_def split: option.splits)
  next
    case (Inr user)
    obtain r v where run: "sendRealtimeMessage pf (sp_conversationId p) (su_id user) (trim (sp_content p)) (sp_attachmentId p)
       (shouldReply (trim (sp_content p))) w = (r, v)" by fastforce
    have wire: "w_emitted v = w_emitted w" "w_pending v = w_pending w"
      using frames_run [OF wire_services(2) run] by (simp_all add: wire_def)
    from sendRealtime_cases [OF run] wire x Inr run show ?thesis
      by (cases r) (auto simp: handleSendMessage_def bind_def catch_def ret_def toErrorAck_def Let_def
          emitConversationPreviews_run emitRealtimeMessage_run whenA_def startTask_def modify_def)
  qed
qed

end
