(* ===== verification/ChatController.thy ===== *)
theory ChatController
  imports AuthController ChatGateway
begin

text \<open>
  \<open>chat/chat.controller.ts\<close>: the HTTP routes of the chat. Every route runs behind the access token guard of
  \<open>auth/guards/access-token-auth.guard.ts\<close>; a handler gets the identifier of the user the guard has put into the
  request. \<open>serveChat\<close> is the whole controller: the guard, the route that was asked for, and its answer.
\<close>

subsection \<open>Requests and answers\<close>

record create_conversation_dto =
  cd_type :: conversation_type
  cd_title :: "jstr option"
  cd_participantIds :: "jstr list"

record messages_query =
  mq_before :: "jstr option"
  mq_limit :: "jstr option"

datatype chat_answer =
    ChatStatus "session_user option"
  | ConversationList "conversation_summary list"
  | ConversationCreated conversation
  | MessageList "chat_message_payload list"
  | SearchResult "message_search_payload list"
  | MemberAdded bool
  | Done string
  | ReadMarked mark_read_payload
  | UploadPrepared presigned_upload
  | UploadMarked attachment_payload
  | AttachmentStatus attachment_state
  | AttachmentConfirmed realtime_message
  | DownloadPrepared presigned_download
  | AttachmentList "attachment_item list \<times> bool"
  | EventList "membership_event list"

abbreviation answerWith :: "('a \<Rightarrow> chat_answer) \<Rightarrow> 'a act \<Rightarrow> chat_answer act" where
  "answerWith wrap m \<equiv> bind m (\<lambda>r. ret (wrap r))"

subsection \<open>Handlers\<close>

definition chatStatus :: "session_user option \<Rightarrow> chat_answer act" where
  "chatStatus user = ret (ChatStatus user)"

definition listConversationsRoute :: "platform \<Rightarrow> jstr \<Rightarrow> chat_answer act" where
  "listConversationsRoute pf userId = answerWith ConversationList (listConversationsForUser pf userId)"

definition createConversationRoute :: "platform \<Rightarrow> jstr \<Rightarrow> create_conversation_dto \<Rightarrow> chat_answer act" where
  "createConversationRoute pf userId dto =
     (if cd_type dto = Direct \<and> length (cd_participantIds dto) \<noteq> 1
      then throw (BadRequestException (errorBody ''INVALID_PARTICIPANT_COUNT''
             ''Direct conversation requires exactly one other participant''))
      else answerWith ConversationCreated
             (createConversation pf (cd_type dto) userId (cd_participantIds dto) (cd_title dto)))"

definition pageLimit :: "platform \<Rightarrow> jstr option \<Rightarrow> jsnum" where
  "pageLimit pf limit =
     (case limit of
        None \<Rightarrow> Fin 10
      | Some l \<Rightarrow> if l \<noteq> [] then minNum (pf_number pf l) 50 else Fin 10)"

definition getMessagesRoute :: "platform \<Rightarrow> jstr \<Rightarrow> jstr \<Rightarrow> messages_query \<Rightarrow> chat_answer act" where
  "getMessagesRoute pf userId conversationId query =
     bind (requireActiveParticipant pf conversationId userId) (\<lambda>_.
     answerWith MessageList (getMessages pf conversationId (mq_before query) (pageLimit pf (mq_limit query))))"

definition searchMessagesRoute :: "platform \<Rightarrow> jstr \<Rightarrow> jstr \<Rightarrow> jstr option \<Rightarrow> chat_answer act" where
  "searchMessagesRoute pf userId conversationId q =
     bind (requireActiveParticipant pf conversationId userId) (\<lambda>_.
     answerWith SearchResult (searchMessages pf conversationId (case q of None \<Rightarrow> [] | Some t \<Rightarrow> t)))"

definition addMemberRoute :: "platform \<Rightarrow> jstr \<Rightarrow> jstr \<Rightarrow> jstr \<Rightarrow> chat_answer act" where
  "addMemberRoute pf actorId conversationId userId =
     bind (requireActiveParticipant pf conversationId actorId) (\<lambda>_.
     answerWith MemberAdded (addMember pf conversationId userId actorId))"

definition removeMemberRoute :: "platform \<Rightarrow> jstr \<Rightarrow> jstr \<Rightarrow> jstr \<Rightarrow> chat_answer act" where
  "removeMemberRoute pf actorId conversationId userId =
     bind (requireAdminOrOwner pf conversationId actorId) (\<lambda>_.
     bind (removeMember pf conversationId userId actorId) (\<lambda>_.
     ret (Done ''removed'')))"

definition leaveConversationRoute :: "platform \<Rightarrow> jstr \<Rightarrow> jstr \<Rightarrow> chat_answer act" where
  "leaveConversationRoute pf userId conversationId =
     bind (requireActiveParticipant pf conversationId userId) (\<lambda>_.
     bind (leaveConversation pf conversationId userId) (\<lambda>_.
     ret (Done ''left'')))"

definition deleteConversationRoute :: "platform \<Rightarrow> jstr \<Rightarrow> jstr \<Rightarrow> chat_answer act" where
  "deleteConversationRoute pf userId conversationId =
     bind (requireActiveParticipant pf conversationId userId) (\<lambda>_.
     bind (deleteConversationForUser pf conversationId userId) (\<lambda>_.
     ret (Done ''deleted'')))"

definition markConversationReadRoute :: "platform \<Rightarrow> jstr \<Rightarrow> jstr \<Rightarrow> jstr \<Rightarrow> chat_answer act" where
  "markConversationReadRoute pf userId conversationId bodyConversationId =
     (if bodyConversationId \<noteq> conversationId
      then throw (BadRequestException (errorBody ''CONVERSATION_MISMATCH''
             ''Conversation ID in body must match route param''))
      else
        bind (requireActiveParticipant pf conversationId userId) (\<lambda>_.
        answerWith ReadMarked (markConversationRead pf conversationId userId)))"

definition presignedUploadRoute :: "platform \<Rightarrow> jstr \<Rightarrow> upload_input \<Rightarrow> chat_answer act" where
  "presignedUploadRoute pf userId dto = answerWith UploadPrepared (generatePresignedUploadUrl pf userId dto)"

definition attachmentUploadedRoute :: "platform \<Rightarrow> jstr \<Rightarrow> jstr \<Rightarrow> jstr \<Rightarrow> chat_answer act" where
  "attachmentUploadedRoute pf userId conversationId attachmentId =
     answerWith UploadMarked (markAttachmentUploaded pf conversationId attachmentId userId)"

definition attachmentStatusRoute :: "platform \<Rightarrow> jstr \<Rightarrow> jstr \<Rightarrow> chat_answer act" where
  "attachmentStatusRoute pf userId attachmentId = answerWith AttachmentStatus (getAttachmentStatus pf attachmentId userId)"

definition confirmAttachmentRoute :: "platform \<Rightarrow> jstr \<Rightarrow> jstr \<Rightarrow> jstr option \<Rightarrow> chat_answer act" where
  "confirmAttachmentRoute pf userId conversationId attachmentId =
     bind (sendRealtimeMessage pf conversationId userId [] attachmentId False) (\<lambda>result.
     bind (emitConversationPreviews (sr_previewByUserId result)) (\<lambda>_.
     bind (emitRealtimeMessage conversationId (map fst (sr_previewByUserId result)) (sr_message result)) (\<lambda>_.
     ret (AttachmentConfirmed (sr_message result)))))"

definition downloadRoute :: "platform \<Rightarrow> jstr \<Rightarrow> jstr \<Rightarrow> chat_answer act" where
  "downloadRoute pf userId attachmentId = answerWith DownloadPrepared (generatePresignedDownloadUrl pf attachmentId userId)"

definition listAttachmentsRoute :: "platform \<Rightarrow> jstr \<Rightarrow> jstr \<Rightarrow> jstr option \<Rightarrow> jstr option \<Rightarrow> chat_answer act" where
  "listAttachmentsRoute pf userId conversationId before limit =
     answerWith AttachmentList (listConversationAttachments pf conversationId userId before
       (case limit of None \<Rightarrow> None | Some l \<Rightarrow> if l \<noteq> [] then Some (pf_number pf l) else None))"

definition membershipEventsRoute :: "platform \<Rightarrow> jstr \<Rightarrow> jstr \<Rightarrow> chat_answer act" where
  "membershipEventsRoute pf userId conversationId =
     bind (requireActiveParticipant pf conversationId userId) (\<lambda>_.
     answerWith EventList (getMembershipEvents pf conversationId))"

subsection \<open>The controller\<close>

datatype chat_route =
    GetStatus
  | ListConversations
  | CreateConversation create_conversation_dto
  | GetMessages jstr messages_query
  | SearchMessages jstr "jstr option"
  | AddMember jstr jstr
  | RemoveMember jstr jstr
  | LeaveConversation jstr
  | DeleteConversation jstr
  | MarkRead jstr jstr
  | PresignedUpload upload_input
  | AttachmentUploaded jstr jstr
  | GetAttachmentStatus jstr
  | ConfirmAttachment jstr "jstr option"
  | PresignedDownload jstr
  | ListAttachments jstr "jstr option" "jstr option"
  | GetEvents jstr

fun chatHandler :: "platform \<Rightarrow> session_user \<Rightarrow> chat_route \<Rightarrow> chat_answer act" where
  "chatHandler pf u GetStatus = chatStatus (Some u)"
| "chatHandler pf u ListConversations = listConversationsRoute pf (su_id u)"
| "chatHandler pf u (CreateConversation dto) = createConversationRoute pf (su_id u) dto"
| "chatHandler pf u (GetMessages c query) = getMessagesRoute pf (su_id u) c query"
| "chatHandler pf u (SearchMessages c q) = searchMessagesRoute pf (su_id u) c q"
| "chatHandler pf u (AddMember c m) = addMemberRoute pf (su_id u) c m"
| "chatHandler pf u (RemoveMember c m) = removeMemberRoute pf (su_id u) c m"
| "chatHandler pf u (LeaveConversation c) = leaveConversationRoute pf (su_id u) c"
| "chatHandler pf u (DeleteConversation c) = deleteConversationRoute pf (su_id u) c"
| "chatHandler pf u (MarkRead c b) = markConversationReadRoute pf (su_id u) c b"
| "chatHandler pf u (PresignedUpload dto) = presignedUploadRoute pf (su_id u) dto"
| "chatHandler pf u (AttachmentUploaded c a) = attachmentUploadedRoute pf (su_id u) c a"
| "chatHandler pf u (GetAttachmentStatus a) = attachmentStatusRoute pf (su_id u) a"
| "chatHandler pf u (ConfirmAttachment c a) = confirmAttachmentRoute pf (su_id u) c a"
| "chatHandler pf u (PresignedDownload a) = downloadRoute pf (su_id u) a"
| "chatHandler pf u (ListAttachments c b l) = listAttachmentsRoute pf (su_id u) c b l"
| "chatHandler pf u (GetEvents c) = membershipEventsRoute pf (su_id u) c"

definition serveChat :: "platform \<Rightarrow> http_request \<Rightarrow> chat_route \<Rightarrow> chat_answer act" where
  "serveChat pf request route =
     bind (accessTokenGuard pf request) (\<lambda>r.
     case req_user r of
       None \<Rightarrow> throw TypeError
     | Some u \<Rightarrow> chatHandler pf u route)"

text \<open>The conversation a route is about.\<close>

fun conversationOf :: "chat_route \<Rightarrow> jstr option" where
  "conversationOf (GetMessages c _) = Some c"
| "conversationOf (SearchMessages c _) = Some c"
| "conversationOf (AddMember c _) = Some c"
| "conversationOf (RemoveMember c _) = Some c"
| "conversationOf (LeaveConversation c) = Some c"
| "conversationOf (DeleteConversation c) = Some c"
| "conversationOf (MarkRead c _) = Some c"
| "conversationOf (PresignedUpload dto) = Some (ui_conversationId dto)"
| "conversationOf (AttachmentUploaded c _) = Some c"
| "conversationOf (ConfirmAttachment c _) = Some c"
| "conversationOf (ListAttachments c _ _) = Some c"
| "conversationOf (GetEvents c) = Some c"
| "conversationOf _ = None"

subsection \<open>Outsiders are refused\<close>

definition outsider :: "platform \<Rightarrow> jstr \<Rightarrow> jstr \<Rightarrow> world \<Rightarrow> bool" where
  "outsider pf c u w \<longleftrightarrow>
     (\<forall>cid uid. parseOid (pf_oids pf) c = Some cid \<longrightarrow> parseOid (pf_oids pf) u = Some uid \<longrightarrow>
        (\<forall>p\<in>set (w_participants w). \<not> activeIn cid uid p))"

definition refuses :: "(world \<Rightarrow> bool) \<Rightarrow> 'a act \<Rightarrow> bool" where
  "refuses P m \<longleftrightarrow> (\<forall>w. P w \<longrightarrow> (\<exists>e w'. m w = (Inl e, w') \<and> docsOf w' = docsOf w))"

lemma refusesD: "refuses P m \<Longrightarrow> P w \<Longrightarrow> \<exists>e w'. m w = (Inl e, w') \<and> docsOf w' = docsOf w"
  by (simp add: refuses_def)

lemma refuses_throw: "refuses P (throw e)"
  by (simp add: refuses_def throw_def)

lemma refuses_bind: "refuses P m \<Longrightarrow> refuses P (bind m k)"
  by (fastforce simp: refuses_def bind_def)

lemma refuses_if: "(b \<Longrightarrow> refuses P m) \<Longrightarrow> (\<not> b \<Longrightarrow> refuses P n) \<Longrightarrow> refuses P (if b then m else n)"
  by simp

lemma refuses_after:
  assumes "quiet m" "\<And>a. refuses P (k a)" "\<And>v w. docsOf v = docsOf w \<Longrightarrow> P v = P w"
  shows "refuses P (bind m k)"
  unfolding refuses_def
proof (intro allI impI)
  fix w assume P: "P w"
  obtain r v where m: "m w = (r, v)" by fastforce
  have v: "docsOf v = docsOf w" by (rule frames_run [OF assms(1) m])
  with P assms(3) have "P v" by blast
  show "\<exists>e w'. bind m k w = (Inl e, w') \<and> docsOf w' = docsOf w"
  proof (cases r)
    case (Inr a)
    with refusesD [OF assms(2) \<open>P v\<close>, of a] m v show ?thesis by (auto simp: bind_def)
  qed (simp add: bind_def m v)
qed

lemma outsider_docs: assumes "docsOf v = docsOf w" shows "outsider pf c u v = outsider pf c u w"
  by (simp add: outsider_def docsOf_eqD(5) [OF assms])

lemma outsider_canonical:
  "parseOid (pf_oids pf) c = Some cid \<Longrightarrow> outsider pf (idStr pf cid) u = outsider pf c u"
  by (simp add: outsider_def fun_eq_iff)

lemma refuses_access:
  "refuses (outsider pf c u) (getRequiredActiveParticipant pf c u)"
  "refuses (outsider pf c u) (requireActiveParticipant pf c u)"
  "refuses (outsider pf c u) (requireAdminOrOwner pf c u)"
proof -
  have "getActiveParticipant pf c u w = (Inr None, w) \<or> (\<exists>e. getActiveParticipant pf c u w = (Inl e, w))"
    if "outsider pf c u w" for w
    using that findOne_None [of "pf_participants pf" _ "w_participants w"]
    by (auto simp: outsider_def getActiveParticipant_def toObjectId_def bind_def gets_def ret_def throw_def split: option.split)
  then show "refuses (outsider pf c u) (getRequiredActiveParticipant pf c u)"
    "refuses (outsider pf c u) (requireActiveParticipant pf c u)"
    "refuses (outsider pf c u) (requireAdminOrOwner pf c u)"
    by (fastforce simp: refuses_def getRequiredActiveParticipant_def requireActiveParticipant_def
        requireAdminOrOwner_def getParticipantRole_def bind_def ret_def throw_def)+
qed

lemma refuses_conversationId:
  assumes "\<And>cid. parseOid (pf_oids pf) c = Some cid \<Longrightarrow> refuses (outsider pf (idStr pf cid) u) (k cid)"
  shows "refuses (outsider pf c u) (bind (conversationIdOf pf c) k)"
  using assms outsider_canonical [of pf c _ u]
  by (cases "parseOid (pf_oids pf) c") (auto simp: refuses_def bind_def requireObjectId_run)

lemma quiet_requireObjectId: "quiet (requireObjectId pf v c m)"
  by (rule framesI) (simp add: requireObjectId_run split: option.split)

lemma refuses_services:
  "refuses (outsider pf c u) (sendRealtimeMessage pf c u t a b)"
  "refuses (outsider pf (ui_conversationId dto) u) (generatePresignedUploadUrl pf u dto)"
  "refuses (outsider pf c u) (markAttachmentUploaded pf c i u)"
  "refuses (outsider pf c u) (listConversationAttachments pf c u before limit)"
proof -
  have send: "refuses (outsider pf c u) (sendMessage pf c u t a b)" for a b
    unfolding sendMessage_def Let_def by (intro refuses_if refuses_throw refuses_bind refuses_access)
  show "refuses (outsider pf c u) (sendRealtimeMessage pf c u t a b)"
    unfolding sendRealtimeMessage_def by (intro refuses_bind refuses_if send)
  show "refuses (outsider pf (ui_conversationId dto) u) (generatePresignedUploadUrl pf u dto)"
    unfolding generatePresignedUploadUrl_def Let_def
    by (rule refuses_conversationId, intro refuses_if refuses_throw,
        rule refuses_after [OF _ _ outsider_docs], rule quiet_intros,
        intro refuses_if refuses_throw refuses_bind [OF refuses_access(1)])
  show "refuses (outsider pf c u) (markAttachmentUploaded pf c i u)"
    unfolding markAttachmentUploaded_def
    by (rule refuses_conversationId, rule refuses_after [OF quiet_requireObjectId _ outsider_docs],
        rule refuses_bind [OF refuses_access(1)])
  show "refuses (outsider pf c u) (listConversationAttachments pf c u before limit)"
    unfolding listConversationAttachments_def
    by (rule refuses_conversationId, rule refuses_bind [OF refuses_access(1)])
qed

lemma refuses_routes:
  assumes "conversationOf route = Some c"
  shows "refuses (outsider pf c (su_id u)) (chatHandler pf u route)"
  using assms
  by (cases route)
    (auto simp: getMessagesRoute_def searchMessagesRoute_def addMemberRoute_def removeMemberRoute_def leaveConversationRoute_def
      deleteConversationRoute_def markConversationReadRoute_def presignedUploadRoute_def attachmentUploadedRoute_def
      confirmAttachmentRoute_def listAttachmentsRoute_def membershipEventsRoute_def
      intro!: refuses_bind refuses_access refuses_services refuses_throw)

lemma technical_guard [technical_intros]: "technical (accessTokenGuard pf request)"
  unfolding accessTokenGuard_def Let_def by (intro technical_intros)

text \<open>
  C6: every route of a conversation is closed to outsiders. Whatever is asked for, a request of a user who
  is not an active participant of the conversation, or whose token the guard does not accept, is answered with
  an error and changes no document.
\<close>

theorem conversation_routes_closed:
  assumes "conversationOf route = Some c"
    and "\<And>r v u. accessTokenGuard pf request w = (Inr r, v) \<Longrightarrow> req_user r = Some u \<Longrightarrow> outsider pf c (su_id u) w"
  shows "\<exists>e w'. serveChat pf request route w = (Inl e, w') \<and> docsOf w' = docsOf w"
proof -
  obtain x v where x: "accessTokenGuard pf request w = (x, v)" by fastforce
  have v: "docsOf v = docsOf w" by (rule frames_run [OF quiet_technical [OF technical_guard] x])
  show ?thesis
  proof (cases x)
    case (Inl e)
    with x v show ?thesis by (simp add: serveChat_def bind_def)
  next
    case (Inr r)
    show ?thesis
    proof (cases "req_user r")
      case None
      with Inr x v show ?thesis by (simp add: serveChat_def bind_def throw_def)
    next
      case (Some u)
      with assms(2) Inr x outsider_docs [OF v] have "outsider pf c (su_id u) v" by simp
      from refusesD [OF refuses_routes [OF assms(1)] this] Some Inr x v show ?thesis
        by (fastforce simp: serveChat_def bind_def)
    qed
  qed
qed

end
