(* ===== verification/AiGateway.thy ===== *)
theory AiGateway
  imports ChatGateway
begin

text \<open>
  \<open>ai/ai.gateway.ts\<close>: the realtime side of the assistant, in a namespace of its own. Its sockets and
  emissions are kept like those of the chat gateway; \<open>getClientUser\<close> is shared with it.
\<close>

subsection \<open>Connecting\<close>

definition aiAfterInit :: "platform \<Rightarrow> nat \<Rightarrow> handshake \<Rightarrow> (string \<times> string) option act" where
  "aiAfterInit pf client hs =
     bind (authenticateSocketClient pf hs) (\<lambda>user.
     case user of
       None \<Rightarrow> ret (Some (''UNAUTHORIZED'', ''Access token is required or invalid''))
     | Some u \<Rightarrow>
         bind (modify (\<lambda>w. w\<lparr>w_sockets := AList.update client
            \<lparr>sock_namespace = AiNamespace, sock_user = Some u, sock_joined = None, sock_rooms = []\<rparr> (w_sockets w)\<rparr>)) (\<lambda>_.
         ret None))"

definition aiHandleConnection :: "nat \<Rightarrow> unit act" where
  "aiHandleConnection client =
     bind (getClientUser AiNamespace client) (\<lambda>user.
     onSocket AiNamespace client (joinRoom (getUserRoom (su_id user))))"

definition connectAi :: "platform \<Rightarrow> nat \<Rightarrow> handshake \<Rightarrow> (string \<times> string) option act" where
  "connectAi pf client hs =
     bind (aiAfterInit pf client hs) (\<lambda>refused.
     case refused of
       Some e \<Rightarrow> ret (Some e)
     | None \<Rightarrow> bind (aiHandleConnection client) (\<lambda>_. ret None))"

subsection \<open>Errors\<close>

text \<open>
  The \<open>response\<close> property of an error, which only the HTTP exceptions have: the object they were made
  with, or an object built around their text.
\<close>

definition bodyJson :: "http_body \<Rightarrow> json" where
  "bodyJson b = JObj
     ((case body_error b of None \<Rightarrow> [] | Some e \<Rightarrow> [(js ''error'', JStr (js e))]) @
      (case body_code b of None \<Rightarrow> [] | Some c \<Rightarrow> [(js ''code'', JStr (js c))]) @
      [(js ''message'', JStr (body_message b))])"

definition responseOf :: "exn \<Rightarrow> json option" where
  "responseOf e =
     (case e of
        BadRequestException b \<Rightarrow> Some (bodyJson b)
      | UnauthorizedException b \<Rightarrow> Some (bodyJson b)
      | ForbiddenException m \<Rightarrow> Some (JObj [(js ''message'', JStr m), (js ''error'', JStr (js ''Forbidden'')),
          (js ''statusCode'', JNum (Fin 403))])
      | NotFoundException b \<Rightarrow> Some (bodyJson b)
      | ConflictException b \<Rightarrow> Some (bodyJson b)
      | ServiceUnavailableException b \<Rightarrow> Some (bodyJson b)
      | _ \<Rightarrow> None)"

definition getErrorPayload :: "exn \<Rightarrow> json option" where
  "getErrorPayload e =
     (case responseOf e of
        None \<Rightarrow> None
      | Some response \<Rightarrow>
          (case jsonField ''message'' response of
             Some (JObj ms) \<Rightarrow> Some (JObj ms) | Some (JArr vs) \<Rightarrow> Some (JArr vs) | _ \<Rightarrow> None))"

definition getErrorMessage :: "platform \<Rightarrow> exn \<Rightarrow> jstr" where
  "getErrorMessage pf e =
     (case Option.bind (getErrorPayload e) (jsonField ''message'') of
        Some (JStr m) \<Rightarrow> if m \<noteq> [] then m else exnMessage pf e
      | _ \<Rightarrow> exnMessage pf e)"

definition mapErrorCode :: "platform \<Rightarrow> exn \<Rightarrow> string" where
  "mapErrorCode pf e =
     (let code = Option.bind (getErrorPayload e) (jsonField ''code'') in
      if code = Some (JStr (js ''AI_TIMEOUT'')) then ''TIMEOUT''
      else if code \<in> {Some (JStr (js ''AI_MISSING_API_KEY'')), Some (JStr (js ''AI_MISSING_MODEL'')),
                      Some (JStr (js ''AI_SERVICE_UNAVAILABLE''))} then ''SERVICE_UNAVAILABLE''
      else if code = Some (JStr (js ''AI_DISABLED'')) then ''DISABLED''
      else
        let msg = getErrorMessage pf e in
        if includesStr (js ''429'') msg \<or> includesStr (js ''quota'') msg \<or> includesStr (js ''RESOURCE_EXHAUSTED'') msg
        then ''RATE_LIMITED'' else ''AI_ERROR'')"

datatype 'a ai_ack = AiOk 'a | AiFailed string jstr

definition emitError :: "nat \<Rightarrow> string \<Rightarrow> jstr \<Rightarrow> unit act" where
  "emitError client code msg = emit AiNamespace (ToSocket client) ''ai:error'' (AiError code msg)"

definition aiToErrorAck :: "platform \<Rightarrow> exn \<Rightarrow> string \<times> jstr" where
  "aiToErrorAck pf e = (mapErrorCode pf e, getErrorMessage pf e)"

definition failWith :: "nat \<Rightarrow> string \<times> jstr \<Rightarrow> 'a ai_ack act" where
  "failWith client error = bind (emitError client (fst error) (snd error)) (\<lambda>_. ret (AiFailed (fst error) (snd error)))"

subsection \<open>Events\<close>

definition handleAiChat :: "platform \<Rightarrow> nat \<Rightarrow> jstr \<Rightarrow> jstr \<Rightarrow> (jstr \<times> jstr) ai_ack act" where
  "handleAiChat pf client conversationId text =
     bind (getClientUser AiNamespace client) (\<lambda>user.
     catch
       (if \<not> AI_CHATBOT_ENABLED (readEnv pf)
        then failWith client (''DISABLED'', js ''AI chatbot is disabled'')
        else
          bind (getRequiredActiveParticipant pf conversationId (su_id user)) (\<lambda>_.
          bind (generateResponse pf conversationId text) (\<lambda>content.
          bind (emit AiNamespace (ToRoom (getConversationRoom conversationId)) ''ai:response''
            (AiResponse conversationId content)) (\<lambda>_.
          ret (AiOk (conversationId, content))))))
       (\<lambda>e. failWith client (aiToErrorAck pf e)))"

definition handleSuggestions :: "platform \<Rightarrow> nat \<Rightarrow> jstr \<Rightarrow> (jstr \<times> jstr list) ai_ack act" where
  "handleSuggestions pf client conversationId =
     bind (getClientUser AiNamespace client) (\<lambda>user.
     catch
       (if \<not> AI_SUGGESTIONS_ENABLED (readEnv pf)
        then failWith client (''DISABLED'', js ''AI suggestions are disabled'')
        else
          bind (getRequiredActiveParticipant pf conversationId (su_id user)) (\<lambda>_.
          bind (generateSuggestions pf conversationId) (\<lambda>suggestions.
          ret (AiOk (conversationId, suggestions)))))
       (\<lambda>e. failWith client (aiToErrorAck pf e)))"

subsection \<open>What the events do\<close>

lemma quiet_aiEvents [quiet_intros]:
  "quiet (failWith i err)" "quiet (handleAiChat pf i c t)" "quiet (handleSuggestions pf i c)"
proof -
  show fail: "quiet (failWith i err)" for i and err :: "string \<times> jstr"
    unfolding failWith_def emitError_def by (rule quiet_intros)+
  show "quiet (handleAiChat pf i c t)" "quiet (handleSuggestions pf i c)"
    unfolding handleAiChat_def handleSuggestions_def
    by (rule quiet_intros fail quiet_technical technical_intros)+
qed

lemma roomsOk_connectAi: "keeps roomsOk (connectAi pf i hs)"
proof -
  have accept: "socketOk \<lparr>sock_namespace = AiNamespace, sock_user = Some u, sock_joined = None, sock_rooms = []\<rparr>" for u
    by (simp add: socketOk_def)
  have own: "aiHandleConnection i = bind (getClientUser AiNamespace i) (\<lambda>u.
      bind (onSocket AiNamespace i (joinRoom (getUserRoom (su_id u)))) (\<lambda>_. ret ()))"
    by (intro ext) (simp add: aiHandleConnection_def bind_def ret_def onSocket_def modify_def split: sum.split)
  have joined: "keeps roomsOk (aiHandleConnection i)"
    unfolding own by (rule roomsOk_ownRoom keeps_intros)+
  show ?thesis
    unfolding connectAi_def aiAfterInit_def
    by (rule joined keeps_intros roomsOk_accept accept roomsOk_technical technical_intros)+
qed

lemma roomsOk_aiEvents: "keeps roomsOk (handleAiChat pf i c t)" "keeps roomsOk (handleSuggestions pf i c)"
  unfolding handleAiChat_def handleSuggestions_def failWith_def emitError_def
  by (rule keeps_intros roomsOk_other roomsOk_assistants roomsOk_technical technical_intros)+

text \<open>The message of an HTTP exception is a text, so the payload the mapping looks for is never there.\<close>

lemma getErrorPayload_None: "getErrorPayload e = None"
proof -
  have "map_of (rev (xs @ [(k, v)])) k = Some v" for xs :: "(jstr \<times> json) list" and k v by simp
  then show ?thesis
    by (auto simp: getErrorPayload_def responseOf_def bodyJson_def jsonField_def js_def split: exn.split option.split)
qed

lemma mapErrorCode_codes: "mapErrorCode pf e \<in> {''RATE_LIMITED'', ''AI_ERROR''}"
  by (simp add: mapErrorCode_def getErrorPayload_None Let_def)

lemma ai_room_empty:
  assumes "roomsOk w" shows "recipients AiNamespace (ToRoom (getConversationRoom c)) (w_sockets w) = []"
proof -
  have "getConversationRoom c \<notin> set (sock_rooms d)" if "(i, d) \<in> set (w_sockets w)" "sock_namespace d = AiNamespace" for i d
  proof -
    have "socketOk d" using assms that(1) by (auto simp: roomsOk_def list_all_iff)
    with that(2) show ?thesis by (auto simp: socketOk_def split: option.splits)
  qed
  then show ?thesis by (auto simp: recipients_def filter_empty_conv)
qed

lemma failWith_run:
  "failWith i err w = (Inr (AiFailed (fst err) (snd err)), w\<lparr>w_emitted := w_emitted w @
     [emissionOf AiNamespace (ToSocket i) ''ai:error'' (AiError (fst err) (snd err)) (w_sockets w)]\<rparr>)"
  by (simp add: failWith_def emitError_def bind_def ret_def emit_run)

text \<open>A run of the handler that gets past the reading of the user.\<close>

lemma handleAiChat_cases:
  assumes "handleAiChat pf i c t w = (Inr r, w')"
  obtains (off) "\<not> AI_CHATBOT_ENABLED (readEnv pf)" "(Inr r, w') = failWith i (''DISABLED'', js ''AI chatbot is disabled'') w"
  | (fail) e v where "AI_CHATBOT_ENABLED (readEnv pf)" "wire v = wire w" "(Inr r, w') = failWith i (aiToErrorAck pf e) v"
  | (answer) content v where "AI_CHATBOT_ENABLED (readEnv pf)" "wire v = wire w" "r = AiOk (c, content)"
      "w' = v\<lparr>w_emitted := w_emitted v @
         [emissionOf AiNamespace (ToRoom (getConversationRoom c)) ''ai:response'' (AiResponse c content) (w_sockets v)]\<rparr>"
proof -
  obtain user where user: "getClientUser AiNamespace i w = (Inr user, w)"
    using assms getClientUser_state [of AiNamespace i w] by (auto simp: handleAiChat_def bind_def split: sum.splits)
  define steps where "steps = bind (getRequiredActiveParticipant pf c (su_id user)) (\<lambda>_. generateResponse pf c t)"
  have wire: "frames wire steps"
    unfolding steps_def by (rule wire_intros wire_technical technical_intros)+
  obtain x v where x: "steps w = (x, v)" by fastforce
  have run: "handleAiChat pf i c t w = catch (bind steps (\<lambda>content.
      bind (emit AiNamespace (ToRoom (getConversationRoom c)) ''ai:response'' (AiResponse c content)) (\<lambda>_.
      ret (AiOk (c, content))))) (\<lambda>e. failWith i (aiToErrorAck pf e)) w" if "AI_CHATBOT_ENABLED (readEnv pf)"
    using that user by (simp add: handleAiChat_def steps_def bind_assoc bind_def [of "getClientUser AiNamespace i"])
  show ?thesis
  proof (cases "AI_CHATBOT_ENABLED (readEnv pf)")
    case False
    with assms user show ?thesis by (intro off) (simp_all add: handleAiChat_def bind_def catch_def failWith_run)
  next
    case True
    note x frames_run [OF wire x] run [OF True] assms True
    then show ?thesis
      by (cases x) (auto simp: bind_def catch_def ret_def emit_run intro: fail answer)
  qed
qed


end
