(* ===== verification/System.thy ===== *)
theory System
  imports ChatController AiGateway
begin

text \<open>
  The backend as a whole: one step of the system is one HTTP request, one event of a socket, one connection or
  disconnection, or one task a handler had left behind. The theory proves the invariants every sequence of
  such steps keeps, whatever the order and whoever asks.
\<close>

subsection \<open>What the parts leave to each other\<close>

definition accountsPart :: "world \<Rightarrow> user list \<times> refresh_session list" where
  "accountsPart w = (w_users w, w_sessions w)"

definition chatPart :: "world \<Rightarrow> message list \<times> chat_attachment list \<times> (nat \<times> socket_data) list" where
  "chatPart w = (w_messages w, w_attachments w, w_sockets w)"

lemma accountsPart_update [simp]:
  "accountsPart (w\<lparr>w_conversations := cs\<rparr>) = accountsPart w" "accountsPart (w\<lparr>w_participants := ps\<rparr>) = accountsPart w"
  "accountsPart (w\<lparr>w_messages := ms\<rparr>) = accountsPart w" "accountsPart (w\<lparr>w_events := es\<rparr>) = accountsPart w"
  "accountsPart (w\<lparr>w_attachments := as\<rparr>) = accountsPart w" "accountsPart (w\<lparr>w_sockets := so\<rparr>) = accountsPart w"
  "accountsPart (w\<lparr>w_emitted := em\<rparr>) = accountsPart w" "accountsPart (w\<lparr>w_pending := bg\<rparr>) = accountsPart w"
  by (simp_all add: accountsPart_def)

lemma chatPart_update [simp]:
  "chatPart (w\<lparr>w_users := us\<rparr>) = chatPart w" "chatPart (w\<lparr>w_sessions := ss\<rparr>) = chatPart w"
  "chatPart (w\<lparr>w_attempts := ats\<rparr>) = chatPart w" "chatPart (w\<lparr>w_cookies := co\<rparr>) = chatPart w"
  "chatPart (w\<lparr>w_httpSessions := hs\<rparr>) = chatPart w" "chatPart (w\<lparr>w_conversations := cs\<rparr>) = chatPart w"
  "chatPart (w\<lparr>w_participants := ps\<rparr>) = chatPart w" "chatPart (w\<lparr>w_events := es\<rparr>) = chatPart w"
  "chatPart (w\<lparr>w_emitted := em\<rparr>) = chatPart w" "chatPart (w\<lparr>w_pending := bg\<rparr>) = chatPart w"
  by (simp_all add: chatPart_def)

lemma accountsPart_docs: assumes "docsOf v = docsOf w" shows "accountsPart v = accountsPart w"
  by (simp add: accountsPart_def docsOf_eqD [OF assms])

lemma chatPart_data: assumes "dataOf v = dataOf w" shows "chatPart v = chatPart w"
  by (simp add: chatPart_def dataOf_eqD [OF assms])

lemma accounts_quiet: "quiet m \<Longrightarrow> frames accountsPart m"
  by (erule frames_coarser) (erule accountsPart_docs)

lemma parts_technical: "technical m \<Longrightarrow> frames accountsPart m" "technical m \<Longrightarrow> frames chatPart m"
proof -
  show "technical m \<Longrightarrow> frames accountsPart m" by (intro accounts_quiet quiet_technical)
  show "technical m \<Longrightarrow> frames chatPart m" by (erule frames_coarser) (erule chatPart_data)
qed

lemma parts_freshOid: "frames accountsPart (freshOid pf)" "frames chatPart (freshOid pf)"
  by (rule framesI, simp add: freshOid_run accountsPart_def chatPart_def)+

text \<open>The account services leave messages, attachments and sockets alone.\<close>

lemma chat_recordAttempt: "frames chatPart (recordAttempt p r e f u s)"
  unfolding recordAttempt_def by (rule frames_modify) simp

lemma chat_store:
  "frames chatPart (insertUser u)" "frames chatPart (saveUser u)" "frames chatPart (insertSession s)"
  "frames chatPart (saveSession i g)"
  unfolding insertUser_def saveUser_def insertSession_def saveSession_def
  by (rule frames_combinators frames_modify | simp)+

lemmas chat_intros = frames_combinators frames_case_prod parts_technical(2) parts_freshOid(2) chat_recordAttempt chat_store

lemma chat_failures:
  "frames chatPart (loginFailure email reason uid code msg)" "frames chatPart (refreshFailure c reason code' msg')"
  unfolding loginFailure_def refreshFailure_def by (rule chat_intros)+

lemma chat_tokens:
  "frames chatPart (issueTokenPair pf u origin)" "frames chatPart (refreshAccessToken pf token)"
  "frames chatPart (revokeRefreshToken pf token)"
  unfolding issueTokenPair_def refreshAccessToken_def revokeRefreshToken_def Let_def
  by (rule chat_intros chat_failures technical_intros)+

lemma chat_accounts:
  "frames chatPart (registerLocalAccount pf rd)" "frames chatPart (loginLocalAccount pf ld)"
  "frames chatPart (upsertGoogleUser pf g)"
  unfolding registerLocalAccount_def loginLocalAccount_def upsertGoogleUser_def Let_def
  by (rule chat_intros chat_failures chat_tokens technical_intros)+

lemma chat_http:
  "frames chatPart (rememberUser req u)" "frames chatPart (destroySession req)"
  "frames chatPart (setRefreshCookie pf token)" "frames chatPart (clearRefreshCookie pf)"
  unfolding rememberUser_def destroySession_def setRefreshCookie_def clearRefreshCookie_def backendEnv_def
  by (rule frames_combinators frames_modify | simp)+

text \<open>The chat services leave users and sessions alone.\<close>

lemmas accounts_intros = frames_combinators frames_case_prod parts_technical(1) parts_freshOid(1)

lemma accounts_restore: "frames accountsPart (restoreDirectParticipantsIfNeeded pf c s)"
proof (rule framesI)
  fix w
  obtain r v where run: "restoreDirectParticipantsIfNeeded pf c s w = (r, v)" by fastforce
  from restore_run [OF this] run show "accountsPart (snd (restoreDirectParticipantsIfNeeded pf c s w)) = accountsPart w"
    by (auto simp: accountsPart_def)
qed

lemma accounts_documents:
  "frames accountsPart (insertConversation cv)" "frames accountsPart (insertParticipant p)" "frames accountsPart (insertEvent e)"
  "frames accountsPart (insertMessage m)" "frames accountsPart (insertAttachment a)" "frames accountsPart (endParticipation pf cid uid st t)"
  "frames accountsPart (touchConversation pf cid t)" "frames accountsPart (markOwnRead p m)"
  "frames accountsPart (attachTo pf mid att)" "frames accountsPart (incrementUnreadForOtherParticipants pf c s)"
  unfolding insertConversation_def insertParticipant_def insertEvent_def insertMessage_def insertAttachment_def endParticipation_def
    touchConversation_def markOwnRead_def attachTo_def incrementUnreadForOtherParticipants_def
  by (rule accounts_intros frames_modify technical_intros | simp)+

lemma accounts_create:
  "frames accountsPart (createParticipant pf cid u role a t)" "frames accountsPart (createEvent pf cid ty u actor t)"
  unfolding createParticipant_def createEvent_def by (rule accounts_intros accounts_documents)+

lemma accounts_membership:
  "frames accountsPart (createConversation pf ty creator ps title)" "frames accountsPart (addMember pf c u a)"
  "frames accountsPart (removeMember pf c u a)" "frames accountsPart (leaveConversation pf c u)"
  "frames accountsPart (deleteConversationForUser pf c u)"
  unfolding createConversation_def addMember_def removeMember_def leaveConversation_def deleteConversationForUser_def
    ChatMembership.markConversationLeft_def Let_def
  by (rule accounts_intros accounts_documents accounts_create technical_intros)+

lemma accounts_messages:
  "frames accountsPart (sendMessage pf c s t a b)" "frames accountsPart (sendRealtimeMessage pf c s t a b)"
  "frames accountsPart (sendAiBotMessage pf c s t)" "frames accountsPart (markConversationRead pf c s)"
  "frames accountsPart (saveMessageModerationResult pf i r)"
proof -
  show send: "frames accountsPart (sendMessage pf c s t a b)" for c s t a b
    unfolding sendMessage_def postMessage_def Let_def
    by (rule accounts_intros accounts_documents accounts_restore technical_intros)+
  show "frames accountsPart (sendRealtimeMessage pf c s t a b)"
    unfolding sendRealtimeMessage_def by (rule accounts_intros send technical_intros)+
  show "frames accountsPart (sendAiBotMessage pf c s t)"
    unfolding sendAiBotMessage_def Let_def by (rule accounts_intros accounts_documents technical_intros)+
  show "frames accountsPart (markConversationRead pf c s)" "frames accountsPart (saveMessageModerationResult pf i r)"
    unfolding markConversationRead_def saveMessageModerationResult_def Let_def
    by (rule accounts_intros frames_modify technical_intros | simp)+
qed

lemma accounts_uploads:
  "frames accountsPart (generatePresignedUploadUrl pf u input)" "frames accountsPart (markAttachmentUploaded pf c a u)"
  unfolding generatePresignedUploadUrl_def markAttachmentUploaded_def Let_def
  by (rule accounts_intros accounts_documents frames_modify technical_intros | simp)+

lemmas accounts_emits = quiet_sockets [THEN accounts_quiet] quiet_connecting [THEN accounts_quiet]
  quiet_assistants [THEN accounts_quiet] quiet_aiEvents [THEN accounts_quiet]

lemmas accounts_services = accounts_membership accounts_messages accounts_uploads accounts_emits

lemma chat_membership:
  "frames chatPart (createConversation pf ty creator ps title)" "frames chatPart (addMember pf c u a)"
  "frames chatPart (removeMember pf c u a)" "frames chatPart (leaveConversation pf c u)"
  "frames chatPart (deleteConversationForUser pf c u)"
proof -
  have docs: "frames chatPart (insertConversation cv)" "frames chatPart (insertParticipant p)" "frames chatPart (insertEvent e)"
    "frames chatPart (endParticipation pf cid uid st t)" for cv p e cid uid st t
    unfolding insertConversation_def insertParticipant_def insertEvent_def endParticipation_def
    by (rule frames_modify, simp)+
  have create: "frames chatPart (createParticipant pf cid u role a t)" "frames chatPart (createEvent pf cid ety u actor t)"
    for cid u role a t ety actor
    unfolding createParticipant_def createEvent_def by (rule chat_intros docs)+
  show "frames chatPart (createConversation pf ty creator ps title)" "frames chatPart (addMember pf c u a)"
    "frames chatPart (removeMember pf c u a)" "frames chatPart (leaveConversation pf c u)"
    "frames chatPart (deleteConversationForUser pf c u)"
    unfolding createConversation_def addMember_def removeMember_def leaveConversation_def deleteConversationForUser_def
      ChatMembership.markConversationLeft_def Let_def
    by (rule chat_intros docs create technical_intros)+
qed

subsection \<open>The invariants of the parts\<close>

lemma quiet_chatOk: "quiet m \<Longrightarrow> keeps (chatOk pf) m"
proof (erule frames_keeps)
  fix v w assume docs: "docsOf v = docsOf w" and "chatOk pf w"
  then show "chatOk pf v" using worldOk_docsOf [OF docs] docsOf_eqD [OF docs] by (simp add: chatOk_def)
qed

lemma chatOk_part: "frames chatPart m \<Longrightarrow> keeps (worldOk pf) m \<Longrightarrow> keeps (chatOk pf) m"
  by (rule chatOk_from) (auto elim!: frames_keeps simp: messagesSat_def chatPart_def)

lemma chatOk_readers:
  "keeps (chatOk pf) (sendAiBotMessage pf c s t)" "keeps (chatOk pf) (markConversationRead pf c s)"
  "keeps (chatOk pf) (saveMessageModerationResult pf i r)"
proof -
  note intros = keeps_intros keeps_modify technical_messagesSat technical_intros
  have post: "keeps (messagesSat attachmentsOk) (insertMessage m)" if "msg_attachment m = None" for m
  proof -
    have "attachmentsOk (ms @ [m]) as" if "attachmentsOk ms as" for ms as
      using that \<open>msg_attachment m = None\<close> unfolding attachmentsOk_def set_append list.set
      by (metis UnE option.distinct(1) singletonD)
    then show ?thesis unfolding insertMessage_def by (intro keeps_modify) (simp add: messagesSat_def)
  qed
  have fresh: "keeps (messagesSat attachmentsOk) (freshOid pf)"
    by (rule keepsI) (simp add: freshOid_run messagesSat_def)
  have counters: "keeps (messagesSat P) (touchConversation pf cid t)" "keeps (messagesSat P) (incrementUnreadForOtherParticipants pf c s)"
    for P cid t
    unfolding touchConversation_def incrementUnreadForOtherParticipants_def
    by (rule intros | simp add: messagesSat_def)+
  show "keeps (chatOk pf) (sendAiBotMessage pf c s t)"
    unfolding sendAiBotMessage_def Let_def
    by (rule chatOk_from [OF keeps_sending(3) [unfolded sendAiBotMessage_def Let_def]])
      (rule intros fresh post counters | simp)+
  have same: "messagesSat attachmentsOk (w\<lparr>w_messages := ms\<rparr>)"
    if "messagesSat attachmentsOk w"
      "map (\<lambda>m. (msg_id m, msg_attachment m)) ms = map (\<lambda>m. (msg_id m, msg_attachment m)) (w_messages w)" for w ms
    using attachmentsOk_same that by (simp add: messagesSat_def)
  have "keeps (messagesSat attachmentsOk) (markConversationRead pf c s)"
    "keeps (messagesSat attachmentsOk) (saveMessageModerationResult pf i r)"
    unfolding markConversationRead_def saveMessageModerationResult_def Let_def
    by (rule intros same | assumption | simp add: messagesSat_def updateMany_def updateById_def)+
  then show "keeps (chatOk pf) (markConversationRead pf c s)" "keeps (chatOk pf) (saveMessageModerationResult pf i r)"
    by (auto intro: chatOk_from keeps_sending keeps_message_steps)
qed

lemma chatOk_sendRealtime: "keeps (chatOk pf) (sendRealtimeMessage pf c s t a b)"
  unfolding sendRealtimeMessage_def
  by (rule keeps_intros keeps_chatOk_sendMessage technical_chatOk technical_intros)+

lemma chatOk_membership:
  "keeps (chatOk pf) (createConversation pf ty creator ps title)" "keeps (chatOk pf) (addMember pf c u a)"
  "keeps (chatOk pf) (removeMember pf c u a)" "keeps (chatOk pf) (leaveConversation pf c u)"
  "keeps (chatOk pf) (deleteConversationForUser pf c u)"
  by (rule chatOk_part chat_membership keeps_membership)+

lemmas chatOk_services = chatOk_membership keeps_chatOk_sendMessage chatOk_sendRealtime chatOk_readers keeps_chatOk_uploads

lemmas chatOk_emits = quiet_sockets [THEN quiet_chatOk] quiet_connecting [THEN quiet_chatOk]
  quiet_assistants [THEN quiet_chatOk] quiet_aiEvents [THEN quiet_chatOk]

lemmas rooms_intros = keeps_intros roomsOk_services roomsOk_emits roomsOk_other roomsOk_technical technical_intros

lemma rooms_part: "frames chatPart m \<Longrightarrow> keeps roomsOk m"
  by (erule frames_keeps) (simp add: chatPart_def roomsOk_def)

lemma rooms_uploads: "keeps roomsOk (generatePresignedUploadUrl pf u input)" "keeps roomsOk (markAttachmentUploaded pf c a u)"
  unfolding generatePresignedUploadUrl_def markAttachmentUploaded_def insertAttachment_def Let_def
  by (rule rooms_intros roomsOk_wire wire_freshOid keeps_modify | simp add: roomsOk_def)+

subsection \<open>The invariant of the system\<close>

definition systemOk :: "platform \<Rightarrow> world \<Rightarrow> bool" where
  "systemOk pf w \<longleftrightarrow> chatOk pf w \<and> usersSat accountsOk w \<and> roomsOk w"

lemma systemOk_account:
  "keeps (worldOk pf) m \<Longrightarrow> keeps (usersSat accountsOk) m \<Longrightarrow> frames chatPart m \<Longrightarrow> keeps (systemOk pf) m"
  using chatOk_part [of m pf] rooms_part [of m] by (simp add: keeps_def systemOk_def)

lemma systemOk_chat:
  assumes "keeps (chatOk pf) m" "frames accountsPart m" "keeps roomsOk m"
  shows "keeps (systemOk pf) m"
proof -
  have "keeps (usersSat accountsOk) m"
    by (rule frames_keeps [OF assms(2)]) (simp add: accountsPart_def usersSat_def)
  with assms show ?thesis by (simp add: keeps_def systemOk_def)
qed

text \<open>The HTTP handlers of the accounts.\<close>

lemma quiet_http:
  "quiet (rememberUser req u)" "quiet (destroySession req)" "quiet (setRefreshCookie pf token)" "quiet (clearRefreshCookie pf)"
  "quiet (getRefreshTokenFromRequest pf req)" "quiet (buildFrontendRedirect pf e)"
  unfolding rememberUser_def destroySession_def setRefreshCookie_def clearRefreshCookie_def getRefreshTokenFromRequest_def
    buildFrontendRedirect_def backendEnv_def Let_def
  by (rule frames_combinators frames_modify | simp)+

lemma users_quiet: "quiet m \<Longrightarrow> keeps (usersSat P) m"
proof (erule frames_keeps)
  fix v w assume docs: "docsOf v = docsOf w" and "usersSat P w"
  then show "usersSat P v" using docsOf_eqD [OF docs] by (simp add: usersSat_def)
qed

lemma chat_requests:
  "frames chatPart (getRefreshTokenFromRequest pf req)" "frames chatPart (buildFrontendRedirect pf e)"
  unfolding getRefreshTokenFromRequest_def buildFrontendRedirect_def backendEnv_def Let_def
  by (rule frames_combinators | simp)+

lemmas handler_defs = registerLocal_def loginLocal_def refresh_def logout_def validateGoogle_def handleGoogleCallback_def
  handleGoogleFailure_def getCurrentUser_def searchUsersHandler_def requestUserId_def Let_def

lemmas handler_technical = technical_guard technical_lookup

lemma handlers_worldOk:
  "keeps (worldOk pf) (registerLocal pf rd req)" "keeps (worldOk pf) (loginLocal pf ld req)" "keeps (worldOk pf) (refresh pf req)" "keeps (worldOk pf) (logout pf req)"
  "keeps (worldOk pf) (validateGoogle pf g)" "keeps (worldOk pf) (handleGoogleCallback pf req)" "keeps (worldOk pf) (handleGoogleFailure pf)"
  "keeps (worldOk pf) (getCurrentUser pf req)" "keeps (worldOk pf) (searchUsersHandler pf req q)"
  unfolding handler_defs
  by (rule keeps_intros quiet_http [THEN quiet_worldOk] handler_technical [THEN technical_worldOk])+

lemma handlers_users:
  "keeps (usersSat accountsOk) (registerLocal pf rd req)" "keeps (usersSat accountsOk) (loginLocal pf ld req)" "keeps (usersSat accountsOk) (refresh pf req)" "keeps (usersSat accountsOk) (logout pf req)"
  "keeps (usersSat accountsOk) (validateGoogle pf g)" "keeps (usersSat accountsOk) (handleGoogleCallback pf req)" "keeps (usersSat accountsOk) (handleGoogleFailure pf)"
  "keeps (usersSat accountsOk) (getCurrentUser pf req)" "keeps (usersSat accountsOk) (searchUsersHandler pf req q)"
  unfolding handler_defs
  by (rule keeps_intros quiet_http [THEN users_quiet] handler_technical [THEN technical_usersSat])+

lemma handlers_chat:
  "frames chatPart (registerLocal pf rd req)" "frames chatPart (loginLocal pf ld req)" "frames chatPart (refresh pf req)" "frames chatPart (logout pf req)"
  "frames chatPart (validateGoogle pf g)" "frames chatPart (handleGoogleCallback pf req)" "frames chatPart (handleGoogleFailure pf)"
  "frames chatPart (getCurrentUser pf req)" "frames chatPart (searchUsersHandler pf req q)"
  unfolding handler_defs
  by (rule frames_combinators frames_case_prod chat_recordAttempt chat_tokens chat_accounts chat_http chat_requests
      handler_technical [THEN parts_technical(2)])+

lemma account_handlers:
  "keeps (systemOk pf) (registerLocal pf rd req)" "keeps (systemOk pf) (loginLocal pf ld req)" "keeps (systemOk pf) (refresh pf req)" "keeps (systemOk pf) (logout pf req)"
  "keeps (systemOk pf) (validateGoogle pf g)" "keeps (systemOk pf) (handleGoogleCallback pf req)" "keeps (systemOk pf) (handleGoogleFailure pf)"
  "keeps (systemOk pf) (getCurrentUser pf req)" "keeps (systemOk pf) (searchUsersHandler pf req q)"
  by (rule systemOk_account, rule handlers_worldOk, rule handlers_users, rule handlers_chat)+

text \<open>The routes of the chat controller.\<close>

lemmas route_defs = chatStatus_def listConversationsRoute_def createConversationRoute_def getMessagesRoute_def
  searchMessagesRoute_def addMemberRoute_def removeMemberRoute_def leaveConversationRoute_def deleteConversationRoute_def
  markConversationReadRoute_def presignedUploadRoute_def attachmentUploadedRoute_def attachmentStatusRoute_def
  confirmAttachmentRoute_def downloadRoute_def listAttachmentsRoute_def membershipEventsRoute_def

lemma routes_chatOk: "keeps (chatOk pf) (chatHandler pf u route)"
  by (cases route; simp add: route_defs del: split_paired_All)
    (rule keeps_intros chatOk_services chatOk_emits technical_chatOk technical_intros impI conjI | simp)+

lemma routes_accounts: "frames accountsPart (chatHandler pf u route)"
  by (cases route; simp add: route_defs)
    (rule frames_combinators accounts_services parts_technical(1) technical_intros impI conjI | simp)+

lemma routes_rooms: "keeps roomsOk (chatHandler pf u route)"
  by (cases route; simp add: route_defs)
    (rule keeps_intros roomsOk_services roomsOk_emits rooms_uploads rooms_part chat_membership roomsOk_technical technical_intros
      impI conjI | simp)+

lemma systemOk_serveChat: "keeps (systemOk pf) (serveChat pf req route)"
  unfolding serveChat_def
  by (rule systemOk_chat keeps_intros routes_chatOk routes_accounts routes_rooms
      technical_guard [THEN technical_chatOk] technical_guard [THEN parts_technical(1)] technical_guard [THEN roomsOk_technical]
      frames_combinators)+

subsection \<open>Events\<close>

datatype event =
    HttpRegister register_dto http_request
  | HttpLogin login_dto http_request
  | HttpGoogle google_profile http_request
  | HttpGoogleFailure
  | HttpRefresh http_request
  | HttpLogout http_request
  | HttpMe http_request
  | HttpSearchUsers http_request "jstr option"
  | HttpChat http_request chat_route
  | ChatConnect nat handshake
  | ChatDisconnect nat
  | ChatJoin nat jstr
  | ChatLeave nat jstr
  | ChatSend nat send_payload
  | ChatRead nat jstr
  | ChatTyping nat jstr bool
  | AiConnect nat handshake
  | AiDisconnect nat
  | AiChat nat jstr jstr
  | AiSuggest nat jstr
  | Background nat

abbreviation performed :: "'a act \<Rightarrow> world \<Rightarrow> world" where
  "performed m w \<equiv> snd (m w)"

text \<open>The Google callback runs the strategy first; the handler is reached only when that has found a user.\<close>

fun perform :: "platform \<Rightarrow> event \<Rightarrow> world \<Rightarrow> world" where
  "perform pf (HttpRegister p req) = performed (registerLocal pf p req)"
| "perform pf (HttpLogin p req) = performed (loginLocal pf p req)"
| "perform pf (HttpGoogle profile req) =
     performed (bind (validateGoogle pf profile) (\<lambda>u. handleGoogleCallback pf (req\<lparr>req_user := Some u\<rparr>)))"
| "perform pf HttpGoogleFailure = performed (handleGoogleFailure pf)"
| "perform pf (HttpRefresh req) = performed (refresh pf req)"
| "perform pf (HttpLogout req) = performed (logout pf req)"
| "perform pf (HttpMe req) = performed (getCurrentUser pf req)"
| "perform pf (HttpSearchUsers req q) = performed (searchUsersHandler pf req q)"
| "perform pf (HttpChat req route) = performed (serveChat pf req route)"
| "perform pf (ChatConnect i hs) = performed (connectChat pf i hs)"
| "perform pf (ChatDisconnect i) = performed (disconnectChat i)"
| "perform pf (ChatJoin i c) = performed (handleJoinConversation pf i c)"
| "perform pf (ChatLeave i c) = performed (handleLeaveConversation i c)"
| "perform pf (ChatSend i p) = performed (handleSendMessage pf i p)"
| "perform pf (ChatRead i c) = performed (handleMarkConversationRead pf i c)"
| "perform pf (ChatTyping i c b) = performed (handleTypingPresence pf i c b)"
| "perform pf (AiConnect i hs) = performed (connectAi pf i hs)"
| "perform pf (AiDisconnect i) = performed (modify (\<lambda>w. w\<lparr>w_sockets := AList.delete i (w_sockets w)\<rparr>))"
| "perform pf (AiChat i c t) = performed (handleAiChat pf i c t)"
| "perform pf (AiSuggest i c) = performed (handleSuggestions pf i c)"
| "perform pf (Background n) = performed (runPending pf n)"

inductive reachable :: "platform \<Rightarrow> world \<Rightarrow> bool" for pf where
  start: "reachable pf emptyWorld"
| event: "reachable pf w \<Longrightarrow> reachable pf (perform pf e w)"

lemma gateway_chatOk:
  "keeps (chatOk pf) (handleSendMessage pf i p)" "keeps (chatOk pf) (handleMarkConversationRead pf i c)"
  "keeps (chatOk pf) (runBackground pf t)"
proof -
  show "keeps (chatOk pf) (handleSendMessage pf i p)" "keeps (chatOk pf) (handleMarkConversationRead pf i c)"
    unfolding handleSendMessage_def handleMarkConversationRead_def Let_def
    by (rule keeps_intros chatOk_services chatOk_emits technical_chatOk technical_intros)+
  show "keeps (chatOk pf) (runBackground pf t)"
    by (cases t) (simp, (rule keeps_intros chatOk_services chatOk_emits)+)+
qed

lemma gateway_accounts:
  "frames accountsPart (handleSendMessage pf i p)" "frames accountsPart (handleMarkConversationRead pf i c)"
  "frames accountsPart (runBackground pf t)"
proof -
  show "frames accountsPart (handleSendMessage pf i p)" "frames accountsPart (handleMarkConversationRead pf i c)"
    unfolding handleSendMessage_def handleMarkConversationRead_def Let_def
    by (rule frames_combinators accounts_services parts_technical(1) technical_intros)+
  show "frames accountsPart (runBackground pf t)"
    by (cases t) (simp, (rule frames_combinators accounts_services)+)+
qed

lemma pending_parts:
  "keeps (chatOk pf) (runPending pf n)" "frames accountsPart (runPending pf n)"
proof -
  have "quiet (modify (\<lambda>w. w\<lparr>w_pending := ts\<rparr>))" for ts by (rule frames_modify) simp
  note pending = this [THEN quiet_chatOk] this [THEN accounts_quiet]
  show "keeps (chatOk pf) (runPending pf n)" "frames accountsPart (runPending pf n)"
    unfolding runPending_def
    by (rule keeps_intros frames_combinators pending gateway_chatOk gateway_accounts)+
qed

lemma quiet_sockets_only:
  "quiet (connectAi pf i hs)" "quiet (modify (\<lambda>w. w\<lparr>w_sockets := AList.delete i (w_sockets w)\<rparr>))"
  unfolding connectAi_def aiAfterInit_def aiHandleConnection_def
  by (rule frames_combinators frames_modify quiet_sockets quiet_technical technical_intros | simp)+

subsection \<open>Every event keeps the invariant\<close>

lemma systemOk_quiet: "quiet m \<Longrightarrow> keeps roomsOk m \<Longrightarrow> keeps (systemOk pf) m"
  by (intro systemOk_chat quiet_chatOk accounts_quiet)

lemma systemOk_events: "systemOk pf w \<Longrightarrow> systemOk pf (perform pf e w)"
proof -
  note rooms = rooms_stay_own [of pf]
  have "keeps (systemOk pf) (handleSendMessage pf i p)" "keeps (systemOk pf) (handleMarkConversationRead pf i c)"
    "keeps (systemOk pf) (runPending pf n)" for i p c n
    using rooms by (auto intro!: systemOk_chat gateway_chatOk gateway_accounts pending_parts)
  moreover have "keeps (systemOk pf) (connectChat pf i hs)" "keeps (systemOk pf) (disconnectChat i)"
    "keeps (systemOk pf) (handleJoinConversation pf i c)" "keeps (systemOk pf) (handleLeaveConversation i c)"
    "keeps (systemOk pf) (handleTypingPresence pf i c b)" for i hs c b
    using rooms by (auto intro!: systemOk_quiet quiet_connecting)
  moreover have "keeps (systemOk pf) (connectAi pf i hs)" "keeps (systemOk pf) (handleAiChat pf i c t)"
    "keeps (systemOk pf) (handleSuggestions pf i c)"
    "keeps (systemOk pf) (modify (\<lambda>w. w\<lparr>w_sockets := AList.delete i (w_sockets w)\<rparr>) :: unit act)" for i hs c t
    by (rule systemOk_quiet, rule quiet_sockets_only quiet_aiEvents, rule roomsOk_connectAi roomsOk_aiEvents roomsOk_delete)+
  moreover have "keeps (systemOk pf) (bind (validateGoogle pf g) (\<lambda>u. handleGoogleCallback pf (req\<lparr>req_user := Some u\<rparr>)))" for g req
    by (intro keeps_intros account_handlers)
  ultimately show "systemOk pf w \<Longrightarrow> systemOk pf (perform pf e w)"
    by (cases e) (simp_all add: keepsD account_handlers systemOk_serveChat)
qed

interpretation system: event_invariant "perform pf" "systemOk pf" for pf
  by unfold_locales (rule systemOk_events)

lemma systemOk_empty: "systemOk pf emptyWorld"
  by (simp add: systemOk_def chatOk_def worldOk_def unique_ids_defs issuedIds_def attachmentsOk_def usersSat_def accountsOk_def
      roomsOk_def emptyWorld_def)

lemma reachable_run: "reachable pf (fold (perform pf) es emptyWorld)"
proof (induction es rule: rev_induct)
  case (snoc e es)
  then show ?case using reachable.event [OF snoc] by simp
qed (simp add: reachable.start)

text \<open>
  C1: in every reachable state, after any sequence of requests, socket events and background tasks by
  anybody, identifiers are unique and unread counters not negative, shown attachments and stored attachments
  agree, accounts are valid and share no email, username or Google id, and every socket is only in rooms of its
  own user and of conversations it joined.
\<close>

theorem system_invariant:
  assumes "reachable pf w"
  shows "worldOk pf w \<and> attachmentsOk (w_messages w) (w_attachments w) \<and> accountsOk (w_users w) \<and> roomsOk w"
proof -
  from assms have "systemOk pf w"
    by (induction rule: reachable.induct) (simp_all add: systemOk_empty systemOk_events)
  then show ?thesis by (simp add: systemOk_def chatOk_def usersSat_def)
qed

subsection \<open>Revoked for good\<close>

lemma revoked_accounts: "frames accountsPart m \<Longrightarrow> keeps (sessionRevoked i) m"
  by (erule frames_keeps) (simp add: accountsPart_def sessionRevoked_def)

lemma handlers_revoked:
  "keeps (sessionRevoked i) (registerLocal pf rd req)" "keeps (sessionRevoked i) (loginLocal pf ld req)"
  "keeps (sessionRevoked i) (refresh pf req)" "keeps (sessionRevoked i) (logout pf req)"
  "keeps (sessionRevoked i) (validateGoogle pf g)" "keeps (sessionRevoked i) (handleGoogleCallback pf r)"
  "keeps (sessionRevoked i) (handleGoogleFailure pf)" "keeps (sessionRevoked i) (getCurrentUser pf req)"
  "keeps (sessionRevoked i) (searchUsersHandler pf req q)"
  unfolding handler_defs
  using revocation_is_permanent [of i pf]
  by (auto intro!: keeps_intros quiet_http [THEN accounts_quiet, THEN revoked_accounts]
      handler_technical [THEN parts_technical(1), THEN revoked_accounts] split: sum.split option.split)

lemma sessionRevoked_events: "sessionRevoked i w \<Longrightarrow> sessionRevoked i (perform pf e w)"
proof -
  have "keeps (sessionRevoked i) (chatHandler pf u route)" for u route
    by (intro revoked_accounts routes_accounts)
  then have "keeps (sessionRevoked i) (serveChat pf req route)" for req route
    unfolding serveChat_def
    by (intro keeps_intros technical_guard [THEN parts_technical(1), THEN revoked_accounts])
  moreover have "keeps (sessionRevoked i) (bind (validateGoogle pf g) (\<lambda>u. handleGoogleCallback pf (req\<lparr>req_user := Some u\<rparr>)))" for g req
    by (intro keeps_intros handlers_revoked)
  moreover note handlers_revoked gateway_accounts [THEN revoked_accounts] pending_parts(2) [THEN revoked_accounts]
    quiet_connecting [THEN accounts_quiet, THEN revoked_accounts] quiet_aiEvents [THEN accounts_quiet, THEN revoked_accounts]
    quiet_sockets_only [THEN accounts_quiet, THEN revoked_accounts]
  ultimately show "sessionRevoked i w \<Longrightarrow> sessionRevoked i (perform pf e w)"
    by (cases e) (simp_all add: keepsD)
qed

interpretation revocation: event_invariant "perform pf" "sessionRevoked i" for pf i
  by unfold_locales (rule sessionRevoked_events)

text \<open>
  C2: revocation is final. Once a session is revoked, no sequence of events whatsoever, of any users and
  in any order, lets an access token of it be accepted again: it does not authenticate, and a socket that presents
  it is refused by both gateways.
\<close>

theorem revoked_for_good:
  assumes "envFault (readEnv pf) = None" "sessionRevoked i w" "w' = fold (perform pf) es w"
    and "pf_jwtVerify pf (ACCESS_TOKEN_SECRET (readEnv pf)) (pf_clock pf (w_clockReads w')) token = Inr c"
      "parseOid (pf_oids pf) (cl_sid c) = Some i"
    and "readToken hs = Some token"
  shows "fst (authenticateAccessToken pf token w') = Inr None \<and>
    fst (connectChat pf j hs w') = Inr (Some (''UNAUTHORIZED'', ''Access token is required or invalid'')) \<and>
    fst (connectAi pf j hs w') = Inr (Some (''UNAUTHORIZED'', ''Access token is required or invalid''))"
proof -
  have "sessionRevoked i w'" using revocation.along [OF assms(2)] assms(3) by simp
  from revoked_not_authenticated [OF assms(1) this assms(4,5)] obtain v
    where "authenticateAccessToken pf token w' = (Inr None, v)" by blast
  with assms(6) show ?thesis
    by (simp add: connectChat_def afterInit_def connectAi_def aiAfterInit_def authenticateSocketClient_def bind_def ret_def)
qed

end
