(* ===== verification/MembershipSpec.thy ===== *)
theory MembershipSpec
  imports ChatAttachments
begin

text \<open>
  What the membership operations of \<open>chat.service.ts\<close> promise, without documents, dates and events: a bag
  of pairs of a conversation and an active member. Joining adds a pair unless it is there, departing takes one
  away. The theory proves that the operations on participation documents implement this specification,
  call by call and for every sequence of calls.
\<close>

subsection \<open>The specification\<close>

type_synonym members = "(oid \<times> oid) multiset"

datatype membership_action = Join oid oid | Depart oid oid | Idle

fun act_on :: "membership_action \<Rightarrow> members \<Rightarrow> members" where
  "act_on (Join c u) M = (if (c, u) \<in># M then M else add_mset (c, u) M)"
| "act_on (Depart c u) M = M - {#(c, u)#}"
| "act_on Idle M = M"

text \<open>The abstraction: the pairs of the active participations.\<close>

definition membersOf :: "participant list \<Rightarrow> members" where
  "membersOf ps = image_mset (\<lambda>p. (part_conversationId p, part_userId p)) (filter_mset (\<lambda>p. part_status p = Active) (mset ps))"

definition members :: "world \<Rightarrow> members" where
  "members w = membersOf (w_participants w)"

subsection \<open>Calls\<close>

datatype membership_call = Add jstr jstr jstr | Remove jstr jstr jstr | Leave jstr jstr | Delete jstr jstr

fun callDone :: "platform \<Rightarrow> membership_call \<Rightarrow> world \<Rightarrow> world" where
  "callDone pf (Add c u actor) w = snd (addMember pf c u actor w)"
| "callDone pf (Remove c u actor) w = snd (removeMember pf c u actor w)"
| "callDone pf (Leave c u) w = snd (leaveConversation pf c u w)"
| "callDone pf (Delete c u) w = snd (deleteConversationForUser pf c u w)"

text \<open>
  What a call means: nothing when an identifier is invalid. A removal by an actor whose identifier is
  invalid does take effect, since the actor is looked at last.
\<close>

fun meaning :: "platform \<Rightarrow> membership_call \<Rightarrow> membership_action" where
  "meaning pf (Add c u actor) =
     (case (parseOid (pf_oids pf) c, parseOid (pf_oids pf) u, parseOid (pf_oids pf) actor) of
        (Some cid, Some uid, Some _) \<Rightarrow> Join cid uid | _ \<Rightarrow> Idle)"
| "meaning pf (Remove c u actor) =
     (case (parseOid (pf_oids pf) c, parseOid (pf_oids pf) u) of (Some cid, Some uid) \<Rightarrow> Depart cid uid | _ \<Rightarrow> Idle)"
| "meaning pf (Leave c u) =
     (case (parseOid (pf_oids pf) c, parseOid (pf_oids pf) u) of (Some cid, Some uid) \<Rightarrow> Depart cid uid | _ \<Rightarrow> Idle)"
| "meaning pf (Delete c u) =
     (case (parseOid (pf_oids pf) c, parseOid (pf_oids pf) u) of (Some cid, Some uid) \<Rightarrow> Depart cid uid | _ \<Rightarrow> Idle)"

subsection \<open>Simulation\<close>

text \<open>A concrete system that follows an abstract one step by step follows it through every sequence.\<close>

locale simulation =
  fixes concrete :: "'c \<Rightarrow> 's \<Rightarrow> 's" and abstract :: "'a \<Rightarrow> 't \<Rightarrow> 't"
    and label :: "'c \<Rightarrow> 'a" and abs :: "'s \<Rightarrow> 't" and ok :: "'s \<Rightarrow> bool"
  assumes follows: "ok s \<Longrightarrow> abs (concrete c s) = abstract (label c) (abs s)"
    and stays_ok: "ok s \<Longrightarrow> ok (concrete c s)"
begin

lemma runs: "ok s \<Longrightarrow> abs (fold concrete cs s) = fold abstract (map label cs) (abs s) \<and> ok (fold concrete cs s)"
  by (induction cs arbitrary: s) (simp_all add: follows stays_ok)

end

subsection \<open>The operations follow the specification\<close>

lemma member_active: "(c, u) \<in># membersOf ps \<longleftrightarrow> (\<exists>p\<in>set ps. activeIn c u p)"
  by (auto simp: membersOf_def activeIn_def)

lemma membersOf_append: "membersOf (ps @ [p]) =
    (if part_status p = Active then add_mset (part_conversationId p, part_userId p) (membersOf ps) else membersOf ps)"
  by (simp add: membersOf_def)

lemma membersOf_end:
  assumes "distinct (map part_id ps)" "st \<noteq> Active"
  shows "membersOf (updateOne part_id ord (activeIn c u) (\<lambda>p. p\<lparr>part_status := st, part_leftAt := l\<rparr>) ps) =
    membersOf ps - {#(c, u)#}"
proof (cases "findOne ord (activeIn c u) ps")
  case None
  then have "(c, u) \<notin># membersOf ps" by (simp add: member_active findOne_None)
  with None show ?thesis by (simp add: updateOne_def diff_single_trivial)
next
  case (Some p)
  then have p: "p \<in> set ps" "activeIn c u p" using findOne_Some by fastforce+
  then obtain xs ys where ps: "ps = xs @ p # ys" by (auto dest: split_list)
  with assms(1) have "part_id p \<notin> part_id ` (set xs \<union> set ys)" by auto
  then have "\<forall>d\<in>set xs \<union> set ys. part_id d \<noteq> part_id p" by (metis imageI)
  then have "updateById part_id (part_id p) (\<lambda>d. d\<lparr>part_status := st, part_leftAt := l\<rparr>) ps =
      xs @ p\<lparr>part_status := st, part_leftAt := l\<rparr> # ys"
    unfolding ps updateById_def by (auto intro: map_idI)
  then show ?thesis
    using Some p assms(2) by (simp add: updateOne_def ps membersOf_def activeIn_def)
qed

lemma worldOk_part_ids: "worldOk pf w \<Longrightarrow> distinct (map part_id (w_participants w))"
  by (simp add: worldOk_def unique_ids_defs)

lemma depart_follows:
  assumes "worldOk pf w" "st \<noteq> Active"
  shows "members (snd (endParticipation pf cid uid st t w)) = members w - {#(cid, uid)#}"
  using membersOf_end [OF worldOk_part_ids [OF assms(1)] assms(2)]
  by (simp add: endParticipation_def modify_def members_def)

lemma createEvent_members: "members (snd (createEvent pf cid ty target actor t w)) = members w"
  by (simp add: createEvent_def insertEvent_def bind_def freshOid_run modify_def ret_def members_def)

lemma removeMember_follows:
  assumes "worldOk pf w"
  shows "members (snd (removeMember pf c u actor w)) = act_on (meaning pf (Remove c u actor)) (members w)"
proof (cases "parseOid (pf_oids pf) c = None \<or> parseOid (pf_oids pf) u = None")
  case True
  then show ?thesis
    by (auto simp: removeMember_def toObjectId_def bind_def ret_def throw_def members_def split: option.splits)
next
  case False
  then obtain cid uid where ids: "parseOid (pf_oids pf) c = Some cid" "parseOid (pf_oids pf) u = Some uid" by auto
  have "worldOk pf (snd (now pf w))" using assms keepsD [OF keeps_technical_base(1)] by blast
  from depart_follows [OF this, of Removed] ids createEvent_members show ?thesis
    by (auto simp: removeMember_def toObjectId_def bind_def ret_def throw_def now_run endParticipation_def modify_def
        members_def split: option.split)
qed

lemma left_follows:
  assumes "worldOk pf w"
  shows "members (snd (ChatMembership.markConversationLeft pf c u w)) = act_on (meaning pf (Leave c u)) (members w)"
proof (cases "parseOid (pf_oids pf) c = None \<or> parseOid (pf_oids pf) u = None")
  case True
  then show ?thesis
    by (auto simp: ChatMembership.markConversationLeft_def toObjectId_def bind_def ret_def throw_def members_def split: option.splits)
next
  case False
  then obtain cid uid where ids: "parseOid (pf_oids pf) c = Some cid" "parseOid (pf_oids pf) u = Some uid" by auto
  have "worldOk pf (snd (now pf w))" using assms keepsD [OF keeps_technical_base(1)] by blast
  from depart_follows [OF this, of participant_status.Left] ids createEvent_members show ?thesis
    by (auto simp: ChatMembership.markConversationLeft_def toObjectId_def bind_def ret_def throw_def now_run endParticipation_def
        modify_def members_def)
qed

lemma addMember_follows:
  "members (snd (addMember pf c u actor w)) = act_on (meaning pf (Add c u actor)) (members w)"
proof (cases "parseOid (pf_oids pf) c = None \<or> parseOid (pf_oids pf) u = None")
  case True
  then show ?thesis
    by (auto simp: addMember_def getActiveParticipant_def toObjectId_def bind_def ret_def throw_def members_def split: option.splits)
next
  case False
  then obtain cid uid where ids: "parseOid (pf_oids pf) c = Some cid" "parseOid (pf_oids pf) u = Some uid" by auto
  show ?thesis
  proof (cases "findOne (pf_participants pf) (activeIn cid uid) (w_participants w)")
    case None
    then have "(cid, uid) \<notin># membersOf (w_participants w)" by (simp add: member_active findOne_None)
    with ids None show ?thesis
      by (auto simp: addMember_def getActiveParticipant_run [OF ids] toObjectId_def bind_def ret_def throw_def now_run
          createParticipant_def insertParticipant_def newParticipant_def freshOid_run modify_def createEvent_def insertEvent_def
          members_def membersOf_append split: option.split)
  next
    case (Some p)
    then have "(cid, uid) \<in># membersOf (w_participants w)" using findOne_Some by (fastforce simp: member_active)
    with ids Some show ?thesis
      by (auto simp: addMember_def getActiveParticipant_run [OF ids] bind_def ret_def members_def split: option.split)
  qed
qed

interpretation membership: simulation "callDone pf" act_on "meaning pf" members "worldOk pf" for pf
proof
  fix w c assume ok: "worldOk pf w"
  show "members (callDone pf c w) = act_on (meaning pf c) (members w)"
    using ok addMember_follows removeMember_follows left_follows
    by (cases c) (simp_all add: leaveConversation_def deleteConversationForUser_def)
  show "worldOk pf (callDone pf c w)"
    using ok by (cases c) (simp_all add: keepsD [OF keeps_membership(2)] keepsD [OF keeps_membership(3)]
        keepsD [OF keeps_membership(4)] keepsD [OF keeps_membership(5)])
qed

text \<open>
  C3: membership is a bag of pairs. Whatever sequence of additions, removals, departures and deletions is
  performed on the documents, the active memberships afterwards are those that the same sequence of plain joins and
  departs yields: a call with an invalid identifier does nothing, joining twice is joining once, and a departure
  takes away one membership of exactly this user in exactly this conversation.
\<close>

theorem membership_refines:
  assumes "worldOk pf w"
  shows "members (fold (callDone pf) calls w) = fold act_on (map (meaning pf) calls) (members w)"
  using membership.runs [OF assms] by blast

end
