(* ===== verification/GatewayWitnesses.thy ===== *)
theory GatewayWitnesses
  imports ChatGateway
begin

text \<open>
  The properties of the AI services and of the chat gateway on concrete worlds: one configured API key
  whose model always answers, and ann and bob connected to the chat with one socket each.
\<close>

subsection \<open>The AI services\<close>

definition aiEnv :: "(string \<times> jstr) list" where
  "aiEnv = [(''GEMINI_API_KEYS'', js ''k'')]"

definition helloRequest :: gemini_request where
  "helloRequest = \<lparr>gr_model = Some (js ''m''), gr_messages = [], gr_responseMimeType = None, gr_timeoutMs = None\<rparr>"

lemma aiEnv_keys: "getApiKeys (samplePlatform aiEnv) = [js ''k'']"
  by (simp add: getApiKeys_def listSetting_def readEnv_def envText_def aiEnv_def js_def trim_def isSpace_def Let_def)

theorem generateContent_failover_witness:
  "\<exists>g w'. generateContent (samplePlatform aiEnv) helloRequest sampleWorld = (Inr g, w')"
proof -
  have "answers (samplePlatform aiEnv) helloRequest (js ''k'')"
    by (simp add: answers_def trim_def js_def isSpace_def)
  then show ?thesis
    by (intro generateContent_failover) (simp_all add: aiEnv_keys candidateModels_def helloRequest_def js_def)
qed

definition jsonPlatform :: platform where
  "jsonPlatform = (samplePlatform aiEnv)\<lparr>pf_gemini := (\<lambda>_ _ _ _. GeminiText (js ''{}''))\<rparr>"

lemma jsonPlatform_analyze: "\<exists>d v'. analyzeMessage jsonPlatform (js ''m'') (js ''t'') sampleWorld = (Inr d, v')"
proof -
  have keys: "getApiKeys jsonPlatform = [js ''k'']"
    using aiEnv_keys by (simp add: getApiKeys_def jsonPlatform_def readEnv_def envText_def envNumber_def)
  have answer: "trim (js ''{}'') = js ''{}''" "js ''{}'' \<noteq> []" by (simp_all add: trim_def js_def isSpace_def)
  have "parseValue num (Suc n) (js ''{}'') = Some (JObj [], [])" if "n > 0" for num n
    using that by (cases n) (simp_all add: js_def jsonSpace_def)
  from this [of 4] have json: "jsonParse num (js ''{}'') = Some (JObj [])" for num by (simp add: js_def jsonParse_def)
  have call: "pf_gemini jsonPlatform = (\<lambda>_ _ _ _. GeminiText (js ''{}''))" by (simp add: jsonPlatform_def)
  obtain m where m: "getCurrentModel jsonPlatform sampleWorld = (Inr m, sampleWorld)" "m \<noteq> []"
    by (simp add: getCurrentModel_def jsonPlatform_def getModels_def listSetting_def readEnv_def envText_def aiEnv_def
        gets_def js_def trim_def isSpace_def Let_def)
  show ?thesis
    by (simp add: analyzeMessage_def bind_def generateJson_def generateContent_def keys answer json call m
        getCurrentApiKey_def attemptModel_def callGemini_def catch_def markKeySuccess_def gets_def modify_def ret_def Let_def)
qed

theorem assistant_results_witness:
  "\<exists>ss w' d v'. generateSuggestions jsonPlatform convId sampleWorld = (Inr ss, w') \<and>
     analyzeMessage jsonPlatform (js ''m'') (js ''t'') sampleWorld = (Inr d, v') \<and> length ss \<le> 3 \<and> docsOf v' = docsOf sampleWorld"
proof -
  have "generateSuggestions jsonPlatform convId sampleWorld = (Inr [], sampleWorld)"
    by (simp add: generateSuggestions_def getMessages_def toObjectId_def dateFilter_def queryLimit_def minNum_def
        limitDocs_def findSorted_def findMany_def bind_def gets_def ret_def isInteger_def withNext_def jsonPlatform_def sample_defs)
  with jsonPlatform_analyze assistant_results show ?thesis by blast
qed

subsection \<open>The chat gateway\<close>

definition annUser :: session_user where
  "annUser = toSessionUser demo (sampleUser 0 ''ann'')"

definition bobUser :: session_user where
  "bobUser = toSessionUser demo (sampleUser 1 ''bob'')"

text \<open>The conversation of the sample world as a group, ann on socket 0, bob on socket 1 with the conversation open.\<close>

definition wiredWorld :: world where
  "wiredWorld = chatWorld\<lparr>w_conversations := [sampleConversation\<lparr>conv_type := Group\<rparr>],
     w_sockets := [(0, \<lparr>sock_namespace = ChatNamespace, sock_user = Some annUser, sock_joined = Some [],
         sock_rooms = [getUserRoom annId]\<rparr>),
       (1, \<lparr>sock_namespace = ChatNamespace, sock_user = Some bobUser, sock_joined = Some [convId],
         sock_rooms = [getUserRoom bobId, getConversationRoom convId]\<rparr>)]\<rparr>"

abbreviation hiPayload :: send_payload where
  "hiPayload \<equiv> \<lparr>sp_conversationId = convId, sp_content = js ''hi'', sp_attachmentId = None\<rparr>"

lemma hi_plain: "trim (js ''hi'') = js ''hi''" "\<not> shouldReply (js ''hi'')"
  by (simp_all add: trim_def shouldReply_def startsWith_def js_def isSpace_def Let_def)

lemma hi_acked:
  assumes "getClientUser ChatNamespace i w = (Inr user, w)"
    and "sendMessage demo convId (su_id user) (js ''hi'') None False w = (Inr (x, restored), v)"
  shows "\<exists>m w'. handleSendMessage demo i hiPayload w = (Inr (AckOk m), w') \<and> w_participants w' = w_participants v"
proof -
  obtain y u where y: "toRealtimeMessagePayload demo x v = (Inr y, u)" using toRealtimeMessagePayload_total by blast
  obtain es u' where es: "buildConversationPreviewPayloads demo convId u = (Inr es, u')"
    using previews_total [OF demo_ids(1)] by blast
  have "w_participants u' = w_participants v"
    using dataOf_eqD(5) [OF frames_run [OF technical_reading(3) es]] dataOf_eqD(5) [OF frames_run [OF technical_display(3) y]]
    by simp
  with assms y es show ?thesis
    by (simp add: handleSendMessage_def sendRealtimeMessage_def hi_plain givenId_def bind_def catch_def ret_def Let_def
        emitConversationPreviews_run emitRealtimeMessage_run whenA_def startTask_def modify_def)
qed

lemma ann_on_socket: "su_id annUser = annId"
  by (simp add: annUser_def toSessionUser_def sampleUser_def)

lemmas demo_run = sendMessage_def postMessage_def Let_def givenId_def
  getRequiredActiveParticipant_def getActiveParticipant_def toObjectId_def castObjectId_def bind_def gets_def ret_def
  now_run freshOid_run findOne_def findMany_def activeIn_def restoreDirectParticipantsIfNeeded_def findById_def
  findSorted_def resolveAttachment_def encryptForStorage_def backendEnv_def insertMessage_def modify_def attachTo_def
  touchConversation_def markOwnRead_def incrementUnreadForOtherParticipants_def updateById_def updateOne_def updateMany_def

lemma wired_send:
  "\<exists>x r v. sendMessage demo convId annId (js ''hi'') None False wiredWorld = (Inr (x, r), v) \<and>
     (\<exists>q\<in>set (w_participants v). part_conversationId q = 3 \<and> part_status q = Active \<and> part_userId q = 1)"
  by (simp add: demo_run hi_plain wiredWorld_def chat_defs numeral_3_eq_3)

lemma ann_connected: "getClientUser ChatNamespace 0 wiredWorld = (Inr annUser, wiredWorld)"
  by (simp add: getClientUser_def bind_def gets_def ret_def socketOf_def wiredWorld_def)

theorem send_event_delivery_witness:
  "\<exists>m w'. handleSendMessage demo 0 hiPayload wiredWorld = (Inr (AckOk m), w') \<and>
     (\<exists>e\<in>set (drop (length (w_emitted wiredWorld)) (w_emitted w')). em_payload e = MessagePayload m \<and> 1 \<in> set (em_recipients e))"
proof -
  from wired_send obtain x r v q where send: "sendMessage demo convId annId (js ''hi'') None False wiredWorld = (Inr (x, r), v)"
    and q: "q \<in> set (w_participants v)" "part_conversationId q = 3" "part_status q = Active" "part_userId q = 1" by blast
  obtain m w' where run: "handleSendMessage demo 0 hiPayload wiredWorld = (Inr (AckOk m), w')" "w_participants w' = w_participants v"
    using hi_acked [OF ann_connected] send ann_on_socket by metis
  have "(1, \<lparr>sock_namespace = ChatNamespace, sock_user = Some bobUser, sock_joined = Some [convId],
         sock_rooms = [getUserRoom bobId, getConversationRoom convId]\<rparr>) \<in> set (w_sockets wiredWorld)"
    by (simp add: wiredWorld_def)
  from send_event_delivery [OF run(1) _ _ q(2,3) this] q run show ?thesis by auto
qed

lemma bob_leaves:
  "\<exists>x r v. sendMessage demo convId annId (js ''hi'') None False (snd (leaveConversation demo convId bobId wiredWorld)) = (Inr (x, r), v)"
  "getClientUser ChatNamespace 0 (snd (leaveConversation demo convId bobId wiredWorld)) =
     (Inr annUser, snd (leaveConversation demo convId bobId wiredWorld))"
proof -
  have left: "leaveConversation demo convId bobId wiredWorld = (Inr (), snd (leaveConversation demo convId bobId wiredWorld)) \<and>
     w_sockets (snd (leaveConversation demo convId bobId wiredWorld)) = w_sockets wiredWorld \<and>
     (\<exists>x r v. sendMessage demo convId annId (js ''hi'') None False (snd (leaveConversation demo convId bobId wiredWorld)) = (Inr (x, r), v))"
    by (simp add: leaveConversation_def ChatMembership.markConversationLeft_def endParticipation_def createEvent_def insertEvent_def
        demo_run hi_plain wiredWorld_def chat_defs numeral_3_eq_3)
  then show "\<exists>x r v. sendMessage demo convId annId (js ''hi'') None False (snd (leaveConversation demo convId bobId wiredWorld)) = (Inr (x, r), v)"
    by blast
  from left show "getClientUser ChatNamespace 0 (snd (leaveConversation demo convId bobId wiredWorld)) =
     (Inr annUser, snd (leaveConversation demo convId bobId wiredWorld))"
    by (simp add: getClientUser_def bind_def gets_def ret_def socketOf_def wiredWorld_def)
qed

theorem removed_member_still_receives_witness:
  "\<exists>m w'. handleSendMessage demo 0 hiPayload (snd (leaveConversation demo convId bobId wiredWorld)) = (Inr (AckOk m), w') \<and>
     (\<exists>e\<in>set (drop (length (w_emitted wiredWorld)) (w_emitted w')). em_payload e = MessagePayload m \<and> 1 \<in> set (em_recipients e))"
proof -
  obtain m w' where run: "handleSendMessage demo 0 hiPayload (snd (leaveConversation demo convId bobId wiredWorld)) = (Inr (AckOk m), w')"
    using hi_acked [OF bob_leaves(2)] bob_leaves(1) ann_on_socket by metis
  have "(1, \<lparr>sock_namespace = ChatNamespace, sock_user = Some bobUser, sock_joined = Some [convId],
         sock_rooms = [getUserRoom bobId, getConversationRoom convId]\<rparr>) \<in> set (w_sockets wiredWorld)"
    by (simp add: wiredWorld_def)
  from removed_member_still_receives [OF this, of convId "snd (leaveConversation demo convId bobId wiredWorld)" demo bobId _ 0 hiPayload m w'] run
  show ?thesis by auto
qed

end
