(* ===== verification/SystemWitnesses.thy ===== *)
theory SystemWitnesses
  imports System MembershipSpec GatewayWitnesses
begin

text \<open>
  The properties of the HTTP side, of the assistant's gateway and of the system as a whole on concrete
  worlds and requests.
\<close>

subsection \<open>Membership\<close>

theorem membership_refines_witness:
  "members (fold (callDone demo) [Leave convId bobId, Add convId bobId annId, Add convId bobId annId] chatWorld) =
     {#(3, 0), (3, 1)#}"
proof -
  have "members chatWorld = {#(3, 0), (3, 1)#}"
    by (simp add: members_def membersOf_def chat_defs)
  then show ?thesis
    using membership_refines [OF chatWorld_ok, of "[Leave convId bobId, Add convId bobId annId, Add convId bobId annId]"]
    by (simp add: numeral_3_eq_3)
qed

subsection \<open>Requests\<close>

text \<open>The token of session 2 of user 0, presented in a header, in a cookie and in a handshake.\<close>

abbreviation annToken :: jstr where "annToken \<equiv> [0x2E, 0x61, 0x61]"

definition annRequest :: http_request where
  "annRequest = \<lparr>req_path = None, req_authorization = Some (js ''Bearer '' @ annToken),
     req_cookie = Some (cookieHeaderOf [js ''x=1'', cookiePrefix demo @ annToken]), req_session = Some 9, req_user = None\<rparr>"

lemma annToken_plain: "trim annToken = annToken" "encodeURIComponent annToken = Some annToken"
  by (simp_all add: trim_def isSpace_def encodeURIComponent_def wellFormed_def isHigh_def isLow_def pointText_def unreserved_def)

lemma annToken_claims: "pf_jwtVerify demo secret t annToken = Inr \<lparr>cl_type = ''access'', cl_sub = [], cl_sid = [0x61, 0x61], cl_jti = None\<rparr>"
  by (simp add: sampleVerify_def)

lemma demo_cookie: "REFRESH_COOKIE_NAME (readEnv demo) = js ''refresh_token''"
  by (simp add: readEnv_def envText_def Let_def)

lemma annRequest_token: "getRefreshTokenFromRequest demo annRequest w = (Inr (Some annToken), w)"
  by (rule read_cookie [OF sample_env(1) annToken_plain(2), of "[js ''x=1'']" "[]"])
    (simp_all add: annRequest_def demo_cookie cookiePrefix_def js_def isSpace_def startsWith_def trim_def)

theorem refresh_cookie_roundtrip_witness:
  "\<exists>w\<^sub>1. setRefreshCookie demo annToken sampleWorld = (Inr (), w\<^sub>1) \<and>
     getRefreshTokenFromRequest demo annRequest w\<^sub>1 = (Inr (Some annToken), w\<^sub>1)"
proof -
  obtain w\<^sub>1 opts where set: "setRefreshCookie demo annToken sampleWorld = (Inr (), w\<^sub>1)"
    and "last (w_cookies w\<^sub>1) = SetCookie (js ''refresh_token'') annToken opts"
    by (simp add: setRefreshCookie_def backendEnv_def bind_def ret_def modify_def demo_cookie)
  from refresh_cookie_roundtrip [OF this annToken_plain(2), of "[js ''x=1'']" "[]" annRequest w\<^sub>1] set show ?thesis
    by (simp add: annRequest_def demo_cookie cookiePrefix_def js_def isSpace_def startsWith_def trim_def)
qed

theorem logout_ends_session_witness:
  "fst (logout demo annRequest sampleWorld) = Inr True \<and>
   fst (accessTokenGuard demo annRequest (snd (logout demo annRequest sampleWorld))) =
     Inl (UnauthorizedException (codeBody ''access_token_expired'' ''Access token is expired or invalid''))"
  using logout_ends_session [OF annRequest_token _ annToken_claims _ _ refl annToken_claims, where i = 2 and later = annRequest]
    annToken_plain
  by (simp add: annRequest_def sample_defs numeral_2_eq_2)

text \<open>Ann has been removed from the conversation and asks for its membership events.\<close>

definition removedWorld :: world where
  "removedWorld = chatWorld\<lparr>w_participants := [(sampleParticipant 4 0 Owner 1)\<lparr>part_status := Removed\<rparr>,
     sampleParticipant 5 1 Member 0]\<rparr>"

lemma removed_outsider: "outsider demo convId annId removedWorld"
  by (simp add: outsider_def removedWorld_def activeIn_def chat_defs numeral_3_eq_3)

lemma annRequest_user:
  assumes "accessTokenGuard demo annRequest removedWorld = (Inr r, v)" "req_user r = Some u"
  shows "su_id u = annId"
proof -
  obtain x w' where "authenticateAccessToken demo annToken removedWorld = (x, w')" by fastforce
  moreover have "x = Inr (Some (toSessionUser demo (sampleUser 0 ''ann'')))" if "authenticateAccessToken demo annToken removedWorld = (x, w')"
    using that
    by (simp add: authenticateAccessToken_def catch_def bind_def gets_def ret_def now_run removedWorld_def sample_defs chat_defs
        verifyAccessToken_def jwtVerify_def backendEnv_def sample_token castObjectId_def findById_def authFindById_def
        numeral_2_eq_2)
  ultimately show ?thesis
    using assms annToken_plain
    by (auto simp: accessTokenGuard_def annRequest_def bind_def ret_def toSessionUser_def sampleUser_def Let_def)
qed

theorem conversation_routes_closed_witness:
  "\<exists>e w'. serveChat demo annRequest (GetEvents convId) removedWorld = (Inl e, w') \<and> docsOf w' = docsOf removedWorld"
  by (rule conversation_routes_closed [where c = convId]) (simp_all add: annRequest_user removed_outsider)

subsection \<open>The assistant\<close>

definition assistantWorld :: world where
  "assistantWorld = chatWorld\<lparr>w_sockets := [(0, \<lparr>sock_namespace = AiNamespace, sock_user = Some annUser, sock_joined = None,
     sock_rooms = [getUserRoom annId]\<rparr>)]\<rparr>"

lemma assistant_answers: "\<exists>r w'. handleAiChat demo 0 convId (js ''hi'') assistantWorld = (Inr r, w')"
proof -
  have "getClientUser AiNamespace 0 assistantWorld = (Inr annUser, assistantWorld)"
    by (simp add: getClientUser_def bind_def gets_def ret_def socketOf_def assistantWorld_def)
  then show ?thesis
    by (simp add: handleAiChat_def bind_def catch_def failWith_run split: sum.split prod.split) blast?
qed


subsection \<open>The system\<close>

theorem system_invariant_witness:
  "accountsOk (w_users (perform demo (HttpGoogle \<lparr>gp_id = js ''g'', gp_displayName = js ''Ann'', gp_emails = Some [js ''ann@x''],
     gp_photos = None\<rparr> annRequest) emptyWorld))"
  using system_invariant [OF reachable.event [OF reachable.start]] by blast

theorem revoked_for_good_witness:
  "fst (authenticateAccessToken demo annToken (fold (perform demo) [HttpRefresh annRequest, HttpMe annRequest]
     (sampleWorld\<lparr>w_sessions := [(sampleSession 2 0)\<lparr>ses_revokedAt := Some 5, ses_status := SessionRevoked\<rparr>]\<rparr>))) = Inr None"
proof -
  have "sessionRevoked 2 (sampleWorld\<lparr>w_sessions := [(sampleSession 2 0)\<lparr>ses_revokedAt := Some 5, ses_status := SessionRevoked\<rparr>]\<rparr>)"
    by (simp add: sessionRevoked_def findById_def sample_defs)
  from revoked_for_good [OF sample_env(1) this refl annToken_claims,
      where hs = "\<lparr>hs_authToken = Some annToken, hs_authorization = None\<rparr>" and es = "[HttpRefresh annRequest, HttpMe annRequest]"]
  show ?thesis
    using annToken_plain by (simp add: readToken_def Let_def numeral_2_eq_2)
qed

end
