(* ===== verification/ClientData.thy ===== *)
theory ClientData
  imports AuthData
begin

text \<open>
  The data of the web client (\<open>types/chat.ts\<close>) and the pure functions of \<open>features/chat/chat.page.tsx\<close> on it:
  inserting a message into the thread, updating the preview of a conversation, the summary of what is
  unread, and the time line. The parameter \<open>dateOf\<close> is \<open>new Date(text).getTime()\<close>; the texts it is applied to
  are written by the server with \<open>toISOString\<close>, so it is a number. The free-form metadata of a membership event is
  left out, since nothing reads it. \<open>sort\<close> is stable, like \<open>sort_key\<close>.
\<close>

subsection \<open>Texts\<close>

text \<open>A user\<close>

definition txtFallbackSender :: jstr where
  "txtFallbackSender =
    [110, 103, 432, 7901, 105, 32, 100, 249, 110, 103]"

text \<open>You have\<close>

definition txtYouHave :: jstr where
  "txtYouHave =
    [66, 7841, 110, 32, 99, 243, 32]"

text \<open>New messages from\<close>

definition txtNewFrom :: jstr where
  "txtNewFrom =
    [32, 116, 105, 110, 32, 110, 104, 7855, 110, 32, 109, 7899, 105, 32, 116, 7915, 32]"

text \<open>Unread messages\<close>

definition txtUnreadMessages :: jstr where
  "txtUnreadMessages =
    [32, 116, 105, 110, 32, 110, 104, 7855, 110, 32, 99, 104, 432, 97, 32, 273, 7885, 99]"

text \<open>You have a new message\<close>

definition txtNewMessage :: jstr where
  "txtNewMessage =
    [66, 7841, 110, 32, 99, 243, 32, 116, 105, 110, 32, 110, 104, 7855, 110, 32, 109, 7899,
     105]"

text \<open>The file cannot be sent now\<close>

definition txtSendFileFailed :: jstr where
  "txtSendFileFailed =
    [75, 104, 244, 110, 103, 32, 116, 104, 7875, 32, 103, 7917, 105, 32, 116, 7879, 112, 32,
     108, 250, 99, 32, 110, 224, 121, 46]"

text \<open>Ask the AI in the current chat\<close>

definition txtAskAi :: jstr where
  "txtAskAi =
    [72, 7887, 105, 32, 65, 73, 32, 116, 114, 111, 110, 103, 32, 273, 111, 7841, 110, 32, 99,
     104, 97, 116, 32, 104, 105, 7879, 110, 32, 116, 7841, 105]"

subsection \<open>Data\<close>

datatype conversation_kind = DirectKind | GroupKind

record conversation_peer =
  peer_id :: jstr
  peer_username :: jstr
  peer_displayName :: jstr
  peer_email :: "jstr option"
  peer_avatarUrl :: "jstr option"

record client_conversation =
  cc_id :: jstr
  cc_type :: conversation_kind
  cc_title :: "jstr option"
  cc_createdBy :: jstr
  cc_lastMessageAt :: "jstr option"
  cc_createdAt :: jstr
  cc_updatedAt :: jstr
  cc_displayTitle :: "jstr option"
  cc_displayAvatarUrl :: "jstr option"
  cc_lastMessagePreview :: "jstr option"
  cc_unreadCount :: "int option"
  cc_hasUnread :: "bool option"
  cc_directPeer :: "conversation_peer option"

record client_attachment =
  ca_attachmentId :: jstr
  ca_fileName :: jstr
  ca_mimeType :: jstr
  ca_sizeBytes :: jsnum
  ca_isImage :: bool
  ca_uploaderId :: "jstr option"
  ca_conversationId :: "jstr option"
  ca_messageId :: "jstr option"

record client_moderation =
  cmr_messageId :: jstr
  cmr_sentiment :: "jstr option"
  cmr_sentimentScore :: "jsnum option"
  cmr_toxicityScore :: "jsnum option"
  cmr_isToxic :: "bool option"
  cmr_warningMessage :: "jstr option"

datatype client_delivery = SentOk | SendingFailed

datatype display_state = Ready | DecodeFailed

datatype client_seen = ClientSent | ClientSeen

record client_message =
  cmsg_id :: jstr
  cmsg_conversationId :: jstr
  cmsg_senderId :: jstr
  cmsg_senderDisplayName :: "jstr option"
  cmsg_senderAvatarUrl :: "jstr option"
  cmsg_content :: jstr
  cmsg_sentAt :: jstr
  cmsg_deliveryStatus :: client_delivery
  cmsg_seenState :: "client_seen option"
  cmsg_attachment :: "client_attachment option"
  cmsg_isTailOfSenderGroup :: "bool option"
  cmsg_decodeErrorCode :: "jstr option"
  cmsg_displayState :: "display_state option"
  cmsg_isAIBotMessage :: "bool option"
  cmsg_isAICommand :: "bool option"
  cmsg_moderationResult :: "client_moderation option"

record delivered_message =
  inc_messageId :: jstr
  inc_conversationId :: jstr
  inc_senderId :: jstr
  inc_senderDisplayName :: "jstr option"
  inc_senderAvatarUrl :: "jstr option"
  inc_content :: jstr
  inc_sentAt :: jstr
  inc_seenState :: "client_seen option"
  inc_attachment :: "client_attachment option"
  inc_isTailOfSenderGroup :: "bool option"
  inc_decodeErrorCode :: "jstr option"
  inc_displayState :: "display_state option"
  inc_isAIBotMessage :: "bool option"
  inc_isAICommand :: "bool option"
  inc_moderationResult :: "client_moderation option"

record preview_update =
  pu_conversationId :: jstr
  pu_lastMessagePreview :: jstr
  pu_lastMessageAt :: jstr
  pu_unreadCount :: "int option"
  pu_hasUnread :: "bool option"

datatype title_variant = DefaultTitle | SingleSender | MultiSender

record unread_summary =
  us_totalUnreadMessages :: int
  us_unreadConversationIds :: "jstr list"
  us_unreadSourceCount :: nat
  us_singleSenderName :: "jstr option"
  us_titleVariant :: title_variant

datatype event_kind = EventAdded | EventJoined | EventLeft | EventRemoved

record client_event_item =
  ce_id :: jstr
  ce_conversationId :: jstr
  ce_type :: event_kind
  ce_targetUserId :: jstr
  ce_actorUserId :: "jstr option"
  ce_occurredAt :: jstr

record typing_update =
  tu_conversationId :: jstr
  tu_userId :: jstr
  tu_isTyping :: bool
  tu_expiresAt :: "jstr option"

subsection \<open>Pure functions\<close>

definition mapRealtimeMessage :: "delivered_message \<Rightarrow> client_message" where
  "mapRealtimeMessage m = \<lparr>cmsg_id = inc_messageId m, cmsg_conversationId = inc_conversationId m, cmsg_senderId = inc_senderId m,
     cmsg_senderDisplayName = inc_senderDisplayName m, cmsg_senderAvatarUrl = inc_senderAvatarUrl m, cmsg_content = inc_content m,
     cmsg_sentAt = inc_sentAt m, cmsg_deliveryStatus = SentOk, cmsg_seenState = inc_seenState m, cmsg_attachment = inc_attachment m,
     cmsg_isTailOfSenderGroup = inc_isTailOfSenderGroup m, cmsg_decodeErrorCode = inc_decodeErrorCode m,
     cmsg_displayState = inc_displayState m, cmsg_isAIBotMessage = inc_isAIBotMessage m, cmsg_isAICommand = inc_isAICommand m,
     cmsg_moderationResult = inc_moderationResult m\<rparr>"

definition upsertMessage :: "(jstr \<Rightarrow> int) \<Rightarrow> client_message list \<Rightarrow> client_message \<Rightarrow> client_message list" where
  "upsertMessage dateOf messages message =
     (if \<exists>item\<in>set messages. cmsg_id item = cmsg_id message then messages
      else sort_key (\<lambda>m. dateOf (cmsg_sentAt m)) (messages @ [message]))"

text \<open>\<open>lastMessageAt ? new Date(lastMessageAt).getTime() : 0\<close>\<close>

definition activityTime :: "(jstr \<Rightarrow> int) \<Rightarrow> client_conversation \<Rightarrow> int" where
  "activityTime dateOf c = (case cc_lastMessageAt c of None \<Rightarrow> 0 | Some t \<Rightarrow> if t = [] then 0 else dateOf t)"

definition withPreview :: "preview_update \<Rightarrow> client_conversation \<Rightarrow> client_conversation" where
  "withPreview preview c =
     (if cc_id c = pu_conversationId preview
      then c\<lparr>cc_lastMessagePreview := Some (pu_lastMessagePreview preview), cc_lastMessageAt := Some (pu_lastMessageAt preview),
             cc_unreadCount := pu_unreadCount preview, cc_hasUnread := pu_hasUnread preview\<rparr>
      else c)"

definition updateConversationPreview ::
    "(jstr \<Rightarrow> int) \<Rightarrow> client_conversation list \<Rightarrow> preview_update \<Rightarrow> client_conversation list option" where
  "updateConversationPreview dateOf conversations preview =
     (case find (\<lambda>c. cc_id c = pu_conversationId preview) conversations of
        None \<Rightarrow> None
      | Some _ \<Rightarrow> Some (sort_key (\<lambda>c. - activityTime dateOf c) (map (withPreview preview) conversations)))"

definition resolveConversationSenderName :: "client_conversation \<Rightarrow> jstr" where
  "resolveConversationSenderName c =
     (let directPeerName = (case cc_directPeer c of None \<Rightarrow> [] | Some p \<Rightarrow> trim (peer_displayName p));
          displayTitle = (case cc_displayTitle c of None \<Rightarrow> [] | Some t \<Rightarrow> trim t);
          title = (case cc_title c of None \<Rightarrow> [] | Some t \<Rightarrow> trim t)
      in if directPeerName \<noteq> [] then directPeerName
         else if displayTitle \<noteq> [] then displayTitle
         else if title \<noteq> [] then title
         else txtFallbackSender)"

definition unreadOf :: "client_conversation \<Rightarrow> int" where
  "unreadOf c = (case cc_unreadCount c of None \<Rightarrow> 0 | Some n \<Rightarrow> n)"

definition buildUnreadSummary :: "client_conversation list \<Rightarrow> unread_summary" where
  "buildUnreadSummary conversations =
     (let unreadConversations = filter (\<lambda>c. unreadOf c > 0) conversations;
          totalUnreadMessages = foldl (\<lambda>total c. total + unreadOf c) 0 unreadConversations
      in if totalUnreadMessages = 0
         then \<lparr>us_totalUnreadMessages = 0, us_unreadConversationIds = [], us_unreadSourceCount = 0,
               us_singleSenderName = None, us_titleVariant = DefaultTitle\<rparr>
         else case unreadConversations of
           [c] \<Rightarrow> \<lparr>us_totalUnreadMessages = totalUnreadMessages, us_unreadConversationIds = [cc_id c], us_unreadSourceCount = 1,
                   us_singleSenderName = Some (resolveConversationSenderName c), us_titleVariant = SingleSender\<rparr>
         | _ \<Rightarrow> \<lparr>us_totalUnreadMessages = totalUnreadMessages, us_unreadConversationIds = map cc_id unreadConversations,
                 us_unreadSourceCount = length unreadConversations, us_singleSenderName = None,
                 us_titleVariant = MultiSender\<rparr>)"

definition formatUnreadTitle :: "unread_summary \<Rightarrow> jstr \<Rightarrow> jstr" where
  "formatUnreadTitle summary defaultTitle =
     (let many = txtYouHave @ showNat (nat (us_totalUnreadMessages summary)) @ txtUnreadMessages in
      if us_titleVariant summary = DefaultTitle \<or> us_totalUnreadMessages summary = 0 then defaultTitle
      else case us_singleSenderName summary of
        Some name \<Rightarrow>
          if us_titleVariant summary = SingleSender \<and> name \<noteq> []
          then txtYouHave @ showNat (nat (us_totalUnreadMessages summary)) @ txtNewFrom @ name
          else many
      | None \<Rightarrow> many)"

datatype timeline_item = EventItem client_event_item | MessageItem client_message

fun itemDate :: "timeline_item \<Rightarrow> jstr" where
  "itemDate (EventItem e) = ce_occurredAt e"
| "itemDate (MessageItem m) = cmsg_sentAt m"

definition combinedTimeline ::
    "(jstr \<Rightarrow> int) \<Rightarrow> client_conversation option \<Rightarrow> client_event_item list \<Rightarrow> client_message list \<Rightarrow> timeline_item list" where
  "combinedTimeline dateOf selected events messages =
     (let eventItems = (if map_option cc_type selected = Some GroupKind then map EventItem events else []) in
      sort_key (\<lambda>i. dateOf (itemDate i)) (eventItems @ map MessageItem messages))"

subsection \<open>The thread and the list of conversations\<close>

lemma upsert_new: "\<forall>item\<in>set ms. cmsg_id item \<noteq> cmsg_id m \<Longrightarrow>
    upsertMessage dateOf ms m = sort_key (\<lambda>m. dateOf (cmsg_sentAt m)) (ms @ [m])"
  by (auto simp: upsertMessage_def)

lemma upsert_known: "i \<in> set ms \<Longrightarrow> cmsg_id i = cmsg_id m \<Longrightarrow> upsertMessage dateOf ms m = ms"
  by (auto simp: upsertMessage_def)

lemma upsert_cases:
  obtains (known) i where "i \<in> set ms" "cmsg_id i = cmsg_id m" | (new) "\<forall>item\<in>set ms. cmsg_id item \<noteq> cmsg_id m"
  by blast

lemma upsert_ids:
  "set (map cmsg_id (upsertMessage dateOf ms m)) = insert (cmsg_id m) (set (map cmsg_id ms))"
proof (cases rule: upsert_cases [of ms m])
  case (known i)
  then have "cmsg_id m \<in> set (map cmsg_id ms)" by (metis image_eqI set_map)
  with known show ?thesis by (auto simp: upsert_known)
qed (simp add: upsert_new)

lemma upsert_distinct: "distinct (map cmsg_id ms) \<Longrightarrow> distinct (map cmsg_id (upsertMessage dateOf ms m))"
proof (cases rule: upsert_cases [of ms m])
  case new
  let ?sorted = "upsertMessage dateOf ms m"
  have "mset (map cmsg_id ?sorted) = mset (map cmsg_id (ms @ [m]))" by (simp add: upsert_new [OF new])
  moreover assume "distinct (map cmsg_id ms)"
  then have "distinct (map cmsg_id (ms @ [m]))" using new by auto
  ultimately show ?thesis by (metis mset_eq_imp_distinct_iff)
qed (simp add: upsert_known)

lemma upsert_sorted:
  "sorted (map (\<lambda>m. dateOf (cmsg_sentAt m)) ms) \<Longrightarrow> sorted (map (\<lambda>m. dateOf (cmsg_sentAt m)) (upsertMessage dateOf ms m))"
  by (simp add: upsertMessage_def)

lemma upsert_twice: "upsertMessage dateOf (upsertMessage dateOf ms m) m = upsertMessage dateOf ms m"
proof -
  have "cmsg_id m \<in> cmsg_id ` set (upsertMessage dateOf ms m)" using upsert_ids [of dateOf ms m] by simp
  then obtain i where "cmsg_id m = cmsg_id i" "i \<in> set (upsertMessage dateOf ms m)" by (rule imageE)
  then show ?thesis using upsert_known by metis
qed

lemma sort_key_sorted: "sorted (map k xs) \<Longrightarrow> sort_key k xs = xs"
proof (induction xs)
  case (Cons x xs)
  then have "sort_key k xs = xs" "\<forall>y\<in>set xs. k x \<le> k y" by simp_all
  then show ?case by (simp add: insort_is_Cons)
qed simp

text \<open>A preview, once it is in place, changes nothing when it comes again.\<close>

lemma find_withPreview:
  "find (\<lambda>c. cc_id c = i) (map (withPreview p) cs) = map_option (withPreview p) (find (\<lambda>c. cc_id c = i) cs)"
  by (induction cs) (simp_all add: withPreview_def)

lemma withPreview_twice: "withPreview p (withPreview p c) = withPreview p c"
  by (simp add: withPreview_def)

lemma find_Some_iff_mem: "find P xs \<noteq> None \<longleftrightarrow> (\<exists>x\<in>set xs. P x)"
  by (auto simp: find_None_iff)

lemma preview_None_iff: "updateConversationPreview dateOf cs p = None \<longleftrightarrow> (\<forall>c\<in>set cs. cc_id c \<noteq> pu_conversationId p)"
  by (simp add: updateConversationPreview_def find_None_iff split: option.split) (auto simp: find_None_iff find_Some_iff)

lemma preview_Some:
  assumes "updateConversationPreview dateOf cs p = Some ds"
  shows "mset (map cc_id ds) = mset (map cc_id cs)" "set ds = withPreview p ` set cs"
    "sorted (map (\<lambda>c. - activityTime dateOf c) ds)" "updateConversationPreview dateOf ds p = Some ds"
proof -
  from assms have ds: "ds = sort_key (\<lambda>c. - activityTime dateOf c) (map (withPreview p) cs)"
    and found: "\<exists>c\<in>set cs. cc_id c = pu_conversationId p"
    using preview_None_iff [of dateOf cs p] by (auto simp: updateConversationPreview_def split: option.splits)
  have ids: "map cc_id (map (withPreview p) cs) = map cc_id cs" by (simp add: withPreview_def)
  have "mset (map cc_id ds) = mset (map cc_id (map (withPreview p) cs))" unfolding ds by (simp del: map_map)
  then show "mset (map cc_id ds) = mset (map cc_id cs)" unfolding ids .
  show set: "set ds = withPreview p ` set cs" by (simp add: ds)
  show sorted: "sorted (map (\<lambda>c. - activityTime dateOf c) ds)" by (simp add: ds)
  have "map (withPreview p) ds = ds" by (rule map_idI) (use set withPreview_twice in force)
  moreover have "find (\<lambda>c. cc_id c = pu_conversationId p) ds \<noteq> None"
    using found set by (auto simp: find_None_iff withPreview_def)
  ultimately show "updateConversationPreview dateOf ds p = Some ds"
    using sort_key_sorted [OF sorted] by (auto simp: updateConversationPreview_def)
qed

end
