(* ===== verification/ClientPage.thy ===== *)
theory ClientPage
  imports ClientData
begin

text \<open>
  The chat page of the web client, \<open>features/chat/chat.page.tsx\<close>: its state and every change of it. A
  \<open>setState\<close> of the source is a function on \<open>chat_state\<close>; the references and the other states a handler
  uses are the further fields of \<open>page\<close>. A handler that waits for the server is split where it waits: one
  function for what it does before, and one for each way the answer may arrive. What a handler reads of the
  state it was rendered with, which may be older than the state it changes, is an argument of its own.
\<close>

subsection \<open>State\<close>

datatype draft_status = Pending | Uploading | UploadDone | UploadFailed

record draft_file =
  df_name :: jstr
  df_type :: jstr
  df_size :: int

record draft_attachment =
  da_localId :: jstr
  da_file :: draft_file
  da_progress :: int
  da_status :: draft_status
  da_attachmentId :: "jstr option"
  da_error :: "jstr option"

record suggestion_cache =
  sc_suggestions :: "jstr list"
  sc_baseMessageCount :: int

record chat_state =
  st_conversations :: "client_conversation list"
  st_selectedConversationId :: "jstr option"
  st_messages :: "client_message list"
  st_membershipEvents :: "client_event_item list"
  st_loadingConversations :: bool
  st_loadingMessages :: bool
  st_sendingMessage :: bool
  st_draftAttachment :: "draft_attachment option"
  st_hasMoreMessages :: bool
  st_typing :: "jstr \<Rightarrow> typing_update option"
  st_aiSuggestions :: "jstr list"
  st_loadingAiSuggestions :: bool
  st_aiUnavailable :: bool
  st_aiEnabled :: bool
  st_waitingForAi :: "jstr option"
  st_suggestionCache :: "jstr \<Rightarrow> suggestion_cache option"
  st_slashCommandsVisible :: bool
  st_slashCommandQuery :: jstr

datatype connection_state = Connecting | Connected | Reconnecting | Disconnected

record page = chat_state +
  pg_inputValue :: jstr
  pg_connectionState :: connection_state
  pg_shownNotifications :: "jstr list"
  pg_typingTimeouts :: "jstr \<Rightarrow> int option"

definition newPage :: page where
  "newPage = \<lparr>st_conversations = [], st_selectedConversationId = None, st_messages = [], st_membershipEvents = [],
     st_loadingConversations = True, st_loadingMessages = False, st_sendingMessage = False, st_draftAttachment = None,
     st_hasMoreMessages = True, st_typing = (\<lambda>_. None), st_aiSuggestions = [], st_loadingAiSuggestions = False,
     st_aiUnavailable = False, st_aiEnabled = True, st_waitingForAi = None, st_suggestionCache = (\<lambda>_. None),
     st_slashCommandsVisible = False, st_slashCommandQuery = [], pg_inputValue = [], pg_connectionState = Disconnected,
     pg_shownNotifications = [], pg_typingTimeouts = (\<lambda>_. None)\<rparr>"

subsection \<open>Conversations and suggestions\<close>

definition conversationsLoaded :: "client_conversation list \<Rightarrow> page \<Rightarrow> page" where
  "conversationsLoaded cs p = p\<lparr>st_conversations := cs, st_loadingConversations := False\<rparr>"

definition conversationsFailed :: "page \<Rightarrow> page" where
  "conversationsFailed p = p\<lparr>st_loadingConversations := False\<rparr>"

definition suggestionsRequested :: "bool \<Rightarrow> page \<Rightarrow> page" where
  "suggestionsRequested showLoading p = (if showLoading then p\<lparr>st_loadingAiSuggestions := True\<rparr> else p)"

definition suggestionsArrived :: "jstr \<Rightarrow> int \<Rightarrow> jstr list \<Rightarrow> page \<Rightarrow> page" where
  "suggestionsArrived conversationId baseMessageCount suggestions p =
     (let isActiveConversation = (st_selectedConversationId p = Some conversationId) in
      p\<lparr>st_aiSuggestions := (if isActiveConversation then suggestions else st_aiSuggestions p),
        st_loadingAiSuggestions := (if isActiveConversation then False else st_loadingAiSuggestions p),
        st_aiUnavailable := False,
        st_suggestionCache := (st_suggestionCache p)(conversationId \<mapsto>
          \<lparr>sc_suggestions = suggestions, sc_baseMessageCount = baseMessageCount\<rparr>)\<rparr>)"

definition unavailableCode :: "string option \<Rightarrow> bool" where
  "unavailableCode code \<longleftrightarrow> code \<in> {Some ''RATE_LIMITED'', Some ''TIMEOUT'', Some ''SERVICE_UNAVAILABLE''}"

definition suggestionsFailed :: "jstr \<Rightarrow> string option \<Rightarrow> page \<Rightarrow> page" where
  "suggestionsFailed conversationId code p =
     (let isActiveConversation = (st_selectedConversationId p = Some conversationId) in
      p\<lparr>st_aiSuggestions := (if isActiveConversation then [] else st_aiSuggestions p),
        st_loadingAiSuggestions := (if isActiveConversation then False else st_loadingAiSuggestions p),
        st_aiUnavailable := unavailableCode code\<rparr>)"

subsection \<open>Selecting a conversation\<close>

definition conversationSelected :: "jstr \<Rightarrow> page \<Rightarrow> page" where
  "conversationSelected conversationId p =
     (let cachedSuggestions = st_suggestionCache p conversationId;
          shouldPreloadSuggestions = (cachedSuggestions = None \<and> st_aiEnabled p) in
      p\<lparr>st_selectedConversationId := Some conversationId, st_loadingMessages := True, st_messages := [],
        st_membershipEvents := [], st_hasMoreMessages := True,
        st_aiSuggestions := (case cachedSuggestions of None \<Rightarrow> [] | Some c \<Rightarrow> sc_suggestions c),
        st_loadingAiSuggestions := shouldPreloadSuggestions,
        st_waitingForAi := (if st_waitingForAi p = Some conversationId then st_waitingForAi p else None)\<rparr>)"

definition threadArrived :: "client_message list \<Rightarrow> client_event_item list \<Rightarrow> page \<Rightarrow> page" where
  "threadArrived messages membershipEvents p =
     p\<lparr>st_messages := messages, st_membershipEvents := membershipEvents, st_loadingMessages := False,
       st_hasMoreMessages := length messages \<ge> 10\<rparr>"

definition setUnread :: "jstr \<Rightarrow> int \<Rightarrow> client_conversation \<Rightarrow> client_conversation" where
  "setUnread conversationId n c =
     (if cc_id c = conversationId then c\<lparr>cc_unreadCount := Some n, cc_hasUnread := Some (n > 0)\<rparr> else c)"

definition readStateArrived :: "jstr \<Rightarrow> int \<Rightarrow> page \<Rightarrow> page" where
  "readStateArrived conversationId unreadCount p =
     p\<lparr>st_conversations := map (setUnread conversationId unreadCount) (st_conversations p)\<rparr>"

definition loadingFailed :: "page \<Rightarrow> page" where
  "loadingFailed p = p\<lparr>st_loadingMessages := False\<rparr>"

subsection \<open>Deliveries\<close>

text \<open>The update of the state in \<open>handleIncomingMessage\<close>.\<close>

definition receiveMessage :: "(jstr \<Rightarrow> int) \<Rightarrow> client_message \<Rightarrow> page \<Rightarrow> page" where
  "receiveMessage dateOf message p =
     (let existing = find (\<lambda>c. cc_id c = cmsg_conversationId message) (st_conversations p);
          nextConversations =
            (case existing of
               None \<Rightarrow> st_conversations p
             | Some c \<Rightarrow>
                 (case updateConversationPreview dateOf (st_conversations p)
                    \<lparr>pu_conversationId = cmsg_conversationId message, pu_lastMessagePreview = cmsg_content message,
                     pu_lastMessageAt = cmsg_sentAt message, pu_unreadCount = cc_unreadCount c, pu_hasUnread = cc_hasUnread c\<rparr> of
                    None \<Rightarrow> st_conversations p | Some cs \<Rightarrow> cs));
          nextMessages = (if st_selectedConversationId p = Some (cmsg_conversationId message)
            then upsertMessage dateOf (st_messages p) message else st_messages p);
          nextCache = (case st_suggestionCache p (cmsg_conversationId message) of
              None \<Rightarrow> st_suggestionCache p
            | Some cache \<Rightarrow>
                if int (length nextMessages) - sc_baseMessageCount cache > 3
                then (st_suggestionCache p)(cmsg_conversationId message := None) else st_suggestionCache p)
      in p\<lparr>st_conversations := nextConversations, st_messages := nextMessages,
           st_waitingForAi := (if cmsg_isAIBotMessage message = Some True \<and> st_waitingForAi p = Some (cmsg_conversationId message)
             then None else st_waitingForAi p),
           st_suggestionCache := nextCache\<rparr>)"

record notice =
  nt_key :: jstr
  nt_title :: jstr
  nt_text :: jstr

text \<open>
  The whole handler. \<open>me\<close> and \<open>seen\<close> are the user and the selected conversation the handler was made with.
  The third result asks for a reload of the conversations; React runs the update that finds out only at its next
  rendering unless nothing else is queued (\<open>eager\<close>), and the flag is read before that.
\<close>

definition handleIncomingMessage ::
    "(jstr \<Rightarrow> int) \<Rightarrow> jstr option \<Rightarrow> jstr option \<Rightarrow> bool \<Rightarrow> delivered_message \<Rightarrow> page \<Rightarrow> page \<times> notice option \<times> bool" where
  "handleIncomingMessage dateOf me seen eager incoming p =
     (let message = mapRealtimeMessage incoming;
          isCurrentUserMessage = (me = Some (inc_senderId incoming));
          isActiveConversation = (seen = Some (cmsg_conversationId message));
          shouldShowNotification = (\<not> isCurrentUserMessage \<and> inc_isAIBotMessage incoming \<noteq> Some True \<and>
            inc_isAICommand incoming \<noteq> Some True \<and> inc_messageId incoming \<notin> set (pg_shownNotifications p) \<and>
            \<not> isActiveConversation);
          reload = (eager \<and> find (\<lambda>c. cc_id c = cmsg_conversationId message) (st_conversations p) = None);
          p\<^sub>1 = receiveMessage dateOf message p;
          p\<^sub>2 = (if shouldShowNotification
            then p\<^sub>1\<lparr>pg_shownNotifications := inc_messageId incoming # pg_shownNotifications p\<^sub>1\<rparr> else p\<^sub>1);
          p\<^sub>3 = (if isCurrentUserMessage
            then p\<^sub>2\<lparr>pg_inputValue := [], st_sendingMessage := False, st_draftAttachment := None\<rparr> else p\<^sub>2);
          notice = (if shouldShowNotification
            then Some \<lparr>nt_key = inc_messageId incoming,
                nt_title = (case inc_senderDisplayName incoming of None \<Rightarrow> txtFallbackSender | Some n \<Rightarrow> n),
                nt_text = (if trim (inc_content incoming) \<noteq> [] then trim (inc_content incoming) else txtNewMessage)\<rparr>
            else None)
      in (p\<^sub>3, notice, reload))"

definition handlePreviewUpdate :: "(jstr \<Rightarrow> int) \<Rightarrow> bool \<Rightarrow> preview_update \<Rightarrow> page \<Rightarrow> page \<times> bool" where
  "handlePreviewUpdate dateOf eager preview p =
     (case updateConversationPreview dateOf (st_conversations p) preview of
        None \<Rightarrow> (p, eager)
      | Some cs \<Rightarrow> (p\<lparr>st_conversations := cs\<rparr>, False))"

text \<open>The second result asks for the thread to be loaded again.\<close>

definition handleConversationRead :: "jstr option \<Rightarrow> jstr \<Rightarrow> page \<Rightarrow> page \<times> bool" where
  "handleConversationRead seen conversationId p =
     (p\<lparr>st_conversations := map (\<lambda>c. if cc_id c = conversationId
          then c\<lparr>cc_unreadCount := Some 0, cc_hasUnread := Some False\<rparr> else c) (st_conversations p)\<rparr>,
      seen = Some conversationId)"

definition threadReloaded :: "client_message list \<Rightarrow> page \<Rightarrow> page" where
  "threadReloaded messages p = p\<lparr>st_messages := messages\<rparr>"

definition receiveTypingPresence :: "(jstr \<Rightarrow> int) \<Rightarrow> jstr option \<Rightarrow> int \<Rightarrow> typing_update \<Rightarrow> page \<Rightarrow> page" where
  "receiveTypingPresence dateOf me time payload p =
     (if me = Some (tu_userId payload) then p
      else
        let c = tu_conversationId payload;
            p\<^sub>1 = p\<lparr>pg_typingTimeouts := (pg_typingTimeouts p)(c := None),
                   st_typing := (st_typing p)(c := if tu_isTyping payload then Some payload else None)\<rparr> in
        if \<not> tu_isTyping payload then p\<^sub>1
        else
          let expiresAt = (case tu_expiresAt payload of
                None \<Rightarrow> time + 4000 | Some t \<Rightarrow> if t = [] then time + 4000 else dateOf t);
              timeoutMs = max (expiresAt - time) 0 in
          p\<^sub>1\<lparr>pg_typingTimeouts := (pg_typingTimeouts p\<^sub>1)(c \<mapsto> time + timeoutMs)\<rparr>)"

definition typingExpired :: "jstr \<Rightarrow> page \<Rightarrow> page" where
  "typingExpired c p = p\<lparr>st_typing := (st_typing p)(c := None), pg_typingTimeouts := (pg_typingTimeouts p)(c := None)\<rparr>"

text \<open>Whether the error is also shown to the user.\<close>

definition handleSocketError :: "string \<Rightarrow> jstr \<Rightarrow> connection_state \<Rightarrow> page \<Rightarrow> page \<times> bool" where
  "handleSocketError code text' seenConnection p =
     (p\<lparr>st_sendingMessage := False\<rparr>,
      \<not> (code = ''SOCKET_NOT_READY'' \<and> seenConnection \<noteq> Connected) \<and> text' \<noteq> [])"

definition moderationArrived :: "jstr \<Rightarrow> client_moderation \<Rightarrow> page \<Rightarrow> page" where
  "moderationArrived conversationId result p =
     p\<lparr>st_messages := map (\<lambda>m. if cmsg_id m = cmr_messageId result \<and> cmsg_conversationId m = conversationId
         then m\<lparr>cmsg_moderationResult := Some result\<rparr> else m) (st_messages p)\<rparr>"

definition aiErrorArrived :: "string \<Rightarrow> page \<Rightarrow> page" where
  "aiErrorArrived code p =
     (if code = ''DISABLED'' then p
      else if unavailableCode (Some code) then p\<lparr>st_aiUnavailable := True\<rparr> else p)"

subsection \<open>Older messages\<close>

text \<open>The request of \<open>loadMoreMessages\<close>: the conversation and the time before which messages are asked for.\<close>

definition loadMoreQuery :: "page \<Rightarrow> (jstr \<times> jstr) option" where
  "loadMoreQuery p =
     (case st_selectedConversationId p of
        None \<Rightarrow> None
      | Some c \<Rightarrow>
          if c = [] \<or> \<not> st_hasMoreMessages p \<or> st_loadingMessages p then None
          else case st_messages p of [] \<Rightarrow> None | oldest # _ \<Rightarrow> Some (c, cmsg_sentAt oldest))"

definition loadMoreStarted :: "page \<Rightarrow> page" where
  "loadMoreStarted p = (if loadMoreQuery p = None then p else p\<lparr>st_loadingMessages := True\<rparr>)"

definition olderMessagesArrived :: "client_message list \<Rightarrow> page \<Rightarrow> page" where
  "olderMessagesArrived older p =
     p\<lparr>st_messages := older @ st_messages p, st_loadingMessages := False, st_hasMoreMessages := length older \<ge> 10\<rparr>"

subsection \<open>Composing and sending\<close>

definition handleUploadFile :: "page \<Rightarrow> jstr \<Rightarrow> draft_file \<Rightarrow> page \<Rightarrow> page" where
  "handleUploadFile seen localId file p =
     (if st_selectedConversationId seen \<in> {None, Some []} \<or> st_sendingMessage seen then p
      else p\<lparr>st_draftAttachment := Some \<lparr>da_localId = localId, da_file = file, da_progress = 0, da_status = Pending,
             da_attachmentId = None, da_error = None\<rparr>\<rparr>)"

record slash_command =
  sl_command :: jstr
  sl_label :: jstr
  sl_description :: jstr

definition SLASH_COMMANDS :: "slash_command list" where
  "SLASH_COMMANDS = [\<lparr>sl_command = js ''/ai'', sl_label = js ''ChatAI'', sl_description = txtAskAi\<rparr>]"

definition filteredSlashCommands :: "(jstr \<Rightarrow> jstr) \<Rightarrow> page \<Rightarrow> slash_command list" where
  "filteredSlashCommands toLowerCase p =
     (let query = toLowerCase (trim (st_slashCommandQuery p)) in
      if \<not> st_slashCommandsVisible p then []
      else if query = [] then SLASH_COMMANDS
      else filter (\<lambda>item. includesStr query (toLowerCase (sl_command item)) \<or> includesStr query (toLowerCase (sl_label item)))
             SLASH_COMMANDS)"

definition handleSelectSlashCommand :: "jstr \<Rightarrow> page \<Rightarrow> page" where
  "handleSelectSlashCommand command p =
     p\<lparr>pg_inputValue := command @ js '' '', st_slashCommandsVisible := False, st_slashCommandQuery := [],
       st_waitingForAi := (if command = js ''/ai'' then st_waitingForAi p else None)\<rparr>"

text \<open>The match of the pattern: a slash and no white space behind it; the result is what follows the slash.\<close>

definition slashMatch :: "jstr \<Rightarrow> jstr option" where
  "slashMatch v = (case v of [] \<Rightarrow> None | c # rest \<Rightarrow> if c = 0x2F \<and> (\<forall>d\<in>set rest. \<not> isSpace d) then Some rest else None)"

text \<open>Typing into the composer. The second result is the typing state told to the others, if any is.\<close>

definition inputChanged :: "page \<Rightarrow> jstr \<Rightarrow> page \<Rightarrow> page \<times> (jstr \<times> bool) option" where
  "inputChanged seen v p =
     (let trimmedValue = trim v; match = slashMatch v in
      (p\<lparr>pg_inputValue := v, st_slashCommandsVisible := match \<noteq> None,
         st_slashCommandQuery := (case match of None \<Rightarrow> [] | Some q \<Rightarrow> q),
         st_waitingForAi := (if startsWith (js ''/ai'') trimmedValue \<or> st_sendingMessage p then st_waitingForAi p else None)\<rparr>,
       case st_selectedConversationId seen of
         None \<Rightarrow> None
       | Some c \<Rightarrow> if c = [] \<or> pg_connectionState seen \<noteq> Connected then None else Some (c, trimmedValue \<noteq> [])))"

text \<open>Focusing the composer. The second result is the request for suggestions, if one is made.\<close>

definition composerFocused :: "page \<Rightarrow> page \<Rightarrow> page \<times> (jstr \<times> int) option" where
  "composerFocused seen p =
     (case st_selectedConversationId seen of
        None \<Rightarrow> (p, None)
      | Some c \<Rightarrow>
          if c = [] \<or> \<not> st_aiEnabled seen \<or> st_aiUnavailable seen then (p, None)
          else
            let request = (suggestionsRequested True p, Some (c, int (length (st_messages seen)))) in
            case st_suggestionCache seen c of
              None \<Rightarrow> request
            | Some cache \<Rightarrow>
                if int (length (st_messages seen)) - sc_baseMessageCount cache \<le> 3
                then (p\<lparr>st_aiSuggestions := sc_suggestions cache, st_loadingAiSuggestions := False\<rparr>, None)
                else request)"

definition aiToggled :: "page \<Rightarrow> page" where
  "aiToggled p = p\<lparr>st_aiEnabled := \<not> st_aiEnabled p,
     st_aiUnavailable := (if st_aiEnabled p then False else st_aiUnavailable p),
     st_aiSuggestions := (if \<not> st_aiEnabled p then st_aiSuggestions p else []), st_loadingAiSuggestions := False\<rparr>"

text \<open>\<open>handleSend\<close>: its guards, what it does before it waits, and the outcomes of its steps.\<close>

definition sendAllowed :: "page \<Rightarrow> bool" where
  "sendAllowed seen \<longleftrightarrow>
     (trim (pg_inputValue seen) \<noteq> [] \<or> st_draftAttachment seen \<noteq> None) \<and>
     st_selectedConversationId seen \<notin> {None, Some []} \<and> \<not> st_sendingMessage seen \<and> pg_connectionState seen = Connected"

definition sendStarted :: "page \<Rightarrow> page \<Rightarrow> page" where
  "sendStarted seen p =
     (if \<not> sendAllowed seen then p
      else p\<lparr>st_sendingMessage := True,
             st_waitingForAi := (if st_aiEnabled seen \<and> startsWith (js ''/ai'') (trim (pg_inputValue seen))
               then st_selectedConversationId seen else st_waitingForAi p)\<rparr>)"

definition uploadPrepared :: "jstr \<Rightarrow> page \<Rightarrow> page" where
  "uploadPrepared attachmentId p =
     p\<lparr>st_draftAttachment := map_option (\<lambda>d. d\<lparr>da_attachmentId := Some attachmentId, da_status := Uploading, da_progress := 0\<rparr>)
         (st_draftAttachment p)\<rparr>"

definition uploadProgressed :: "int \<Rightarrow> page \<Rightarrow> page" where
  "uploadProgressed progress p =
     p\<lparr>st_draftAttachment := map_option (\<lambda>d. d\<lparr>da_progress := progress, da_status := Uploading\<rparr>) (st_draftAttachment p)\<rparr>"

definition uploadFinished :: "jstr \<Rightarrow> page \<Rightarrow> page" where
  "uploadFinished attachmentId p =
     p\<lparr>st_draftAttachment := map_option (\<lambda>d. d\<lparr>da_attachmentId := Some attachmentId, da_progress := 100, da_status := UploadDone\<rparr>)
         (st_draftAttachment p)\<rparr>"

definition sendFailed :: "page \<Rightarrow> jstr option \<Rightarrow> jstr option \<Rightarrow> page \<Rightarrow> page" where
  "sendFailed seen detailMessage errorMessage p =
     (let reason = (if detailMessage \<notin> {None, Some []} then detailMessage
                    else if errorMessage \<notin> {None, Some []} then errorMessage else Some txtSendFileFailed) in
      p\<lparr>st_sendingMessage := False,
        st_waitingForAi := (if st_waitingForAi p = st_selectedConversationId seen then None else st_waitingForAi p),
        st_draftAttachment := map_option (\<lambda>d. d\<lparr>da_status := UploadFailed, da_error := reason\<rparr>) (st_draftAttachment p)\<rparr>)"

text \<open>The checks of \<open>components/chat-composer.tsx\<close> on a chosen file, and its reaction to the enter key.\<close>

datatype file_refusal = FolderRefused | EmptyRefused | TooLargeRefused

definition CLIENT_MAX_FILE_SIZE :: int where
  "CLIENT_MAX_FILE_SIZE = 25 * 1024 * 1024"

definition handleFileChange :: "jstr option \<Rightarrow> draft_file \<Rightarrow> file_refusal option" where
  "handleFileChange relativePath file =
     (if (case relativePath of None \<Rightarrow> False | Some r \<Rightarrow> r \<noteq> [] \<and> includesStr (js ''/'') r) then Some FolderRefused
      else if df_size file \<le> 0 then Some EmptyRefused
      else if df_size file > CLIENT_MAX_FILE_SIZE then Some TooLargeRefused
      else None)"

definition enterSends :: "bool \<Rightarrow> page \<Rightarrow> bool" where
  "enterSends shiftKey seen \<longleftrightarrow>
     \<not> shiftKey \<and> trim (pg_inputValue seen) \<noteq> [] \<and> st_selectedConversationId seen \<notin> {None, Some []} \<and> \<not> st_sendingMessage seen"

subsection \<open>Leaving, deleting and starting conversations\<close>

definition conversationLeft :: "page \<Rightarrow> page" where
  "conversationLeft p = p\<lparr>st_selectedConversationId := None, st_messages := [], st_membershipEvents := []\<rparr>"

definition conversationDeleted :: "jstr \<Rightarrow> client_conversation list \<Rightarrow> page \<Rightarrow> page" where
  "conversationDeleted conversationId conversations p =
     (let open = (st_selectedConversationId p = Some conversationId) in
      p\<lparr>st_conversations := conversations, st_loadingConversations := False,
        st_selectedConversationId := (if open then None else st_selectedConversationId p),
        st_messages := (if open then [] else st_messages p),
        st_membershipEvents := (if open then [] else st_membershipEvents p)\<rparr>)"

definition conversationStarted :: "jstr \<Rightarrow> client_conversation list \<Rightarrow> page \<Rightarrow> page" where
  "conversationStarted conversationId conversations p =
     conversationSelected conversationId (conversationsLoaded conversations p)"

text \<open>The part of the effect that restores the conversation of the address bar, once the list is there.\<close>

definition restoreFromLocation :: "jstr option \<Rightarrow> page \<Rightarrow> page" where
  "restoreFromLocation requested p =
     (case requested of
        None \<Rightarrow> p
      | Some c \<Rightarrow> if c \<noteq> [] \<and> find (\<lambda>v. cc_id v = c) (st_conversations p) \<noteq> None then conversationSelected c p else p)"

subsection \<open>Events\<close>

text \<open>
  Answers carry the conversation they were asked for. Where a handler reads the state it was rendered with, the
  event carries what it reads.
\<close>

datatype page_event =
    ConversationsCame "client_conversation list" | ConversationsLost
  | SuggestionsAsked bool | SuggestionsCame jstr int "jstr list" | SuggestionsLost jstr "string option"
  | Selected jstr | ThreadCame jstr "client_message list" "client_event_item list" | ReadStateCame jstr int | LoadingLost
  | Delivered "jstr option" bool delivered_message | PreviewCame bool preview_update
  | ReadCame "jstr option" jstr | ThreadReloadCame jstr "client_message list"
  | TypingCame int typing_update | TypingTimer jstr
  | SocketErrorCame string jstr connection_state | ModerationCame jstr client_moderation | AiErrorCame string
  | LoadMore | OlderCame jstr "client_message list"
  | FileChosen page jstr draft_file | FileDropped | SlashChosen jstr | InputTyped page jstr | ComposerFocus page | AiToggle
  | SendPressed page | UploadAccepted jstr | UploadProgress int | UploadCompleted jstr
  | SendLost page "jstr option" "jstr option"
  | LeftConversation | DeletedConversation jstr "client_conversation list"
  | StartedConversation jstr "client_conversation list" | RestoredFromLocation "jstr option"
  | ConnectionChanged connection_state

fun pageStep :: "(jstr \<Rightarrow> int) \<Rightarrow> jstr option \<Rightarrow> page_event \<Rightarrow> page \<Rightarrow> page" where
  "pageStep d me (ConversationsCame cs) p = conversationsLoaded cs p"
| "pageStep d me ConversationsLost p = conversationsFailed p"
| "pageStep d me (SuggestionsAsked b) p = suggestionsRequested b p"
| "pageStep d me (SuggestionsCame c n ss) p = suggestionsArrived c n ss p"
| "pageStep d me (SuggestionsLost c code) p = suggestionsFailed c code p"
| "pageStep d me (Selected c) p = conversationSelected c p"
| "pageStep d me (ThreadCame c ms es) p = threadArrived ms es p"
| "pageStep d me (ReadStateCame c n) p = readStateArrived c n p"
| "pageStep d me LoadingLost p = loadingFailed p"
| "pageStep d me (Delivered seen eager m) p = fst (handleIncomingMessage d me seen eager m p)"
| "pageStep d me (PreviewCame eager u) p = fst (handlePreviewUpdate d eager u p)"
| "pageStep d me (ReadCame seen c) p = fst (handleConversationRead seen c p)"
| "pageStep d me (ThreadReloadCame c ms) p = threadReloaded ms p"
| "pageStep d me (TypingCame time u) p = receiveTypingPresence d me time u p"
| "pageStep d me (TypingTimer c) p = (if pg_typingTimeouts p c = None then p else typingExpired c p)"
| "pageStep d me (SocketErrorCame code t k) p = fst (handleSocketError code t k p)"
| "pageStep d me (ModerationCame c r) p = moderationArrived c r p"
| "pageStep d me (AiErrorCame code) p = aiErrorArrived code p"
| "pageStep d me LoadMore p = loadMoreStarted p"
| "pageStep d me (OlderCame c ms) p = olderMessagesArrived ms p"
| "pageStep d me (FileChosen seen i f) p = handleUploadFile seen i f p"
| "pageStep d me FileDropped p = p\<lparr>st_draftAttachment := None\<rparr>"
| "pageStep d me (SlashChosen c) p = handleSelectSlashCommand c p"
| "pageStep d me (InputTyped seen v) p = fst (inputChanged seen v p)"
| "pageStep d me (ComposerFocus seen) p = fst (composerFocused seen p)"
| "pageStep d me AiToggle p = aiToggled p"
| "pageStep d me (SendPressed seen) p = sendStarted seen p"
| "pageStep d me (UploadAccepted a) p = uploadPrepared a p"
| "pageStep d me (UploadProgress n) p = uploadProgressed n p"
| "pageStep d me (UploadCompleted a) p = uploadFinished a p"
| "pageStep d me (SendLost seen a b) p = sendFailed seen a b p"
| "pageStep d me LeftConversation p = conversationLeft p"
| "pageStep d me (DeletedConversation c cs) p = conversationDeleted c cs p"
| "pageStep d me (StartedConversation c cs) p = conversationStarted c cs p"
| "pageStep d me (RestoredFromLocation c) p = restoreFromLocation c p"
| "pageStep d me (ConnectionChanged k) p = p\<lparr>pg_connectionState := k\<rparr>"

lemmas page_defs = conversationsLoaded_def conversationsFailed_def suggestionsRequested_def suggestionsArrived_def
  suggestionsFailed_def conversationSelected_def threadArrived_def readStateArrived_def loadingFailed_def receiveMessage_def
  handleIncomingMessage_def handlePreviewUpdate_def handleConversationRead_def threadReloaded_def receiveTypingPresence_def
  typingExpired_def handleSocketError_def moderationArrived_def aiErrorArrived_def loadMoreStarted_def olderMessagesArrived_def
  handleUploadFile_def handleSelectSlashCommand_def inputChanged_def composerFocused_def aiToggled_def sendStarted_def
  uploadPrepared_def uploadProgressed_def uploadFinished_def sendFailed_def conversationLeft_def conversationDeleted_def
  conversationStarted_def restoreFromLocation_def

subsection \<open>Deliveries arrive twice\<close>

lemma find_id_Some: "find (\<lambda>c. cc_id c = i) cs = Some c \<Longrightarrow> c \<in> set cs \<and> cc_id c = i"
  by (auto simp: find_Some_iff)

lemma receive_fields [simp]:
  "st_selectedConversationId (receiveMessage d m p) = st_selectedConversationId p"
  "st_typing (receiveMessage d m p) = st_typing p" "pg_typingTimeouts (receiveMessage d m p) = pg_typingTimeouts p"
  "pg_shownNotifications (receiveMessage d m p) = pg_shownNotifications p"
  "st_messages (receiveMessage d m p) = (if st_selectedConversationId p = Some (cmsg_conversationId m)
     then upsertMessage d (st_messages p) m else st_messages p)"
  by (simp_all add: receiveMessage_def Let_def)

definition arrivedPreview :: "client_message \<Rightarrow> client_conversation \<Rightarrow> preview_update" where
  "arrivedPreview m c = \<lparr>pu_conversationId = cmsg_conversationId m, pu_lastMessagePreview = cmsg_content m,
     pu_lastMessageAt = cmsg_sentAt m, pu_unreadCount = cc_unreadCount c, pu_hasUnread = cc_hasUnread c\<rparr>"

lemma receive_conversations:
  "st_conversations (receiveMessage d m p) =
     (case find (\<lambda>c. cc_id c = cmsg_conversationId m) (st_conversations p) of
        None \<Rightarrow> st_conversations p
      | Some c \<Rightarrow> the (updateConversationPreview d (st_conversations p) (arrivedPreview m c)))"
  by (simp add: receiveMessage_def arrivedPreview_def updateConversationPreview_def Let_def split: option.split)

lemma receive_twice: "receiveMessage d m (receiveMessage d m p) = receiveMessage d m p"
proof -
  let ?q = "receiveMessage d m p"
  have convs: "st_conversations (receiveMessage d m ?q) = st_conversations ?q"
  proof (cases "find (\<lambda>c. cc_id c = cmsg_conversationId m) (st_conversations p)")
    case None
    then show ?thesis by (simp add: receive_conversations)
  next
    case (Some c)
    let ?pre = "arrivedPreview m c"
    obtain ds where ds: "updateConversationPreview d (st_conversations p) ?pre = Some ds"
      using find_id_Some [OF Some] preview_None_iff [of d "st_conversations p" ?pre] by (auto simp: arrivedPreview_def)
    then have q: "st_conversations ?q = ds" by (simp add: receive_conversations Some)
    show ?thesis
    proof (cases "find (\<lambda>c. cc_id c = cmsg_conversationId m) ds")
      case None
      then show ?thesis by (simp add: receive_conversations [of d m ?q] q)
    next
      case (Some e)
      from find_id_Some [OF Some] preview_Some(2) [OF ds] obtain e' where "e = withPreview ?pre e'" "cc_id e = cmsg_conversationId m"
        by auto
      then have "arrivedPreview m e = ?pre" by (auto simp: withPreview_def arrivedPreview_def split: if_splits)
      with Some preview_Some(4) [OF ds] show ?thesis by (simp add: receive_conversations [of d m ?q] q)
    qed
  qed
  have messages: "st_messages (receiveMessage d m ?q) = st_messages ?q"
    by (simp add: upsert_twice)
  have cache: "st_suggestionCache (receiveMessage d m ?q) = st_suggestionCache ?q"
    using messages by (auto simp: receiveMessage_def [of d m ?q] Let_def split: option.split)
      (auto simp: receiveMessage_def Let_def split: option.splits if_splits)
  have waiting: "st_waitingForAi (receiveMessage d m ?q) = st_waitingForAi ?q"
    by (simp add: receiveMessage_def Let_def)
  have "receiveMessage d m ?q = ?q\<lparr>st_conversations := st_conversations (receiveMessage d m ?q),
      st_messages := st_messages (receiveMessage d m ?q), st_waitingForAi := st_waitingForAi (receiveMessage d m ?q),
      st_suggestionCache := st_suggestionCache (receiveMessage d m ?q)\<rparr>"
    unfolding receiveMessage_def [of d m ?q] Let_def by simp
  then show ?thesis unfolding convs messages cache waiting by simp
qed

lemma receive_commutes:
  "receiveMessage d m (p\<lparr>pg_shownNotifications := ks\<rparr>) = (receiveMessage d m p)\<lparr>pg_shownNotifications := ks\<rparr>"
  "receiveMessage d m (p\<lparr>pg_inputValue := v\<rparr>) = (receiveMessage d m p)\<lparr>pg_inputValue := v\<rparr>"
  "receiveMessage d m (p\<lparr>st_sendingMessage := b\<rparr>) = (receiveMessage d m p)\<lparr>st_sendingMessage := b\<rparr>"
  "receiveMessage d m (p\<lparr>st_draftAttachment := a\<rparr>) = (receiveMessage d m p)\<lparr>st_draftAttachment := a\<rparr>"
  by (simp_all add: receiveMessage_def Let_def cong: option.case_cong if_cong)

lemma receive_conversation_ids:
  "mset (map cc_id (st_conversations (receiveMessage d m p))) = mset (map cc_id (st_conversations p))"
proof (cases "find (\<lambda>c. cc_id c = cmsg_conversationId m) (st_conversations p)")
  case (Some c)
  obtain ds where "updateConversationPreview d (st_conversations p) (arrivedPreview m c) = Some ds"
    using find_id_Some [OF Some] preview_None_iff [of d "st_conversations p" "arrivedPreview m c"] by (auto simp: arrivedPreview_def)
  with preview_Some(1) [OF this] show ?thesis by (simp add: receive_conversations Some)
qed (simp add: receive_conversations)

lemma delivered_fields [simp]:
  "st_messages (fst (handleIncomingMessage d me seen eager m p)) = st_messages (receiveMessage d (mapRealtimeMessage m) p)"
  "st_conversations (fst (handleIncomingMessage d me seen eager m p)) = st_conversations (receiveMessage d (mapRealtimeMessage m) p)"
  "st_selectedConversationId (fst (handleIncomingMessage d me seen eager m p)) = st_selectedConversationId p"
  "st_typing (fst (handleIncomingMessage d me seen eager m p)) = st_typing p"
  "pg_typingTimeouts (fst (handleIncomingMessage d me seen eager m p)) = pg_typingTimeouts p"
  by (simp_all add: handleIncomingMessage_def Let_def)

lemma mapped_ids [simp]:
  "cmsg_id (mapRealtimeMessage m) = inc_messageId m" "cmsg_conversationId (mapRealtimeMessage m) = inc_conversationId m"
  by (simp_all add: mapRealtimeMessage_def)

text \<open>
  C14: a message that is delivered twice, as when it reaches the client through the room of the conversation and
  through that of the user, is shown once. The second delivery changes nothing at all and notifies nobody; after
  the first the message is in the thread exactly if its conversation is open, the thread stays in the order of time
  and without duplicates, and the list of conversations keeps its members.
\<close>

theorem delivery_shown_once:
  assumes "handleIncomingMessage d me seen eager m p = (p\<^sub>1, n\<^sub>1, r\<^sub>1)" "handleIncomingMessage d me seen eager' m p\<^sub>1 = (p\<^sub>2, n\<^sub>2, r\<^sub>2)"
    and "distinct (map cmsg_id (st_messages p))" "sorted (map (\<lambda>m. d (cmsg_sentAt m)) (st_messages p))"
  shows "p\<^sub>2 = p\<^sub>1 \<and> n\<^sub>2 = None \<and>
    cmsg_id ` set (st_messages p\<^sub>1) = (if st_selectedConversationId p = Some (inc_conversationId m)
      then insert (inc_messageId m) (cmsg_id ` set (st_messages p)) else cmsg_id ` set (st_messages p)) \<and>
    distinct (map cmsg_id (st_messages p\<^sub>1)) \<and> sorted (map (\<lambda>m. d (cmsg_sentAt m)) (st_messages p\<^sub>1)) \<and>
    mset (map cc_id (st_conversations p\<^sub>1)) = mset (map cc_id (st_conversations p))"
proof -
  let ?m = "mapRealtimeMessage m"
  have p1: "p\<^sub>1 = fst (handleIncomingMessage d me seen eager m p)" using assms(1) by simp
  have "p\<^sub>2 = p\<^sub>1 \<and> n\<^sub>2 = None"
    using assms(1,2) by (auto simp: handleIncomingMessage_def Let_def receive_commutes receive_twice split: if_splits)
  moreover have "cmsg_id ` set (st_messages p\<^sub>1) = (if st_selectedConversationId p = Some (inc_conversationId m)
      then insert (inc_messageId m) (cmsg_id ` set (st_messages p)) else cmsg_id ` set (st_messages p))"
    using upsert_ids [of d "st_messages p" ?m] by (simp add: p1)
  ultimately show ?thesis
    using upsert_distinct [OF assms(3), of d ?m] upsert_sorted [OF assms(4), of ?m] assms(3,4) receive_conversation_ids
    by (simp add: p1)
qed

text \<open>The echo of a message of one's own, from whichever device and conversation, empties the composer.\<close>

theorem own_delivery_clears_composer:
  "pg_inputValue (fst (handleIncomingMessage d (Some (inc_senderId m)) seen eager m p)) = [] \<and>
   st_draftAttachment (fst (handleIncomingMessage d (Some (inc_senderId m)) seen eager m p)) = None"
  by (simp add: handleIncomingMessage_def Let_def)

subsection \<open>The thread belongs to the open conversation\<close>

definition threadOk :: "(jstr \<Rightarrow> int) \<Rightarrow> page \<Rightarrow> bool" where
  "threadOk d p \<longleftrightarrow> (\<forall>m\<in>set (st_messages p). st_selectedConversationId p = Some (cmsg_conversationId m)) \<and>
     sorted (map (\<lambda>m. d (cmsg_sentAt m)) (st_messages p))"

definition threadOf :: "(jstr \<Rightarrow> int) \<Rightarrow> jstr \<Rightarrow> client_message list \<Rightarrow> bool" where
  "threadOf d c ms \<longleftrightarrow> (\<forall>m\<in>set ms. cmsg_conversationId m = c) \<and> sorted (map (\<lambda>m. d (cmsg_sentAt m)) ms)"

text \<open>
  An answer is timely when its conversation is still open; its messages are those of the conversation,
  in the order the server sends them, and older ones are not newer than those that are there.
\<close>

fun timely :: "(jstr \<Rightarrow> int) \<Rightarrow> page_event \<Rightarrow> page \<Rightarrow> bool" where
  "timely d (ThreadCame c ms es) p \<longleftrightarrow> st_selectedConversationId p = Some c \<and> threadOf d c ms"
| "timely d (ThreadReloadCame c ms) p \<longleftrightarrow> st_selectedConversationId p = Some c \<and> threadOf d c ms"
| "timely d (OlderCame c ms) p \<longleftrightarrow> st_selectedConversationId p = Some c \<and> threadOf d c ms \<and>
     (\<forall>m\<in>set ms. \<forall>n\<in>set (st_messages p). d (cmsg_sentAt m) \<le> d (cmsg_sentAt n))"
| "timely d _ p \<longleftrightarrow> True"

inductive page_run :: "(jstr \<Rightarrow> int) \<Rightarrow> jstr option \<Rightarrow> page \<Rightarrow> bool" for d me where
  opened: "page_run d me newPage"
| event: "page_run d me p \<Longrightarrow> timely d e p \<Longrightarrow> page_run d me (pageStep d me e p)"

lemma thread_same:
  assumes "st_messages q = st_messages p" "st_selectedConversationId q = st_selectedConversationId p"
  shows "threadOk d q = threadOk d p"
  by (simp add: threadOk_def assms)

lemma upsert_members: "set (upsertMessage d ms m) \<subseteq> insert m (set ms)"
  by (auto simp: upsertMessage_def)

lemma thread_event:
  assumes "threadOk d p" "timely d e p"
  shows "threadOk d (pageStep d me e p)"
proof -
  have select: "threadOk d (conversationSelected c q)" for c q
    by (simp add: threadOk_def conversationSelected_def Let_def)
  show ?thesis
  proof (cases e)
    case (Delivered seen eager m)
    with assms(1) upsert_members [of d "st_messages p" "mapRealtimeMessage m"] upsert_sorted [of d "st_messages p" "mapRealtimeMessage m"]
    show ?thesis by (auto simp: threadOk_def subset_iff)
  next
    case (ModerationCame c r)
    have same: "map (\<lambda>m. d (cmsg_sentAt m)) (st_messages (moderationArrived c r p)) = map (\<lambda>m. d (cmsg_sentAt m)) (st_messages p)"
      by (simp add: moderationArrived_def)
    show ?thesis
      using assms(1) ModerationCame same by (auto simp: threadOk_def) (auto simp: moderationArrived_def)
  next
    case (OlderCame c ms)
    with assms show ?thesis by (auto simp: olderMessagesArrived_def threadOk_def threadOf_def sorted_append)
  next
    case (DeletedConversation c cs)
    with assms(1) show ?thesis by (auto simp: conversationDeleted_def threadOk_def Let_def)
  next
    case (RestoredFromLocation c)
    with assms(1) select show ?thesis by (simp add: restoreFromLocation_def split: option.split)
  qed (use assms in \<open>simp_all add: select conversationStarted_def threadOk_def threadOf_def page_defs unavailableCode_def Let_def
        split: option.split if_split\<close>)
qed

text \<open>
  C15: as long as answers arrive while their conversation is still open, the thread on the screen holds messages of
  the open conversation only, and they are in the order of time, whatever is delivered, selected, left or deleted
  in between.
\<close>

theorem thread_shows_open_conversation:
  assumes "page_run d me p"
  shows "(\<forall>m\<in>set (st_messages p). st_selectedConversationId p = Some (cmsg_conversationId m)) \<and>
    sorted (map (\<lambda>m. d (cmsg_sentAt m)) (st_messages p))"
proof -
  from assms have "threadOk d p"
    by (induction rule: page_run.induct) (simp_all add: thread_event, simp add: threadOk_def newPage_def)
  then show ?thesis by (simp add: threadOk_def)
qed

text \<open>A message of conversation 2.\<close>

definition helloMessage :: client_message where
  "helloMessage = mapRealtimeMessage \<lparr>inc_messageId = [1], inc_conversationId = [2], inc_senderId = [3], inc_senderDisplayName = None,
     inc_senderAvatarUrl = None, inc_content = js ''hi'', inc_sentAt = [4], inc_seenState = None, inc_attachment = None,
     inc_isTailOfSenderGroup = None, inc_decodeErrorCode = None, inc_displayState = None, inc_isAIBotMessage = None,
     inc_isAICommand = None, inc_moderationResult = None\<rparr>"

theorem thread_shows_open_conversation_witness:
  "\<exists>p. page_run (\<lambda>_. 0) None p \<and> st_messages p = [helloMessage] \<and> st_selectedConversationId p = Some [2]"
proof -
  let ?p = "pageStep (\<lambda>_. 0) None (ThreadCame [2] [helloMessage] []) (pageStep (\<lambda>_. 0) None (Selected [2]) newPage)"
  have "timely (\<lambda>_. 0) (ThreadCame [2] [helloMessage] []) (pageStep (\<lambda>_. 0) None (Selected [2]) newPage)"
    by (simp add: threadOf_def conversationSelected_def helloMessage_def Let_def)
  then have run: "page_run (\<lambda>_. 0) None ?p"
    by (intro page_run.event page_run.opened) simp_all
  have msgs: "st_messages ?p = [helloMessage]" by (simp add: threadArrived_def)
  from thread_shows_open_conversation [OF run] msgs have "st_selectedConversationId ?p = Some [2]"
    by (simp add: helloMessage_def)
  with run msgs show ?thesis by blast
qed

text \<open>
  Without that: the messages of a conversation that arrive after another one has been opened are shown under the
  other one.
\<close>

theorem late_thread_in_wrong_conversation:
  "let p = fold (pageStep d me) [Selected [2], Selected [5], ThreadCame [2] [helloMessage] []] newPage in
   st_selectedConversationId p = Some [5] \<and> st_messages p = [helloMessage] \<and> cmsg_conversationId helloMessage = [2]"
  by (simp add: conversationSelected_def threadArrived_def helloMessage_def Let_def)

subsection \<open>Typing indicators\<close>

definition typingOk :: "jstr option \<Rightarrow> page \<Rightarrow> bool" where
  "typingOk me p \<longleftrightarrow> (\<forall>c. (st_typing p c = None) = (pg_typingTimeouts p c = None) \<and>
     (\<forall>u. st_typing p c = Some u \<longrightarrow> tu_conversationId u = c \<and> tu_isTyping u \<and> me \<noteq> Some (tu_userId u)))"

lemma typing_same:
  "st_typing q = st_typing p \<Longrightarrow> pg_typingTimeouts q = pg_typingTimeouts p \<Longrightarrow> typingOk me q = typingOk me p"
  by (simp add: typingOk_def)

lemma typing_event: "typingOk me p \<Longrightarrow> typingOk me (pageStep d me e p)"
proof -
  assume ok: "typingOk me p"
  show ?thesis
  proof (cases e)
    case (TypingCame time u)
    with ok show ?thesis by (auto simp: typingOk_def receiveTypingPresence_def Let_def)
  next
    case (TypingTimer c)
    with ok show ?thesis by (simp add: typingOk_def typingExpired_def)
  next
    case (Delivered seen eager m)
    with ok show ?thesis by (simp add: typingOk_def)
  next
    case (RestoredFromLocation c)
    with ok show ?thesis
      by (simp add: restoreFromLocation_def conversationSelected_def typingOk_def Let_def split: option.split)
  qed (use ok in \<open>simp_all add: typingOk_def page_defs unavailableCode_def Let_def split: option.split if_split\<close>)
qed

interpretation typing: event_invariant "pageStep d me" "typingOk me" for d me
  by unfold_locales (rule typing_event)


subsection \<open>Concrete deliveries\<close>

abbreviation bobTyping :: typing_update where
  "bobTyping \<equiv> \<lparr>tu_conversationId = [2], tu_userId = [3], tu_isTyping = True, tu_expiresAt = None\<rparr>"


abbreviation hiDelivered :: delivered_message where
  "hiDelivered \<equiv> \<lparr>inc_messageId = [1], inc_conversationId = [2], inc_senderId = [3], inc_senderDisplayName = None,
     inc_senderAvatarUrl = None, inc_content = js ''hi'', inc_sentAt = [4], inc_seenState = None, inc_attachment = None,
     inc_isTailOfSenderGroup = None, inc_decodeErrorCode = None, inc_displayState = None, inc_isAIBotMessage = None,
     inc_isAICommand = None, inc_moderationResult = None\<rparr>"

theorem delivery_shown_once_witness:
  "\<exists>p\<^sub>1 n\<^sub>1 r\<^sub>1. handleIncomingMessage (\<lambda>_. 0) (Some [9]) (Some [2]) True hiDelivered (conversationSelected [2] newPage) = (p\<^sub>1, n\<^sub>1, r\<^sub>1) \<and>
     fst (handleIncomingMessage (\<lambda>_. 0) (Some [9]) (Some [2]) True hiDelivered p\<^sub>1) = p\<^sub>1 \<and> cmsg_id ` set (st_messages p\<^sub>1) = {[1]}"
proof -
  let ?h = "handleIncomingMessage (\<lambda>_. 0) (Some [9]) (Some [2]) True hiDelivered"
  obtain p\<^sub>1 n\<^sub>1 r\<^sub>1 where one: "?h (conversationSelected [2] newPage) = (p\<^sub>1, n\<^sub>1, r\<^sub>1)" by (metis prod_cases3)
  obtain p\<^sub>2 n\<^sub>2 r\<^sub>2 where two: "?h p\<^sub>1 = (p\<^sub>2, n\<^sub>2, r\<^sub>2)" by (metis prod_cases3)
  have start: "st_messages (conversationSelected [2] newPage) = []" "st_selectedConversationId (conversationSelected [2] newPage) = Some [2]"
    by (simp_all add: conversationSelected_def Let_def)
  from delivery_shown_once [OF one two] one two show ?thesis by (simp add: start)
qed

end
