(* ===== verification/EndToEnd.thy ===== *)
theory EndToEnd
  imports SystemWitnesses ClientPage
begin

text \<open>
  The server and the web client together: what an emission of the chat gateway becomes in the client, what the
  page of a participant shows after somebody has sent a message, and the limits both sides put on a file.
\<close>

subsection \<open>From the gateway to the page\<close>

text \<open>The payloads as the client reads them: every field that the server sets is there.\<close>

definition receivedAttachment :: "attachment_payload \<Rightarrow> client_attachment" where
  "receivedAttachment a = \<lparr>ca_attachmentId = ap_attachmentId a, ca_fileName = ap_fileName a, ca_mimeType = ap_mimeType a,
     ca_sizeBytes = ap_sizeBytes a, ca_isImage = ap_isImage a, ca_uploaderId = ap_uploaderId a,
     ca_conversationId = ap_conversationId a, ca_messageId = ap_messageId a\<rparr>"

definition receivedModeration :: "jstr \<Rightarrow> moderation_result \<Rightarrow> client_moderation" where
  "receivedModeration i r = \<lparr>cmr_messageId = i, cmr_sentiment = mod_sentiment r, cmr_sentimentScore = mod_sentimentScore r,
     cmr_toxicityScore = mod_toxicityScore r, cmr_isToxic = mod_isToxic r, cmr_warningMessage = mod_warningMessage r\<rparr>"

definition received :: "realtime_message \<Rightarrow> delivered_message" where
  "received m = \<lparr>inc_messageId = rm_messageId m, inc_conversationId = rm_conversationId m, inc_senderId = rm_senderId m,
     inc_senderDisplayName = rm_senderDisplayName m, inc_senderAvatarUrl = rm_senderAvatarUrl m, inc_content = rm_content m,
     inc_sentAt = rm_sentAt m, inc_seenState = Some (case rm_seenState m of Sent \<Rightarrow> ClientSent | Seen \<Rightarrow> ClientSeen),
     inc_attachment = map_option receivedAttachment (rm_attachment m),
     inc_isTailOfSenderGroup = Some (rm_isTailOfSenderGroup m), inc_decodeErrorCode = map_option js (rm_decodeErrorCode m),
     inc_displayState = Some (case rm_displayState m of DisplayReady \<Rightarrow> Ready | DisplayDecodeFailed \<Rightarrow> DecodeFailed),
     inc_isAIBotMessage = Some (rm_isAIBotMessage m), inc_isAICommand = Some (rm_isAICommand m),
     inc_moderationResult = map_option (receivedModeration (rm_messageId m)) (rm_moderationResult m)\<rparr>"

definition receivedPreview :: "conversation_preview \<Rightarrow> preview_update" where
  "receivedPreview v = \<lparr>pu_conversationId = cp_conversationId v, pu_lastMessagePreview = cp_lastMessagePreview v,
     pu_lastMessageAt = cp_lastMessageAt v, pu_unreadCount = Some (cp_unreadCount v), pu_hasUnread = Some (cp_hasUnread v)\<rparr>"

text \<open>The event of the page an emission causes, if it concerns the chat page.\<close>

fun pageEvent :: "jstr option \<Rightarrow> bool \<Rightarrow> payload \<Rightarrow> page_event option" where
  "pageEvent seen eager (MessagePayload m) = Some (Delivered seen eager (received m))"
| "pageEvent seen eager (PreviewPayload v) = Some (PreviewCame eager (receivedPreview v))"
| "pageEvent seen eager (ReadPayload r) = Some (ReadCame seen (mr_conversationId r))"
| "pageEvent seen eager _ = None"

definition pageReceives ::
    "(jstr \<Rightarrow> int) \<Rightarrow> jstr option \<Rightarrow> jstr option \<Rightarrow> bool \<Rightarrow> emission \<Rightarrow> page \<Rightarrow> page" where
  "pageReceives d me seen eager e p = (case pageEvent seen eager (em_payload e) of None \<Rightarrow> p | Some ev \<Rightarrow> pageStep d me ev p)"

lemma receives_thread:
  "st_selectedConversationId (pageReceives d me seen eager e p) = st_selectedConversationId p"
  "cmsg_id ` set (st_messages p) \<subseteq> cmsg_id ` set (st_messages (pageReceives d me seen eager e p))"
  "distinct (map cmsg_id (st_messages p)) \<Longrightarrow> distinct (map cmsg_id (st_messages (pageReceives d me seen eager e p)))"
proof -
  note rules = pageReceives_def handlePreviewUpdate_def handleConversationRead_def
  show "st_selectedConversationId (pageReceives d me seen eager e p) = st_selectedConversationId p"
    by (cases "em_payload e") (simp_all add: rules split: option.split)
  show "distinct (map cmsg_id (st_messages p)) \<Longrightarrow> distinct (map cmsg_id (st_messages (pageReceives d me seen eager e p)))"
    by (cases "em_payload e") (simp_all add: rules upsert_distinct split: option.split)
  have "cmsg_id ` set ms \<subseteq> cmsg_id ` set (upsertMessage d ms m)" for ms m
    using upsert_ids [of d ms m] by auto
  then show "cmsg_id ` set (st_messages p) \<subseteq> cmsg_id ` set (st_messages (pageReceives d me seen eager e p))"
    by (cases "em_payload e") (simp_all add: rules split: option.split)
qed

lemma receives_message:
  assumes "em_payload e = MessagePayload m" "st_selectedConversationId p = Some (rm_conversationId m)"
  shows "rm_messageId m \<in> cmsg_id ` set (st_messages (pageReceives d me seen eager e p))"
  using assms upsert_ids [of d "st_messages p" "mapRealtimeMessage (received m)"]
  by (simp add: pageReceives_def received_def)

lemma receives_all:
  assumes "distinct (map cmsg_id (st_messages p))"
  shows "distinct (map cmsg_id (st_messages (fold (pageReceives d me seen eager) es p))) \<and>
    cmsg_id ` set (st_messages p) \<subseteq> cmsg_id ` set (st_messages (fold (pageReceives d me seen eager) es p)) \<and>
    (\<forall>e\<in>set es. \<forall>m. em_payload e = MessagePayload m \<longrightarrow> st_selectedConversationId p = Some (rm_conversationId m) \<longrightarrow>
       rm_messageId m \<in> cmsg_id ` set (st_messages (fold (pageReceives d me seen eager) es p)))"
  using assms
proof (induction es arbitrary: p)
  case (Cons e es)
  let ?q = "pageReceives d me seen eager e p"
  note IH = Cons.IH [OF receives_thread(3) [OF Cons.prems]]
  show ?case
    using IH [of d me seen eager e] receives_thread(2) [of p d me seen eager e] receives_message [of e _ p d me seen eager]
    by (fastforce simp: receives_thread(1))
qed simp

text \<open>
  C10: a message that was acknowledged to its sender is on the screen of everybody concerned: of every user who is an
  active participant afterwards and is connected with the conversation open, on each of their devices, once the
  device has handled what the gateway sent to it. It is there exactly once, although it was sent twice, through the
  room of the conversation and through the room of the user.
\<close>

theorem sent_message_is_shown:
  assumes "handleSendMessage pf client s w = (Inr (AckOk m), w')"
    and "parseOid (pf_oids pf) (sp_conversationId s) = Some cid"
    and "q \<in> set (w_participants w')" "part_conversationId q = cid" "part_status q = Active"
    and "(i, k) \<in> set (w_sockets w)" "sock_namespace k = ChatNamespace"
      "getUserRoom (idStr pf (part_userId q)) \<in> set (sock_rooms k)"
    and "st_selectedConversationId p = Some (rm_conversationId m)" "distinct (map cmsg_id (st_messages p))"
    and "p' = fold (pageReceives d me seen eager) (filter (\<lambda>e. i \<in> set (em_recipients e)) (drop (length (w_emitted w)) (w_emitted w'))) p"
  shows "\<exists>!x. x \<in> set (st_messages p') \<and> cmsg_id x = rm_messageId m"
proof -
  obtain e where e: "e \<in> set (drop (length (w_emitted w)) (w_emitted w'))" "em_payload e = MessagePayload m"
    "i \<in> set (em_recipients e)"
    using send_event_delivery [OF assms(1-8)] by blast
  note all = receives_all [OF assms(10), of d me seen eager "filter (\<lambda>e. i \<in> set (em_recipients e)) (drop (length (w_emitted w)) (w_emitted w'))"]
  have shown: "rm_messageId m \<in> cmsg_id ` set (st_messages p')" using all e assms(9,11) by auto
  have "distinct (map cmsg_id (st_messages p'))" using all assms(11) by simp
  then have "inj_on cmsg_id (set (st_messages p'))" by (simp add: distinct_map)
  moreover from shown obtain x where "x \<in> set (st_messages p')" "cmsg_id x = rm_messageId m" by auto
  ultimately show ?thesis by (metis inj_onD)
qed

theorem sent_message_is_shown_witness:
  "\<exists>m w'. handleSendMessage demo 0 hiPayload wiredWorld = (Inr (AckOk m), w') \<and>
     (\<exists>!x. x \<in> set (st_messages (fold (pageReceives (\<lambda>_. 0) (Some bobId) None True)
        (filter (\<lambda>e. 1 \<in> set (em_recipients e)) (drop (length (w_emitted wiredWorld)) (w_emitted w')))
        (conversationSelected (rm_conversationId m) newPage))) \<and> cmsg_id x = rm_messageId m)"
proof -
  from wired_send obtain x r v q where send: "sendMessage demo convId annId (js ''hi'') None False wiredWorld = (Inr (x, r), v)"
    and q: "q \<in> set (w_participants v)" "part_conversationId q = 3" "part_status q = Active" "part_userId q = 1" by blast
  obtain m w' where run: "handleSendMessage demo 0 hiPayload wiredWorld = (Inr (AckOk m), w')" "w_participants w' = w_participants v"
    using hi_acked [OF ann_connected] send ann_on_socket by metis
  have k: "(1, \<lparr>sock_namespace = ChatNamespace, sock_user = Some bobUser, sock_joined = Some [convId],
         sock_rooms = [getUserRoom bobId, getConversationRoom convId]\<rparr>) \<in> set (w_sockets wiredWorld)"
    by (simp add: wiredWorld_def)
  have open': "st_selectedConversationId (conversationSelected (rm_conversationId m) newPage) = Some (rm_conversationId m)"
    "st_messages (conversationSelected (rm_conversationId m) newPage) = []"
    by (simp_all add: conversationSelected_def Let_def)
  have "\<exists>!x. x \<in> set (st_messages (fold (pageReceives (\<lambda>_. 0) (Some bobId) None True)
        (filter (\<lambda>e. 1 \<in> set (em_recipients e)) (drop (length (w_emitted wiredWorld)) (w_emitted w')))
        (conversationSelected (rm_conversationId m) newPage))) \<and> cmsg_id x = rm_messageId m"
    by (rule sent_message_is_shown [OF run(1) _ _ q(2,3) k _ _ open'(1) _ refl]) (use q run(2) open'(2) in simp_all)
  with run(1) show ?thesis by blast
qed

subsection \<open>Limits on files\<close>

text \<open>The composer refuses exactly the files, folders aside, whose size the server refuses.\<close>

lemma file_limits_agree: "handleFileChange None f = None \<longleftrightarrow> \<not> badFileSize (Fin (of_int (df_size f)))"
proof -
  have "MAX_FILE_SIZE_BYTES = 26214400" by (simp add: MAX_FILE_SIZE_BYTES_def)
  then show ?thesis
    by (auto simp: handleFileChange_def badFileSize_def CLIENT_MAX_FILE_SIZE_def isFinite_def leZero_def gtNum_def)
qed

end
