(* ===== verification/ClientPanels.thy ===== *)
theory ClientPanels
  imports ClientPage
begin

text \<open>
  The panels of the chat page (\<open>features/chat/chat.page.tsx\<close>): the search for users and the start of a
  conversation, the search in the messages, the image viewer and the context menu. A React effect with a
  timer, a request and a flag \<open>cancelled\<close> is an \<open>effect_run\<close>: its armed timer and the requests it has sent,
  each live, cancelled (\<open>Stale\<close>) or settled. The effects run after every event that changes one of their
  dependencies (\<open>afterRender\<close>). What the server answers is a parameter (\<open>client_api\<close>), which may depend on
  when it is asked. The locale \<open>cancellable\<close> is what the two searches use of an effect run.
\<close>

subsection \<open>Texts\<close>

text \<open>Messages cannot be searched now\<close>

definition txtSearchFailed :: jstr where
  "txtSearchFailed =
    [75, 104, 244, 110, 103, 32, 116, 104, 7875, 32, 116, 236, 109, 32, 107, 105, 7871, 109, 32,
     116, 105, 110, 32, 110, 104, 7855, 110, 32, 108, 250, 99, 32, 110, 224, 121, 46]"

text \<open>Open a chat before searching for messages\<close>

definition txtOpenBeforeSearch :: jstr where
  "txtOpenBeforeSearch =
    [72, 227, 121, 32, 109, 7903, 32, 109, 7897, 116, 32, 273, 111, 7841, 110, 32, 99, 104, 97,
     116, 32, 116, 114, 432, 7899, 99, 32, 107, 104, 105, 32, 116, 236, 109, 32, 107, 105, 7871,
     109, 32, 116, 105, 110, 32, 110, 104, 7855, 110, 46]"

subsection \<open>Effects that wait\<close>

datatype run_state = Live | Stale | Settled

record 'k effect_run =
  er_timer :: "'k option"
  er_requests :: "('k \<times> run_state) list"

definition idleRun :: "'k effect_run" where
  "idleRun = \<lparr>er_timer = None, er_requests = []\<rparr>"

text \<open>The clean-up of the effect: \<open>cancelled = true\<close> and \<open>window.clearTimeout(timer)\<close>.\<close>

definition cancelRun :: "'k effect_run \<Rightarrow> 'k effect_run" where
  "cancelRun r = \<lparr>er_timer = None,
     er_requests = map (\<lambda>(k, s). (k, if s = Live then Stale else s)) (er_requests r)\<rparr>"

definition armTimer :: "'k \<Rightarrow> 'k effect_run \<Rightarrow> 'k effect_run" where
  "armTimer k r = r\<lparr>er_timer := Some k\<rparr>"

definition timerFired :: "'k effect_run \<Rightarrow> 'k effect_run" where
  "timerFired r =
     (case er_timer r of
        None \<Rightarrow> r
      | Some k \<Rightarrow> \<lparr>er_timer = None, er_requests = er_requests r @ [(k, Live)]\<rparr>)"

text \<open>The answer to the request \<open>i\<close>: its key when the request was not cancelled.\<close>

definition takeAnswer :: "nat \<Rightarrow> 'k effect_run \<Rightarrow> 'k option \<times> 'k effect_run" where
  "takeAnswer i r =
     (if i < length (er_requests r) \<and> snd (er_requests r ! i) = Live
      then (Some (fst (er_requests r ! i)), r\<lparr>er_requests := (er_requests r)[i := (fst (er_requests r ! i), Settled)]\<rparr>)
      else (None, r))"

text \<open>What an effect run still waits for.\<close>

definition pendingKeys :: "'k effect_run \<Rightarrow> 'k list" where
  "pendingKeys r = (case er_timer r of None \<Rightarrow> [] | Some k \<Rightarrow> [k]) @ map fst (filter (\<lambda>x. snd x = Live) (er_requests r))"

subsection \<open>State\<close>

record searchable_user =
  sb_id :: jstr
  sb_email :: jstr
  sb_username :: jstr
  sb_displayName :: jstr
  sb_avatarUrl :: "jstr option"

record search_hit =
  hit_messageId :: jstr
  hit_conversationId :: jstr
  hit_senderId :: jstr
  hit_senderDisplayName :: "jstr option"
  hit_senderAvatarUrl :: "jstr option"
  hit_content :: jstr
  hit_encryptedContent :: "jstr option"
  hit_sentAt :: jstr

record context_menu =
  menu_conversationId :: jstr
  menu_x :: int
  menu_y :: int

record image_viewer =
  iv_isOpen :: bool
  iv_attachment :: "client_attachment option"
  iv_imageUrl :: jstr
  iv_scale :: rat
  iv_loading :: bool

definition closedViewer :: image_viewer where
  "closedViewer = \<lparr>iv_isOpen = False, iv_attachment = None, iv_imageUrl = [], iv_scale = 1, iv_loading = False\<rparr>"

record panels =
  pn_page :: page
  pn_newChatOpen :: bool
  pn_userQuery :: jstr
  pn_userResults :: "searchable_user list"
  pn_selectedUser :: "searchable_user option"
  pn_searchingUsers :: bool
  pn_starting :: bool
  pn_userRun :: "jstr effect_run"
  pn_searchOpen :: bool
  pn_searchQuery :: jstr
  pn_searchHits :: "search_hit list"
  pn_searching :: bool
  pn_searchError :: "jstr option"
  pn_highlighted :: "jstr option"
  pn_searchRun :: "(jstr \<times> jstr) effect_run"
  pn_menu :: "context_menu option"
  pn_viewer :: image_viewer
  pn_imageRequests :: "client_attachment option list"

definition newPanels :: panels where
  "newPanels = \<lparr>pn_page = newPage, pn_newChatOpen = False, pn_userQuery = [], pn_userResults = [], pn_selectedUser = None,
     pn_searchingUsers = False, pn_starting = False, pn_userRun = idleRun, pn_searchOpen = False, pn_searchQuery = [],
     pn_searchHits = [], pn_searching = False, pn_searchError = None, pn_highlighted = None, pn_searchRun = idleRun,
     pn_menu = None, pn_viewer = closedViewer, pn_imageRequests = []\<rparr>"

record client_api =
  api_users :: "nat \<Rightarrow> jstr \<Rightarrow> searchable_user list option"
  api_hits :: "nat \<Rightarrow> jstr \<Rightarrow> jstr \<Rightarrow> search_hit list option"
  api_imageUrl :: "nat \<Rightarrow> jstr \<Rightarrow> jstr option"

subsection \<open>Searching for users\<close>

text \<open>The effect on the query for users: its clean-up, then its body.\<close>

definition userSearchEffect :: "panels \<Rightarrow> panels" where
  "userSearchEffect p =
     (let p' = p\<lparr>pn_userRun := cancelRun (pn_userRun p)\<rparr>; trimmedQuery = trim (pn_userQuery p) in
      if \<not> pn_newChatOpen p then p'
      else if length trimmedQuery < 2 then p'\<lparr>pn_userResults := [], pn_searchingUsers := False\<rparr>
      else p'\<lparr>pn_searchingUsers := True, pn_userRun := armTimer trimmedQuery (pn_userRun p')\<rparr>)"

definition userAnswer :: "client_api \<Rightarrow> nat \<Rightarrow> nat \<Rightarrow> panels \<Rightarrow> panels" where
  "userAnswer api time i p =
     (case takeAnswer i (pn_userRun p) of
        (None, r) \<Rightarrow> p\<lparr>pn_userRun := r\<rparr>
      | (Some query, r) \<Rightarrow>
          p\<lparr>pn_userRun := r,
            pn_userResults := (case api_users api time query of None \<Rightarrow> [] | Some users \<Rightarrow> users),
            pn_searchingUsers := False\<rparr>)"

definition typeUserQuery :: "jstr \<Rightarrow> panels \<Rightarrow> panels" where
  "typeUserQuery q p = p\<lparr>pn_userQuery := q, pn_selectedUser := None\<rparr>"

text \<open>The users the panel offers; only an offered user can be picked.\<close>

definition offeredUsers :: "panels \<Rightarrow> searchable_user list" where
  "offeredUsers p =
     (if \<not> pn_newChatOpen p \<or> length (trim (pn_userQuery p)) < 2 \<or> pn_searchingUsers p then [] else pn_userResults p)"

definition pickUser :: "searchable_user \<Rightarrow> panels \<Rightarrow> panels" where
  "pickUser u p = (if u \<in> set (offeredUsers p) then p\<lparr>pn_selectedUser := Some u\<rparr> else p)"

definition resetNewChatModal :: "panels \<Rightarrow> panels" where
  "resetNewChatModal p = p\<lparr>pn_newChatOpen := False, pn_userQuery := [], pn_userResults := [], pn_selectedUser := None,
     pn_searchingUsers := False, pn_starting := False\<rparr>"

text \<open>Pressing the button; the second result is the participant the conversation is created with.\<close>

definition handleStartConversation :: "panels \<Rightarrow> panels \<times> jstr option" where
  "handleStartConversation p =
     (case pn_selectedUser p of
        None \<Rightarrow> (p, None)
      | Some u \<Rightarrow> if pn_starting p then (p, None) else (p\<lparr>pn_starting := True\<rparr>, Some (sb_id u)))"

subsection \<open>Searching in the messages\<close>

definition openConversation :: "panels \<Rightarrow> jstr option" where
  "openConversation p = (case st_selectedConversationId (pn_page p) of None \<Rightarrow> None | Some c \<Rightarrow> if c = [] then None else Some c)"

definition messageSearchEffect :: "panels \<Rightarrow> panels" where
  "messageSearchEffect p =
     (let p' = p\<lparr>pn_searchRun := cancelRun (pn_searchRun p)\<rparr>;
          stopped = p'\<lparr>pn_searching := False, pn_searchHits := [], pn_searchError := None\<rparr>;
          trimmedQuery = trim (pn_searchQuery p) in
      case openConversation p of
        None \<Rightarrow> stopped
      | Some c \<Rightarrow>
          if \<not> pn_searchOpen p then stopped
          else if length trimmedQuery < 2 then stopped
          else p'\<lparr>pn_searching := True, pn_searchError := None, pn_searchRun := armTimer (c, trimmedQuery) (pn_searchRun p')\<rparr>)"

definition searchAnswer :: "client_api \<Rightarrow> nat \<Rightarrow> nat \<Rightarrow> panels \<Rightarrow> panels" where
  "searchAnswer api time i p =
     (case takeAnswer i (pn_searchRun p) of
        (None, r) \<Rightarrow> p\<lparr>pn_searchRun := r\<rparr>
      | (Some (c, query), r) \<Rightarrow>
          (case api_hits api time c query of
             Some hits \<Rightarrow> p\<lparr>pn_searchRun := r, pn_searchHits := hits, pn_searching := False\<rparr>
           | None \<Rightarrow> p\<lparr>pn_searchRun := r, pn_searchHits := [], pn_searchError := Some txtSearchFailed, pn_searching := False\<rparr>))"

definition handleOpenMessageSearch :: "panels \<Rightarrow> panels" where
  "handleOpenMessageSearch p =
     (if openConversation p = None
      then p\<lparr>pn_searchError := Some txtOpenBeforeSearch, pn_searchHits := [], pn_searchOpen := True\<rparr>
      else p\<lparr>pn_searchError := None, pn_searchHits := [], pn_searchQuery := [], pn_searchOpen := True\<rparr>)"

definition resetMessageSearch :: "panels \<Rightarrow> panels" where
  "resetMessageSearch p = p\<lparr>pn_searchOpen := False, pn_searchQuery := [], pn_searchHits := [], pn_searching := False,
     pn_searchError := None, pn_highlighted := None\<rparr>"

definition typeSearchQuery :: "jstr \<Rightarrow> panels \<Rightarrow> panels" where
  "typeSearchQuery q p = p\<lparr>pn_searchQuery := q, pn_searchError := None\<rparr>"

text \<open>\<open>handleOpenSearchResult\<close> up to where it waits, and after.\<close>

definition openHit :: "search_hit \<Rightarrow> panels \<Rightarrow> panels" where
  "openHit m p =
     (if st_selectedConversationId (pn_page p) \<noteq> Some (hit_conversationId m)
      then p\<lparr>pn_page := conversationSelected (hit_conversationId m) (pn_page p)\<rparr> else p)"

definition showHit :: "search_hit \<Rightarrow> panels \<Rightarrow> panels" where
  "showHit m p = (resetMessageSearch p)\<lparr>pn_highlighted := Some (hit_messageId m)\<rparr>"

definition highlightExpired :: "search_hit \<Rightarrow> panels \<Rightarrow> panels" where
  "highlightExpired m p =
     p\<lparr>pn_highlighted := (if pn_highlighted p = Some (hit_messageId m) then None else pn_highlighted p)\<rparr>"

text \<open>The hits the panel shows.\<close>

definition shownHits :: "panels \<Rightarrow> search_hit list" where
  "shownHits p =
     (if \<not> pn_searchOpen p \<or> pn_searchError p \<notin> {None, Some []} \<or> length (trim (pn_searchQuery p)) < 2 \<or> pn_searching p
      then [] else pn_searchHits p)"

subsection \<open>The image viewer\<close>

definition handleOpenImageAttachment :: "client_attachment \<Rightarrow> panels \<Rightarrow> panels" where
  "handleOpenImageAttachment a p =
     (if ca_attachmentId a = [] then p
      else p\<lparr>pn_viewer := \<lparr>iv_isOpen = True, iv_attachment = Some a, iv_imageUrl = [], iv_scale = 1, iv_loading = True\<rparr>,
             pn_imageRequests := pn_imageRequests p @ [Some a]\<rparr>)"

definition imageAnswer :: "client_api \<Rightarrow> nat \<Rightarrow> nat \<Rightarrow> panels \<Rightarrow> panels" where
  "imageAnswer api time i p =
     (if i < length (pn_imageRequests p) then
        (case pn_imageRequests p ! i of
           None \<Rightarrow> p
         | Some a \<Rightarrow>
             p\<lparr>pn_imageRequests := (pn_imageRequests p)[i := None],
               pn_viewer := \<lparr>iv_isOpen = True, iv_attachment = Some a,
                 iv_imageUrl = (case api_imageUrl api time (ca_attachmentId a) of None \<Rightarrow> [] | Some url \<Rightarrow> url),
                 iv_scale = 1, iv_loading = False\<rparr>\<rparr>)
      else p)"

definition zoomIn :: "image_viewer \<Rightarrow> image_viewer" where
  "zoomIn v = v\<lparr>iv_scale := min (iv_scale v + 1/4) 3\<rparr>"

definition zoomOut :: "image_viewer \<Rightarrow> image_viewer" where
  "zoomOut v = v\<lparr>iv_scale := max (iv_scale v - 1/4) (1/2)\<rparr>"

definition zoomReset :: "image_viewer \<Rightarrow> image_viewer" where
  "zoomReset v = v\<lparr>iv_scale := 1\<rparr>"

subsection \<open>The context menu\<close>

definition handleConversationContextMenu :: "jstr \<Rightarrow> int \<Rightarrow> int \<Rightarrow> panels \<Rightarrow> panels" where
  "handleConversationContextMenu c x y p = p\<lparr>pn_menu := Some \<lparr>menu_conversationId = c, menu_x = x, menu_y = y\<rparr>\<rparr>"

definition handleWindowClick :: "panels \<Rightarrow> panels" where
  "handleWindowClick p = p\<lparr>pn_menu := None\<rparr>"

subsection \<open>Events\<close>

datatype panel_event =
    PageChanged page_event
  | NewChatPressed | NewChatClosed | UserTyped jstr | UserPicked searchable_user | UserTimer | UserAnswered nat nat
  | StartPressed | StartSelected jstr "client_conversation list" | StartFinished | StartFailed
  | SearchPressed | SearchClosed | SearchTyped jstr | SearchTimer | SearchAnswered nat nat
  | HitPressed search_hit | HitShown search_hit | HighlightTimer search_hit
  | ImagePressed client_attachment | ImageAnswered nat nat | ViewerClosed | ZoomInPressed | ZoomOutPressed | ZoomResetPressed
  | MenuPressed jstr int int | WindowClicked

fun handle :: "client_api \<Rightarrow> (jstr \<Rightarrow> int) \<Rightarrow> jstr option \<Rightarrow> panel_event \<Rightarrow> panels \<Rightarrow> panels" where
  "handle api d me (PageChanged e) p = p\<lparr>pn_page := pageStep d me e (pn_page p)\<rparr>"
| "handle api d me NewChatPressed p = p\<lparr>pn_newChatOpen := True\<rparr>"
| "handle api d me NewChatClosed p = resetNewChatModal p"
| "handle api d me (UserTyped q) p = typeUserQuery q p"
| "handle api d me (UserPicked u) p = pickUser u p"
| "handle api d me UserTimer p = p\<lparr>pn_userRun := timerFired (pn_userRun p)\<rparr>"
| "handle api d me (UserAnswered time i) p = userAnswer api time i p"
| "handle api d me StartPressed p = fst (handleStartConversation p)"
| "handle api d me (StartSelected c cs) p = p\<lparr>pn_page := conversationStarted c cs (pn_page p)\<rparr>"
| "handle api d me StartFinished p = resetNewChatModal p"
| "handle api d me StartFailed p = p\<lparr>pn_starting := False\<rparr>"
| "handle api d me SearchPressed p = handleOpenMessageSearch p"
| "handle api d me SearchClosed p = resetMessageSearch p"
| "handle api d me (SearchTyped q) p = typeSearchQuery q p"
| "handle api d me SearchTimer p = p\<lparr>pn_searchRun := timerFired (pn_searchRun p)\<rparr>"
| "handle api d me (SearchAnswered time i) p = searchAnswer api time i p"
| "handle api d me (HitPressed m) p = openHit m p"
| "handle api d me (HitShown m) p = showHit m p"
| "handle api d me (HighlightTimer m) p = highlightExpired m p"
| "handle api d me (ImagePressed a) p = handleOpenImageAttachment a p"
| "handle api d me (ImageAnswered time i) p = imageAnswer api time i p"
| "handle api d me ViewerClosed p = p\<lparr>pn_viewer := closedViewer\<rparr>"
| "handle api d me ZoomInPressed p = p\<lparr>pn_viewer := zoomIn (pn_viewer p)\<rparr>"
| "handle api d me ZoomOutPressed p = p\<lparr>pn_viewer := zoomOut (pn_viewer p)\<rparr>"
| "handle api d me ZoomResetPressed p = p\<lparr>pn_viewer := zoomReset (pn_viewer p)\<rparr>"
| "handle api d me (MenuPressed c x y) p = handleConversationContextMenu c x y p"
| "handle api d me WindowClicked p = handleWindowClick p"

text \<open>The effects whose dependencies the event changed.\<close>

definition afterRender :: "panels \<Rightarrow> panels \<Rightarrow> panels" where
  "afterRender old new =
     (let p = (if (pn_newChatOpen new, pn_userQuery new) \<noteq> (pn_newChatOpen old, pn_userQuery old)
               then userSearchEffect new else new) in
      if (pn_searchOpen new, pn_searchQuery new, st_selectedConversationId (pn_page new)) \<noteq>
         (pn_searchOpen old, pn_searchQuery old, st_selectedConversationId (pn_page old))
      then messageSearchEffect p else p)"

definition panelStep :: "client_api \<Rightarrow> (jstr \<Rightarrow> int) \<Rightarrow> jstr option \<Rightarrow> panel_event \<Rightarrow> panels \<Rightarrow> panels" where
  "panelStep api d me e p = afterRender p (handle api d me e p)"

subsection \<open>Effects that can be cancelled\<close>

locale cancellable =
  fixes pending :: "'r \<Rightarrow> 'k list" and cancel :: "'r \<Rightarrow> 'r" and arm :: "'k \<Rightarrow> 'r \<Rightarrow> 'r" and fire :: "'r \<Rightarrow> 'r"
    and answer :: "nat \<Rightarrow> 'r \<Rightarrow> 'k option \<times> 'r"
  assumes cancelled: "pending (cancel r) = []"
    and armed: "pending (arm k (cancel r)) = [k]"
    and fired: "length (pending r) \<le> 1 \<Longrightarrow> pending (fire r) = pending r"
    and dropped: "answer i r = (None, r') \<Longrightarrow> r' = r"
    and taken: "answer i r = (Some k, r') \<Longrightarrow> k \<in> set (pending r) \<and> length (pending r) = Suc (length (pending r'))"
begin

lemma answer_latest:
  assumes "pending r = (if b then [q] else [])" "answer i r = (Some k, r')"
  shows "b" "k = q" "pending r' = []"
  using taken [OF assms(2)] assms(1) by (auto split: if_splits)

lemma fire_latest: "pending r = (if b then [q] else []) \<Longrightarrow> pending (fire r) = (if b then [q] else [])"
  using fired [of r] by (auto split: if_splits)

end

lemma map_cancel: "filter (\<lambda>x. snd x = Live) (map (\<lambda>(k, s). (k, if s = Live then Stale else s)) rs) = []"
  by (induction rs) (auto simp: filter_empty_conv split: if_splits)

lemma settle_one:
  assumes "i < length rs" "snd (rs ! i) = Live"
  shows "fst (rs ! i) \<in> set (map fst (filter (\<lambda>x. snd x = Live) rs)) \<and>
    length (filter (\<lambda>x. snd x = Live) rs) = Suc (length (filter (\<lambda>x. snd x = Live) (rs[i := (fst (rs ! i), Settled)])))"
  using assms
proof (induction rs arbitrary: i)
  case (Cons x rs)
  then show ?case by (cases i) auto
qed simp

interpretation effects: cancellable pendingKeys cancelRun armTimer timerFired takeAnswer
proof unfold_locales
  fix r r' :: "'k effect_run" and k i
  show "pendingKeys (cancelRun r) = []" by (simp add: pendingKeys_def cancelRun_def map_cancel)
  show "pendingKeys (armTimer k (cancelRun r)) = [k]" by (simp add: pendingKeys_def cancelRun_def armTimer_def map_cancel)
  show "length (pendingKeys r) \<le> 1 \<Longrightarrow> pendingKeys (timerFired r) = pendingKeys r"
    by (auto simp: pendingKeys_def timerFired_def split: option.split)
  show "takeAnswer i r = (None, r') \<Longrightarrow> r' = r" by (auto simp: takeAnswer_def split: if_splits)
  assume "takeAnswer i r = (Some k, r')"
  then show "k \<in> set (pendingKeys r) \<and> length (pendingKeys r) = Suc (length (pendingKeys r'))"
    using settle_one [of i "er_requests r"] by (auto simp: takeAnswer_def pendingKeys_def split: if_splits)
qed

lemmas user_apart_defs = handleStartConversation_def searchAnswer_def handleOpenMessageSearch_def resetMessageSearch_def
  typeSearchQuery_def openHit_def showHit_def highlightExpired_def handleOpenImageAttachment_def imageAnswer_def
  handleConversationContextMenu_def handleWindowClick_def

lemmas search_apart_defs = handleStartConversation_def userAnswer_def typeUserQuery_def pickUser_def resetNewChatModal_def
  handleOpenMessageSearch_def resetMessageSearch_def typeSearchQuery_def openHit_def showHit_def highlightExpired_def
  handleOpenImageAttachment_def imageAnswer_def handleConversationContextMenu_def handleWindowClick_def

subsection \<open>Invariants\<close>

definition userSearchOk :: "client_api \<Rightarrow> panels \<Rightarrow> bool" where
  "userSearchOk api p \<longleftrightarrow>
     (let q = trim (pn_userQuery p); active = (pn_newChatOpen p \<and> 2 \<le> length q) in
      pendingKeys (pn_userRun p) = (if active \<and> pn_searchingUsers p then [q] else []) \<and>
      (active \<and> \<not> pn_searchingUsers p \<and> pn_userResults p \<noteq> [] \<longrightarrow> (\<exists>t. api_users api t q = Some (pn_userResults p))) \<and>
      (\<forall>u. pn_selectedUser p = Some u \<longrightarrow> active \<and> \<not> pn_searchingUsers p \<and> u \<in> set (pn_userResults p)))"

definition activeSearch :: "panels \<Rightarrow> (jstr \<times> jstr) option" where
  "activeSearch p =
     (case openConversation p of
        None \<Rightarrow> None
      | Some c \<Rightarrow> if pn_searchOpen p \<and> 2 \<le> length (trim (pn_searchQuery p)) then Some (c, trim (pn_searchQuery p)) else None)"

definition messageSearchOk :: "client_api \<Rightarrow> panels \<Rightarrow> bool" where
  "messageSearchOk api p \<longleftrightarrow>
     pendingKeys (pn_searchRun p) = (if activeSearch p \<noteq> None \<and> pn_searching p then [the (activeSearch p)] else []) \<and>
     (activeSearch p = None \<longrightarrow> pn_searchHits p = []) \<and>
     (\<forall>c q. activeSearch p = Some (c, q) \<and> \<not> pn_searching p \<and> pn_searchHits p \<noteq> [] \<longrightarrow>
        (\<exists>t. api_hits api t c q = Some (pn_searchHits p)))"

text \<open>The scales of the viewer: quarters from a half to three.\<close>

definition zoomStop :: "rat \<Rightarrow> bool" where
  "zoomStop s \<longleftrightarrow> (\<exists>n::nat. 2 \<le> n \<and> n \<le> 12 \<and> s = of_nat n / 4)"

definition viewerOk :: "client_api \<Rightarrow> image_viewer \<Rightarrow> bool" where
  "viewerOk api v \<longleftrightarrow>
     (iv_isOpen v \<longleftrightarrow> iv_attachment v \<noteq> None) \<and> (iv_loading v \<longrightarrow> iv_isOpen v \<and> iv_imageUrl v = []) \<and>
     (iv_imageUrl v \<noteq> [] \<longrightarrow> (\<exists>a t. iv_attachment v = Some a \<and> api_imageUrl api t (ca_attachmentId a) = Some (iv_imageUrl v))) \<and>
     zoomStop (iv_scale v)"

lemma userSearchOk_cong:
  assumes "pn_newChatOpen p = pn_newChatOpen p'" "pn_userQuery p = pn_userQuery p'" "pn_userResults p = pn_userResults p'"
    "pn_selectedUser p = pn_selectedUser p'" "pn_searchingUsers p = pn_searchingUsers p'" "pn_userRun p = pn_userRun p'"
  shows "userSearchOk api p \<longleftrightarrow> userSearchOk api p'"
  using assms by (simp add: userSearchOk_def)

lemma messageSearchOk_cong:
  assumes "st_selectedConversationId (pn_page p) = st_selectedConversationId (pn_page p')"
    "pn_searchOpen p = pn_searchOpen p'" "pn_searchQuery p = pn_searchQuery p'"
    "pn_searchHits p = pn_searchHits p'" "pn_searching p = pn_searching p'" "pn_searchRun p = pn_searchRun p'"
  shows "messageSearchOk api p \<longleftrightarrow> messageSearchOk api p'"
proof -
  have "activeSearch p = activeSearch p'"
    using assms(1-3) by (simp add: activeSearch_def openConversation_def split: option.split)
  then show ?thesis using assms(4-6) by (simp add: messageSearchOk_def)
qed

lemma userSearchEffect_ok: "pn_selectedUser p = None \<Longrightarrow> userSearchOk api (userSearchEffect p)"
  by (auto simp: userSearchEffect_def userSearchOk_def Let_def effects.cancelled effects.armed)

lemma messageSearchEffect_ok: "messageSearchOk api (messageSearchEffect p)"
  by (auto simp: messageSearchEffect_def messageSearchOk_def activeSearch_def openConversation_def Let_def
      effects.cancelled effects.armed split: option.splits if_splits)

lemma effects_apart:
  "userSearchOk api (messageSearchEffect p) \<longleftrightarrow> userSearchOk api p"
  "messageSearchOk api (userSearchEffect p) \<longleftrightarrow> messageSearchOk api p"
  by (rule userSearchOk_cong; simp add: messageSearchEffect_def Let_def split: option.split)
    (rule messageSearchOk_cong; simp add: userSearchEffect_def Let_def)

lemma userAnswer_ok: "userSearchOk api p \<Longrightarrow> userSearchOk api (userAnswer api time i p)"
proof (cases "takeAnswer i (pn_userRun p)")
  case (Pair a r)
  assume ok: "userSearchOk api p"
  show ?thesis
  proof (cases a)
    case None
    then show ?thesis using ok Pair effects.dropped [OF Pair [unfolded None]] by (simp add: userAnswer_def)
  next
    case (Some k)
    have "pn_newChatOpen p \<and> 2 \<le> length (trim (pn_userQuery p)) \<and> pn_searchingUsers p"
      "k = trim (pn_userQuery p)" "pendingKeys r = []"
      using effects.answer_latest [OF _ Pair [unfolded Some]] ok unfolding userSearchOk_def Let_def by blast+
    then show ?thesis using ok Pair Some by (auto simp: userAnswer_def userSearchOk_def Let_def split: option.split)
  qed
qed

lemma searchAnswer_ok: "messageSearchOk api p \<Longrightarrow> messageSearchOk api (searchAnswer api time i p)"
proof (cases "takeAnswer i (pn_searchRun p)")
  case (Pair a r)
  assume ok: "messageSearchOk api p"
  show ?thesis
  proof (cases a)
    case None
    then show ?thesis using ok Pair effects.dropped [OF Pair [unfolded None]] by (simp add: searchAnswer_def)
  next
    case (Some k)
    have "activeSearch p \<noteq> None \<and> pn_searching p" "k = the (activeSearch p)" "pendingKeys r = []"
      using effects.answer_latest [OF _ Pair [unfolded Some]] ok unfolding messageSearchOk_def by blast+
    then show ?thesis using ok Pair Some
      by (auto simp: searchAnswer_def messageSearchOk_def activeSearch_def openConversation_def split: option.splits if_splits)
  qed
qed

lemma userSearchOk_step:
  assumes ok: "userSearchOk api p"
  shows "userSearchOk api (panelStep api d me e p)"
proof -
  let ?q = "handle api d me e p"
  have same: "(pn_newChatOpen ?q, pn_userQuery ?q) = (pn_newChatOpen p, pn_userQuery p) \<Longrightarrow> userSearchOk api ?q"
  proof (cases e)
    case (UserAnswered t i)
    then show ?thesis using userAnswer_ok [OF ok] by simp
  next
    case (UserPicked u)
    then show ?thesis using ok by (auto simp: pickUser_def offeredUsers_def userSearchOk_def Let_def split: if_splits)
  next
    case UserTimer
    then show ?thesis using ok by (auto simp: userSearchOk_def Let_def effects.fire_latest)
  next
    case (UserTyped q)
    moreover assume "(pn_newChatOpen ?q, pn_userQuery ?q) = (pn_newChatOpen p, pn_userQuery p)"
    ultimately show ?thesis using ok by (auto simp: typeUserQuery_def userSearchOk_def Let_def)
  next
    case NewChatClosed
    moreover assume "(pn_newChatOpen ?q, pn_userQuery ?q) = (pn_newChatOpen p, pn_userQuery p)"
    ultimately show ?thesis using ok by (auto simp: resetNewChatModal_def userSearchOk_def Let_def)
  next
    case StartFinished
    moreover assume "(pn_newChatOpen ?q, pn_userQuery ?q) = (pn_newChatOpen p, pn_userQuery p)"
    ultimately show ?thesis using ok by (auto simp: resetNewChatModal_def userSearchOk_def Let_def)
  qed (use ok in \<open>auto simp: user_apart_defs userSearchOk_def Let_def split: option.split prod.split\<close>)
  have changed: "(pn_newChatOpen ?q, pn_userQuery ?q) \<noteq> (pn_newChatOpen p, pn_userQuery p) \<Longrightarrow> pn_selectedUser ?q = None"
    using ok by (cases e) (auto simp: user_apart_defs userAnswer_def pickUser_def typeUserQuery_def resetNewChatModal_def
        userSearchOk_def Let_def split: option.splits prod.splits if_splits)
  show ?thesis
    using same userSearchEffect_ok [OF changed] by (auto simp: panelStep_def afterRender_def Let_def effects_apart)
qed

lemma messageSearchOk_step:
  assumes ok: "messageSearchOk api p"
  shows "messageSearchOk api (panelStep api d me e p)"
proof -
  let ?q = "handle api d me e p"
  let ?same = "(pn_searchOpen ?q, pn_searchQuery ?q, st_selectedConversationId (pn_page ?q)) =
    (pn_searchOpen p, pn_searchQuery p, st_selectedConversationId (pn_page p))"
  have same: "messageSearchOk api ?q" if "?same"
  proof (cases e)
    case (SearchAnswered t i)
    then show ?thesis using searchAnswer_ok [OF ok] by simp
  next
    case SearchTimer
    then show ?thesis using ok
      by (auto simp: messageSearchOk_def activeSearch_def openConversation_def effects.fired
          split: option.split)
  qed (use ok that in \<open>auto simp: search_apart_defs messageSearchOk_def activeSearch_def openConversation_def Let_def
      split: option.splits prod.splits if_splits\<close>)
  then show ?thesis
    by (auto simp: panelStep_def afterRender_def Let_def effects_apart messageSearchEffect_ok)
qed

lemma zoomStop_one: "zoomStop 1"
  unfolding zoomStop_def by (rule exI [of _ 4]) simp

lemma zoomStop_in: "zoomStop s \<Longrightarrow> zoomStop (min (s + 1/4) 3)"
proof -
  assume "zoomStop s"
  then obtain n :: nat where n: "2 \<le> n" "n \<le> 12" "s = of_nat n / 4" unfolding zoomStop_def by blast
  then have "min (s + 1/4) 3 = of_nat (min (n + 1) 12) / 4" by (simp add: min_def field_simps of_nat_diff)
  then show ?thesis using n(1) unfolding zoomStop_def by (intro exI [of _ "min (n + 1) 12"]) auto
qed

lemma zoomStop_out: "zoomStop s \<Longrightarrow> zoomStop (max (s - 1/4) (1/2))"
proof -
  assume "zoomStop s"
  then obtain n :: nat where n: "2 \<le> n" "n \<le> 12" "s = of_nat n / 4" unfolding zoomStop_def by blast
  then obtain k where k: "n = Suc k" by (cases n) auto
  have "max (s - 1/4) (1/2) = of_nat (max k 2) / 4" using n(3) k by (simp add: max_def field_simps)
  then show ?thesis using n(2) k unfolding zoomStop_def by (intro exI [of _ "max k 2"]) auto
qed

lemma pn_viewer_afterRender: "pn_viewer (afterRender old new) = pn_viewer new"
  by (simp add: afterRender_def userSearchEffect_def messageSearchEffect_def Let_def split: option.split)

lemma viewerOk_step: "viewerOk api (pn_viewer p) \<Longrightarrow> viewerOk api (pn_viewer (panelStep api d me e p))"
proof (cases e)
  case (ImageAnswered t i)
  assume "viewerOk api (pn_viewer p)"
  then show ?thesis using ImageAnswered zoomStop_one
    by (auto simp: panelStep_def pn_viewer_afterRender imageAnswer_def viewerOk_def split: option.split)
qed (auto simp: panelStep_def pn_viewer_afterRender viewerOk_def search_apart_defs searchAnswer_def Let_def closedViewer_def
    zoomIn_def zoomOut_def zoomReset_def zoomStop_in zoomStop_out zoomStop_one split: option.split prod.split)

interpretation panels: event_invariant "panelStep api d me"
  "\<lambda>p. userSearchOk api p \<and> messageSearchOk api p \<and> viewerOk api (pn_viewer p)" for api d me
  by unfold_locales (simp add: userSearchOk_step messageSearchOk_step viewerOk_step)

lemma newPanels_ok: "userSearchOk api newPanels \<and> messageSearchOk api newPanels \<and> viewerOk api (pn_viewer newPanels)"
  by (simp add: newPanels_def userSearchOk_def messageSearchOk_def viewerOk_def activeSearch_def openConversation_def
      closedViewer_def idleRun_def pendingKeys_def trim_def newPage_def zoomStop_one)

subsection \<open>Properties\<close>

text \<open>
  C23: Through every sequence of events - typing, timers, answers that arrive late or out of order, panels that are
  closed and opened again, conversations that change under an open search - the users the panel offers answer the query
  that stands in it, a conversation can be started only with one of them, and the messages the search shows answer its
  query in the selected conversation.
\<close>

theorem search_answers_query:
  assumes "p = fold (panelStep api d me) es newPanels"
  shows "(offeredUsers p \<noteq> [] \<longrightarrow> (\<exists>t. api_users api t (trim (pn_userQuery p)) = Some (offeredUsers p))) \<and>
    (\<forall>i. snd (handleStartConversation p) = Some i \<longrightarrow> i \<in> sb_id ` set (offeredUsers p)) \<and>
    (shownHits p \<noteq> [] \<longrightarrow> (\<exists>c t. st_selectedConversationId (pn_page p) = Some c \<and>
       api_hits api t c (trim (pn_searchQuery p)) = Some (shownHits p)))"
proof -
  have ok: "userSearchOk api p" "messageSearchOk api p"
    using panels.along [OF newPanels_ok, of api d me es] assms by simp_all
  show ?thesis
    using ok by (auto simp: userSearchOk_def messageSearchOk_def offeredUsers_def shownHits_def handleStartConversation_def
        activeSearch_def openConversation_def Let_def split: option.splits if_splits)
qed

abbreviation annUser :: searchable_user where
  "annUser \<equiv> \<lparr>sb_id = [1], sb_email = [2], sb_username = [3], sb_displayName = [4], sb_avatarUrl = None\<rparr>"

abbreviation oneHit :: search_hit where
  "oneHit \<equiv> \<lparr>hit_messageId = [1], hit_conversationId = [2], hit_senderId = [3], hit_senderDisplayName = None,
     hit_senderAvatarUrl = None, hit_content = [97, 98], hit_encryptedContent = None, hit_sentAt = [4]\<rparr>"

abbreviation sampleApi :: client_api where
  "sampleApi \<equiv> \<lparr>api_users = (\<lambda>t q. Some [annUser]), api_hits = (\<lambda>t c q. Some [oneHit]), api_imageUrl = (\<lambda>t a. Some [8])\<rparr>"

abbreviation sampleSearch :: "panel_event list" where
  "sampleSearch \<equiv> [NewChatPressed, UserTyped [97, 98], UserTimer, UserAnswered 0 0, UserPicked annUser,
     PageChanged (Selected [2]), SearchPressed, SearchTyped [97, 98], SearchTimer, SearchAnswered 0 0]"

lemma sampleSearch_shows:
  "offeredUsers (fold (panelStep sampleApi (\<lambda>_. 0) None) sampleSearch newPanels) = [annUser] \<and>
   snd (handleStartConversation (fold (panelStep sampleApi (\<lambda>_. 0) None) sampleSearch newPanels)) = Some [1] \<and>
   shownHits (fold (panelStep sampleApi (\<lambda>_. 0) None) sampleSearch newPanels) = [oneHit]"
  by (simp add: panelStep_def afterRender_def newPanels_def newPage_def idleRun_def closedViewer_def conversationSelected_def
      userSearchEffect_def messageSearchEffect_def typeUserQuery_def typeSearchQuery_def timerFired_def armTimer_def
      cancelRun_def userAnswer_def searchAnswer_def takeAnswer_def pickUser_def offeredUsers_def shownHits_def
      handleOpenMessageSearch_def openConversation_def handleStartConversation_def trim_def isSpace_def Let_def)

theorem search_answers_query_witness:
  "\<exists>p. p = fold (panelStep sampleApi (\<lambda>_. 0) None) sampleSearch newPanels \<and>
    (\<exists>t. api_users sampleApi t (trim (pn_userQuery p)) = Some [annUser]) \<and> snd (handleStartConversation p) = Some [1] \<and>
    (\<exists>c t. st_selectedConversationId (pn_page p) = Some c \<and> api_hits sampleApi t c (trim (pn_searchQuery p)) = Some [oneHit])"
proof -
  obtain p where p: "p = fold (panelStep sampleApi (\<lambda>_. 0) None) sampleSearch newPanels" by simp
  have shown: "offeredUsers p = [annUser]" "shownHits p = [oneHit]" "snd (handleStartConversation p) = Some [1]"
    using sampleSearch_shows unfolding p by simp_all
  from search_answers_query [OF p]
  have "\<exists>t. api_users sampleApi t (trim (pn_userQuery p)) = Some [annUser]"
    "\<exists>c t. st_selectedConversationId (pn_page p) = Some c \<and> api_hits sampleApi t c (trim (pn_searchQuery p)) = Some [oneHit]"
    by (simp_all only: shown) auto
  with p shown(3) show ?thesis by blast
qed

text \<open>
  The image viewer is open exactly when it has an attachment, the picture it shows was served for that attachment,
  nothing is shown while it is loading, and the scale stays between a half and three, whatever is pressed.
\<close>

theorem viewer_shows_its_image:
  assumes "v = pn_viewer (fold (panelStep api d me) es newPanels)"
  shows "(iv_isOpen v \<longleftrightarrow> iv_attachment v \<noteq> None) \<and> (iv_loading v \<longrightarrow> iv_imageUrl v = []) \<and>
    (iv_imageUrl v \<noteq> [] \<longrightarrow> (\<exists>a t. iv_attachment v = Some a \<and> api_imageUrl api t (ca_attachmentId a) = Some (iv_imageUrl v))) \<and>
    1/2 \<le> iv_scale v \<and> iv_scale v \<le> 3"
proof -
  have "viewerOk api v" using panels.along [OF newPanels_ok, of api d me es] assms by simp
  then show ?thesis by (auto simp: viewerOk_def zoomStop_def)
qed

abbreviation photo :: client_attachment where
  "photo \<equiv> \<lparr>ca_attachmentId = [7], ca_fileName = [1], ca_mimeType = [1], ca_sizeBytes = Fin 1, ca_isImage = True,
     ca_uploaderId = None, ca_conversationId = None, ca_messageId = None\<rparr>"

lemma photo_shown:
  "iv_imageUrl (pn_viewer (fold (panelStep sampleApi (\<lambda>_. 0) None) [ImagePressed photo, ImageAnswered 0 0, ZoomInPressed] newPanels)) = [8]"
  by (simp add: panelStep_def pn_viewer_afterRender handleOpenImageAttachment_def imageAnswer_def zoomIn_def newPanels_def
      afterRender_def userSearchEffect_def messageSearchEffect_def Let_def split: option.split)

theorem viewer_shows_its_image_witness:
  "\<exists>a t. iv_attachment (pn_viewer (fold (panelStep sampleApi (\<lambda>_. 0) None) [ImagePressed photo, ImageAnswered 0 0, ZoomInPressed] newPanels)) = Some a \<and>
     api_imageUrl sampleApi t (ca_attachmentId a) = Some [8]"
  using viewer_shows_its_image [OF refl, of sampleApi "\<lambda>_. 0" None "[ImagePressed photo, ImageAnswered 0 0, ZoomInPressed]"]
  unfolding photo_shown by simp

subsection \<open>What can still go wrong\<close>

text \<open>A viewer that is closed while its picture is loading opens again when the answer arrives.\<close>

lemma late_answer_reopens_viewer:
  assumes "ca_attachmentId a \<noteq> []" "pn_imageRequests p = []"
  shows "\<not> iv_isOpen (pn_viewer (fold (panelStep api d me) [ImagePressed a, ViewerClosed] p)) \<and>
    iv_isOpen (pn_viewer (fold (panelStep api d me) [ImagePressed a, ViewerClosed, ImageAnswered t 0] p))"
proof -
  have requests: "pn_imageRequests (afterRender old new) = pn_imageRequests new" for old new
    by (simp add: afterRender_def userSearchEffect_def messageSearchEffect_def Let_def split: option.split)
  show ?thesis
    using assms by (simp add: panelStep_def pn_viewer_afterRender requests handleOpenImageAttachment_def imageAnswer_def closedViewer_def)
qed

text \<open>
  Pressing the search button without an open conversation sets the hint to open one first, and opens the panel; the
  effect this starts removes the hint before it can be read.
\<close>

lemma hint_is_erased:
  assumes "openConversation p = None" "\<not> pn_searchOpen p"
  shows "pn_searchError (handle api d me SearchPressed p) = Some txtOpenBeforeSearch"
    and "pn_searchError (panelStep api d me SearchPressed p) = None"
  using assms by (auto simp: panelStep_def afterRender_def handleOpenMessageSearch_def messageSearchEffect_def
      userSearchEffect_def openConversation_def Let_def split: option.splits if_splits)

end
