(* ===== verification/ClientViews.thy ===== *)
theory ClientViews
  imports ClientPanels
begin

text \<open>
  What the components of the web client show: the bubble of a message and its picture
  (\<open>components/message-bubble.tsx\<close>), the list of conversations (\<open>conversation-list.tsx\<close>), the card of a file
  (\<open>file-card.tsx\<close>), suggested replies, the tag of the moderation, the tool bar of the image viewer, the composer
  (\<open>chat-composer.tsx\<close>), the names on the page and the marked search results (\<open>chat.page.tsx\<close>). A component is
  a function from its properties to a record of what it shows; colours and layout are left out. The case mapping of
  Unicode and the formats of the locale are parameters (\<open>locale_api\<close>).
\<close>

subsection \<open>Texts\<close>

text \<open>Seen\<close>

definition txtSeen :: jstr where
  "txtSeen =
    [272, 227, 32, 120, 101, 109]"

text \<open>Sent\<close>

definition txtSent :: jstr where
  "txtSent =
    [272, 227, 32, 103, 7917, 105]"

text \<open>AI command\<close>

definition txtAiCommand :: jstr where
  "txtAiCommand =
    [76, 7879, 110, 104, 32, 65, 73]"

text \<open>Sensitive content\<close>

definition txtSensitive :: jstr where
  "txtSensitive =
    [78, 7897, 105, 32, 100, 117, 110, 103, 32, 110, 104, 7841, 121, 32, 99, 7843, 109]"

text \<open>A member was added to the conversation\<close>

definition txtMemberAdded :: jstr where
  "txtMemberAdded =
    [77, 7897, 116, 32, 116, 104, 224, 110, 104, 32, 118, 105, 234, 110, 32, 109, 7899, 105, 32,
     273, 227, 32, 273, 432, 7907, 99, 32, 116, 104, 234, 109, 32, 118, 224, 111, 32, 99, 117,
     7897, 99, 32, 116, 114, 242, 32, 99, 104, 117, 121, 7879, 110, 46]"

text \<open>A member left the conversation\<close>

definition txtMemberLeft :: jstr where
  "txtMemberLeft =
    [77, 7897, 116, 32, 116, 104, 224, 110, 104, 32, 118, 105, 234, 110, 32, 273, 227, 32, 114,
     7901, 105, 32, 99, 117, 7897, 99, 32, 116, 114, 242, 32, 99, 104, 117, 121, 7879, 110, 46]"

text \<open>A member was removed by the administrator\<close>

definition txtMemberRemoved :: jstr where
  "txtMemberRemoved =
    [77, 7897, 116, 32, 116, 104, 224, 110, 104, 32, 118, 105, 234, 110, 32, 273, 227, 32, 98,
     7883, 32, 113, 117, 7843, 110, 32, 116, 114, 7883, 32, 118, 105, 234, 110, 32, 120, 243, 97,
     32, 107, 104, 7887, 105, 32, 99, 117, 7897, 99, 32, 116, 114, 242, 32, 99, 104, 117, 121,
     7879, 110, 46]"

text \<open>Someone new joined the conversation\<close>

definition txtMemberJoined :: jstr where
  "txtMemberJoined =
    [77, 7897, 116, 32, 110, 103, 432, 7901, 105, 32, 116, 104, 97, 109, 32, 103, 105, 97, 32,
     109, 7899, 105, 32, 118, 7915, 97, 32, 116, 104, 97, 109, 32, 103, 105, 97, 32, 273, 111,
     7841, 110, 32, 104, 7897, 105, 32, 116, 104, 111, 7841, 105, 46]"

text \<open>New chat\<close>

definition txtNewChatTitle :: jstr where
  "txtNewChatTitle =
    [272, 111, 7841, 110, 32, 99, 104, 97, 116, 32, 109, 7899, 105]"

text \<open>Greet, the words before the name\<close>

definition txtGreet :: jstr where
  "txtGreet =
    [67, 104, 224, 111, 32]"

text \<open>Greet, the words behind the name\<close>

definition txtGreetNow :: jstr where
  "txtGreetNow =
    [32, 110, 103, 97, 121]"

text \<open>Start the conversation now\<close>

definition txtStartNow :: jstr where
  "txtStartNow =
    [66, 7855, 116, 32, 273, 7847, 117, 32, 99, 117, 7897, 99, 32, 116, 114, 242, 32, 99, 104,
     117, 121, 7879, 110, 32, 110, 103, 97, 121]"

text \<open>File\<close>

definition txtFileKind :: jstr where
  "txtFileKind =
    [84, 7879, 112]"

text \<open>Waiting to be sent\<close>

definition txtWaitingToSend :: jstr where
  "txtWaitingToSend =
    [272, 97, 110, 103, 32, 99, 104, 7901, 32, 103, 7917, 105]"

text \<open>Uploading\<close>

definition txtUploadingAt :: jstr where
  "txtUploadingAt =
    [272, 97, 110, 103, 32, 117, 112, 108, 111, 97, 100, 32]"

text \<open>Uploaded, sending the message\<close>

definition txtUploadedSending :: jstr where
  "txtUploadedSending =
    [272, 227, 32, 117, 112, 108, 111, 97, 100, 44, 32, 273, 97, 110, 103, 32, 103, 7917, 105,
     32, 116, 105, 110, 32, 110, 104, 7855, 110]"

text \<open>The upload failed\<close>

definition txtUploadLost :: jstr where
  "txtUploadLost =
    [85, 112, 108, 111, 97, 100, 32, 116, 104, 7845, 116, 32, 98, 7841, 105]"

text \<open>You\<close>

definition txtYou :: jstr where
  "txtYou =
    [66, 7841, 110]"

text \<open>A user\<close>

definition txtPerson :: jstr where
  "txtPerson =
    [78, 103, 432, 7901, 105, 32, 100, 249, 110, 103]"

text \<open>Choose a chat\<close>

definition txtChooseChat :: jstr where
  "txtChooseChat =
    [67, 104, 7885, 110, 32, 109, 7897, 116, 32, 273, 111, 7841, 110, 32, 99, 104, 97, 116]"

text \<open>Today\<close>

definition txtToday :: jstr where
  "txtToday =
    [72, 244, 109, 32, 110, 97, 121]"

text \<open>days ago\<close>

definition txtDaysAgo :: jstr where
  "txtDaysAgo =
    [32, 110, 103, 224, 121, 32, 116, 114, 432, 7899, 99]"

text \<open>View image\<close>

definition txtViewImage :: jstr where
  "txtViewImage =
    [88, 101, 109, 32, 7843, 110, 104]"

text \<open>Encrypted\<close>

definition txtEncryptedAs :: jstr where
  "txtEncryptedAs =
    [77, 227, 32, 104, 111, 225, 58, 32]"

text \<open>There is none\<close>

definition txtNoCipher :: jstr where
  "txtNoCipher =
    [75, 104, 244, 110, 103, 32, 99, 243]"

subsection \<open>Parameters\<close>

record locale_api =
  lc_upper :: "jstr \<Rightarrow> jstr"
  lc_lower :: "jstr \<Rightarrow> jstr"
  lc_time :: "jstr \<Rightarrow> jstr"
  lc_date :: "jstr \<Rightarrow> jstr"

text \<open>\<open>value || fallback\<close> and \<open>value ?? fallback\<close>.\<close>

definition orElse :: "jstr option \<Rightarrow> jstr \<Rightarrow> jstr" where
  "orElse value fallback = (case value of None \<Rightarrow> fallback | Some s \<Rightarrow> if s = [] then fallback else s)"

definition unlessNull :: "jstr option \<Rightarrow> jstr \<Rightarrow> jstr" where
  "unlessNull value fallback = (case value of None \<Rightarrow> fallback | Some s \<Rightarrow> s)"

definition firstOf :: "jstr option \<Rightarrow> jstr option \<Rightarrow> jstr option" where
  "firstOf value fallback = (case value of None \<Rightarrow> fallback | Some s \<Rightarrow> Some s)"

subsection \<open>Files\<close>

text \<open>
  \<open>toFixed(1)\<close> of \<open>a / b\<close>: the number of tenths nearest to it, the larger one of two. Sizes are whole numbers and the
  divisors powers of two, so the quotient is exact.
\<close>

definition fixedTenths :: "nat \<Rightarrow> nat \<Rightarrow> nat" where
  "fixedTenths a b = (20 * a + b) div (2 * b)"

definition showTenths :: "nat \<Rightarrow> jstr" where
  "showTenths n = showNat (n div 10) @ js ''.'' @ showNat (n mod 10)"

definition formatFileSize :: "nat \<Rightarrow> jstr" where
  "formatFileSize sizeBytes =
     (if sizeBytes < 1024 then showNat sizeBytes @ js '' B''
      else if sizeBytes < 1024 * 1024 then showTenths (fixedTenths sizeBytes 1024) @ js '' KB''
      else showTenths (fixedTenths sizeBytes (1024 * 1024)) @ js '' MB'')"

datatype file_icon = ImageIcon | TextIcon | ArchiveIcon | PlainIcon

definition renderFileIcon :: "jstr \<Rightarrow> file_icon" where
  "renderFileIcon mimeType =
     (if startsWith (js ''image/'') mimeType then ImageIcon
      else if includesStr (js ''pdf'') mimeType \<or> includesStr (js ''text'') mimeType \<or> includesStr (js ''word'') mimeType then TextIcon
      else if includesStr (js ''zip'') mimeType \<or> includesStr (js ''rar'') mimeType \<or> includesStr (js ''tar'') mimeType then ArchiveIcon
      else PlainIcon)"

record file_card =
  fc_icon :: file_icon
  fc_fileName :: jstr
  fc_info :: jstr

text \<open>The size of an attachment; the server has checked that it is a number, and the sizes of files are whole.\<close>

definition wholeSize :: "client_attachment \<Rightarrow> nat" where
  "wholeSize attachment = (case ca_sizeBytes attachment of Fin n \<Rightarrow> nat \<lfloor>n\<rfloor> | _ \<Rightarrow> 0)"

definition FileCard :: "client_attachment \<Rightarrow> file_card" where
  "FileCard attachment = \<lparr>fc_icon = renderFileIcon (ca_mimeType attachment), fc_fileName = ca_fileName attachment,
     fc_info = orElse (Some (ca_mimeType attachment)) txtFileKind @ [0x20, 0xB7, 0x20] @ formatFileSize (wholeSize attachment)\<rparr>"

subsection \<open>The bubble of a message\<close>

definition MessageModeration :: "client_moderation option \<Rightarrow> jstr option" where
  "MessageModeration moderationResult =
     (case moderationResult of
        None \<Rightarrow> None
      | Some r \<Rightarrow> if cmr_isToxic r = Some True then Some (orElse (cmr_warningMessage r) txtSensitive) else None)"

definition buildAvatarFallbackLabel :: "locale_api \<Rightarrow> jstr \<Rightarrow> jstr" where
  "buildAvatarFallbackLabel lc authorName = orElse (Some (lc_upper lc (take 1 (trim authorName)))) (js ''U'')"

datatype attachment_view = PictureView "jstr option" jstr | CardView file_card

record bubble_view =
  bv_avatar :: "(jstr option \<times> jstr) option"
  bv_author :: "(jstr \<times> jstr) option"
  bv_commandTag :: "jstr option"
  bv_content :: "jstr option"
  bv_moderation :: "jstr option"
  bv_attachment :: "attachment_view option"
  bv_status :: "jstr option"

definition MessageBubble ::
    "locale_api \<Rightarrow> bool \<Rightarrow> jstr \<Rightarrow> jstr option \<Rightarrow> jstr option \<Rightarrow> client_message \<Rightarrow> bubble_view" where
  "MessageBubble lc isMine authorName authorAvatarUrl imageUrl m =
     (let bot = (cmsg_isAIBotMessage m = Some True) in
      \<lparr>bv_avatar = (if isMine then None
         else Some (if bot then (None, js ''AI'') else (authorAvatarUrl, buildAvatarFallbackLabel lc authorName))),
       bv_author = (if isMine then None else Some (if bot then js ''ChatAI'' else authorName, lc_time lc (cmsg_sentAt m))),
       bv_commandTag = (if cmsg_isAICommand m = Some True then Some txtAiCommand else None),
       bv_content = (if length (trim (cmsg_content m)) > 0 then Some (cmsg_content m) else None),
       bv_moderation = MessageModeration (cmsg_moderationResult m),
       bv_attachment = (case cmsg_attachment m of
           None \<Rightarrow> None
         | Some a \<Rightarrow> Some (if ca_isImage a then PictureView (if imageUrl = Some [] then None else imageUrl) (ca_fileName a)
                            else CardView (FileCard a))),
       bv_status = (if isMine \<and> cmsg_isTailOfSenderGroup m = Some True
         then Some (if cmsg_seenState m = Some ClientSeen then txtSeen else txtSent) else None)\<rparr>)"

fun EventBubble :: "event_kind \<Rightarrow> jstr" where
  "EventBubble EventAdded = txtMemberAdded"
| "EventBubble EventLeft = txtMemberLeft"
| "EventBubble EventRemoved = txtMemberRemoved"
| "EventBubble EventJoined = txtMemberJoined"

text \<open>The picture of a bubble: the effect on the attachment, and the answers to its requests.\<close>

record picture =
  pc_attachment :: "client_attachment option"
  pc_imageUrl :: "jstr option"
  pc_run :: "jstr effect_run"

definition startRequest :: "'k \<Rightarrow> 'k effect_run \<Rightarrow> 'k effect_run" where
  "startRequest k r = r\<lparr>er_requests := er_requests r @ [(k, Live)]\<rparr>"

definition wantedPicture :: "client_attachment option \<Rightarrow> jstr option" where
  "wantedPicture attachment =
     (case attachment of None \<Rightarrow> None | Some a \<Rightarrow> if \<not> ca_isImage a \<or> ca_attachmentId a = [] then None else Some (ca_attachmentId a))"

definition pictureEffect :: "picture \<Rightarrow> picture" where
  "pictureEffect b =
     (case wantedPicture (pc_attachment b) of
        None \<Rightarrow> b\<lparr>pc_imageUrl := None, pc_run := cancelRun (pc_run b)\<rparr>
      | Some i \<Rightarrow> b\<lparr>pc_run := startRequest i (cancelRun (pc_run b))\<rparr>)"

datatype picture_event = AttachmentSet "client_attachment option" | PictureCame nat nat

fun pictureStep :: "client_api \<Rightarrow> picture_event \<Rightarrow> picture \<Rightarrow> picture" where
  "pictureStep api (AttachmentSet a) b =
     (if (map_option ca_attachmentId a, map_option ca_isImage a) =
         (map_option ca_attachmentId (pc_attachment b), map_option ca_isImage (pc_attachment b))
      then b\<lparr>pc_attachment := a\<rparr> else pictureEffect (b\<lparr>pc_attachment := a\<rparr>))"
| "pictureStep api (PictureCame time i) b =
     (case takeAnswer i (pc_run b) of
        (None, r) \<Rightarrow> b\<lparr>pc_run := r\<rparr>
      | (Some k, r) \<Rightarrow> b\<lparr>pc_run := r, pc_imageUrl := api_imageUrl api time k\<rparr>)"

definition mountedPicture :: "client_attachment option \<Rightarrow> picture" where
  "mountedPicture a = pictureEffect \<lparr>pc_attachment = a, pc_imageUrl = None, pc_run = idleRun\<rparr>"

subsection \<open>The list of conversations\<close>

datatype avatar_view = GroupAvatar | PictureAvatar jstr | LetterAvatar jstr | IconAvatar

definition DirectAvatar :: "locale_api \<Rightarrow> client_conversation \<Rightarrow> avatar_view" where
  "DirectAvatar lc c =
     (if orElse (cc_displayAvatarUrl c) [] \<noteq> [] then PictureAvatar (orElse (cc_displayAvatarUrl c) [])
      else case cc_displayTitle c of None \<Rightarrow> IconAvatar | Some t \<Rightarrow> LetterAvatar (lc_upper lc (take 1 t)))"

definition formatConversationTime :: "locale_api \<Rightarrow> jstr option \<Rightarrow> jstr" where
  "formatConversationTime lc value = (case value of None \<Rightarrow> [] | Some t \<Rightarrow> if t = [] then [] else lc_time lc t)"

record list_item =
  li_key :: jstr
  li_active :: bool
  li_avatar :: avatar_view
  li_title :: jstr
  li_time :: "jstr option"
  li_unread :: "int option"
  li_preview :: jstr

definition listItem :: "locale_api \<Rightarrow> jstr option \<Rightarrow> client_conversation \<Rightarrow> list_item" where
  "listItem lc selectedId c =
     (let title = unlessNull (cc_displayTitle c) (unlessNull (cc_title c) txtNewChatTitle);
          time = formatConversationTime lc (cc_lastMessageAt c);
          unreadCount = unreadOf c in
      \<lparr>li_key = cc_id c, li_active = (selectedId = Some (cc_id c)),
       li_avatar = (if cc_type c = GroupKind then GroupAvatar else DirectAvatar lc c),
       li_title = title, li_time = (if time = [] then None else Some time),
       li_unread = (if unreadCount > 0 then Some unreadCount else None),
       li_preview = orElse (cc_lastMessagePreview c)
         (if cc_type c = DirectKind then txtGreet @ title @ txtGreetNow else txtStartNow)\<rparr>)"

definition ConversationList :: "locale_api \<Rightarrow> page \<Rightarrow> list_item list" where
  "ConversationList lc p = map (listItem lc (st_selectedConversationId p)) (st_conversations p)"

subsection \<open>Suggested replies and the image viewer\<close>

datatype suggestions_view = SkeletonView | NothingShown | SuggestionButtons "jstr list"

definition SmartReplySuggestions :: "page \<Rightarrow> suggestions_view" where
  "SmartReplySuggestions p =
     (let disabled = (st_selectedConversationId p \<in> {None, Some []} \<or> \<not> st_aiEnabled p \<or> st_aiUnavailable p) in
      if st_loadingAiSuggestions p then SkeletonView
      else if disabled \<or> st_aiSuggestions p = [] then NothingShown
      else SuggestionButtons (st_aiSuggestions p))"

record viewer_view =
  vv_title :: jstr
  vv_percent :: int
  vv_picture :: "jstr option"

definition ImageViewer :: "image_viewer \<Rightarrow> viewer_view option" where
  "ImageViewer v =
     (if \<not> iv_isOpen v then None
      else Some \<lparr>vv_title = unlessNull (map_option ca_fileName (iv_attachment v)) txtViewImage,
        vv_percent = \<lfloor>iv_scale v * 100 + 1/2\<rfloor>,
        vv_picture = (if iv_loading v \<or> iv_imageUrl v = [] then None else Some (iv_imageUrl v))\<rparr>)"

subsection \<open>The composer\<close>

definition composerDisabled :: "page \<Rightarrow> bool" where
  "composerDisabled p \<longleftrightarrow> st_selectedConversationId p \<in> {None, Some []}"

definition draftStatusText :: "draft_attachment \<Rightarrow> jstr" where
  "draftStatusText d =
     (case da_status d of
        Pending \<Rightarrow> txtWaitingToSend
      | Uploading \<Rightarrow> txtUploadingAt @ showNat (nat (da_progress d)) @ js ''%''
      | UploadDone \<Rightarrow> txtUploadedSending
      | UploadFailed \<Rightarrow> orElse (da_error d) txtUploadLost)"

definition draftRemovable :: "draft_attachment \<Rightarrow> bool" where
  "draftRemovable d \<longleftrightarrow> da_status d \<in> {Pending, UploadFailed}"

definition attachButtonEnabled :: "page \<Rightarrow> bool" where
  "attachButtonEnabled p \<longleftrightarrow> \<not> (composerDisabled p \<or> st_sendingMessage p \<or> st_draftAttachment p \<noteq> None)"

definition sendButtonEnabled :: "page \<Rightarrow> bool" where
  "sendButtonEnabled p \<longleftrightarrow>
     \<not> (composerDisabled p \<or> st_sendingMessage p \<or> (trim (pg_inputValue p) = [] \<and> st_draftAttachment p = None) \<or>
        pg_connectionState p = Connecting)"

subsection \<open>Names on the page\<close>

text \<open>What the page reads of the signed-in user.\<close>

record auth_me =
  me_id :: jstr
  me_displayName :: jstr
  me_avatarUrl :: "jstr option"

definition selectedConversation :: "page \<Rightarrow> client_conversation option" where
  "selectedConversation p = find (\<lambda>c. st_selectedConversationId p = Some (cc_id c)) (st_conversations p)"

definition authorNameOf :: "auth_me option \<Rightarrow> client_conversation \<Rightarrow> client_message \<Rightarrow> jstr" where
  "authorNameOf me c m =
     (if Some (cmsg_senderId m) = map_option me_id me
      then unlessNull (cmsg_senderDisplayName m) (unlessNull (map_option me_displayName me) txtYou)
      else unlessNull (cmsg_senderDisplayName m)
        (unlessNull (map_option peer_displayName (cc_directPeer c)) (unlessNull (cc_displayTitle c) txtPerson)))"

definition authorAvatarOf :: "auth_me option \<Rightarrow> client_message \<Rightarrow> jstr option" where
  "authorAvatarOf me m =
     (if cmsg_isAIBotMessage m = Some True then None
      else if Some (cmsg_senderId m) = map_option me_id me
      then firstOf (cmsg_senderAvatarUrl m) (Option.bind me me_avatarUrl)
      else cmsg_senderAvatarUrl m)"

record page_header =
  hd_title :: jstr
  hd_avatarUrl :: "jstr option"
  hd_subtitle :: jstr
  hd_aiNotice :: bool

definition pageHeader :: "page \<Rightarrow> page_header" where
  "pageHeader p =
     (let c = selectedConversation p; peer = Option.bind c cc_directPeer;
          ownAvatar = Option.bind c cc_displayAvatarUrl in
      \<lparr>hd_title = orElse (Option.bind c cc_displayTitle) (orElse (Option.bind c cc_title) txtChooseChat),
       hd_avatarUrl = (if ownAvatar \<in> {None, Some []} then Option.bind peer peer_avatarUrl else ownAvatar),
       hd_subtitle = unlessNull (Option.bind peer peer_email) [],
       hd_aiNotice = (st_aiEnabled p \<and> st_aiUnavailable p)\<rparr>)"

definition typingShown :: "page \<Rightarrow> bool" where
  "typingShown p =
     (case st_selectedConversationId p of
        None \<Rightarrow> False
      | Some c \<Rightarrow> c \<noteq> [] \<and> (case st_typing p c of None \<Rightarrow> False | Some u \<Rightarrow> tu_isTyping u))"

definition aiWaitingShown :: "page \<Rightarrow> bool" where
  "aiWaitingShown p =
     (case selectedConversation p of None \<Rightarrow> False | Some c \<Rightarrow> st_waitingForAi p = Some (cc_id c))"

subsection \<open>Marked search results\<close>

text \<open>
  \<open>content.split(matcher)\<close> for a pattern that is one group of literal characters, ignoring case: \<open>canon\<close> is the
  canonical case of a code unit. The special characters of the query have been escaped, so the pattern is the query.
\<close>

definition matchesAt :: "(jchar \<Rightarrow> jchar) \<Rightarrow> jstr \<Rightarrow> jstr \<Rightarrow> bool" where
  "matchesAt canon query s \<longleftrightarrow> length query \<le> length s \<and> map canon (take (length query) s) = map canon query"

function splitMatches :: "(jchar \<Rightarrow> jchar) \<Rightarrow> jstr \<Rightarrow> jstr \<Rightarrow> jstr \<Rightarrow> jstr list" where
  "splitMatches canon query gap [] = [gap]"
| "splitMatches canon query gap (c # s) =
     (if query \<noteq> [] \<and> matchesAt canon query (c # s)
      then gap # take (length query) (c # s) # splitMatches canon query [] (drop (length query) (c # s))
      else splitMatches canon query (gap @ [c]) s)"
  by pat_completeness auto
termination by (relation "measure (\<lambda>(_, _, _, s). length s)") auto

text \<open>The parts of the text, each with whether it is marked.\<close>

definition renderHighlightedSearchText :: "locale_api \<Rightarrow> (jchar \<Rightarrow> jchar) \<Rightarrow> jstr \<Rightarrow> jstr \<Rightarrow> (jstr \<times> bool) list" where
  "renderHighlightedSearchText lc canon content query =
     (let trimmedQuery = trim query in
      if trimmedQuery = [] then [(content, False)]
      else map (\<lambda>part. (part, lc_lower lc part = lc_lower lc trimmedQuery)) (splitMatches canon trimmedQuery [] content))"

text \<open>
  The day of a hit; \<open>sentDay\<close> and \<open>today\<close> are the local midnights before the message and before now, in milliseconds.
\<close>

definition formatRelativeSentDate :: "locale_api \<Rightarrow> int \<Rightarrow> int \<Rightarrow> jstr \<Rightarrow> jstr" where
  "formatRelativeSentDate lc sentDay today value =
     (let diffDays = (2 * (today - sentDay) + 86400000) div (2 * 86400000) in
      if diffDays \<le> 0 then txtToday
      else if diffDays \<le> 7 then showNat (nat diffDays) @ txtDaysAgo
      else lc_date lc value)"

record hit_view =
  hv_avatar :: "jstr option \<times> jstr"
  hv_name :: jstr
  hv_when :: "jstr \<times> jstr"
  hv_content :: "(jstr \<times> bool) list"
  hv_stored :: jstr

definition hitView :: "locale_api \<Rightarrow> (jchar \<Rightarrow> jchar) \<Rightarrow> (jstr \<Rightarrow> int) \<Rightarrow> int \<Rightarrow> jstr \<Rightarrow> search_hit \<Rightarrow> hit_view" where
  "hitView lc canon midnight today query h =
     \<lparr>hv_avatar = (hit_senderAvatarUrl h, lc_upper lc (take 1 (unlessNull (hit_senderDisplayName h) (js ''U'')))),
      hv_name = unlessNull (hit_senderDisplayName h) txtPerson,
      hv_when = (formatRelativeSentDate lc (midnight (hit_sentAt h)) today (hit_sentAt h), lc_time lc (hit_sentAt h)),
      hv_content = renderHighlightedSearchText lc canon (hit_content h) query,
      hv_stored = txtEncryptedAs @ unlessNull (hit_encryptedContent h) txtNoCipher\<rparr>"

subsection \<open>What is shown of files\<close>

text \<open>The number before the unit is within half a tenth of the size.\<close>

lemma fixedTenths_close:
  assumes "b > 0"
  shows "\<bar>of_nat (fixedTenths a b) / 10 - of_nat a / (of_nat b :: rat)\<bar> \<le> 1 / 20"
proof -
  let ?q = "(20 * a + b) div (2 * b)"
  have "2 * b * ?q + (20 * a + b) mod (2 * b) = 20 * a + b" by simp
  moreover have "(20 * a + b) mod (2 * b) < 2 * b" using assms by simp
  ultimately have "2 * b * ?q \<le> 20 * a + b" "20 * a < 2 * b * ?q + b" by linarith+
  then have "rat_of_nat (2 * b * ?q) \<le> rat_of_nat (20 * a + b)" "rat_of_nat (20 * a) \<le> rat_of_nat (2 * b * ?q + b)"
    unfolding of_nat_le_iff by simp_all
  then have bounds: "2 * (rat_of_nat b * rat_of_nat ?q) \<le> 20 * rat_of_nat a + rat_of_nat b"
      "20 * rat_of_nat a \<le> 2 * (rat_of_nat b * rat_of_nat ?q) + rat_of_nat b"
    by (simp_all only: of_nat_mult of_nat_add of_nat_numeral mult.assoc)
  then have near: "\<bar>rat_of_nat b * rat_of_nat ?q - 10 * rat_of_nat a\<bar> \<le> rat_of_nat b / 2" by linarith
  have pos: "rat_of_nat b > 0" using assms by simp
  have "rat_of_nat ?q / 10 - rat_of_nat a / rat_of_nat b = (rat_of_nat b * rat_of_nat ?q - 10 * rat_of_nat a) / (10 * rat_of_nat b)"
    using pos by (simp add: field_simps)
  also have "\<bar>\<dots>\<bar> = \<bar>rat_of_nat b * rat_of_nat ?q - 10 * rat_of_nat a\<bar> / (10 * rat_of_nat b)"
    using pos by (simp add: abs_divide)
  also have "\<dots> \<le> 1 / 20"
    using near pos by (subst pos_divide_le_eq) simp_all
  finally show ?thesis by (simp add: fixedTenths_def)
qed

text \<open>A file of one byte less than a megabyte is shown as 1024.0 KB.\<close>

lemma almost_a_megabyte: "fixedTenths 1048575 1024 = 10240"
  by (simp add: fixedTenths_def)

subsection \<open>The picture of a bubble\<close>

definition pictureOk :: "client_api \<Rightarrow> picture \<Rightarrow> bool" where
  "pictureOk api b \<longleftrightarrow>
     (case wantedPicture (pc_attachment b) of
        None \<Rightarrow> pc_imageUrl b = None \<and> pendingKeys (pc_run b) = []
      | Some i \<Rightarrow> pendingKeys (pc_run b) = [i] \<or>
          pendingKeys (pc_run b) = [] \<and> (pc_imageUrl b \<noteq> None \<longrightarrow> (\<exists>t. api_imageUrl api t i = pc_imageUrl b)))"

lemma pending_startRequest: "pendingKeys (startRequest k (cancelRun r)) = [k]"
  by (simp add: startRequest_def pendingKeys_def cancelRun_def map_cancel)

lemma pictureEffect_ok: "pictureOk api (pictureEffect b)"
  by (auto simp: pictureOk_def pictureEffect_def effects.cancelled pending_startRequest split: option.split)

lemma pictureStep_ok: "pictureOk api b \<Longrightarrow> pictureOk api (pictureStep api e b)"
proof (cases e)
  case (AttachmentSet a)
  assume ok: "pictureOk api b"
  have "wantedPicture a = wantedPicture (pc_attachment b)"
    if "(map_option ca_attachmentId a, map_option ca_isImage a) =
      (map_option ca_attachmentId (pc_attachment b), map_option ca_isImage (pc_attachment b))"
    using that by (cases a; cases "pc_attachment b") (simp_all add: wantedPicture_def)
  then show ?thesis using ok AttachmentSet pictureEffect_ok [of api "b\<lparr>pc_attachment := a\<rparr>"]
    by (auto simp: pictureOk_def split: option.splits)
next
  case (PictureCame t i)
  assume ok: "pictureOk api b"
  show ?thesis
  proof (cases "takeAnswer i (pc_run b)")
    case (Pair k r)
    show ?thesis
    proof (cases k)
      case None
      then show ?thesis using ok Pair PictureCame effects.dropped [OF Pair [unfolded None]] by simp
    next
      case (Some k')
      from effects.taken [OF Pair [unfolded Some]] have taken: "k' \<in> set (pendingKeys (pc_run b))"
        "length (pendingKeys (pc_run b)) = Suc (length (pendingKeys r))" by simp_all
      then have "wantedPicture (pc_attachment b) = Some k'" "pendingKeys r = []"
        using ok by (auto simp: pictureOk_def split: option.splits)
      then show ?thesis using Pair Some PictureCame by (auto simp: pictureOk_def)
    qed
  qed
qed

interpretation pictures: event_invariant "pictureStep api" "pictureOk api" for api
  by unfold_locales (rule pictureStep_ok)

text \<open>
  Whatever attachments a bubble is given and in whatever order the answers arrive: once nothing is awaited, the
  picture it shows was served for the attachment it has.
\<close>

theorem bubble_shows_its_picture:
  assumes "b = fold (pictureStep api) es (mountedPicture a)" "pendingKeys (pc_run b) = []" "pc_imageUrl b = Some url"
  shows "\<exists>i t. wantedPicture (pc_attachment b) = Some i \<and> api_imageUrl api t i = Some url"
proof -
  have "pictureOk api b"
    using pictures.along [OF pictureEffect_ok, of api es] assms(1) by (simp add: mountedPicture_def)
  then show ?thesis using assms(2,3) by (auto simp: pictureOk_def split: option.splits)
qed

subsection \<open>The composer\<close>

text \<open>
  The button is enabled exactly when pressing it sends, but for one case: without a connection that is not about to be
  made it stays enabled and does nothing. The enter key never sends more than the button; it does not send a
  draft file without a text.
\<close>

theorem send_button_agrees: "sendAllowed p \<longleftrightarrow> sendButtonEnabled p \<and> pg_connectionState p = Connected"
  by (auto simp: sendAllowed_def sendButtonEnabled_def composerDisabled_def)

lemma enter_sends_less: "enterSends shiftKey p \<and> pg_connectionState p = Connected \<Longrightarrow> sendAllowed p"
  by (auto simp: sendAllowed_def enterSends_def)

lemma enter_ignores_draft: "trim (pg_inputValue p) = [] \<Longrightarrow> \<not> enterSends shiftKey p"
  by (simp add: enterSends_def)

subsection \<open>Marked search results\<close>

lemma concat_splitMatches: "concat (splitMatches canon query gap s) = gap @ s"
  by (induction canon query gap s rule: splitMatches.induct) (auto simp del: take_append drop_append simp flip: append_assoc)

lemma matchesAt_append: "matchesAt canon query s \<Longrightarrow> matchesAt canon query (s @ t)"
  by (auto simp: matchesAt_def)

lemma gap_grows:
  assumes "query \<noteq> []" "\<not> matchesAt canon query (c # s)" "\<forall>i<length gap. \<not> matchesAt canon query (drop i (gap @ c # s))"
  shows "\<forall>i<length (gap @ [c]). \<not> matchesAt canon query (drop i ((gap @ [c]) @ s))"
  using assms by (auto simp: less_Suc_eq)

text \<open>Every part is a match or holds none.\<close>

lemma splitMatches_parts:
  assumes "query \<noteq> []" "\<forall>i<length gap. \<not> matchesAt canon query (drop i (gap @ s))" "part \<in> set (splitMatches canon query gap s)"
  shows "map canon part = map canon query \<or> (\<forall>i<length part. \<not> matchesAt canon query (drop i part))"
  using assms
proof (induction canon query gap s rule: splitMatches.induct)
  case (2 canon query gap c s)
  show ?case
  proof (cases "matchesAt canon query (c # s)")
    case True
    have "\<forall>i<length gap. \<not> matchesAt canon query (drop i gap)"
      using 2(4) matchesAt_append [of canon query _ "c # s"] by fastforce
    then show ?thesis using 2 True by (auto simp: matchesAt_def)
  next
    case False
    then show ?thesis using 2(2) [OF _ 2(3) gap_grows [OF 2(3) False 2(4)]] 2(5) by simp
  qed
qed simp


lemma sample_marks:
  "renderHighlightedSearchText \<lparr>lc_upper = id, lc_lower = id, lc_time = id, lc_date = id\<rparr> id [97, 98, 97] [98] =
     [([97], False), ([98], True), ([97], False)]"
  by (simp add: renderHighlightedSearchText_def matchesAt_def trim_def isSpace_def Let_def)


end
