(* ===== verification/ClientSession.thy ===== *)
theory ClientSession
  imports Prelude
begin

text \<open>
  The session of the web client: the HTTP client with its interceptors (\<open>services/http.ts\<close>), the calls of
  \<open>services/auth.service.ts\<close> and the store \<open>store/auth.store.ts\<close>. Requests are asynchronous, so the client is a
  state machine: an event starts a call or delivers the answer to a request on the network, and a step runs
  everything up to the next point where the code waits. Every request keeps its phase; \<open>cl_waiting\<close>
  lists the requests that wait for the shared refresh, in the order in which they resume.
  An answer of the server has the shape its type declares.
\<close>

subsection \<open>Data\<close>

record auth_user =
  au_id :: jstr
  au_email :: jstr
  au_username :: jstr
  au_displayName :: jstr
  au_avatarUrl :: "jstr option"

datatype failure = HttpFailure nat "string option" | NoResponse

datatype reply = SessionReply jstr auth_user | UserReply auth_user | DataReply

text \<open>Who runs \<open>refreshAccessToken\<close>: the shared refresh of the interceptor, the start of the application, or a caller.\<close>

datatype refresh_origin = Shared | Hydration | Direct

datatype purpose = Feature | Uploading | Profile jstr | Registering | LoggingIn | Refreshing refresh_origin | LoggingOut

record request =
  rq_purpose :: purpose
  rq_retry :: bool
  rq_authorization :: "jstr option"

datatype phase = Unissued | InFlight request | Waiting request failure | Settled reply | Rejected failure

record client =
  cl_accessToken :: "jstr option"
  cl_storage :: "jstr option"
  cl_currentUser :: "auth_user option"
  cl_storeToken :: "jstr option"
  cl_isAuthenticated :: bool
  cl_isHydrating :: bool
  cl_errorMessage :: "jstr option"
  cl_phase :: "nat \<Rightarrow> phase"
  cl_sends :: "nat \<Rightarrow> nat"
  cl_next :: nat
  cl_waiting :: "nat list"
  cl_refreshPromise :: "nat option"

definition present :: "jstr option \<Rightarrow> bool" where
  "present t = (case t of None \<Rightarrow> False | Some s \<Rightarrow> s \<noteq> [])"

definition newClient :: "jstr option \<Rightarrow> client" where
  "newClient stored = \<lparr>cl_accessToken = stored, cl_storage = stored, cl_currentUser = None, cl_storeToken = None,
     cl_isAuthenticated = False, cl_isHydrating = True, cl_errorMessage = None, cl_phase = (\<lambda>_. Unissued),
     cl_sends = (\<lambda>_. 0), cl_next = 0, cl_waiting = [], cl_refreshPromise = None\<rparr>"

subsection \<open>The store\<close>

definition setAccessToken :: "jstr option \<Rightarrow> client \<Rightarrow> client" where
  "setAccessToken token c = c\<lparr>cl_accessToken := token, cl_storage := (if present token then token else None)\<rparr>"

definition clearSession :: "client \<Rightarrow> client" where
  "clearSession c = (setAccessToken None c)\<lparr>cl_currentUser := None, cl_storeToken := None, cl_isAuthenticated := False,
     cl_isHydrating := False\<rparr>"

definition setAuthenticatedSession :: "auth_user \<Rightarrow> jstr \<Rightarrow> client \<Rightarrow> client" where
  "setAuthenticatedSession user token c = (setAccessToken (Some token) c)\<lparr>cl_currentUser := Some user,
     cl_storeToken := Some token, cl_isAuthenticated := True, cl_isHydrating := False, cl_errorMessage := None\<rparr>"

text \<open>The parts of \<open>auth.service.ts\<close>: an answer with a new session, and the answer to logging out.\<close>

definition tokenReceived :: "jstr \<Rightarrow> client \<Rightarrow> client" where
  "tokenReceived token c = setAccessToken (Some token) c"

definition logoutAnswered :: "client \<Rightarrow> client" where
  "logoutAnswered c = setAccessToken None c"

subsection \<open>Sending requests\<close>

text \<open>The calls that pass \<open>skipAuthRefresh\<close>: refreshing, logging out, and the upload to the object store.\<close>

fun skipAuthRefresh :: "purpose \<Rightarrow> bool" where
  "skipAuthRefresh (Refreshing _) = True"
| "skipAuthRefresh LoggingOut = True"
| "skipAuthRefresh Uploading = True"
| "skipAuthRefresh _ = False"

text \<open>The request interceptor, and the request on its way.\<close>

definition sendRequest :: "nat \<Rightarrow> request \<Rightarrow> client \<Rightarrow> client" where
  "sendRequest i rq c =
     (let rq' = (if present (cl_accessToken c) \<and> \<not> skipAuthRefresh (rq_purpose rq)
                 then rq\<lparr>rq_authorization := cl_accessToken c\<rparr> else rq) in
      c\<lparr>cl_phase := (cl_phase c)(i := InFlight rq'), cl_sends := (cl_sends c)(i := Suc (cl_sends c i))\<rparr>)"

definition issue :: "purpose \<Rightarrow> client \<Rightarrow> client" where
  "issue p c = sendRequest (cl_next c) \<lparr>rq_purpose = p, rq_retry = False, rq_authorization = None\<rparr> (c\<lparr>cl_next := Suc (cl_next c)\<rparr>)"

definition settle :: "nat \<Rightarrow> phase \<Rightarrow> client \<Rightarrow> client" where
  "settle i p c = c\<lparr>cl_phase := (cl_phase c)(i := p)\<rparr>"

text \<open>What becomes of the caller of a request that fails for good; refreshing is handled below.\<close>

definition rejectCaller :: "nat \<Rightarrow> request \<Rightarrow> failure \<Rightarrow> client \<Rightarrow> client" where
  "rejectCaller i rq f c =
     (let c' = settle i (Rejected f) c in
      case rq_purpose rq of Profile _ \<Rightarrow> clearSession c' | _ \<Rightarrow> c')"

subsection \<open>The shared refresh\<close>

definition runSharedRefresh :: "client \<Rightarrow> client" where
  "runSharedRefresh c =
     (case cl_refreshPromise c of
        None \<Rightarrow> (issue (Refreshing Shared) c)\<lparr>cl_refreshPromise := Some (cl_next c)\<rparr>
      | Some _ \<Rightarrow> c)"

text \<open>The rest of the response interceptor, after the shared refresh has given its token.\<close>

definition resumeOne :: "jstr option \<Rightarrow> nat \<Rightarrow> client \<Rightarrow> client" where
  "resumeOne refreshedToken i c =
     (case cl_phase c i of
        Waiting rq f \<Rightarrow>
          if present refreshedToken then sendRequest i (rq\<lparr>rq_authorization := refreshedToken\<rparr>) c
          else rejectCaller i rq f (clearSession (setAccessToken None (clearSession c)))
      | _ \<Rightarrow> c)"

definition resumeWaiting :: "jstr option \<Rightarrow> client \<Rightarrow> client" where
  "resumeWaiting token c = fold (resumeOne token) (cl_waiting c) (c\<lparr>cl_waiting := []\<rparr>)"

text \<open>What the runner of \<open>refreshAccessToken\<close> does with the token it returns.\<close>

fun refreshReturned :: "refresh_origin \<Rightarrow> jstr option \<Rightarrow> client \<Rightarrow> client" where
  "refreshReturned Shared token c = resumeWaiting token (c\<lparr>cl_refreshPromise := None\<rparr>)"
| "refreshReturned Hydration token c =
     (case token of
        None \<Rightarrow> clearSession c
      | Some t \<Rightarrow> if t = [] then clearSession c else issue (Profile t) c)"
| "refreshReturned Direct token c = c"

subsection \<open>Answers\<close>

definition rejected :: "nat \<Rightarrow> request \<Rightarrow> failure \<Rightarrow> client \<Rightarrow> client" where
  "rejected i rq f c =
     (case rq_purpose rq of
        Refreshing origin \<Rightarrow> refreshReturned origin None (clearSession (settle i (Rejected f) c))
      | _ \<Rightarrow> rejectCaller i rq f c)"

definition accessTokenExpired :: failure where
  "accessTokenExpired = HttpFailure 401 (Some ''access_token_expired'')"

definition onFailure :: "nat \<Rightarrow> request \<Rightarrow> failure \<Rightarrow> client \<Rightarrow> client" where
  "onFailure i rq f c =
     (if skipAuthRefresh (rq_purpose rq) then rejected i rq f c
      else if rq_retry rq then rejectCaller i rq f (clearSession (setAccessToken None c))
      else if f \<noteq> accessTokenExpired then rejected i rq f c
      else runSharedRefresh (c\<lparr>cl_phase := (cl_phase c)(i := Waiting (rq\<lparr>rq_retry := True\<rparr>) f),
             cl_waiting := cl_waiting c @ [i]\<rparr>))"

text \<open>The answers a call expects; an answer of another shape does not occur.\<close>

fun onReply :: "nat \<Rightarrow> purpose \<Rightarrow> reply \<Rightarrow> client \<Rightarrow> client" where
  "onReply i (Refreshing origin) (SessionReply token user) c =
     refreshReturned origin (Some token) (setAuthenticatedSession user token
       (tokenReceived token (settle i (Settled (SessionReply token user)) c)))"
| "onReply i Registering (SessionReply token user) c =
     setAuthenticatedSession user token (tokenReceived token (settle i (Settled (SessionReply token user)) c))"
| "onReply i LoggingIn (SessionReply token user) c =
     setAuthenticatedSession user token (tokenReceived token (settle i (Settled (SessionReply token user)) c))"
| "onReply i (Profile token) (UserReply user) c = (settle i (Settled (UserReply user)) c)\<lparr>cl_currentUser := Some user,
     cl_storeToken := Some token, cl_isAuthenticated := True, cl_isHydrating := False, cl_errorMessage := None\<rparr>"
| "onReply i LoggingOut DataReply c = (clearSession (logoutAnswered (settle i (Settled DataReply) c)))\<lparr>cl_errorMessage := None\<rparr>"
| "onReply i Feature DataReply c = settle i (Settled DataReply) c"
| "onReply i Uploading DataReply c = settle i (Settled DataReply) c"
| "onReply i _ _ c = c"

subsection \<open>Events\<close>

datatype client_event =
    CallFeature
  | Upload
  | Hydrate
  | Register
  | Login
  | RefreshNow
  | Logout
  | ShowError "jstr option"
  | Reply nat reply
  | Failure nat failure

fun clientStep :: "client_event \<Rightarrow> client \<Rightarrow> client" where
  "clientStep CallFeature c = issue Feature c"
| "clientStep Upload c = issue Uploading c"
| "clientStep Hydrate c = issue (Refreshing Hydration) (c\<lparr>cl_isHydrating := True\<rparr>)"
| "clientStep Register c = issue Registering c"
| "clientStep Login c = issue LoggingIn c"
| "clientStep RefreshNow c = issue (Refreshing Direct) c"
| "clientStep Logout c = issue LoggingOut c"
| "clientStep (ShowError m) c = c\<lparr>cl_errorMessage := m\<rparr>"
| "clientStep (Reply i r) c = (case cl_phase c i of InFlight rq \<Rightarrow> onReply i (rq_purpose rq) r c | _ \<Rightarrow> c)"
| "clientStep (Failure i f) c = (case cl_phase c i of InFlight rq \<Rightarrow> onFailure i rq f c | _ \<Rightarrow> c)"

subsection \<open>The state of the session\<close>

definition sessionState :: "client \<Rightarrow> bool" where
  "sessionState c \<longleftrightarrow>
     (cl_isAuthenticated c \<longleftrightarrow> cl_currentUser c \<noteq> None) \<and> (cl_isAuthenticated c \<longleftrightarrow> cl_storeToken c \<noteq> None) \<and>
     cl_storage c = (if present (cl_accessToken c) then cl_accessToken c else None)"

definition inNetwork :: "client \<Rightarrow> nat \<Rightarrow> bool" where
  "inNetwork c i \<longleftrightarrow> (\<exists>rq. cl_phase c i = InFlight rq)"

definition isWaiting :: "client \<Rightarrow> nat \<Rightarrow> bool" where
  "isWaiting c i \<longleftrightarrow> (\<exists>rq f. cl_phase c i = Waiting rq f)"

text \<open>What the phase of a request says about the request and about the number of times it was sent.\<close>

fun phaseOk :: "phase \<Rightarrow> nat \<Rightarrow> bool" where
  "phaseOk Unissued n \<longleftrightarrow> n = 0"
| "phaseOk (InFlight rq) n \<longleftrightarrow> n = (if rq_retry rq then 2 else 1) \<and> (skipAuthRefresh (rq_purpose rq) \<longrightarrow> \<not> rq_retry rq \<and> rq_authorization rq = None)"
| "phaseOk (Waiting rq f) n \<longleftrightarrow> n = 1 \<and> rq_retry rq \<and> \<not> skipAuthRefresh (rq_purpose rq) \<and> f = accessTokenExpired"
| "phaseOk _ n \<longleftrightarrow> n = 1 \<or> n = 2"

definition isSharedRefresh :: "phase \<Rightarrow> bool" where
  "isSharedRefresh p \<longleftrightarrow> (\<exists>rq. p = InFlight rq \<and> rq_purpose rq = Refreshing Shared)"

definition requestsOk :: "client \<Rightarrow> bool" where
  "requestsOk c \<longleftrightarrow>
     (\<forall>i. cl_phase c i = Unissued \<longleftrightarrow> cl_next c \<le> i) \<and> (\<forall>i. phaseOk (cl_phase c i) (cl_sends c i)) \<and>
     distinct (cl_waiting c) \<and> set (cl_waiting c) = {i. isWaiting c i} \<and>
     (\<forall>i. isSharedRefresh (cl_phase c i) \<longleftrightarrow> cl_refreshPromise c = Some i) \<and>
     (cl_waiting c \<noteq> [] \<longrightarrow> cl_refreshPromise c \<noteq> None)"

lemma authAnswers [simp]:
  "setAuthenticatedSession u t (tokenReceived t' c) = setAuthenticatedSession u t c"
  "clearSession (logoutAnswered c) = clearSession c"
  by (simp_all add: setAuthenticatedSession_def clearSession_def tokenReceived_def logoutAnswered_def setAccessToken_def)

lemmas session_defs = sessionState_def setAccessToken_def clearSession_def setAuthenticatedSession_def present_def
lemmas request_defs = sendRequest_def issue_def settle_def rejectCaller_def Let_def

lemma session_fields [simp]:
  "sessionState (c\<lparr>cl_waiting := ws\<rparr>) = sessionState c" "sessionState (c\<lparr>cl_refreshPromise := r\<rparr>) = sessionState c"
  "sessionState (c\<lparr>cl_isHydrating := b\<rparr>) = sessionState c" "sessionState (c\<lparr>cl_errorMessage := m\<rparr>) = sessionState c"
  "sessionState (c\<lparr>cl_phase := ph\<rparr>) = sessionState c" "sessionState (settle i p c) = sessionState c"
  "sessionState (sendRequest i rq c) = sessionState c" "sessionState (issue q c) = sessionState c"
  by (simp_all add: sessionState_def request_defs)

lemma session_steps:
  "sessionState c \<Longrightarrow> sessionState (setAccessToken t c)" "sessionState c \<Longrightarrow> sessionState (clearSession c)"
  "sessionState (setAuthenticatedSession u tok c)" "sessionState c \<Longrightarrow> sessionState (rejectCaller i rq f c)"
  "sessionState c \<Longrightarrow> sessionState (runSharedRefresh c)"
proof -
  show clear: "sessionState c \<Longrightarrow> sessionState (clearSession c)" for c by (simp add: session_defs)
  show "sessionState c \<Longrightarrow> sessionState (rejectCaller i rq f c)"
    by (simp add: rejectCaller_def Let_def clear split: purpose.split)
  show "sessionState c \<Longrightarrow> sessionState (runSharedRefresh c)" by (simp add: runSharedRefresh_def split: option.split)
qed (auto simp: session_defs)

lemma session_resume: "sessionState c \<Longrightarrow> sessionState (resumeWaiting t c)"
proof -
  have "sessionState (resumeOne t i c)" if "sessionState c" for i c
    using that by (simp add: resumeOne_def session_steps split: phase.split)
  then have "sessionState c \<Longrightarrow> sessionState (fold (resumeOne t) is c)" for "is" c
    by (induction "is" arbitrary: c) simp_all
  then show "sessionState c \<Longrightarrow> sessionState (resumeWaiting t c)" by (simp add: resumeWaiting_def)
qed

lemma session_refreshReturned: "sessionState c \<Longrightarrow> sessionState (refreshReturned origin t c)"
  by (cases origin) (auto simp: session_resume session_steps split: option.split)

lemma session_rejected: "sessionState c \<Longrightarrow> sessionState (rejected i rq f c)"
  by (simp add: rejected_def session_refreshReturned session_steps split: purpose.split)

lemma session_onReply: "sessionState c \<Longrightarrow> sessionState (onReply i p r c)"
proof -
  have profile: "sessionState c \<Longrightarrow> sessionState ((settle i ph c)\<lparr>cl_currentUser := Some u, cl_storeToken := Some t,
      cl_isAuthenticated := True\<rparr>)" for ph u t
    by (simp add: sessionState_def settle_def)
  show "sessionState c \<Longrightarrow> sessionState (onReply i p r c)"
    by (cases p; cases r) (simp_all add: session_steps session_refreshReturned profile)
qed

lemma session_events: "sessionState c \<Longrightarrow> sessionState (clientStep e c)"
  by (cases e) (simp_all add: session_onReply onFailure_def session_rejected session_steps split: phase.split)

interpretation session: event_invariant clientStep sessionState
  by unfold_locales (rule session_events)

subsection \<open>The bookkeeping of requests\<close>

lemma requestsOk_cong:
  assumes "cl_phase c = cl_phase d" "cl_sends c = cl_sends d" "cl_next c = cl_next d" "cl_waiting c = cl_waiting d"
    "cl_refreshPromise c = cl_refreshPromise d"
  shows "requestsOk c = requestsOk d"
  using assms by (simp add: requestsOk_def isWaiting_def)

lemma requests_store [simp]:
  "requestsOk (setAccessToken t c) = requestsOk c" "requestsOk (clearSession c) = requestsOk c"
  "requestsOk (setAuthenticatedSession u tok c) = requestsOk c"
  "requestsOk (c\<lparr>cl_isHydrating := b\<rparr>) = requestsOk c" "requestsOk (c\<lparr>cl_errorMessage := m\<rparr>) = requestsOk c"
  "requestsOk (c\<lparr>cl_currentUser := u', cl_storeToken := t', cl_isAuthenticated := b\<rparr>) = requestsOk c"
  by (rule requestsOk_cong; simp add: session_defs)+

lemma requests_issue:
  assumes "requestsOk c" "p \<noteq> Refreshing Shared"
  shows "requestsOk (issue p c)"
proof -
  have "\<not> isWaiting c (cl_next c)" "\<not> isSharedRefresh (cl_phase c (cl_next c))" "cl_sends c (cl_next c) = 0"
    using assms(1) unfolding requestsOk_def isWaiting_def isSharedRefresh_def
    by (metis order_refl phase.distinct(3), metis order_refl phase.distinct(1), metis order_refl phaseOk.simps(1))
  then show ?thesis
    using assms by (auto simp: requestsOk_def issue_def sendRequest_def isWaiting_def isSharedRefresh_def Let_def le_Suc_eq not_less_eq_eq)
qed

fun closed :: "phase \<Rightarrow> bool" where
  "closed (Settled _) = True"
| "closed (Rejected _) = True"
| "closed _ = False"

lemma closedD: "closed p \<Longrightarrow> \<not> isSharedRefresh p \<and> p \<noteq> Unissued \<and> (\<forall>rq f. p \<noteq> Waiting rq f) \<and> (phaseOk p n \<longleftrightarrow> n = 1 \<or> n = 2)"
  by (cases p) (simp_all add: isSharedRefresh_def)

lemma inFlightD:
  assumes "requestsOk c" "cl_phase c i = InFlight rq"
  shows "i \<notin> set (cl_waiting c)" "i < cl_next c" "cl_sends c i = (if rq_retry rq then 2 else 1)"
    "rq_purpose rq = Refreshing Shared \<longleftrightarrow> cl_refreshPromise c = Some i" "rq_retry rq \<Longrightarrow> \<not> skipAuthRefresh (rq_purpose rq)"
proof -
  from assms have "phaseOk (InFlight rq) (cl_sends c i)" "\<not> isWaiting c i" "\<not> cl_next c \<le> i"
    "isSharedRefresh (InFlight rq) = (cl_refreshPromise c = Some i)" "set (cl_waiting c) = {i. isWaiting c i}"
    unfolding requestsOk_def isWaiting_def by (metis, force, metis phase.distinct(1), metis, simp add: isWaiting_def)
  then show "i \<notin> set (cl_waiting c)" "i < cl_next c" "cl_sends c i = (if rq_retry rq then 2 else 1)"
    "rq_purpose rq = Refreshing Shared \<longleftrightarrow> cl_refreshPromise c = Some i" "rq_retry rq \<Longrightarrow> \<not> skipAuthRefresh (rq_purpose rq)"
    by (auto simp: isSharedRefresh_def)
qed

lemma requests_settle:
  assumes "requestsOk c" "cl_phase c i = InFlight rq" "rq_purpose rq \<noteq> Refreshing Shared" "closed p"
  shows "requestsOk (settle i p c)"
proof -
  have w: "isWaiting (settle i p c) j = isWaiting c j" for j
    using assms(2) closedD [OF assms(4)] by (simp add: isWaiting_def settle_def)
  have r: "isSharedRefresh (cl_phase (settle i p c) j) = isSharedRefresh (cl_phase c j)" for j
    using assms(2,3) closedD [OF assms(4)] by (simp add: isSharedRefresh_def settle_def)
  show ?thesis
    using assms(1) inFlightD [OF assms(1,2)] closedD [OF assms(4)]
    unfolding requestsOk_def w r by (auto simp: settle_def)
qed

lemma requests_wait:
  assumes "requestsOk c" "cl_phase c i = InFlight rq" "\<not> skipAuthRefresh (rq_purpose rq)" "\<not> rq_retry rq"
  shows "requestsOk (runSharedRefresh (c\<lparr>cl_phase := (cl_phase c)(i := Waiting (rq\<lparr>rq_retry := True\<rparr>) accessTokenExpired),
    cl_waiting := cl_waiting c @ [i]\<rparr>))" (is "requestsOk (runSharedRefresh ?d)")
proof -
  note facts = inFlightD [OF assms(1,2)]
  have notShared: "rq_purpose rq \<noteq> Refreshing Shared" using assms(3) by auto
  have w: "isWaiting ?d j \<longleftrightarrow> j = i \<or> isWaiting c j" for j by (simp add: isWaiting_def)
  have r: "isSharedRefresh (cl_phase ?d j) = isSharedRefresh (cl_phase c j)" for j
    using assms(2) notShared by (simp add: isSharedRefresh_def)
  have d: "\<forall>j. cl_phase ?d j = Unissued \<longleftrightarrow> cl_next c \<le> j" "\<forall>j. phaseOk (cl_phase ?d j) (cl_sends c j)" "distinct (cl_waiting ?d)"
    "set (cl_waiting ?d) = {j. isWaiting ?d j}" "\<forall>j. isSharedRefresh (cl_phase ?d j) \<longleftrightarrow> cl_refreshPromise c = Some j"
    using assms facts unfolding w r requestsOk_def by auto
  show ?thesis
  proof (cases "cl_refreshPromise c")
    case (Some k)
    then show ?thesis using d unfolding runSharedRefresh_def requestsOk_def by simp
  next
    case None
    have new: "\<not> isWaiting ?d (cl_next c)" "cl_sends c (cl_next c) = 0"
      using d(1,2) unfolding isWaiting_def by (metis order_refl phase.distinct(3), metis order_refl phaseOk.simps(1))
    let ?e = "runSharedRefresh ?d"
    have e: "cl_phase ?e = (cl_phase ?d)(cl_next c := InFlight \<lparr>rq_purpose = Refreshing Shared, rq_retry = False, rq_authorization = None\<rparr>)"
      "cl_sends ?e = (cl_sends c)(cl_next c := 1)" "cl_next ?e = Suc (cl_next c)" "cl_waiting ?e = cl_waiting ?d"
      "cl_refreshPromise ?e = Some (cl_next c)"
      using None new(2) by (simp_all add: runSharedRefresh_def issue_def sendRequest_def Let_def)
    have "isWaiting ?e j = isWaiting ?d j" for j using new(1) by (auto simp: isWaiting_def e split: if_splits)
    then show ?thesis
      using d None unfolding requestsOk_def e by (auto simp: isSharedRefresh_def le_Suc_eq not_less_eq_eq)
  qed
qed

text \<open>What resuming makes of the phase of a waiting request.\<close>

fun resumed :: "client \<Rightarrow> jstr option \<Rightarrow> phase \<Rightarrow> phase" where
  "resumed c token (Waiting rq f) =
     (if present token
      then InFlight (rq\<lparr>rq_authorization := (if present (cl_accessToken c) \<and> \<not> skipAuthRefresh (rq_purpose rq)
             then cl_accessToken c else token)\<rparr>)
      else Rejected f)"
| "resumed c token p = p"

lemma clearSession_run [simp]:
  "cl_phase (clearSession c) = cl_phase c" "cl_sends (clearSession c) = cl_sends c" "cl_next (clearSession c) = cl_next c"
  "cl_waiting (clearSession c) = cl_waiting c" "cl_refreshPromise (clearSession c) = cl_refreshPromise c"
  "cl_phase (setAccessToken t c) = cl_phase c" "cl_sends (setAccessToken t c) = cl_sends c" "cl_next (setAccessToken t c) = cl_next c"
  "cl_waiting (setAccessToken t c) = cl_waiting c" "cl_refreshPromise (setAccessToken t c) = cl_refreshPromise c"
  by (simp_all add: clearSession_def setAccessToken_def)

lemma rejectCaller_run [simp]:
  "cl_phase (rejectCaller i rq f c) = (cl_phase c)(i := Rejected f)" "cl_sends (rejectCaller i rq f c) = cl_sends c"
  "cl_next (rejectCaller i rq f c) = cl_next c" "cl_waiting (rejectCaller i rq f c) = cl_waiting c"
  "cl_refreshPromise (rejectCaller i rq f c) = cl_refreshPromise c"
  by (cases "rq_purpose rq"; simp add: rejectCaller_def settle_def)+

lemma resumeOne_run:
  "cl_phase (resumeOne t i c) = (cl_phase c)(i := resumed c t (cl_phase c i))"
  "cl_sends (resumeOne t i c) = (cl_sends c)(i := cl_sends c i + (if isWaiting c i \<and> present t then 1 else 0))"
  "cl_next (resumeOne t i c) = cl_next c" "cl_waiting (resumeOne t i c) = cl_waiting c"
  "cl_refreshPromise (resumeOne t i c) = cl_refreshPromise c"
  "present t \<Longrightarrow> cl_accessToken (resumeOne t i c) = cl_accessToken c"
  "present t \<Longrightarrow> cl_isAuthenticated (resumeOne t i c) = cl_isAuthenticated c"
  by (cases "cl_phase c i"; simp add: resumeOne_def sendRequest_def isWaiting_def fun_upd_idem)+

lemma resume_run:
  assumes "distinct is"
  shows "cl_phase (fold (resumeOne t) is c) = (\<lambda>j. if j \<in> set is then resumed c t (cl_phase c j) else cl_phase c j) \<and>
    cl_sends (fold (resumeOne t) is c) = (\<lambda>j. cl_sends c j + (if j \<in> set is \<and> isWaiting c j \<and> present t then 1 else 0)) \<and>
    cl_next (fold (resumeOne t) is c) = cl_next c \<and> cl_waiting (fold (resumeOne t) is c) = cl_waiting c \<and>
    cl_refreshPromise (fold (resumeOne t) is c) = cl_refreshPromise c \<and>
    (present t \<longrightarrow> cl_accessToken (fold (resumeOne t) is c) = cl_accessToken c \<and>
       cl_isAuthenticated (fold (resumeOne t) is c) = cl_isAuthenticated c)"
  using assms
proof (induction "is" arbitrary: c)
  case (Cons i "is")
  have same: "resumed (resumeOne t i c) t p = resumed c t p" for p
    by (cases p) (simp_all add: resumeOne_run)
  have w: "isWaiting (resumeOne t i c) j = isWaiting c j" if "j \<noteq> i" for j
    using that by (simp add: isWaiting_def resumeOne_run)
  from Cons.prems have "distinct is" "i \<notin> set is" by auto
  with Cons.IH [of "resumeOne t i c"] w show ?case
    by (auto simp: resumeOne_run same fun_eq_iff)
qed simp

lemma resumed_same: "\<not> isWaiting c j \<Longrightarrow> resumed d t (cl_phase c j) = cl_phase c j"
  by (cases "cl_phase c j") (simp_all add: isWaiting_def)

lemma resumeWaiting_run:
  assumes "distinct (cl_waiting d)" "set (cl_waiting d) = {j. isWaiting d j}"
  shows "cl_phase (resumeWaiting t d) = (\<lambda>j. resumed d t (cl_phase d j))"
    "cl_sends (resumeWaiting t d) = (\<lambda>j. cl_sends d j + (if isWaiting d j \<and> present t then 1 else 0))"
    "cl_next (resumeWaiting t d) = cl_next d" "cl_waiting (resumeWaiting t d) = []"
    "cl_refreshPromise (resumeWaiting t d) = cl_refreshPromise d"
    "present t \<Longrightarrow> cl_accessToken (resumeWaiting t d) = cl_accessToken d"
    "present t \<Longrightarrow> cl_isAuthenticated (resumeWaiting t d) = cl_isAuthenticated d"
proof -
  let ?d = "d\<lparr>cl_waiting := []\<rparr>"
  have same: "resumed ?d t p = resumed d t p" for p by (cases p) simp_all
  have "isWaiting ?d j = isWaiting d j" for j by (simp add: isWaiting_def)
  with resume_run [OF assms(1), of t ?d] assms(2) same resumed_same [of d]
  show "cl_phase (resumeWaiting t d) = (\<lambda>j. resumed d t (cl_phase d j))"
    "cl_sends (resumeWaiting t d) = (\<lambda>j. cl_sends d j + (if isWaiting d j \<and> present t then 1 else 0))"
    "cl_next (resumeWaiting t d) = cl_next d" "cl_waiting (resumeWaiting t d) = []"
    "cl_refreshPromise (resumeWaiting t d) = cl_refreshPromise d"
    "present t \<Longrightarrow> cl_accessToken (resumeWaiting t d) = cl_accessToken d"
    "present t \<Longrightarrow> cl_isAuthenticated (resumeWaiting t d) = cl_isAuthenticated d"
    by (auto simp: resumeWaiting_def fun_eq_iff)
qed

lemma resumed_phase:
  assumes "phaseOk (Waiting rq f) n"
  shows "phaseOk (resumed c t (Waiting rq f)) (n + (if present t then 1 else 0))" "\<not> isSharedRefresh (resumed c t (Waiting rq f))"
    "resumed c t (Waiting rq f) \<noteq> Unissued" "\<And>rq' f'. resumed c t (Waiting rq f) \<noteq> Waiting rq' f'"
  using assms by (auto simp: isSharedRefresh_def)

text \<open>The shared refresh is answered: its request is closed, and the others go on from where they waited.\<close>

lemma shared_refresh_over:
  assumes "requestsOk c" "cl_phase c i = InFlight rq" "closed p"
    and "cl_phase d = (cl_phase c)(i := p)" "cl_sends d = cl_sends c" "cl_next d = cl_next c" "cl_waiting d = cl_waiting c"
  shows "cl_phase (refreshReturned Shared t d) = (\<lambda>j. if j = i then p else resumed d t (cl_phase c j))"
    "cl_sends (refreshReturned Shared t d) = (\<lambda>j. cl_sends c j + (if isWaiting c j \<and> present t then 1 else 0))"
    "cl_next (refreshReturned Shared t d) = cl_next c" "cl_waiting (refreshReturned Shared t d) = []"
    "cl_refreshPromise (refreshReturned Shared t d) = None"
    "present t \<Longrightarrow> cl_accessToken (refreshReturned Shared t d) = cl_accessToken d"
    "present t \<Longrightarrow> cl_isAuthenticated (refreshReturned Shared t d) = cl_isAuthenticated d"
proof -
  let ?d = "d\<lparr>cl_refreshPromise := None\<rparr>"
  have w: "isWaiting ?d j = isWaiting c j" for j
    using assms(2,4) closedD [OF assms(3)] by (simp add: isWaiting_def)
  have same: "resumed ?d t q = resumed d t q" for q by (cases q) simp_all
  have closed: "resumed d t p = p" using assms(3) by (cases p) simp_all
  have ws: "distinct (cl_waiting ?d)" "set (cl_waiting ?d) = {j. isWaiting ?d j}"
    using assms(1,7) w by (simp_all add: requestsOk_def)
  from resumeWaiting_run [OF ws, of t]
  show "cl_phase (refreshReturned Shared t d) = (\<lambda>j. if j = i then p else resumed d t (cl_phase c j))"
    "cl_sends (refreshReturned Shared t d) = (\<lambda>j. cl_sends c j + (if isWaiting c j \<and> present t then 1 else 0))"
    "cl_next (refreshReturned Shared t d) = cl_next c" "cl_waiting (refreshReturned Shared t d) = []"
    "cl_refreshPromise (refreshReturned Shared t d) = None"
    "present t \<Longrightarrow> cl_accessToken (refreshReturned Shared t d) = cl_accessToken d"
    "present t \<Longrightarrow> cl_isAuthenticated (refreshReturned Shared t d) = cl_isAuthenticated d"
    using w same closed assms(4-7) by (auto simp: fun_eq_iff)
qed

lemma requests_resume:
  assumes "requestsOk c" "cl_phase c i = InFlight rq" "cl_refreshPromise c = Some i" "closed p"
    and "cl_phase d = (cl_phase c)(i := p)" "cl_sends d = cl_sends c" "cl_next d = cl_next c" "cl_waiting d = cl_waiting c"
  shows "requestsOk (refreshReturned Shared t d)"
proof -
  note e = shared_refresh_over [OF assms(1,2,4-), of t]
  have "phaseOk (cl_phase (refreshReturned Shared t d) j) (cl_sends (refreshReturned Shared t d) j) \<and>
      \<not> isSharedRefresh (cl_phase (refreshReturned Shared t d) j) \<and>
      (cl_phase (refreshReturned Shared t d) j = Unissued \<longleftrightarrow> cl_next c \<le> j) \<and> \<not> isWaiting (refreshReturned Shared t d) j" for j
  proof (cases "isWaiting c j")
    case True
    then obtain r f where r: "cl_phase c j = Waiting r f" "phaseOk (Waiting r f) (cl_sends c j)" "\<not> cl_next c \<le> j"
      using assms(1) unfolding isWaiting_def requestsOk_def by (metis phase.distinct(3))
    moreover have "j \<noteq> i" using assms(2) r(1) by auto
    ultimately show ?thesis using resumed_phase [OF r(2), of d t] True
      by (simp add: e isWaiting_def [of "refreshReturned Shared t d"] del: resumed.simps phaseOk.simps refreshReturned.simps)
  next
    case False
    have "phaseOk (cl_phase c j) (cl_sends c j)" "cl_phase c j = Unissued \<longleftrightarrow> cl_next c \<le> j"
      "isSharedRefresh (cl_phase c j) \<longleftrightarrow> j = i"
      using assms(1,3) by (auto simp: requestsOk_def)
    moreover have "i < cl_next c" "cl_sends c i = 1 \<or> cl_sends c i = 2" using inFlightD [OF assms(1,2)] by auto
    ultimately show ?thesis using False closedD [OF assms(4)] resumed_same [OF False, of d t]
      by (auto simp: e isWaiting_def simp del: refreshReturned.simps)
  qed
  then show ?thesis unfolding requestsOk_def by (simp add: e del: refreshReturned.simps)
qed

lemma requests_returned:
  assumes "requestsOk c" "cl_phase c i = InFlight rq" "rq_purpose rq = Refreshing origin" "closed p"
    and "cl_phase d = (cl_phase c)(i := p)" "cl_sends d = cl_sends c" "cl_next d = cl_next c" "cl_waiting d = cl_waiting c"
      "cl_refreshPromise d = cl_refreshPromise c"
  shows "requestsOk (refreshReturned origin t d)"
proof (cases "origin = Shared")
  case True
  with inFlightD(4) [OF assms(1,2)] assms(3) requests_resume [OF assms(1,2) _ assms(4-8)] show ?thesis by auto
next
  case False
  have "requestsOk d = requestsOk (settle i p c)" by (rule requestsOk_cong) (simp_all add: settle_def assms(5-))
  with requests_settle [OF assms(1,2) _ assms(4)] False assms(3) have "requestsOk d" by simp
  with False show ?thesis by (cases origin) (auto simp: requests_issue split: option.split)
qed

lemma requests_rejected:
  assumes "requestsOk c" "cl_phase c i = InFlight rq"
  shows "requestsOk (rejected i rq f c)" and "rq_purpose rq \<noteq> Refreshing Shared \<Longrightarrow> requestsOk (rejectCaller i rq f c)"
proof -
  show caller: "requestsOk (rejectCaller i rq f c)" if "rq_purpose rq \<noteq> Refreshing Shared"
  proof -
    have "requestsOk (rejectCaller i rq f c) = requestsOk (settle i (Rejected f) c)"
      by (rule requestsOk_cong) (simp_all add: settle_def)
    with requests_settle [OF assms that, of "Rejected f"] show ?thesis by simp
  qed
  show "requestsOk (rejected i rq f c)"
  proof (cases "rq_purpose rq")
    case (Refreshing origin)
    with requests_returned [OF assms Refreshing, of "Rejected f" "clearSession (settle i (Rejected f) c)" None] show ?thesis
      by (simp add: rejected_def settle_def)
  qed (use caller in \<open>simp_all add: rejected_def\<close>)
qed

lemma requests_onReply:
  assumes "requestsOk c" "cl_phase c i = InFlight rq"
  shows "requestsOk (onReply i (rq_purpose rq) r c)"
proof (cases "\<exists>origin token user. rq_purpose rq = Refreshing origin \<and> r = SessionReply token user")
  case True
  then obtain origin token user where eq: "rq_purpose rq = Refreshing origin" "r = SessionReply token user" by blast
  have same: "cl_phase (setAuthenticatedSession user token d) = cl_phase d" "cl_sends (setAuthenticatedSession user token d) = cl_sends d"
    "cl_next (setAuthenticatedSession user token d) = cl_next d" "cl_waiting (setAuthenticatedSession user token d) = cl_waiting d"
    "cl_refreshPromise (setAuthenticatedSession user token d) = cl_refreshPromise d" for d
    by (simp_all add: setAuthenticatedSession_def)
  from requests_returned [OF assms eq(1), of "Settled r" "setAuthenticatedSession user token (settle i (Settled r) c)"] eq show ?thesis
    by (simp add: same settle_def)
next
  case False
  have "requestsOk (settle i (Settled r) c)" if "rq_purpose rq \<noteq> Refreshing Shared"
    using requests_settle [OF assms that, of "Settled r"] by simp
  with False assms(1) show ?thesis
    by (cases "rq_purpose rq"; cases r) auto
qed

lemma requests_events: "requestsOk c \<Longrightarrow> requestsOk (clientStep e c)"
proof -
  assume ok: "requestsOk c"
  have "requestsOk (onFailure i rq f c)" if rq: "cl_phase c i = InFlight rq" for i rq f
  proof -
    have "requestsOk (rejectCaller i rq f (clearSession (setAccessToken None c)))" if "\<not> skipAuthRefresh (rq_purpose rq)"
    proof -
      have "rq_purpose rq \<noteq> Refreshing Shared" using that by auto
      then show ?thesis using requests_rejected(2) [of "clearSession (setAccessToken None c)" i rq] ok rq by simp
    qed
    then show ?thesis using requests_rejected [OF ok rq] requests_wait [OF ok rq] by (auto simp: onFailure_def)
  qed
  with ok requests_onReply show "requestsOk (clientStep e c)"
    by (cases e) (simp_all add: requests_issue split: phase.split)
qed

interpretation requests: event_invariant clientStep requestsOk
  by unfold_locales (rule requests_events)

lemma newClient_ok: "sessionState (newClient stored)" if "stored \<noteq> Some []"
  using that by (auto simp: newClient_def session_defs split: option.split)

lemma newClient_requests: "requestsOk (newClient stored)"
  by (simp add: newClient_def requestsOk_def isWaiting_def isSharedRefresh_def)

subsection \<open>What holds in every run\<close>



lemma sends_step:
  assumes "cl_sends c (cl_next c) = 0"
  shows "cl_sends (issue p c) i \<noteq> cl_sends c i \<Longrightarrow> cl_sends c i = 0"
    "cl_sends (runSharedRefresh c) i \<noteq> cl_sends c i \<Longrightarrow> cl_sends c i = 0"
  using assms by (auto simp: issue_def sendRequest_def runSharedRefresh_def Let_def split: if_splits option.splits)

lemma setAuthenticatedSession_run [simp]:
  "cl_phase (setAuthenticatedSession u t c) = cl_phase c" "cl_sends (setAuthenticatedSession u t c) = cl_sends c"
  "cl_next (setAuthenticatedSession u t c) = cl_next c" "cl_waiting (setAuthenticatedSession u t c) = cl_waiting c"
  "cl_refreshPromise (setAuthenticatedSession u t c) = cl_refreshPromise c"
  "cl_accessToken (setAuthenticatedSession u t c) = Some t" "cl_isAuthenticated (setAuthenticatedSession u t c)"
  by (simp_all add: setAuthenticatedSession_def setAccessToken_def)

lemma settle_run [simp]:
  "cl_phase (settle i p c) = (cl_phase c)(i := p)" "cl_sends (settle i p c) = cl_sends c" "cl_next (settle i p c) = cl_next c"
  "cl_waiting (settle i p c) = cl_waiting c" "cl_refreshPromise (settle i p c) = cl_refreshPromise c"
  by (simp_all add: settle_def)

text \<open>The answer to the shared refresh, when it brings a token and when it fails.\<close>

lemma shared_refresh_answered:
  assumes "requestsOk c" "cl_refreshPromise c = Some r"
  shows "cl_phase (clientStep (Reply r (SessionReply token user)) c) =
      (\<lambda>j. if j = r then Settled (SessionReply token user) else resumed (setAuthenticatedSession user token c) (Some token) (cl_phase c j))"
    "cl_sends (clientStep (Reply r (SessionReply token user)) c) = (\<lambda>j. cl_sends c j + (if isWaiting c j \<and> token \<noteq> [] then 1 else 0))"
    "cl_waiting (clientStep (Reply r (SessionReply token user)) c) = []"
    "token \<noteq> [] \<Longrightarrow> cl_isAuthenticated (clientStep (Reply r (SessionReply token user)) c)"
    "cl_phase (clientStep (Failure r f) c) = (\<lambda>j. if j = r then Rejected f else resumed c None (cl_phase c j))"
    "cl_sends (clientStep (Failure r f) c) = cl_sends c" "cl_waiting (clientStep (Failure r f) c) = []"
proof -
  have "isSharedRefresh (cl_phase c r)" using assms by (simp add: requestsOk_def)
  then obtain rq where rq: "cl_phase c r = InFlight rq" "rq_purpose rq = Refreshing Shared"
    by (auto simp: isSharedRefresh_def)
  let ?d = "setAuthenticatedSession user token (settle r (Settled (SessionReply token user)) c)"
  have same: "resumed ?d (Some token) q = resumed (setAuthenticatedSession user token c) (Some token) q" for q
    by (cases q) simp_all
  from shared_refresh_over [OF assms(1) rq(1), of "Settled (SessionReply token user)" ?d "Some token"] rq same
  show "cl_phase (clientStep (Reply r (SessionReply token user)) c) =
      (\<lambda>j. if j = r then Settled (SessionReply token user) else resumed (setAuthenticatedSession user token c) (Some token) (cl_phase c j))"
    "cl_sends (clientStep (Reply r (SessionReply token user)) c) = (\<lambda>j. cl_sends c j + (if isWaiting c j \<and> token \<noteq> [] then 1 else 0))"
    "cl_waiting (clientStep (Reply r (SessionReply token user)) c) = []"
    "token \<noteq> [] \<Longrightarrow> cl_isAuthenticated (clientStep (Reply r (SessionReply token user)) c)"
    by (simp_all add: present_def fun_eq_iff)
  let ?e = "clearSession (settle r (Rejected f) c)"
  have same: "resumed ?e None q = resumed c None q" for q by (cases q) (simp_all add: present_def)
  from shared_refresh_over [OF assms(1) rq(1), of "Rejected f" ?e None] rq same
  show "cl_phase (clientStep (Failure r f) c) = (\<lambda>j. if j = r then Rejected f else resumed c None (cl_phase c j))"
    "cl_sends (clientStep (Failure r f) c) = cl_sends c" "cl_waiting (clientStep (Failure r f) c) = []"
    by (simp_all add: present_def onFailure_def rejected_def fun_eq_iff)
qed

lemma sends_returned:
  assumes "cl_sends d (cl_next d) = 0" "origin \<noteq> Shared" "cl_sends (refreshReturned origin t d) i \<noteq> cl_sends d i"
  shows "cl_sends d i = 0"
proof (cases origin)
  case Hydration
  then obtain tok where "cl_sends (issue (Profile tok) d) i \<noteq> cl_sends d i"
    using assms(3) by (auto split: option.splits if_splits)
  then show ?thesis by (rule sends_step(1) [OF assms(1)])
qed (use assms in simp_all)

lemma sends_onReply:
  assumes "cl_sends c (cl_next c) = 0" "\<not> (p = Refreshing Shared \<and> (\<exists>token user. r = SessionReply token user))"
    and "cl_sends (onReply k p r c) i \<noteq> cl_sends c i"
  shows "cl_sends c i = 0"
proof -
  obtain origin token user where p: "p = Refreshing origin" "r = SessionReply token user" "origin \<noteq> Shared"
    using assms(2,3) by (cases p; cases r) auto
  let ?d = "setAuthenticatedSession user token (settle k (Settled r) c)"
  have "cl_sends (refreshReturned origin (Some token) ?d) i \<noteq> cl_sends ?d i" using assms(3) p by simp
  from sends_returned [OF _ p(3) this] assms(1) show ?thesis by simp
qed

lemma sends_onFailure:
  assumes "cl_sends c (cl_next c) = 0" "rq_purpose rq \<noteq> Refreshing Shared" "cl_sends (onFailure k rq f c) i \<noteq> cl_sends c i"
  shows "cl_sends c i = 0"
proof (cases "rq_purpose rq")
  case (Refreshing origin)
  let ?d = "clearSession (settle k (Rejected f) c)"
  have "cl_sends (refreshReturned origin None ?d) i \<noteq> cl_sends ?d i"
    using assms(3) Refreshing by (simp add: onFailure_def rejected_def)
  from sends_returned [OF _ _ this] assms(1,2) Refreshing show ?thesis by simp
next
  case LoggingOut
  with assms(3) show ?thesis by (simp add: onFailure_def rejected_def)
qed (use assms(1,3) sends_step(2) [of "c\<lparr>cl_phase := _, cl_waiting := _\<rparr>" i] in
  \<open>auto simp: onFailure_def rejected_def split: if_splits\<close>)

lemma sends_grow:
  assumes "requestsOk c" "cl_sends (clientStep e c) i \<noteq> cl_sends c i"
  shows "cl_sends c i = 0 \<or>
      (\<exists>r token user rq. e = Reply r (SessionReply token user) \<and> cl_refreshPromise c = Some r \<and>
         cl_phase c i = Waiting rq accessTokenExpired \<and>
         cl_phase (clientStep e c) i = InFlight (rq\<lparr>rq_authorization := Some token\<rparr>))"
proof -
  have fresh: "cl_sends c (cl_next c) = 0"
    using assms(1) unfolding requestsOk_def by (metis order_refl phaseOk.simps(1))
  note new = sends_step [OF fresh]
  show ?thesis
  proof (cases e)
    case (Reply r rep)
    then obtain rq where rq: "cl_phase c r = InFlight rq" using assms(2) by (cases "cl_phase c r") auto
    show ?thesis
    proof (cases "rq_purpose rq = Refreshing Shared \<and> (\<exists>token user. rep = SessionReply token user)")
      case True
      then obtain token user where rep: "rep = SessionReply token user" by blast
      have promise: "cl_refreshPromise c = Some r" using inFlightD(4) [OF assms(1) rq] True by simp
      note answered = shared_refresh_answered(1,2) [OF assms(1) promise, of token user]
      from assms(2) have "isWaiting c i" "token \<noteq> []" unfolding Reply rep answered(2) by (auto split: if_splits)
      then obtain rq' f where w: "cl_phase c i = Waiting rq' f" by (auto simp: isWaiting_def)
      moreover have "phaseOk (Waiting rq' f) (cl_sends c i)" using assms(1) w unfolding requestsOk_def by metis
      moreover have "i \<noteq> r" using w rq by auto
      ultimately show ?thesis using Reply rep promise \<open>token \<noteq> []\<close>
        by (auto simp: answered(1) present_def simp del: clientStep.simps)
    next
      case False
      with sends_onReply [OF fresh False, of r i] assms(2) Reply rq show ?thesis by simp
    qed
  next
    case (Failure r f)
    then obtain rq where rq: "cl_phase c r = InFlight rq" using assms(2) by (cases "cl_phase c r") auto
    show ?thesis
    proof (cases "rq_purpose rq = Refreshing Shared")
      case True
      then have "cl_refreshPromise c = Some r" using inFlightD(4) [OF assms(1) rq] by simp
      from shared_refresh_answered(6) [OF assms(1) this, of f] assms(2) Failure show ?thesis by simp
    next
      case False
      with sends_onFailure [OF fresh False, of r f i] assms(2) Failure rq show ?thesis by simp
    qed
  next
    case Hydrate
    with assms(2) sends_step(1) [of "c\<lparr>cl_isHydrating := True\<rparr>" "Refreshing Hydration" i] fresh show ?thesis by simp
  qed (use assms(2) new(1) [of _ i] in auto)
qed

text \<open>
  C12: no request is sent more than twice, and the second time is earned: a request that was sent already is
  sent again only if it was answered with an expired access token, at the moment when the shared refresh it waited
  for brings a new token, and it is then sent with exactly this token.
\<close>

theorem sent_at_most_twice:
  assumes "c = fold clientStep es (newClient stored)"
  shows "cl_sends c i \<le> 2 \<and>
    (cl_sends (clientStep e c) i \<noteq> cl_sends c i \<longrightarrow> cl_sends c i = 0 \<or>
      (\<exists>r token user rq. e = Reply r (SessionReply token user) \<and> cl_refreshPromise c = Some r \<and>
         cl_phase c i = Waiting rq accessTokenExpired \<and>
         cl_phase (clientStep e c) i = InFlight (rq\<lparr>rq_authorization := Some token\<rparr>)))"
proof -
  have ok: "requestsOk c" using requests.along newClient_requests assms by simp
  then have "phaseOk (cl_phase c i) (cl_sends c i)" by (simp add: requestsOk_def)
  then have "cl_sends c i \<le> 2" by (cases "cl_phase c i") (auto split: if_splits)
  with sends_grow [OF ok, of e i] show ?thesis by blast
qed

theorem sent_at_most_twice_witness:
  "cl_sends (fold clientStep [CallFeature, CallFeature, Failure 0 accessTokenExpired] (newClient (Some [1]))) 0 \<le> 2"
  using sent_at_most_twice [OF refl] by blast

text \<open>
  C13: one answer serves everybody who waits. When the shared refresh brings a token, every waiting request is
  sent again with this token and the client is signed in; when it fails, for whatever reason, every waiting
  request is rejected with the error it had failed with, and the client is signed out. Either
  way nobody waits any longer.
\<close>

theorem shared_refresh_serves_all:
  assumes "c = fold clientStep es (newClient stored)" "cl_refreshPromise c = Some r"
    and "t = clientStep (Reply r (SessionReply token user)) c" "token \<noteq> []" "u = clientStep (Failure r f) c"
  shows "cl_waiting t = [] \<and> cl_waiting u = [] \<and> cl_isAuthenticated t \<and> \<not> cl_isAuthenticated u \<and> cl_accessToken u = None \<and>
    (\<forall>i rq g. cl_phase c i = Waiting rq g \<longrightarrow>
       cl_phase t i = InFlight (rq\<lparr>rq_authorization := Some token\<rparr>) \<and> cl_phase u i = Rejected g)"
proof -
  have ok: "requestsOk c" using requests.along newClient_requests assms(1) by simp
  note run = shared_refresh_answered [OF ok assms(2)]
  have isRefresh: "isSharedRefresh (cl_phase c r)" using ok assms(2) by (simp add: requestsOk_def)
  then obtain rq\<^sub>r where r: "cl_phase c r = InFlight rq\<^sub>r" "rq_purpose rq\<^sub>r = Refreshing Shared" by (auto simp: isSharedRefresh_def)
  have out: "\<not> cl_isAuthenticated u \<and> cl_accessToken u = None"
  proof -
    have one: "\<not> cl_isAuthenticated (resumeOne None i d) \<and> cl_accessToken (resumeOne None i d) = None"
      if "\<not> cl_isAuthenticated d \<and> cl_accessToken d = None" for i d
      using that by (auto simp: resumeOne_def present_def rejectCaller_def settle_def clearSession_def setAccessToken_def
          Let_def split: phase.split purpose.split)
    have "\<not> cl_isAuthenticated (fold (resumeOne None) is d) \<and> cl_accessToken (fold (resumeOne None) is d) = None"
      if "\<not> cl_isAuthenticated d \<and> cl_accessToken d = None" for "is" d
      using that by (induction "is" arbitrary: d) (simp_all add: one)
    then show ?thesis
      using r assms(5) by (simp add: onFailure_def rejected_def resumeWaiting_def clearSession_def setAccessToken_def)
  qed
  have each: "cl_phase t i = InFlight (rq\<lparr>rq_authorization := Some token\<rparr>) \<and> cl_phase u i = Rejected g"
    if w: "cl_phase c i = Waiting rq g" for i rq g
  proof -
    have "phaseOk (Waiting rq g) (cl_sends c i)" using ok w unfolding requestsOk_def by metis
    moreover have "i \<noteq> r" using w r(1) by auto
    ultimately show ?thesis
      using w assms(4) unfolding assms(3,5) run by (simp add: present_def)
  qed
  show ?thesis using each out run(3) run(4) [OF assms(4)] run(7) assms(3,5) by simp
qed

text \<open>
  A request that fails after it has been sent again signs the client out, whatever the failure is: also a
  missing document or a lost connection, although the refresh before it has just brought a valid token.
\<close>

theorem failed_retry_signs_out:
  assumes "c = fold clientStep es (newClient stored)" "cl_phase c i = InFlight rq" "rq_retry rq" "c' = clientStep (Failure i f) c"
  shows "\<not> cl_isAuthenticated c' \<and> cl_accessToken c' = None \<and> cl_storage c' = None \<and> cl_phase c' i = Rejected f"
proof -
  have "requestsOk c" using requests.along newClient_requests assms(1) by simp
  from inFlightD(5) [OF this assms(2,3)] assms(2-4) show ?thesis
    by (simp add: onFailure_def) (simp add: rejectCaller_def settle_def clearSession_def setAccessToken_def present_def Let_def split: purpose.split)
qed

subsection \<open>Concrete runs\<close>

definition someUser :: auth_user where
  "someUser = \<lparr>au_id = [1], au_email = [], au_username = [], au_displayName = [], au_avatarUrl = None\<rparr>"

lemmas run_defs = newClient_def issue_def sendRequest_def onFailure_def rejected_def rejectCaller_def settle_def runSharedRefresh_def
  resumeWaiting_def resumeOne_def clearSession_def setAccessToken_def setAuthenticatedSession_def present_def accessTokenExpired_def
  tokenReceived_def logoutAnswered_def

theorem shared_refresh_serves_all_witness:
  "\<exists>rq. cl_phase (clientStep (Reply 2 (SessionReply [7] someUser))
     (fold clientStep [CallFeature, CallFeature, Failure 0 accessTokenExpired, Failure 1 accessTokenExpired] (newClient (Some [1])))) 1 =
     InFlight (rq\<lparr>rq_authorization := Some [7]\<rparr>)"
proof -
  let ?c = "fold clientStep [CallFeature, CallFeature, Failure 0 accessTokenExpired, Failure 1 accessTokenExpired] (newClient (Some [1]))"
  have "cl_refreshPromise ?c = Some 2" "\<exists>rq. cl_phase ?c 1 = Waiting rq accessTokenExpired"
    by (simp_all add: run_defs)
  with shared_refresh_serves_all [OF refl, of "[CallFeature, CallFeature, Failure 0 accessTokenExpired, Failure 1 accessTokenExpired]"
      "Some [1]" 2 _ "[7]" someUser _ NoResponse] show ?thesis by (metis list.distinct(1))
qed

theorem failed_retry_signs_out_witness:
  "\<not> cl_isAuthenticated (clientStep (Failure 0 (HttpFailure 404 None))
     (fold clientStep [CallFeature, Failure 0 accessTokenExpired, Reply 1 (SessionReply [7] someUser)] (newClient (Some [1]))))"
proof -
  let ?c = "fold clientStep [CallFeature, Failure 0 accessTokenExpired, Reply 1 (SessionReply [7] someUser)] (newClient (Some [1]))"
  have "\<exists>rq. cl_phase ?c 0 = InFlight rq \<and> rq_retry rq"
    by (simp add: run_defs)
  with failed_retry_signs_out [OF refl _ _ refl] show ?thesis by blast
qed

text \<open>
  A profile that arrives after logging out signs the user in again: the store shows a signed-in user while there
  is no token to send.
\<close>

theorem late_profile_signs_in:
  "let c = fold clientStep [Hydrate, Reply 0 (SessionReply [7] someUser), Logout, Reply 2 DataReply] (newClient None);
       c' = clientStep (Reply 1 (UserReply someUser)) c in
   \<not> cl_isAuthenticated c \<and> cl_isAuthenticated c' \<and> cl_accessToken c' = None"
  by (simp add: run_defs Let_def)

end
