(* ===== verification/ClientAuthPage.thy ===== *)
theory ClientAuthPage
  imports ClientSession
begin

text \<open>
  The way into the web client: the page for signing in (\<open>features/auth/auth.page.tsx\<close>), the start of the
  application (\<open>app/providers.tsx\<close>, with the message for a failed sign-in with Google of
  \<open>services/auth.service.ts\<close>), and the guard of the pages (\<open>app/protected-route.tsx\<close>). A submitted form
  waits for its request; the page is settled in the same step as the request.
\<close>

subsection \<open>Texts\<close>

text \<open>The account cannot be registered\<close>

definition txtRegisterFailed :: jstr where
  "txtRegisterFailed =
    [75, 104, 244, 110, 103, 32, 116, 104, 7875, 32, 273, 259, 110, 103, 32, 107, 253, 32, 116,
     224, 105, 32, 107, 104, 111, 7843, 110, 32, 116, 104, 432, 7901, 110, 103, 46]"

text \<open>Signing in with the account failed\<close>

definition txtLoginFailed :: jstr where
  "txtLoginFailed =
    [75, 104, 244, 110, 103, 32, 116, 104, 7875, 32, 273, 259, 110, 103, 32, 110, 104, 7853,
     112, 32, 98, 7857, 110, 103, 32, 116, 224, 105, 32, 107, 104, 111, 7843, 110, 32, 116, 104,
     432, 7901, 110, 103, 46]"

text \<open>Enter the email\<close>

definition txtEmailRequired :: jstr where
  "txtEmailRequired =
    [86, 117, 105, 32, 108, 242, 110, 103, 32, 110, 104, 7853, 112, 32, 101, 109, 97, 105, 108]"

text \<open>Enter the user name\<close>

definition txtUsernameRequired :: jstr where
  "txtUsernameRequired =
    [86, 117, 105, 32, 108, 242, 110, 103, 32, 110, 104, 7853, 112, 32, 117, 115, 101, 114, 110,
     97, 109, 101]"

text \<open>Enter the display name\<close>

definition txtNameRequired :: jstr where
  "txtNameRequired =
    [86, 117, 105, 32, 108, 242, 110, 103, 32, 110, 104, 7853, 112, 32, 116, 234, 110, 32, 104,
     105, 7875, 110, 32, 116, 104, 7883]"

text \<open>Enter the password\<close>

definition txtPasswordRequired :: jstr where
  "txtPasswordRequired =
    [86, 117, 105, 32, 108, 242, 110, 103, 32, 110, 104, 7853, 112, 32, 109, 7853, 116, 32, 107,
     104, 7849, 117]"

text \<open>Confirm the password\<close>

definition txtConfirmRequired :: jstr where
  "txtConfirmRequired =
    [86, 117, 105, 32, 108, 242, 110, 103, 32, 120, 225, 99, 32, 110, 104, 7853, 110, 32, 109,
     7853, 116, 32, 107, 104, 7849, 117]"

text \<open>The passwords differ\<close>

definition txtPasswordMismatch :: jstr where
  "txtPasswordMismatch =
    [77, 7853, 116, 32, 107, 104, 7849, 117, 32, 120, 225, 99, 32, 110, 104, 7853, 110, 32, 107,
     104, 244, 110, 103, 32, 107, 104, 7899, 112]"

subsection \<open>The guard and the start\<close>

datatype route_view = BlankView | AuthView | ChatView

definition ProtectedRoute :: "client \<Rightarrow> route_view" where
  "ProtectedRoute c =
     (if cl_isHydrating c then BlankView else if \<not> cl_isAuthenticated c then AuthView else ChatView)"

definition toAuthErrorMessage :: "jstr option \<Rightarrow> jstr option" where
  "toAuthErrorMessage authError =
     (if authError = Some (js ''google_auth_cancelled'') then Some (js ''Google login was cancelled. Please try again.'')
      else if authError = Some (js ''oauth_failed'') then Some (js ''Google login failed. Please try again.'')
      else None)"

text \<open>The two effects of \<open>AuthBootstrap\<close>; the second result asks for the address to be cleaned.\<close>

definition AuthBootstrap :: "jstr option \<Rightarrow> client \<Rightarrow> client \<times> bool" where
  "AuthBootstrap authError c =
     (let c' = clientStep Hydrate c in
      case toAuthErrorMessage authError of
        None \<Rightarrow> (c', False)
      | Some m \<Rightarrow> (clientStep (ShowError (Some m)) c', True))"

subsection \<open>The forms\<close>

datatype form_mode = GoogleMode | LoginMode | RegisterMode

record register_form =
  rf_email :: jstr
  rf_username :: jstr
  rf_displayName :: jstr
  rf_password :: jstr
  rf_confirmPassword :: jstr

record login_form =
  lf_email :: jstr
  lf_password :: jstr

text \<open>The rules of the forms: the first message of each field that breaks one.\<close>

definition required :: "jstr \<Rightarrow> jstr \<Rightarrow> jstr list" where
  "required value explanation = (if value = [] then [explanation] else [])"

definition registerFormErrors :: "register_form \<Rightarrow> jstr list" where
  "registerFormErrors f =
     required (rf_email f) txtEmailRequired @ required (rf_username f) txtUsernameRequired @
     required (rf_displayName f) txtNameRequired @ required (rf_password f) txtPasswordRequired @
     required (rf_confirmPassword f) txtConfirmRequired @
     (if rf_confirmPassword f = [] \<or> rf_password f = rf_confirmPassword f then [] else [txtPasswordMismatch])"

definition loginFormErrors :: "login_form \<Rightarrow> jstr list" where
  "loginFormErrors f = required (lf_email f) txtEmailRequired @ required (lf_password f) txtPasswordRequired"

record auth_page =
  ap_client :: client
  ap_mode :: form_mode
  ap_submitting :: bool
  ap_request :: "(nat \<times> form_mode) option"

definition newAuthPage :: "client \<Rightarrow> auth_page" where
  "newAuthPage c = \<lparr>ap_client = c, ap_mode = GoogleMode, ap_submitting = False, ap_request = None\<rparr>"

definition switchMode :: "form_mode \<Rightarrow> auth_page \<Rightarrow> auth_page" where
  "switchMode nextMode p = p\<lparr>ap_client := clientStep (ShowError None) (ap_client p), ap_mode := nextMode\<rparr>"

text \<open>A button that is loading does not submit.\<close>

definition submitForm :: "form_mode \<Rightarrow> client_event \<Rightarrow> auth_page \<Rightarrow> auth_page" where
  "submitForm mode e p =
     (let c = clientStep (ShowError None) (ap_client p) in
      p\<lparr>ap_client := clientStep e c, ap_submitting := True, ap_request := Some (cl_next c, mode)\<rparr>)"

definition handleRegister :: "register_form \<Rightarrow> auth_page \<Rightarrow> auth_page" where
  "handleRegister f p =
     (if ap_mode p \<noteq> RegisterMode \<or> ap_submitting p \<or> registerFormErrors f \<noteq> [] then p else submitForm RegisterMode Register p)"

definition handleLogin :: "login_form \<Rightarrow> auth_page \<Rightarrow> auth_page" where
  "handleLogin f p =
     (if ap_mode p \<noteq> LoginMode \<or> ap_submitting p \<or> loginFormErrors f \<noteq> [] then p else submitForm LoginMode Login p)"

text \<open>\<open>candidate.response?.data?.message ?? fallbackMessage\<close>\<close>

definition readSubmitErrorMessage :: "jstr option \<Rightarrow> form_mode \<Rightarrow> jstr" where
  "readSubmitErrorMessage responseMessage mode =
     (case responseMessage of Some m \<Rightarrow> m | None \<Rightarrow> if mode = RegisterMode then txtRegisterFailed else txtLoginFailed)"

text \<open>
  The page goes on when the request of its form has settled; \<open>said\<close> is the message of the answer, if it carries one.
\<close>

definition formSettled :: "jstr option \<Rightarrow> auth_page \<Rightarrow> auth_page" where
  "formSettled said p =
     (case ap_request p of
        None \<Rightarrow> p
      | Some (i, mode) \<Rightarrow>
          (case cl_phase (ap_client p) i of
             Settled _ \<Rightarrow> p\<lparr>ap_submitting := False, ap_request := None\<rparr>
           | Rejected _ \<Rightarrow>
               p\<lparr>ap_client := clientStep (ShowError (Some (readSubmitErrorMessage said mode))) (ap_client p),
                 ap_submitting := False, ap_request := None\<rparr>
           | _ \<Rightarrow> p))"

datatype auth_event = ModePressed form_mode | RegisterPressed register_form | LoginPressed login_form
  | ClientEvent "jstr option" client_event

fun authStep :: "auth_event \<Rightarrow> auth_page \<Rightarrow> auth_page" where
  "authStep (ModePressed m) p = switchMode m p"
| "authStep (RegisterPressed f) p = handleRegister f p"
| "authStep (LoginPressed f) p = handleLogin f p"
| "authStep (ClientEvent said e) p = formSettled said (p\<lparr>ap_client := clientStep e (ap_client p)\<rparr>)"

subsection \<open>Invariants\<close>

lemma issued_iff: "requestsOk c \<Longrightarrow> cl_phase c i \<noteq> Unissued \<longleftrightarrow> cl_sends c i \<noteq> 0"
  unfolding requestsOk_def by (cases "cl_phase c i") (metis phaseOk.simps neq0_conv less_numeral_extra(3) zero_neq_one zero_neq_numeral)+

lemma issued_stays:
  assumes "requestsOk c" "cl_phase c i \<noteq> Unissued"
  shows "cl_phase (clientStep e c) i \<noteq> Unissued"
proof (cases "cl_sends (clientStep e c) i = cl_sends c i")
  case True
  then show ?thesis using assms issued_iff requests_events by metis
next
  case False
  then show ?thesis using sends_grow [OF assms(1) False] assms issued_iff by fastforce
qed

definition pageOk :: "auth_page \<Rightarrow> bool" where
  "pageOk p \<longleftrightarrow> sessionState (ap_client p) \<and> requestsOk (ap_client p) \<and>
     (ap_submitting p \<longleftrightarrow> ap_request p \<noteq> None) \<and>
     (\<forall>i m. ap_request p = Some (i, m) \<longrightarrow> cl_phase (ap_client p) i \<noteq> Unissued \<and> \<not> closed (cl_phase (ap_client p) i))"

lemma formSettled_ok:
  assumes "sessionState (ap_client p)" "requestsOk (ap_client p)" "ap_submitting p \<longleftrightarrow> ap_request p \<noteq> None"
    and "\<And>i m. ap_request p = Some (i, m) \<Longrightarrow> cl_phase (ap_client p) i \<noteq> Unissued"
  shows "pageOk (formSettled said p)"
  using assms by (auto simp: formSettled_def pageOk_def split: option.split phase.split)

lemma submitForm_ok:
  assumes "pageOk p" "e \<in> {Register, Login}"
  shows "pageOk (submitForm m e p)"
  using assms session_events requests_events
  by (auto simp: pageOk_def submitForm_def Let_def issue_def sendRequest_def requests_issue)

lemma switchMode_ok: "pageOk p \<Longrightarrow> pageOk (switchMode m p)"
  by (auto simp: switchMode_def pageOk_def)

lemma authStep_ok: "pageOk p \<Longrightarrow> pageOk (authStep e p)"
proof (cases e)
  case (ClientEvent said ev)
  assume ok: "pageOk p"
  show ?thesis unfolding ClientEvent authStep.simps
    by (rule formSettled_ok) (use ok session_events requests_events issued_stays in \<open>auto simp: pageOk_def\<close>)
qed (simp_all add: switchMode_ok handleRegister_def handleLogin_def submitForm_ok)

interpretation auth_page: event_invariant authStep pageOk
  by unfold_locales (rule authStep_ok)

lemma newAuthPage_ok: "stored \<noteq> Some [] \<Longrightarrow> pageOk (newAuthPage (newClient stored))"
  by (simp add: pageOk_def newAuthPage_def newClient_ok newClient_requests)

subsection \<open>Properties\<close>

text \<open>
  The spinner of a form turns only while an answer is outstanding: the request of the form is on the network, or it
  waits for the shared refresh, which is.
\<close>

theorem form_waits_for_answer:
  assumes "stored \<noteq> Some []" "p = fold authStep es (newAuthPage (newClient stored))" "ap_submitting p"
  shows "\<exists>i m. ap_request p = Some (i, m) \<and>
    (inNetwork (ap_client p) i \<or> isWaiting (ap_client p) i \<and> (\<exists>r. isSharedRefresh (cl_phase (ap_client p) r)))"
proof -
  have ok: "pageOk p" using auth_page.along [OF newAuthPage_ok [OF assms(1)]] assms(2) by simp
  then obtain i m where r: "ap_request p = Some (i, m)" "cl_phase (ap_client p) i \<noteq> Unissued" "\<not> closed (cl_phase (ap_client p) i)"
    and reqs: "requestsOk (ap_client p)"
    using assms(3) by (auto simp: pageOk_def)
  show ?thesis
  proof (cases "cl_phase (ap_client p) i")
    case (Waiting rq f)
    then have "cl_refreshPromise (ap_client p) \<noteq> None" using reqs by (fastforce simp: requestsOk_def isWaiting_def)
    then show ?thesis using r(1) Waiting reqs by (auto simp: requestsOk_def isWaiting_def)
  qed (use r in \<open>auto simp: inNetwork_def\<close>)
qed

text \<open>The chat page is shown to a signed-in user with a token and to nobody else.\<close>

theorem chat_needs_session:
  assumes "stored \<noteq> Some []" "c = fold clientStep es (newClient stored)" "ProtectedRoute c = ChatView"
  shows "\<exists>user token. cl_currentUser c = Some user \<and> cl_storeToken c = Some token"
proof -
  have "sessionState c" using session.along newClient_ok [OF assms(1)] assms(2) by simp
  then show ?thesis using assms(3) by (auto simp: ProtectedRoute_def sessionState_def split: if_splits)
qed

text \<open>A form that fails tells the message of the answer, or its own.\<close>

lemma failed_form_tells:
  assumes "ap_request p = Some (i, m)" "cl_phase (clientStep e (ap_client p)) i = Rejected f"
  shows "cl_errorMessage (ap_client (authStep (ClientEvent said e) p)) = Some (readSubmitErrorMessage said m)"
  using assms by (simp add: formSettled_def)

end
