(* ===== verification/ClientSocket.thy ===== *)
theory ClientSocket
  imports ClientPage
begin

text \<open>
  The realtime connection of the web client, \<open>services/chat-socket.service.ts\<close>, with the effect of
  \<open>features/chat/chat.page.tsx\<close> that keeps the subscription of the open conversation. The library below it is
  seen through its events: it connects, disconnects, reports a failed connection, announces a new attempt and
  answers calls. A call that finds no connection waits; it is attached to the socket it waits for, and waits for
  at most five seconds.
\<close>

subsection \<open>State\<close>

datatype socket_call =
    JoinCall jstr
  | LeaveCall jstr
  | SendCall jstr jstr "jstr option"
  | ReadCall jstr
  | TypingCall jstr bool

text \<open>Who made a call: the handler of a new connection, the two steps of the subscription effect, or other code.\<close>

datatype caller = Rejoin | SyncLeave jstr | SyncJoin jstr | Other

datatype auth_source = AskEachTime | FixedToken "jstr option"

record sio_socket =
  sio_connected :: bool
  sio_active :: bool
  sio_auth :: auth_source

record waiter =
  wt_caller :: caller
  wt_call :: socket_call
  wt_attached :: bool

record socket_client =
  sk_socket :: "sio_socket option"
  sk_connectionState :: connection_state
  sk_activeConversationId :: "jstr option"
  sk_waiting :: "waiter list"
  sk_unanswered :: "(caller \<times> socket_call) list"
  sk_emitted :: "socket_call list"
  sk_errors :: "string list"
  sk_joinedConversation :: "jstr option"

definition newSocketClient :: socket_client where
  "newSocketClient = \<lparr>sk_socket = None, sk_connectionState = Disconnected, sk_activeConversationId = None, sk_waiting = [],
     sk_unanswered = [], sk_emitted = [], sk_errors = [], sk_joinedConversation = None\<rparr>"

subsection \<open>The service\<close>

definition setConnectionState :: "connection_state \<Rightarrow> socket_client \<Rightarrow> socket_client" where
  "setConnectionState k c = c\<lparr>sk_connectionState := k\<rparr>"

definition reportError :: "string \<Rightarrow> socket_client \<Rightarrow> socket_client" where
  "reportError code c = c\<lparr>sk_errors := sk_errors c @ [code]\<rparr>"

definition updateAuth :: "jstr option \<Rightarrow> socket_client \<Rightarrow> socket_client" where
  "updateAuth token c = c\<lparr>sk_socket := map_option (\<lambda>s. s\<lparr>sio_auth := FixedToken token\<rparr>) (sk_socket c)\<rparr>"

definition startConnecting :: "socket_client \<Rightarrow> socket_client" where
  "startConnecting c = c\<lparr>sk_socket := map_option (\<lambda>s. s\<lparr>sio_active := True\<rparr>) (sk_socket c)\<rparr>"

definition connect :: "jstr option \<Rightarrow> socket_client \<Rightarrow> socket_client" where
  "connect token c =
     (case sk_socket c of
        Some s \<Rightarrow> if sio_connected s then c else startConnecting (updateAuth token c)
      | None \<Rightarrow>
          startConnecting ((setConnectionState Connecting c)\<lparr>sk_socket :=
            Some \<lparr>sio_connected = False, sio_active = False, sio_auth = AskEachTime\<rparr>\<rparr>))"

definition disconnect :: "socket_client \<Rightarrow> socket_client" where
  "disconnect c =
     setConnectionState Disconnected (c\<lparr>sk_activeConversationId := None, sk_socket := None,
       sk_waiting := map (\<lambda>w. w\<lparr>wt_attached := False\<rparr>) (sk_waiting c)\<rparr>)"

definition emitCall :: "caller \<Rightarrow> socket_call \<Rightarrow> socket_client \<Rightarrow> socket_client" where
  "emitCall who call c = c\<lparr>sk_emitted := sk_emitted c @ [call], sk_unanswered := sk_unanswered c @ [(who, call)]\<rparr>"

text \<open>
  \<open>emitWithAck\<close> up to where it waits: \<open>waitForConnection\<close> rejects without a socket, goes on at once on an open
  connection, and waits otherwise.
\<close>

definition emitWithAck :: "jstr option \<Rightarrow> caller \<Rightarrow> socket_call \<Rightarrow> socket_client \<Rightarrow> socket_client" where
  "emitWithAck token who call c =
     (case sk_socket c of
        None \<Rightarrow> reportError ''SOCKET_NOT_READY'' c
      | Some s \<Rightarrow>
          if sio_connected s then emitCall who call c
          else
            let c' = (if sio_active s then c else startConnecting (updateAuth token c)) in
            c'\<lparr>sk_waiting := sk_waiting c' @ [\<lparr>wt_caller = who, wt_call = call, wt_attached = True\<rparr>]\<rparr>)"

definition joinConversation :: "jstr option \<Rightarrow> caller \<Rightarrow> jstr \<Rightarrow> socket_client \<Rightarrow> socket_client" where
  "joinConversation token who conversationId c =
     emitWithAck token who (JoinCall conversationId) (c\<lparr>sk_activeConversationId := Some conversationId\<rparr>)"

definition leaveSubscription :: "jstr option \<Rightarrow> caller \<Rightarrow> jstr \<Rightarrow> socket_client \<Rightarrow> socket_client" where
  "leaveSubscription token who conversationId c =
     emitWithAck token who (LeaveCall conversationId)
       (if sk_activeConversationId c = Some conversationId then c\<lparr>sk_activeConversationId := None\<rparr> else c)"

definition otherCall :: "jstr option \<Rightarrow> socket_call \<Rightarrow> socket_client \<Rightarrow> socket_client" where
  "otherCall token call c = emitWithAck token Other call c"

subsection \<open>The library's events\<close>

text \<open>The listeners run in the order of their registration: the handler of the service, then those of the waiting calls.\<close>

definition onConnect :: "jstr option \<Rightarrow> socket_client \<Rightarrow> socket_client" where
  "onConnect token c =
     (case sk_socket c of
        None \<Rightarrow> c
      | Some s \<Rightarrow>
          let c\<^sub>1 = setConnectionState Connected (c\<lparr>sk_socket := Some (s\<lparr>sio_connected := True, sio_active := True\<rparr>)\<rparr>);
              c\<^sub>2 = (case sk_activeConversationId c\<^sub>1 of
                      None \<Rightarrow> c\<^sub>1 | Some a \<Rightarrow> if a = [] then c\<^sub>1 else joinConversation token Rejoin a c\<^sub>1);
              ready = filter wt_attached (sk_waiting c\<^sub>2)
          in fold (\<lambda>w. emitCall (wt_caller w) (wt_call w)) ready
               (c\<^sub>2\<lparr>sk_waiting := filter (\<lambda>w. \<not> wt_attached w) (sk_waiting c\<^sub>2)\<rparr>))"

definition onDisconnect :: "bool \<Rightarrow> socket_client \<Rightarrow> socket_client" where
  "onDisconnect stillActive c =
     (case sk_socket c of
        None \<Rightarrow> c
      | Some s \<Rightarrow>
          (setConnectionState Disconnected (c\<lparr>sk_socket := Some (s\<lparr>sio_connected := False, sio_active := stillActive\<rparr>)\<rparr>))
            \<lparr>sk_waiting := filter (\<lambda>w. \<not> wt_attached w) (sk_waiting c)\<rparr>)"

definition onConnectError :: "bool \<Rightarrow> string option \<Rightarrow> socket_client \<Rightarrow> socket_client" where
  "onConnectError stillActive dataCode c =
     (case sk_socket c of
        None \<Rightarrow> c
      | Some s \<Rightarrow>
          let c\<^sub>1 = setConnectionState (if stillActive then Reconnecting else Disconnected)
                (c\<lparr>sk_socket := Some (s\<lparr>sio_connected := False, sio_active := stillActive\<rparr>)\<rparr>);
              c\<^sub>2 = reportError (case dataCode of None \<Rightarrow> ''CONNECTION_ERROR'' | Some code \<Rightarrow> code) c\<^sub>1
          in c\<^sub>2\<lparr>sk_waiting := filter (\<lambda>w. \<not> wt_attached w) (sk_waiting c\<^sub>2)\<rparr>)"

definition onReconnectAttempt :: "jstr option \<Rightarrow> socket_client \<Rightarrow> socket_client" where
  "onReconnectAttempt token c =
     (case sk_socket c of None \<Rightarrow> c | Some _ \<Rightarrow> setConnectionState Reconnecting (updateAuth token c))"

subsection \<open>The subscription of the open conversation\<close>

definition syncConversationSubscription :: "jstr option \<Rightarrow> jstr option \<Rightarrow> socket_client \<Rightarrow> socket_client" where
  "syncConversationSubscription token selected c =
     (case selected of
        None \<Rightarrow> c
      | Some next \<Rightarrow>
          if next = [] \<or> sk_joinedConversation c = Some next then c
          else case sk_joinedConversation c of
            None \<Rightarrow> joinConversation token (SyncJoin next) next c
          | Some previous \<Rightarrow>
              if previous = [] then joinConversation token (SyncJoin next) next c
              else leaveSubscription token (SyncLeave next) previous c)"

text \<open>The answer to a call goes back to whoever waits for it.\<close>

datatype socket_answer = Accepted | Refused string | NoAnswer

definition onAnswer :: "jstr option \<Rightarrow> nat \<Rightarrow> socket_answer \<Rightarrow> socket_client \<Rightarrow> socket_client" where
  "onAnswer token n answer c =
     (if length (sk_unanswered c) \<le> n then c
      else
        let who = fst (sk_unanswered c ! n);
            c' = c\<lparr>sk_unanswered := take n (sk_unanswered c) @ drop (Suc n) (sk_unanswered c)\<rparr> in
        case answer of
          Refused code \<Rightarrow> reportError code c'
        | NoAnswer \<Rightarrow> c'
        | Accepted \<Rightarrow>
            (case who of
               SyncLeave next \<Rightarrow> joinConversation token (SyncJoin next) next c'
             | SyncJoin next \<Rightarrow> c'\<lparr>sk_joinedConversation := Some next\<rparr>
             | _ \<Rightarrow> c'))"

definition onTimeout :: "nat \<Rightarrow> socket_client \<Rightarrow> socket_client" where
  "onTimeout n c = c\<lparr>sk_waiting := take n (sk_waiting c) @ drop (Suc n) (sk_waiting c)\<rparr>"

subsection \<open>Events\<close>

datatype socket_event =
    ConnectCalled | DisconnectCalled | OtherCalled socket_call | SelectionChanged "jstr option"
  | LibConnected | LibDisconnected bool | LibConnectError bool "string option" | LibReconnectAttempt
  | StatusChanged connection_state | Answered nat socket_answer | TimedOut nat

fun socketStep :: "jstr option \<Rightarrow> socket_event \<Rightarrow> socket_client \<Rightarrow> socket_client" where
  "socketStep token ConnectCalled c = connect token c"
| "socketStep token DisconnectCalled c = disconnect c"
| "socketStep token (OtherCalled call) c = otherCall token call c"
| "socketStep token (SelectionChanged s) c = syncConversationSubscription token s c"
| "socketStep token LibConnected c = onConnect token c"
| "socketStep token (LibDisconnected b) c = onDisconnect b c"
| "socketStep token (LibConnectError b code) c = onConnectError b code c"
| "socketStep token LibReconnectAttempt c = onReconnectAttempt token c"
| "socketStep token (StatusChanged k) c = (case sk_socket c of None \<Rightarrow> c | Some _ \<Rightarrow> setConnectionState k c)"
| "socketStep token (Answered n answer) c = onAnswer token n answer c"
| "socketStep token (TimedOut n) c = onTimeout n c"

subsection \<open>Waiting calls\<close>

text \<open>A call waits for a socket only while that socket is trying to connect.\<close>

definition waitersOk :: "socket_client \<Rightarrow> bool" where
  "waitersOk c \<longleftrightarrow> (\<exists>w\<in>set (sk_waiting c). wt_attached w) \<longrightarrow>
     (\<exists>s. sk_socket c = Some s \<and> \<not> sio_connected s \<and> sio_active s)"

lemma waiters_emit: "waitersOk c \<Longrightarrow> waitersOk (emitWithAck token who call c)"
  by (auto simp: waitersOk_def emitWithAck_def emitCall_def reportError_def startConnecting_def updateAuth_def Let_def split: option.split)

lemma waiters_fields [simp]:
  "waitersOk (c\<lparr>sk_activeConversationId := a\<rparr>) = waitersOk c" "waitersOk (c\<lparr>sk_joinedConversation := a\<rparr>) = waitersOk c"
  "waitersOk (c\<lparr>sk_unanswered := u\<rparr>) = waitersOk c" "waitersOk (reportError code c) = waitersOk c"
  "waitersOk (setConnectionState k c) = waitersOk c"
  by (simp_all add: waitersOk_def reportError_def setConnectionState_def)

lemma waiters_calls:
  "waitersOk c \<Longrightarrow> waitersOk (joinConversation token who a c)" "waitersOk c \<Longrightarrow> waitersOk (leaveSubscription token who a c)"
  "waitersOk c \<Longrightarrow> waitersOk (syncConversationSubscription token selected c)"
proof -
  show join: "waitersOk c \<Longrightarrow> waitersOk (joinConversation token who a c)" for who a
    by (simp add: joinConversation_def waiters_emit)
  show leave: "waitersOk c \<Longrightarrow> waitersOk (leaveSubscription token who a c)" for who a
    by (simp add: leaveSubscription_def waiters_emit)
  show "waitersOk c \<Longrightarrow> waitersOk (syncConversationSubscription token selected c)"
    by (simp add: syncConversationSubscription_def join leave split: option.split)
qed

lemma fold_emit:
  "sk_waiting (fold (\<lambda>w. emitCall (wt_caller w) (wt_call w)) ws c) = sk_waiting c"
  "sk_emitted (fold (\<lambda>w. emitCall (wt_caller w) (wt_call w)) ws c) = sk_emitted c @ map wt_call ws"
  "sk_connectionState (fold (\<lambda>w. emitCall (wt_caller w) (wt_call w)) ws c) = sk_connectionState c"
  "sk_activeConversationId (fold (\<lambda>w. emitCall (wt_caller w) (wt_call w)) ws c) = sk_activeConversationId c"
  by (induction ws arbitrary: c) (simp_all add: emitCall_def)

lemma waiters_none: "(\<forall>w\<in>set (sk_waiting c). \<not> wt_attached w) \<Longrightarrow> waitersOk c"
  by (simp add: waitersOk_def)

lemma in_take_drop: "x \<in> set (take n xs @ drop m xs) \<Longrightarrow> x \<in> set xs"
  by (auto dest: in_set_takeD in_set_dropD)

lemma waiters_event: "waitersOk c \<Longrightarrow> waitersOk (socketStep token e c)"
proof -
  assume ok: "waitersOk c"
  show ?thesis
  proof (cases e)
    case ConnectCalled
    with ok show ?thesis
      by (auto simp: connect_def startConnecting_def updateAuth_def waitersOk_def setConnectionState_def split: option.split)
  next
    case DisconnectCalled
    then show ?thesis by (simp add: disconnect_def) (rule waiters_none, simp)
  next
    case LibConnected
    with ok show ?thesis
      by (cases "sk_socket c") (simp add: onConnect_def, simp add: onConnect_def Let_def, rule waiters_none, simp add: fold_emit)
  next
    case (LibDisconnected b)
    with ok show ?thesis
      by (auto simp: onDisconnect_def waitersOk_def setConnectionState_def split: option.split)
  next
    case (LibConnectError b code)
    with ok show ?thesis
      by (auto simp: onConnectError_def waitersOk_def reportError_def setConnectionState_def Let_def split: option.split)
  next
    case LibReconnectAttempt
    with ok show ?thesis by (auto simp: onReconnectAttempt_def updateAuth_def waitersOk_def setConnectionState_def split: option.split)
  next
    case (TimedOut n)
    with ok in_take_drop [of _ n "sk_waiting c" "Suc n"] show ?thesis by (fastforce simp: onTimeout_def waitersOk_def)
  qed (use ok in \<open>simp_all add: otherCall_def waiters_emit waiters_calls onAnswer_def Let_def split: option.split socket_answer.split caller.split\<close>)
qed

interpretation waiters: event_invariant "socketStep token" waitersOk for token
  by unfold_locales (rule waiters_event)

subsection \<open>Every connection takes the subscription up again\<close>

text \<open>
  C21: the client recovers from lost connections. In every run a call waits only for a socket that is trying to
  connect; and whenever the connection comes up the client is in the connected state, has asked first of all to
  join its active conversation again, if there is one, and has then sent every call that was waiting, in the order in
  which they were made, so that none of them waits any longer.
\<close>

theorem connection_restores_subscription:
  assumes "c = fold (socketStep token) es newSocketClient" "sk_socket c = Some s"
  shows "((\<exists>w\<in>set (sk_waiting c). wt_attached w) \<longrightarrow> \<not> sio_connected s \<and> sio_active s) \<and>
    sk_connectionState (socketStep token LibConnected c) = Connected \<and>
    sk_activeConversationId (socketStep token LibConnected c) = sk_activeConversationId c \<and>
    sk_emitted (socketStep token LibConnected c) = sk_emitted c @
      (case sk_activeConversationId c of None \<Rightarrow> [] | Some a \<Rightarrow> if a = [] then [] else [JoinCall a]) @
      map wt_call (filter wt_attached (sk_waiting c)) \<and>
    (\<forall>w\<in>set (sk_waiting (socketStep token LibConnected c)). \<not> wt_attached w)"
proof -
  have "waitersOk newSocketClient" by (simp add: waitersOk_def newSocketClient_def)
  from waiters.along [OF this] assms(1) have "waitersOk c" by simp
  with assms(2) show ?thesis
    by (auto simp: waitersOk_def onConnect_def fold_emit setConnectionState_def joinConversation_def emitWithAck_def emitCall_def
        Let_def split: option.split)
qed

lemmas socket_defs = newSocketClient_def connect_def startConnecting_def updateAuth_def setConnectionState_def onConnect_def
  onDisconnect_def joinConversation_def leaveSubscription_def emitWithAck_def emitCall_def syncConversationSubscription_def onAnswer_def
  onTimeout_def

theorem connection_restores_subscription_witness:
  "sk_emitted (fold (socketStep None) [ConnectCalled, LibConnected, SelectionChanged (Some [1]), Answered 0 Accepted,
     LibDisconnected True, OtherCalled (ReadCall [1]), LibConnected] newSocketClient) = [JoinCall [1], JoinCall [1], ReadCall [1]]"
proof -
  let ?es = "[ConnectCalled, LibConnected, SelectionChanged (Some [1]), Answered 0 Accepted, LibDisconnected True,
      OtherCalled (ReadCall [1])]"
  have "\<exists>s. sk_socket (fold (socketStep None) ?es newSocketClient) = Some s"
    "sk_activeConversationId (fold (socketStep None) ?es newSocketClient) = Some [1]"
    "sk_emitted (fold (socketStep None) ?es newSocketClient) = [JoinCall [1]]"
    "map wt_call (filter wt_attached (sk_waiting (fold (socketStep None) ?es newSocketClient))) = [ReadCall [1]]"
    by (simp_all add: socket_defs otherCall_def Let_def)
  with connection_restores_subscription [OF refl, of None ?es] show ?thesis by auto
qed

text \<open>
  Leaving a conversation may fail, for instance because the connection is down for more than five seconds. The effect
  then never joins the conversation that was opened instead, and neither does the next connection.
\<close>

theorem failed_leave_blocks_join:
  "let c = fold (socketStep None) [ConnectCalled, LibConnected, SelectionChanged (Some [1]), Answered 0 Accepted,
       LibDisconnected True, SelectionChanged (Some [2]), TimedOut 0, LibConnected] newSocketClient in
   sk_connectionState c = Connected \<and> sk_emitted c = [JoinCall [1]] \<and> sk_activeConversationId c = None \<and> sk_waiting c = []"
  by (simp add: socket_defs Let_def)

end
