(* ===== verification/ClientUploads.thy ===== *)
theory ClientUploads
  imports ClientSocket
begin

text \<open>
  The calls of the chat page that leave the server aside or wait on it with a limit: the upload of a file to the object
  store and what the page tells of its failure (\<open>services/chat-attachment.service.ts\<close>), and the socket of the
  assistant (\<open>services/ai.service.ts\<close>). The object store answers with any text; the patterns that look into its XML
  are functions that scan the text as the regular expressions do. The events of the socket library are those of the
  assistant's name space.
\<close>

subsection \<open>Texts\<close>

text \<open>No valid answer came from the upload service\<close>

definition txtNoValidAnswer :: jstr where
  "txtNoValidAnswer =
    [75, 104, 244, 110, 103, 32, 110, 104, 7853, 110, 32, 273, 432, 7907, 99, 32, 112, 104,
     7843, 110, 32, 104, 7891, 105, 32, 104, 7907, 112, 32, 108, 7879, 32, 116, 7915, 32, 100,
     7883, 99, 104, 32, 118, 7909, 32, 117, 112, 108, 111, 97, 100, 46]"

text \<open>The browser cannot reach the object store\<close>

definition txtCannotReachStore :: jstr where
  "txtCannotReachStore =
    [84, 114, 236, 110, 104, 32, 100, 117, 121, 7879, 116, 32, 107, 104, 244, 110, 103, 32, 116,
     104, 7875, 32, 107, 7871, 116, 32, 110, 7889, 105, 32, 116, 7899, 105, 32, 82, 50, 46, 32,
     72, 227, 121, 32, 107, 105, 7875, 109, 32, 116, 114, 97, 32, 67, 79, 82, 83, 32, 98, 117,
     99, 107, 101, 116, 44, 32, 112, 114, 101, 115, 105, 103, 110, 101, 100, 32, 85, 82, 76, 32,
     99, 242, 110, 32, 104, 7841, 110, 44, 32, 118, 224, 32, 109, 7841, 110, 103, 46]"

text \<open>The upload service answers with the HTTP error\<close>

definition txtUploadHttpError :: jstr where
  "txtUploadHttpError =
    [68, 7883, 99, 104, 32, 118, 7909, 32, 117, 112, 108, 111, 97, 100, 32, 116, 114, 7843, 32,
     118, 7873, 32, 108, 7895, 105, 32, 72, 84, 84, 80, 32]"

text \<open>The upload failed\<close>

definition txtUploadFailedPlain :: jstr where
  "txtUploadFailedPlain =
    [85, 112, 108, 111, 97, 100, 32, 116, 104, 7845, 116, 32, 98, 7841, 105, 46]"

text \<open>The upload service gives no error text\<close>

definition txtNoErrorText :: jstr where
  "txtNoErrorText =
    [68, 7883, 99, 104, 32, 118, 7909, 32, 117, 112, 108, 111, 97, 100, 32, 107, 104, 244, 110,
     103, 32, 116, 114, 7843, 32, 118, 7873, 32, 110, 7897, 105, 32, 100, 117, 110, 103, 32, 108,
     7895, 105, 46]"

text \<open>The object store gives an XML error without readable content\<close>

definition txtUnreadableXml :: jstr where
  "txtUnreadableXml =
    [82, 50, 32, 116, 114, 7843, 32, 118, 7873, 32, 108, 7895, 105, 32, 88, 77, 76, 32, 110,
     104, 432, 110, 103, 32, 107, 104, 244, 110, 103, 32, 273, 7885, 99, 32, 273, 432, 7907, 99,
     32, 110, 7897, 105, 32, 100, 117, 110, 103, 32, 99, 104, 105, 32, 116, 105, 7871, 116, 46]"

subsection \<open>Upload errors\<close>

text \<open>A dot of a regular expression matches everything but these.\<close>

definition lineTerminator :: "jchar \<Rightarrow> bool" where
  "lineTerminator c \<longleftrightarrow> c \<in> {0xA, 0xD, 0x2028, 0x2029}"

text \<open>The shortest text before \<open>close\<close>, within one line.\<close>

fun lazyUntil :: "jstr \<Rightarrow> jstr \<Rightarrow> jstr option" where
  "lazyUntil close [] = (if close = [] then Some [] else None)"
| "lazyUntil close (c # s) =
     (if startsWith close (c # s) then Some []
      else if lineTerminator c then None
      else map_option (Cons c) (lazyUntil close s))"

text \<open>The first match of \<open>/<Tag>(.*?)<\/Tag>/\<close>.\<close>

fun tagMatch :: "jstr \<Rightarrow> jstr \<Rightarrow> jstr option" where
  "tagMatch tag [] = None"
| "tagMatch tag (c # s) =
     (let start = 0x3C # tag @ [0x3E] in
      if startsWith start (c # s)
      then (case lazyUntil ([0x3C, 0x2F] @ tag @ [0x3E]) (drop (length start) (c # s)) of
              Some content \<Rightarrow> Some content
            | None \<Rightarrow> tagMatch tag s)
      else tagMatch tag s)"

definition segment :: "jstr \<Rightarrow> jstr option \<Rightarrow> jstr" where
  "segment label value = (case value of None \<Rightarrow> [] | Some v \<Rightarrow> if v = [] then [] else label @ v @ js ''.'')"

fun joinSpaced :: "jstr list \<Rightarrow> jstr" where
  "joinSpaced [] = []"
| "joinSpaced [s] = s"
| "joinSpaced (s # t # rest) = s @ js '' '' @ joinSpaced (t # rest)"

definition extractUploadErrorMessage :: "jstr \<Rightarrow> jstr \<Rightarrow> jstr" where
  "extractUploadErrorMessage payload contentType =
     (let trimmed = trim payload in
      if trimmed = [] then txtNoErrorText
      else if includesStr (js ''xml'') contentType \<or> startsWith (js ''<?xml'') trimmed \<or> startsWith (js ''<Error>'') trimmed
      then
        (let code = map_option trim (tagMatch (js ''Code'') trimmed);
             explanation = map_option trim (tagMatch (js ''Message'') trimmed);
             requestId = map_option trim (tagMatch (js ''RequestId'') trimmed);
             segments = filter (\<lambda>s. s \<noteq> [])
               [segment (js ''R2 code: '') code, segment (js ''Message: '') explanation, segment (js ''Request ID: '') requestId];
             joined = joinSpaced segments
         in if joined = [] then txtUnreadableXml else joined)
      else if length trimmed > 300 then take 300 trimmed @ [0x2026] else trimmed)"

text \<open>What the HTTP client reports: nothing of its own, or an error with the answer, if there is one.\<close>

record http_problem =
  hp_status :: "nat option"
  hp_contentType :: "jstr option"
  hp_text :: "jstr option"
  hp_message :: jstr

record upload_error =
  ue_detailMessage :: jstr
  ue_statusCode :: "nat option"

definition buildAttachmentUploadError :: "http_problem option \<Rightarrow> upload_error" where
  "buildAttachmentUploadError problem =
     (case problem of
        None \<Rightarrow> \<lparr>ue_detailMessage = txtNoValidAnswer, ue_statusCode = None\<rparr>
      | Some e \<Rightarrow>
          \<lparr>ue_detailMessage =
             (case hp_text e of
                Some data \<Rightarrow> extractUploadErrorMessage data (case hp_contentType e of None \<Rightarrow> [] | Some c \<Rightarrow> c)
              | None \<Rightarrow>
                  if hp_message e = js ''Network Error'' then txtCannotReachStore
                  else case hp_status e of
                      Some status \<Rightarrow>
                        if status \<noteq> 0 then txtUploadHttpError @ showNat status @ js ''.''
                        else if hp_message e \<noteq> [] then hp_message e else txtUploadFailedPlain
                    | None \<Rightarrow> if hp_message e \<noteq> [] then hp_message e else txtUploadFailedPlain),
           ue_statusCode = hp_status e\<rparr>)"

text \<open>The progress told for an event with \<open>loaded\<close> of \<open>outOf\<close> bytes; nothing without a total.\<close>

definition uploadPercent :: "nat \<Rightarrow> nat option \<Rightarrow> nat option" where
  "uploadPercent loaded outOf =
     (case outOf of
        None \<Rightarrow> None
      | Some t \<Rightarrow> if t = 0 then None else Some (min 100 ((200 * loaded + t) div (2 * t))))"

subsection \<open>The assistant's socket\<close>

datatype assistant_ack = AckSuggestions "jstr list" | AckError string jstr

record ai_service =
  as_connected :: "bool option"
  as_auth :: auth_source
  as_sent :: "jstr list"

text \<open>
  \<open>as_connected\<close> is \<open>None\<close> while there is no socket; \<open>as_auth\<close> says where the next
  handshake takes its token from, \<open>as_sent\<close> the
  conversations suggestions have been asked for.
\<close>

definition newAiService :: ai_service where
  "newAiService = \<lparr>as_connected = None, as_auth = AskEachTime, as_sent = []\<rparr>"

definition connectAiService :: "jstr option \<Rightarrow> jstr option \<Rightarrow> ai_service \<Rightarrow> ai_service" where
  "connectAiService enabledFlag token s =
     (if enabledFlag = Some (js ''false'') then s
      else case as_connected s of
          Some live \<Rightarrow> if live then s else s\<lparr>as_auth := FixedToken token\<rparr>
        | None \<Rightarrow> s\<lparr>as_connected := Some False, as_auth := AskEachTime\<rparr>)"

definition disconnectAiService :: "ai_service \<Rightarrow> ai_service" where
  "disconnectAiService s = s\<lparr>as_connected := None\<rparr>"

datatype suggestions_call = NoSuggestions | SuggestionsPending

definition getSuggestions :: "jstr \<Rightarrow> ai_service \<Rightarrow> suggestions_call \<times> ai_service" where
  "getSuggestions conversationId s =
     (if as_connected s \<noteq> Some True then (NoSuggestions, s)
      else (SuggestionsPending, s\<lparr>as_sent := as_sent s @ [conversationId]\<rparr>))"

text \<open>The answer to a pending call; without one in ten seconds the socket library gives an error without a code.\<close>

fun suggestionsAnswer :: "assistant_ack option \<Rightarrow> string option + jstr list" where
  "suggestionsAnswer (Some (AckSuggestions suggestions)) = Inr suggestions"
| "suggestionsAnswer (Some (AckError code _)) = Inl (Some code)"
| "suggestionsAnswer None = Inl None"

text \<open>
  \<open>requestSuggestions\<close> of the page, with what the answer does to it when nothing else happens in between; the events
  \<open>SuggestionsAsked\<close>, \<open>SuggestionsCame\<close> and \<open>SuggestionsLost\<close> of the page are its parts.
\<close>

definition requestSuggestions ::
    "jstr \<Rightarrow> int \<Rightarrow> bool \<Rightarrow> assistant_ack option \<Rightarrow> ai_service \<Rightarrow> page \<Rightarrow> ai_service \<times> page" where
  "requestSuggestions conversationId baseMessageCount showLoading answer s p =
     (let p' = suggestionsRequested showLoading p in
      case getSuggestions conversationId s of
        (NoSuggestions, s') \<Rightarrow> (s', suggestionsArrived conversationId baseMessageCount [] p')
      | (SuggestionsPending, s') \<Rightarrow>
          (s', case suggestionsAnswer answer of
                 Inr suggestions \<Rightarrow> suggestionsArrived conversationId baseMessageCount suggestions p'
               | Inl code \<Rightarrow> suggestionsFailed conversationId code p'))"

subsection \<open>Properties\<close>

lemma uploadPercent_bound: "uploadPercent loaded outOf = Some n \<Longrightarrow> n \<le> 100"
  by (auto simp: uploadPercent_def split: option.splits if_splits)

lemma uploadPercent_done: "0 < t \<Longrightarrow> uploadPercent t (Some t) = Some 100"
proof -
  assume "0 < t"
  then have "(200 * t + t) div (2 * t) = 100" by (simp add: div_nat_eqI)
  with \<open>0 < t\<close> show ?thesis by (simp add: uploadPercent_def)
qed

lemma joinSpaced_Nil: "joinSpaced ss = [] \<Longrightarrow> \<forall>s\<in>set ss. s \<noteq> [] \<Longrightarrow> ss = []"
  by (induction ss rule: joinSpaced.induct) auto

text \<open>
  The reason of a failed upload is never empty, and one that is not read out of XML is at most the first 300
  characters of the answer.
\<close>

lemma txt_not_empty:
  "txtNoErrorText \<noteq> []" "txtUnreadableXml \<noteq> []" "txtNoValidAnswer \<noteq> []" "txtCannotReachStore \<noteq> []"
  "txtUploadHttpError \<noteq> []" "txtUploadFailedPlain \<noteq> []"
  by (simp_all add: txtNoErrorText_def txtUnreadableXml_def txtNoValidAnswer_def txtCannotReachStore_def
      txtUploadHttpError_def txtUploadFailedPlain_def)

lemma extract_not_empty: "extractUploadErrorMessage payload contentType \<noteq> []"
  by (auto simp: extractUploadErrorMessage_def Let_def txt_not_empty)

lemma upload_failure_has_reason: "ue_detailMessage (buildAttachmentUploadError problem) \<noteq> []"
  by (auto simp: buildAttachmentUploadError_def extract_not_empty txt_not_empty split: option.split)

text \<open>Reading a tag out of an XML answer gives the text between its marks, whatever stands around it.\<close>

lemma lazyUntil_content:
  assumes "\<forall>c\<in>set content. c \<noteq> 0x3C \<and> \<not> lineTerminator c"
  shows "lazyUntil (0x3C # close) (content @ 0x3C # close @ rest) = Some content"
  using assms by (induction content) (auto simp: startsWith_def)

theorem tagMatch_content:
  assumes "\<forall>c\<in>set (before @ content). c \<noteq> 0x3C" "\<forall>c\<in>set content. \<not> lineTerminator c"
  shows "tagMatch tag (before @ (0x3C # tag @ [0x3E]) @ content @ ([0x3C, 0x2F] @ tag @ [0x3E]) @ rest) = Some content"
  using assms(1)
proof (induction before)
  case Nil
  then show ?case using lazyUntil_content [of content "0x2F # tag @ [0x3E]" rest] assms(2)
    by (simp add: startsWith_def Let_def)
qed (auto simp: startsWith_def Let_def)

text \<open>
  Asked before its socket is connected, the assistant gives no suggestions; the page keeps that as the answer and does
  not ask again when the composer is focused, until more than three messages have come.
\<close>

lemma unconnected_answer_is_kept:
  assumes "as_connected s \<noteq> Some True" "st_selectedConversationId p = Some c" "c \<noteq> []" "st_aiEnabled p"
    and "int (length (st_messages p)) - n \<le> 3"
  shows "snd (composerFocused (snd (requestSuggestions c n b a s p)) (snd (requestSuggestions c n b a s p))) = None"
    and "st_aiSuggestions (snd (requestSuggestions c n b a s p)) = []"
  using assms by (simp_all add: requestSuggestions_def getSuggestions_def composerFocused_def suggestionsArrived_def
      suggestionsRequested_def Let_def)

end
