(* ===== verification/ClientLive.thy ===== *)
theory ClientLive
  imports ClientAuthPage ClientSocket ClientUploads
begin

text \<open>
  The chat page while it is mounted: the listener sets of \<open>services/chat-socket.service.ts\<close> and
  \<open>services/ai.service.ts\<close>, the effects of \<open>features/chat/chat.page.tsx\<close> that subscribe to them, set the title of
  the window and follow the open conversation, and mounting and unmounting by \<open>app/protected-route.tsx\<close>. It puts
  the session, the socket, the assistant's socket and the page together: a rendering is an event of its own, so
  whatever arrives before it meets the listeners of the rendering before.
\<close>

subsection \<open>Listeners\<close>

text \<open>What the callbacks of a rendering read, and a listener: the rendering that made it, with what it saw.\<close>

record rendering =
  rd_me :: "jstr option"
  rd_selected :: "jstr option"
  rd_connection :: connection_state

record listener =
  ln_id :: nat
  ln_saw :: rendering

record listener_sets =
  ls_message :: "listener list"
  ls_preview :: "listener list"
  ls_connection :: "listener list"
  ls_read :: "listener list"
  ls_typing :: "listener list"
  ls_moderation :: "listener list"
  ls_error :: "listener list"
  ls_aiError :: "listener list"

definition noListeners :: listener_sets where
  "noListeners = \<lparr>ls_message = [], ls_preview = [], ls_connection = [], ls_read = [], ls_typing = [], ls_moderation = [],
     ls_error = [], ls_aiError = []\<rparr>"

definition addListener :: "listener \<Rightarrow> listener list \<Rightarrow> listener list" where
  "addListener l ls = (if l \<in> set ls then ls else ls @ [l])"

definition deleteListener :: "listener \<Rightarrow> listener list \<Rightarrow> listener list" where
  "deleteListener l = filter (\<lambda>k. k \<noteq> l)"

subsection \<open>The page on the screen\<close>

text \<open>The memoised callbacks, and a run of the subscription effect: what it subscribed, and in which mode.\<close>

record handlers =
  hd_message :: listener
  hd_preview :: listener
  hd_read :: listener
  hd_typing :: listener
  hd_error :: listener

record subscription =
  sb_handlers :: handlers
  sb_authenticated :: bool
  sb_fresh :: listener

text \<open>The page with its references and the dependencies its effects ran with.\<close>

record mounted =
  mt_page :: page
  mt_handlers :: "handlers option"
  mt_subscribed :: "subscription option"
  mt_synced :: "jstr option option"
  mt_titleOf :: "client_conversation list option"
  mt_defaultTitle :: jstr

text \<open>\<open>lv_presented\<close> is the token the open connection was made with.\<close>

record live =
  lv_client :: client
  lv_chat :: socket_client
  lv_ai :: ai_service
  lv_sets :: listener_sets
  lv_view :: "mounted option"
  lv_title :: jstr
  lv_presented :: "jstr option"
  lv_next :: nat

definition newLive :: "jstr option \<Rightarrow> jstr \<Rightarrow> live" where
  "newLive stored title = \<lparr>lv_client = newClient stored, lv_chat = newSocketClient, lv_ai = newAiService,
     lv_sets = noListeners, lv_view = None, lv_title = title, lv_presented = None, lv_next = 0\<rparr>"

text \<open>Calling the listeners of a set; what they do to a page that is gone is nothing.\<close>

definition tell :: "(rendering \<Rightarrow> page \<Rightarrow> page) \<Rightarrow> listener list \<Rightarrow> live \<Rightarrow> live" where
  "tell f ls s =
     s\<lparr>lv_view := map_option (\<lambda>v. v\<lparr>mt_page := fold (\<lambda>l. f (ln_saw l)) ls (mt_page v)\<rparr>) (lv_view s)\<rparr>"

subsection \<open>The socket and its listeners\<close>

text \<open>Whether an event sets the state of the connection, which is told to the listeners even when it stays the same.\<close>

fun announces :: "socket_event \<Rightarrow> socket_client \<Rightarrow> bool" where
  "announces ConnectCalled c = (sk_socket c = None)"
| "announces DisconnectCalled c = True"
| "announces LibConnected c = (sk_socket c \<noteq> None)"
| "announces (LibDisconnected b) c = (sk_socket c \<noteq> None)"
| "announces (LibConnectError b code) c = (sk_socket c \<noteq> None)"
| "announces LibReconnectAttempt c = (sk_socket c \<noteq> None)"
| "announces (StatusChanged k) c = (sk_socket c \<noteq> None)"
| "announces _ c = False"

definition presentedToken :: "jstr option \<Rightarrow> socket_client \<Rightarrow> jstr option" where
  "presentedToken token c =
     (case sk_socket c of None \<Rightarrow> None | Some k \<Rightarrow> (case sio_auth k of AskEachTime \<Rightarrow> token | FixedToken t \<Rightarrow> t))"

definition tellErrors :: "string list \<Rightarrow> live \<Rightarrow> live" where
  "tellErrors codes s =
     fold (\<lambda>code. tell (\<lambda>r p. fst (handleSocketError code [] (rd_connection r) p)) (ls_error (lv_sets s))) codes s"

definition chatStep :: "socket_event \<Rightarrow> live \<Rightarrow> live" where
  "chatStep e s =
     (let token = cl_accessToken (lv_client s);
          before = lv_chat s;
          after = socketStep token e before;
          s\<^sub>1 = s\<lparr>lv_chat := after, lv_presented := (if e = LibConnected then presentedToken token before else lv_presented s)\<rparr>;
          s\<^sub>2 = (if announces e before
            then tell (\<lambda>r p. p\<lparr>pg_connectionState := sk_connectionState after\<rparr>) (ls_connection (lv_sets s)) s\<^sub>1 else s\<^sub>1)
      in tellErrors (drop (length (sk_errors before)) (sk_errors after)) s\<^sub>2)"

subsection \<open>Effects\<close>

definition renderingOf :: "client \<Rightarrow> page \<Rightarrow> rendering" where
  "renderingOf c p = \<lparr>rd_me = map_option au_id (cl_currentUser c), rd_selected = st_selectedConversationId p,
     rd_connection = pg_connectionState p\<rparr>"

text \<open>\<open>useCallback\<close>: the callback of the rendering before, unless what it depends on has changed.\<close>

definition useCallback :: "(rendering \<Rightarrow> 'a) \<Rightarrow> listener \<Rightarrow> listener option \<Rightarrow> listener" where
  "useCallback deps new old =
     (case old of None \<Rightarrow> new | Some l \<Rightarrow> if deps (ln_saw l) = deps (ln_saw new) then l else new)"

definition useHandlers :: "listener \<Rightarrow> handlers option \<Rightarrow> handlers" where
  "useHandlers new old =
     \<lparr>hd_message = useCallback (\<lambda>r. (rd_me r, rd_selected r)) new (map_option hd_message old),
      hd_preview = useCallback (\<lambda>r. ()) new (map_option hd_preview old),
      hd_read = useCallback rd_selected new (map_option hd_read old),
      hd_typing = useCallback rd_me new (map_option hd_typing old),
      hd_error = useCallback rd_connection new (map_option hd_error old)\<rparr>"

definition unsubscribe :: "subscription \<Rightarrow> live \<Rightarrow> live" where
  "unsubscribe b s =
     (if \<not> sb_authenticated b then s
      else
        let hs = sb_handlers b; ls = lv_sets s in
        s\<lparr>lv_sets := \<lparr>ls_message = deleteListener (hd_message hs) (ls_message ls),
            ls_preview = deleteListener (hd_preview hs) (ls_preview ls),
            ls_connection = deleteListener (sb_fresh b) (ls_connection ls),
            ls_read = deleteListener (hd_read hs) (ls_read ls),
            ls_typing = deleteListener (hd_typing hs) (ls_typing ls),
            ls_moderation = deleteListener (sb_fresh b) (ls_moderation ls),
            ls_error = deleteListener (hd_error hs) (ls_error ls),
            ls_aiError = deleteListener (sb_fresh b) (ls_aiError ls)\<rparr>\<rparr>)"

text \<open>
  The branch of the effect for a page that is not signed in. It also forgets that permission for notifications was asked
  for, a reference \<open>ClientActions\<close> keeps. No rendering reaches it, as \<open>holds_render\<close> shows below.
\<close>

definition signedOut :: "live \<Rightarrow> live" where
  "signedOut s =
     (let s\<^sub>1 = s\<lparr>lv_title := (case lv_view s of None \<Rightarrow> lv_title s | Some v \<Rightarrow> mt_defaultTitle v)\<rparr>;
          s\<^sub>2 = chatStep DisconnectCalled s\<^sub>1 in
      s\<^sub>2\<lparr>lv_ai := disconnectAiService (lv_ai s\<^sub>2),
        lv_view := map_option (\<lambda>v. v\<lparr>mt_page := (mt_page v)\<lparr>pg_shownNotifications := [],
          pg_connectionState := Disconnected\<rparr>\<rparr>) (lv_view s\<^sub>2)\<rparr>)"

text \<open>A new listener of the connection is told its state at once.\<close>

definition subscribe :: "jstr option \<Rightarrow> handlers \<Rightarrow> listener \<Rightarrow> live \<Rightarrow> live" where
  "subscribe aiFlag hs fresh s =
     (let s\<^sub>1 = chatStep ConnectCalled s;
          s\<^sub>2 = s\<^sub>1\<lparr>lv_ai := connectAiService aiFlag (cl_accessToken (lv_client s\<^sub>1)) (lv_ai s\<^sub>1)\<rparr>;
          ls = lv_sets s\<^sub>2;
          s\<^sub>3 = s\<^sub>2\<lparr>lv_sets := \<lparr>ls_message = addListener (hd_message hs) (ls_message ls),
            ls_preview = addListener (hd_preview hs) (ls_preview ls),
            ls_connection = addListener fresh (ls_connection ls),
            ls_read = addListener (hd_read hs) (ls_read ls),
            ls_typing = addListener (hd_typing hs) (ls_typing ls),
            ls_moderation = addListener fresh (ls_moderation ls),
            ls_error = addListener (hd_error hs) (ls_error ls),
            ls_aiError = addListener fresh (ls_aiError ls)\<rparr>\<rparr>
      in tell (\<lambda>r p. p\<lparr>pg_connectionState := sk_connectionState (lv_chat s\<^sub>3)\<rparr>) [fresh] s\<^sub>3)"

text \<open>An effect runs when its dependencies differ from those of its last run, after the clean-up of that run.\<close>

definition titleEffect :: "mounted \<Rightarrow> live \<Rightarrow> live" where
  "titleEffect v s =
     (let conversations = st_conversations (mt_page v) in
      if mt_titleOf v = Some conversations then s
      else s\<lparr>lv_title := formatUnreadTitle (buildUnreadSummary conversations) (mt_defaultTitle v),
             lv_view := map_option (\<lambda>w. w\<lparr>mt_titleOf := Some conversations\<rparr>) (lv_view s)\<rparr>)"

definition subscriptionEffect :: "jstr option \<Rightarrow> handlers \<Rightarrow> listener \<Rightarrow> mounted \<Rightarrow> live \<Rightarrow> live" where
  "subscriptionEffect aiFlag hs fresh v s =
     (let isAuthenticated = cl_isAuthenticated (lv_client s) in
      if (case mt_subscribed v of None \<Rightarrow> False | Some b \<Rightarrow> sb_handlers b = hs \<and> sb_authenticated b = isAuthenticated) then s
      else
        let s\<^sub>1 = (case mt_subscribed v of None \<Rightarrow> s | Some b \<Rightarrow> unsubscribe b s);
            s\<^sub>2 = (if isAuthenticated then subscribe aiFlag hs fresh s\<^sub>1 else signedOut s\<^sub>1) in
        s\<^sub>2\<lparr>lv_view := map_option (\<lambda>w. w\<lparr>mt_subscribed :=
          Some \<lparr>sb_handlers = hs, sb_authenticated = isAuthenticated, sb_fresh = fresh\<rparr>\<rparr>) (lv_view s\<^sub>2)\<rparr>)"

definition selectionSync :: "mounted \<Rightarrow> live \<Rightarrow> live" where
  "selectionSync v s =
     (let selected = st_selectedConversationId (mt_page v) in
      if mt_synced v = Some selected then s
      else
        let s\<^sub>1 = chatStep (SelectionChanged selected) s in
        s\<^sub>1\<lparr>lv_view := map_option (\<lambda>w. w\<lparr>mt_synced := Some selected\<rparr>) (lv_view s\<^sub>1)\<rparr>)"

subsection \<open>Renderings\<close>

definition mountPage :: "live \<Rightarrow> live" where
  "mountPage s = s\<lparr>lv_view := Some \<lparr>mt_page = newPage, mt_handlers = None, mt_subscribed = None, mt_synced = None,
       mt_titleOf = None, mt_defaultTitle = lv_title s\<rparr>,
     lv_chat := (lv_chat s)\<lparr>sk_joinedConversation := None\<rparr>\<rparr>"

definition renderPage :: "jstr option \<Rightarrow> mounted \<Rightarrow> live \<Rightarrow> live" where
  "renderPage aiFlag v s =
     (let fresh = \<lparr>ln_id = lv_next s, ln_saw = renderingOf (lv_client s) (mt_page v)\<rparr>;
          hs = useHandlers fresh (mt_handlers v);
          s' = selectionSync v (subscriptionEffect aiFlag hs fresh v (titleEffect v s)) in
      s'\<lparr>lv_view := map_option (\<lambda>w. w\<lparr>mt_handlers := Some hs\<rparr>) (lv_view s'), lv_next := Suc (lv_next s)\<rparr>)"

definition unmountPage :: "mounted \<Rightarrow> live \<Rightarrow> live" where
  "unmountPage v s =
     (let s' = (case mt_subscribed v of None \<Rightarrow> s | Some b \<Rightarrow> unsubscribe b s) in
      s'\<lparr>lv_title := mt_defaultTitle v, lv_view := None\<rparr>)"

definition render :: "jstr option \<Rightarrow> live \<Rightarrow> live" where
  "render aiFlag s =
     (if ProtectedRoute (lv_client s) = ChatView then
        let s' = (case lv_view s of None \<Rightarrow> mountPage s | Some _ \<Rightarrow> s) in
        case lv_view s' of None \<Rightarrow> s' | Some v \<Rightarrow> renderPage aiFlag v s'
      else case lv_view s of None \<Rightarrow> s | Some v \<Rightarrow> unmountPage v s)"

subsection \<open>Deliveries\<close>

definition messageDelivered :: "(jstr \<Rightarrow> int) \<Rightarrow> bool \<Rightarrow> delivered_message \<Rightarrow> live \<Rightarrow> live" where
  "messageDelivered d eager m s =
     tell (\<lambda>r p. fst (handleIncomingMessage d (rd_me r) (rd_selected r) eager m p)) (ls_message (lv_sets s)) s"

definition previewUpdated :: "(jstr \<Rightarrow> int) \<Rightarrow> bool \<Rightarrow> preview_update \<Rightarrow> live \<Rightarrow> live" where
  "previewUpdated d eager u s = tell (\<lambda>r p. fst (handlePreviewUpdate d eager u p)) (ls_preview (lv_sets s)) s"

definition readUpdated :: "jstr \<Rightarrow> live \<Rightarrow> live" where
  "readUpdated c s = tell (\<lambda>r p. fst (handleConversationRead (rd_selected r) c p)) (ls_read (lv_sets s)) s"

definition typingUpdated :: "(jstr \<Rightarrow> int) \<Rightarrow> int \<Rightarrow> typing_update \<Rightarrow> live \<Rightarrow> live" where
  "typingUpdated d time u s = tell (\<lambda>r p. receiveTypingPresence d (rd_me r) time u p) (ls_typing (lv_sets s)) s"

definition moderationResult :: "jstr \<Rightarrow> client_moderation \<Rightarrow> live \<Rightarrow> live" where
  "moderationResult c m s = tell (\<lambda>r p. moderationArrived c m p) (ls_moderation (lv_sets s)) s"

definition aiError :: "string \<Rightarrow> live \<Rightarrow> live" where
  "aiError code s = tell (\<lambda>r p. aiErrorArrived code p) (ls_aiError (lv_sets s)) s"

lemmas delivery_defs = messageDelivered_def previewUpdated_def readUpdated_def typingUpdated_def moderationResult_def aiError_def

subsection \<open>Events\<close>

text \<open>
  Deliveries reach the page through its listeners only, and only its effects open and close the connection, so
  these events of the parts do not occur on their own.
\<close>

fun ownPageEvent :: "page_event \<Rightarrow> bool" where
  "ownPageEvent (Delivered _ _ _) = False"
| "ownPageEvent (PreviewCame _ _) = False"
| "ownPageEvent (ReadCame _ _) = False"
| "ownPageEvent (TypingCame _ _) = False"
| "ownPageEvent (SocketErrorCame _ _ _) = False"
| "ownPageEvent (ModerationCame _ _) = False"
| "ownPageEvent (AiErrorCame _) = False"
| "ownPageEvent (ConnectionChanged _) = False"
| "ownPageEvent _ = True"

fun ownSocketEvent :: "socket_event \<Rightarrow> bool" where
  "ownSocketEvent ConnectCalled = False"
| "ownSocketEvent DisconnectCalled = False"
| "ownSocketEvent (SelectionChanged _) = False"
| "ownSocketEvent _ = True"

datatype live_event =
    SessionEvent client_event
  | SocketEvent socket_event
  | AiSocketOpened bool
  | MessageArrived bool delivered_message
  | PreviewArrived bool preview_update
  | ReadArrived jstr
  | TypingArrived int typing_update
  | ModerationArrived jstr client_moderation
  | AiErrorArrived string
  | PageEvent page_event
  | Rendered

fun liveStep :: "(jstr \<Rightarrow> int) \<Rightarrow> jstr option \<Rightarrow> live_event \<Rightarrow> live \<Rightarrow> live" where
  "liveStep d aiFlag (SessionEvent e) s = s\<lparr>lv_client := clientStep e (lv_client s)\<rparr>"
| "liveStep d aiFlag (SocketEvent e) s = (if ownSocketEvent e then chatStep e s else s)"
| "liveStep d aiFlag (AiSocketOpened b) s =
     s\<lparr>lv_ai := (lv_ai s)\<lparr>as_connected := map_option (\<lambda>_. b) (as_connected (lv_ai s))\<rparr>\<rparr>"
| "liveStep d aiFlag (MessageArrived eager m) s = messageDelivered d eager m s"
| "liveStep d aiFlag (PreviewArrived eager u) s = previewUpdated d eager u s"
| "liveStep d aiFlag (ReadArrived c) s = readUpdated c s"
| "liveStep d aiFlag (TypingArrived time u) s = typingUpdated d time u s"
| "liveStep d aiFlag (ModerationArrived c m) s = moderationResult c m s"
| "liveStep d aiFlag (AiErrorArrived code) s = aiError code s"
| "liveStep d aiFlag (PageEvent e) s =
     (if ownPageEvent e then s\<lparr>lv_view := map_option (\<lambda>v. v\<lparr>mt_page :=
        pageStep d (map_option au_id (cl_currentUser (lv_client s))) e (mt_page v)\<rparr>) (lv_view s)\<rparr> else s)"
| "liveStep d aiFlag Rendered s = render aiFlag s"

subsection \<open>Telling the listeners\<close>

lemma tell_fields [simp]:
  "lv_client (tell f ls s) = lv_client s" "lv_chat (tell f ls s) = lv_chat s" "lv_ai (tell f ls s) = lv_ai s"
  "lv_sets (tell f ls s) = lv_sets s" "lv_title (tell f ls s) = lv_title s" "lv_presented (tell f ls s) = lv_presented s"
  "lv_next (tell f ls s) = lv_next s"
  "lv_view (tell f ls s) = map_option (\<lambda>v. v\<lparr>mt_page := fold (\<lambda>l. f (ln_saw l)) ls (mt_page v)\<rparr>) (lv_view s)"
  by (simp_all add: tell_def)

lemma tellErrors_fields [simp]:
  "lv_client (tellErrors codes s) = lv_client s" "lv_chat (tellErrors codes s) = lv_chat s" "lv_ai (tellErrors codes s) = lv_ai s"
  "lv_sets (tellErrors codes s) = lv_sets s" "lv_title (tellErrors codes s) = lv_title s"
  "lv_presented (tellErrors codes s) = lv_presented s" "lv_next (tellErrors codes s) = lv_next s"
proof -
  have "lv_client (fold (\<lambda>code. tell (f code) ls) codes s) = lv_client s \<and> lv_chat (fold (\<lambda>code. tell (f code) ls) codes s) = lv_chat s \<and>
      lv_ai (fold (\<lambda>code. tell (f code) ls) codes s) = lv_ai s \<and> lv_sets (fold (\<lambda>code. tell (f code) ls) codes s) = lv_sets s \<and>
      lv_title (fold (\<lambda>code. tell (f code) ls) codes s) = lv_title s \<and>
      lv_presented (fold (\<lambda>code. tell (f code) ls) codes s) = lv_presented s \<and> lv_next (fold (\<lambda>code. tell (f code) ls) codes s) = lv_next s"
    for f ls by (induction codes arbitrary: s) simp_all
  then show "lv_client (tellErrors codes s) = lv_client s" "lv_chat (tellErrors codes s) = lv_chat s" "lv_ai (tellErrors codes s) = lv_ai s"
    "lv_sets (tellErrors codes s) = lv_sets s" "lv_title (tellErrors codes s) = lv_title s"
    "lv_presented (tellErrors codes s) = lv_presented s" "lv_next (tellErrors codes s) = lv_next s"
    by (simp_all add: tellErrors_def)
qed

text \<open>What the state of the page keeps while the socket works: the connection it shows and what it has open.\<close>

definition sameBut :: "page \<Rightarrow> page \<Rightarrow> bool" where
  "sameBut p q \<longleftrightarrow> st_selectedConversationId q = st_selectedConversationId p \<and> st_conversations q = st_conversations p \<and>
     st_messages q = st_messages p"

lemma sameBut_trans: "sameBut p q \<Longrightarrow> sameBut q r \<Longrightarrow> sameBut p r"
  by (simp add: sameBut_def)

lemma tellErrors_view:
  "\<exists>f. lv_view (tellErrors codes s) = map_option (\<lambda>v. v\<lparr>mt_page := f (mt_page v)\<rparr>) (lv_view s) \<and>
    (\<forall>p. sameBut p (f p) \<and> pg_connectionState (f p) = pg_connectionState p)"
proof (induction codes arbitrary: s)
  case Nil
  show ?case by (rule exI [of _ "\<lambda>p. p"]) (simp add: tellErrors_def sameBut_def option.map_ident)
next
  case (Cons code codes)
  let ?g = "\<lambda>r (p :: page). fst (handleSocketError code [] (rd_connection r) p)"
  let ?ls = "ls_error (lv_sets s)"
  have step: "tellErrors (code # codes) s = tellErrors codes (tell ?g ?ls s)" by (simp add: tellErrors_def)
  obtain f where f: "lv_view (tellErrors codes (tell ?g ?ls s)) = map_option (\<lambda>v. v\<lparr>mt_page := f (mt_page v)\<rparr>) (lv_view (tell ?g ?ls s))"
    "\<forall>p. sameBut p (f p) \<and> pg_connectionState (f p) = pg_connectionState p"
    using Cons.IH by blast
  have g: "sameBut p (fold (\<lambda>l. ?g (ln_saw l)) ls p) \<and> pg_connectionState (fold (\<lambda>l. ?g (ln_saw l)) ls p) = pg_connectionState p"
    for ls :: "listener list" and p
    by (induction ls arbitrary: p) (simp_all add: handleSocketError_def sameBut_def)
  show ?case
  proof (intro exI conjI allI)
    show "lv_view (tellErrors (code # codes) s) =
        map_option (\<lambda>v. v\<lparr>mt_page := f (fold (\<lambda>l. ?g (ln_saw l)) ?ls (mt_page v))\<rparr>) (lv_view s)"
      using f(1) by (simp add: step option.map_comp comp_def)
  qed (use f(2) g sameBut_trans in \<open>blast, simp\<close>)
qed

lemma chatStep_fields [simp]:
  "lv_client (chatStep e s) = lv_client s" "lv_ai (chatStep e s) = lv_ai s" "lv_sets (chatStep e s) = lv_sets s"
  "lv_title (chatStep e s) = lv_title s" "lv_next (chatStep e s) = lv_next s"
  "lv_chat (chatStep e s) = socketStep (cl_accessToken (lv_client s)) e (lv_chat s)"
  "lv_presented (chatStep e s) = (if e = LibConnected then presentedToken (cl_accessToken (lv_client s)) (lv_chat s) else lv_presented s)"
  by (simp_all add: chatStep_def Let_def)

lemma calls_keep_state [simp]:
  "sk_connectionState (emitWithAck token who call c) = sk_connectionState c"
  "sk_connectionState (joinConversation token who a c) = sk_connectionState c"
  "sk_connectionState (leaveSubscription token who a c) = sk_connectionState c"
  "sk_connectionState (syncConversationSubscription token selected c) = sk_connectionState c"
  by (simp_all add: emitWithAck_def emitCall_def reportError_def startConnecting_def updateAuth_def joinConversation_def
      leaveSubscription_def syncConversationSubscription_def Let_def split: option.split)

lemma not_announced:
  "\<not> announces e c \<Longrightarrow> sk_connectionState (socketStep token e c) = sk_connectionState c"
  by (cases e) (auto simp: connect_def startConnecting_def updateAuth_def otherCall_def onConnect_def onDisconnect_def
      onConnectError_def onReconnectAttempt_def onAnswer_def onTimeout_def reportError_def Let_def
      split: option.split socket_answer.split caller.split)

lemma fold_const: "ls \<noteq> [] \<Longrightarrow> (\<And>p. g (g p) = g p) \<Longrightarrow> fold (\<lambda>l. g) ls p = g p"
  by (induction ls arbitrary: p) (simp, case_tac "ls = []", simp_all)

lemma chatStep_view:
  "\<exists>f. lv_view (chatStep e s) = map_option (\<lambda>v. v\<lparr>mt_page := f (mt_page v)\<rparr>) (lv_view s) \<and>
    (\<forall>p. sameBut p (f p) \<and> (ls_connection (lv_sets s) \<noteq> [] \<and> pg_connectionState p = sk_connectionState (lv_chat s) \<longrightarrow>
       pg_connectionState (f p) = sk_connectionState (lv_chat (chatStep e s))))"
proof -
  let ?after = "socketStep (cl_accessToken (lv_client s)) e (lv_chat s)"
  let ?g = "\<lambda>r (p :: page). p\<lparr>pg_connectionState := sk_connectionState ?after\<rparr>"
  let ?ls = "ls_connection (lv_sets s)"
  let ?s1 = "s\<lparr>lv_chat := ?after, lv_presented := (if e = LibConnected then presentedToken (cl_accessToken (lv_client s)) (lv_chat s)
      else lv_presented s)\<rparr>"
  let ?s2 = "if announces e (lv_chat s) then tell ?g ?ls ?s1 else ?s1"
  let ?codes = "drop (length (sk_errors (lv_chat s))) (sk_errors ?after)"
  have step: "chatStep e s = tellErrors ?codes ?s2" by (simp add: chatStep_def Let_def)
  obtain f where f: "lv_view (tellErrors ?codes ?s2) = map_option (\<lambda>v. v\<lparr>mt_page := f (mt_page v)\<rparr>) (lv_view ?s2)"
    "\<forall>p. sameBut p (f p) \<and> pg_connectionState (f p) = pg_connectionState p"
    using tellErrors_view by blast
  define h where "h = (\<lambda>p. if announces e (lv_chat s) then fold (\<lambda>l. ?g (ln_saw l)) ?ls p else p)"
  have h1: "sameBut p (fold (\<lambda>l. ?g (ln_saw l)) ls p)" for ls :: "listener list" and p
    by (induction ls arbitrary: p) (simp_all add: sameBut_def)
  have h2: "ls \<noteq> [] \<Longrightarrow> pg_connectionState (fold (\<lambda>l. ?g (ln_saw l)) ls p) = sk_connectionState ?after" for ls :: "listener list" and p
    by (simp add: fold_const)
  have view: "lv_view ?s2 = map_option (\<lambda>v. v\<lparr>mt_page := h (mt_page v)\<rparr>) (lv_view s)"
    by (simp add: h_def option.map_ident)
  show ?thesis
  proof (intro exI conjI allI impI)
    show "lv_view (chatStep e s) = map_option (\<lambda>v. v\<lparr>mt_page := (f \<circ> h) (mt_page v)\<rparr>) (lv_view s)"
      using f(1) view by (simp only: step option.map_comp comp_def) (simp add: option.map_comp comp_def)
    fix p
    have "sameBut p (h p)" using h1 by (simp add: h_def) (simp add: sameBut_def)
    then show "sameBut p ((f \<circ> h) p)" using f(2) sameBut_trans by (metis comp_apply)
    assume "?ls \<noteq> [] \<and> pg_connectionState p = sk_connectionState (lv_chat s)"
    then show "pg_connectionState ((f \<circ> h) p) = sk_connectionState (lv_chat (chatStep e s))"
      using f(2) h2 not_announced by (simp add: h_def)
  qed
qed

subsection \<open>One listener of each kind\<close>

definition subscribedSets :: "subscription \<Rightarrow> listener_sets" where
  "subscribedSets b =
     (let hs = sb_handlers b in
      \<lparr>ls_message = [hd_message hs], ls_preview = [hd_preview hs], ls_connection = [sb_fresh b], ls_read = [hd_read hs],
       ls_typing = [hd_typing hs], ls_moderation = [sb_fresh b], ls_error = [hd_error hs], ls_aiError = [sb_fresh b]\<rparr>)"

definition viewOk :: "live \<Rightarrow> mounted \<Rightarrow> bool" where
  "viewOk s v \<longleftrightarrow>
     (case mt_subscribed v of
        None \<Rightarrow> lv_sets s = noListeners
      | Some b \<Rightarrow> sb_authenticated b \<and> lv_sets s = subscribedSets b \<and> mt_handlers v = Some (sb_handlers b) \<and>
          pg_connectionState (mt_page v) = sk_connectionState (lv_chat s))"

text \<open>The whole state, with the title the window had before.\<close>

definition liveOk :: "jstr \<Rightarrow> live \<Rightarrow> bool" where
  "liveOk title s \<longleftrightarrow>
     (case lv_view s of
        None \<Rightarrow> lv_sets s = noListeners \<and> lv_title s = title
      | Some v \<Rightarrow> viewOk s v \<and> mt_subscribed v \<noteq> None \<and> mt_defaultTitle v = title \<and>
          (\<exists>cs. mt_titleOf v = Some cs \<and> lv_title s = formatUnreadTitle (buildUnreadSummary cs) title))"

lemma useCallback_saw [simp]: "deps (ln_saw (useCallback deps new old)) = deps (ln_saw new)"
  by (simp add: useCallback_def split: option.split)

lemma unsubscribe_all:
  assumes "sb_authenticated b" "lv_sets s = subscribedSets b"
  shows "unsubscribe b s = s\<lparr>lv_sets := noListeners\<rparr>"
  using assms by (simp add: unsubscribe_def subscribedSets_def noListeners_def deleteListener_def Let_def)

lemma subscribe_fields [simp]:
  "lv_client (subscribe flag hs fresh s) = lv_client s" "lv_title (subscribe flag hs fresh s) = lv_title s"
  "lv_chat (subscribe flag hs fresh s) = connect (cl_accessToken (lv_client s)) (lv_chat s)"
  "lv_presented (subscribe flag hs fresh s) = lv_presented s"
  by (simp_all add: subscribe_def Let_def)

lemma subscribe_sets:
  "lv_sets s = noListeners \<Longrightarrow>
   lv_sets (subscribe flag hs fresh s) = subscribedSets \<lparr>sb_handlers = hs, sb_authenticated = True, sb_fresh = fresh\<rparr>"
  by (simp add: subscribe_def subscribedSets_def noListeners_def addListener_def Let_def)

lemma subscribe_view:
  assumes "lv_view s = Some v"
  shows "\<exists>p. lv_view (subscribe flag hs fresh s) = Some (v\<lparr>mt_page := p\<rparr>) \<and> sameBut (mt_page v) p \<and>
    pg_connectionState p = sk_connectionState (lv_chat (subscribe flag hs fresh s))"
proof -
  obtain f where f: "lv_view (chatStep ConnectCalled s) = map_option (\<lambda>v. v\<lparr>mt_page := f (mt_page v)\<rparr>) (lv_view s)"
    "\<forall>p. sameBut p (f p)" using chatStep_view by blast
  let ?p = "(f (mt_page v))\<lparr>pg_connectionState := sk_connectionState (connect (cl_accessToken (lv_client s)) (lv_chat s))\<rparr>"
  have "lv_view (subscribe flag hs fresh s) = Some (v\<lparr>mt_page := ?p\<rparr>)" using f(1) assms by (simp add: subscribe_def Let_def)
  moreover have "sameBut (mt_page v) ?p" using f(2) [rule_format, of "mt_page v"] by (simp add: sameBut_def)
  ultimately show ?thesis by auto
qed

lemma subscriptionEffect_result:
  assumes auth: "cl_isAuthenticated (lv_client s)" and w: "lv_view s = Some w" "mt_subscribed w = mt_subscribed v" and ok: "viewOk s w"
  shows "\<exists>p b. lv_view (subscriptionEffect flag hs fresh v s) = Some (w\<lparr>mt_page := p, mt_subscribed := Some b\<rparr>) \<and>
    sb_handlers b = hs \<and> sb_authenticated b \<and> lv_sets (subscriptionEffect flag hs fresh v s) = subscribedSets b \<and>
    pg_connectionState p = sk_connectionState (lv_chat (subscriptionEffect flag hs fresh v s)) \<and> sameBut (mt_page w) p \<and>
    lv_client (subscriptionEffect flag hs fresh v s) = lv_client s \<and> lv_title (subscriptionEffect flag hs fresh v s) = lv_title s"
proof (cases "case mt_subscribed v of None \<Rightarrow> False | Some b \<Rightarrow> sb_handlers b = hs \<and> sb_authenticated b = cl_isAuthenticated (lv_client s)")
  case True
  then obtain b where b: "mt_subscribed v = Some b" "sb_handlers b = hs" "sb_authenticated b = cl_isAuthenticated (lv_client s)"
    by (auto split: option.splits)
  have "subscriptionEffect flag hs fresh v s = s" using True by (simp add: subscriptionEffect_def Let_def)
  then show ?thesis
    using b ok w auth by (intro exI [of _ "mt_page w"] exI [of _ b]) (simp add: viewOk_def sameBut_def)
next
  case False
  let ?s1 = "case mt_subscribed v of None \<Rightarrow> s | Some b \<Rightarrow> unsubscribe b s"
  let ?b = "\<lparr>sb_handlers = hs, sb_authenticated = True, sb_fresh = fresh\<rparr>"
  have s1: "?s1 = s\<lparr>lv_sets := noListeners\<rparr>"
  proof (cases "mt_subscribed v")
    case None
    then show ?thesis using ok w by (simp add: viewOk_def)
  next
    case (Some b)
    then show ?thesis using ok w by (simp add: viewOk_def unsubscribe_all)
  qed
  have run: "subscriptionEffect flag hs fresh v s =
      (let s2 = subscribe flag hs fresh ?s1 in s2\<lparr>lv_view := map_option (\<lambda>w. w\<lparr>mt_subscribed := Some ?b\<rparr>) (lv_view s2)\<rparr>)"
    unfolding subscriptionEffect_def Let_def if_not_P [OF False] using auth s1 by simp
  obtain p where "lv_view (subscribe flag hs fresh ?s1) = Some (w\<lparr>mt_page := p\<rparr>)" "sameBut (mt_page w) p"
      "pg_connectionState p = sk_connectionState (lv_chat (subscribe flag hs fresh ?s1))"
    using subscribe_view [of ?s1 w flag hs fresh] s1 w by auto
  then show ?thesis
    using subscribe_sets [of ?s1 flag hs fresh] unfolding run by (intro exI [of _ p] exI [of _ ?b]) (simp add: s1 Let_def)
qed

lemma titleEffect_fields [simp]:
  "lv_client (titleEffect v s) = lv_client s" "lv_chat (titleEffect v s) = lv_chat s" "lv_sets (titleEffect v s) = lv_sets s"
  "lv_presented (titleEffect v s) = lv_presented s"
  by (simp_all add: titleEffect_def Let_def)

lemma selectionSync_fields [simp]:
  "lv_client (selectionSync v s) = lv_client s" "lv_sets (selectionSync v s) = lv_sets s" "lv_title (selectionSync v s) = lv_title s"
  "lv_presented (selectionSync v s) = lv_presented s"
  by (simp_all add: selectionSync_def Let_def)

lemma selectionSync_result:
  assumes "lv_view s = Some w" "ls_connection (lv_sets s) \<noteq> []" "pg_connectionState (mt_page w) = sk_connectionState (lv_chat s)"
  shows "\<exists>p y. lv_view (selectionSync v s) = Some (w\<lparr>mt_page := p, mt_synced := y\<rparr>) \<and> sameBut (mt_page w) p \<and>
    pg_connectionState p = sk_connectionState (lv_chat (selectionSync v s))"
proof (cases "mt_synced v = Some (st_selectedConversationId (mt_page v))")
  case True
  then show ?thesis using assms
    by (intro exI [of _ "mt_page w"] exI [of _ "mt_synced w"]) (simp add: selectionSync_def sameBut_def)
next
  case False
  let ?e = "SelectionChanged (st_selectedConversationId (mt_page v))"
  obtain f where f: "lv_view (chatStep ?e s) = map_option (\<lambda>v. v\<lparr>mt_page := f (mt_page v)\<rparr>) (lv_view s)"
    "\<forall>p. sameBut p (f p) \<and> (ls_connection (lv_sets s) \<noteq> [] \<and> pg_connectionState p = sk_connectionState (lv_chat s) \<longrightarrow>
       pg_connectionState (f p) = sk_connectionState (lv_chat (chatStep ?e s)))"
    using chatStep_view [of ?e s] by blast
  then show ?thesis using assms False
    by (intro exI [of _ "f (mt_page w)"] exI [of _ "Some (st_selectedConversationId (mt_page v))"]) (simp add: selectionSync_def Let_def)
qed

text \<open>A rendering of the mounted page.\<close>

lemma renderPage_result:
  assumes auth: "cl_isAuthenticated (lv_client s)" and v: "lv_view s = Some v" "viewOk s v"
    and titled: "mt_titleOf v = None \<or> (\<exists>cs. mt_titleOf v = Some cs \<and> lv_title s = formatUnreadTitle (buildUnreadSummary cs) (mt_defaultTitle v))"
  shows "\<exists>v' b. lv_view (renderPage flag v s) = Some v' \<and> mt_subscribed v' = Some b \<and> viewOk (renderPage flag v s) v' \<and>
    sb_handlers b = useHandlers \<lparr>ln_id = lv_next s, ln_saw = renderingOf (lv_client s) (mt_page v)\<rparr> (mt_handlers v) \<and>
    mt_defaultTitle v' = mt_defaultTitle v \<and> mt_titleOf v' = Some (st_conversations (mt_page v)) \<and>
    lv_title (renderPage flag v s) = formatUnreadTitle (buildUnreadSummary (st_conversations (mt_page v))) (mt_defaultTitle v) \<and>
    sameBut (mt_page v) (mt_page v') \<and> lv_client (renderPage flag v s) = lv_client s"
proof -
  let ?fresh = "\<lparr>ln_id = lv_next s, ln_saw = renderingOf (lv_client s) (mt_page v)\<rparr>"
  let ?hs = "useHandlers ?fresh (mt_handlers v)"
  let ?s1 = "titleEffect v s"
  let ?s2 = "subscriptionEffect flag ?hs ?fresh v ?s1"
  let ?s3 = "selectionSync v ?s2"
  let ?w = "v\<lparr>mt_titleOf := Some (st_conversations (mt_page v))\<rparr>"
  have s1: "lv_view ?s1 = Some ?w" "lv_title ?s1 = formatUnreadTitle (buildUnreadSummary (st_conversations (mt_page v))) (mt_defaultTitle v)"
    using v(1) titled by (auto simp: titleEffect_def Let_def)
  have "viewOk ?s1 ?w" using v(2) by (cases "mt_subscribed v") (simp_all add: viewOk_def)
  then obtain p b where s2: "lv_view ?s2 = Some (?w\<lparr>mt_page := p, mt_subscribed := Some b\<rparr>)" "sb_handlers b = ?hs" "sb_authenticated b"
      "lv_sets ?s2 = subscribedSets b" "pg_connectionState p = sk_connectionState (lv_chat ?s2)" "sameBut (mt_page v) p"
      "lv_client ?s2 = lv_client s" "lv_title ?s2 = lv_title ?s1"
    using subscriptionEffect_result [of ?s1 ?w v flag ?hs ?fresh] auth s1(1) by auto
  have "ls_connection (lv_sets ?s2) \<noteq> []" using s2(4) by (simp add: subscribedSets_def Let_def)
  then obtain q y where s3: "lv_view ?s3 = Some (?w\<lparr>mt_page := p, mt_subscribed := Some b, mt_page := q, mt_synced := y\<rparr>)" "sameBut p q"
      "pg_connectionState q = sk_connectionState (lv_chat ?s3)"
    using selectionSync_result [OF s2(1), of v] s2(5) by auto
  have run: "renderPage flag v s = ?s3\<lparr>lv_view := map_option (\<lambda>w. w\<lparr>mt_handlers := Some ?hs\<rparr>) (lv_view ?s3), lv_next := Suc (lv_next s)\<rparr>"
    by (simp add: renderPage_def Let_def)
  show ?thesis
    unfolding run using s1 s2 s3 sameBut_trans [OF s2(6) s3(2)]
    by (intro exI [of _ "?w\<lparr>mt_page := q, mt_subscribed := Some b, mt_synced := y, mt_handlers := Some ?hs\<rparr>"] exI [of _ b])
      (simp add: viewOk_def)
qed

lemma chat_view: "ProtectedRoute c = ChatView \<Longrightarrow> cl_isAuthenticated c"
  by (simp add: ProtectedRoute_def split: if_splits)

lemma render_result:
  assumes ok: "liveOk title s" and shown: "ProtectedRoute (lv_client s) = ChatView"
    and p: "p = (case lv_view s of None \<Rightarrow> newPage | Some v \<Rightarrow> mt_page v)"
  shows "\<exists>v' b. lv_view (render flag s) = Some v' \<and> mt_subscribed v' = Some b \<and> liveOk title (render flag s) \<and>
    rd_me (ln_saw (hd_message (sb_handlers b))) = map_option au_id (cl_currentUser (lv_client s)) \<and>
    rd_selected (ln_saw (hd_message (sb_handlers b))) = st_selectedConversationId (mt_page v') \<and>
    rd_selected (ln_saw (hd_read (sb_handlers b))) = st_selectedConversationId (mt_page v') \<and>
    rd_me (ln_saw (hd_typing (sb_handlers b))) = map_option au_id (cl_currentUser (lv_client s)) \<and>
    lv_title (render flag s) = formatUnreadTitle (buildUnreadSummary (st_conversations (mt_page v'))) title \<and>
    sameBut p (mt_page v') \<and> lv_client (render flag s) = lv_client s"
proof -
  let ?s = "case lv_view s of None \<Rightarrow> mountPage s | Some _ \<Rightarrow> s"
  obtain v where v: "lv_view ?s = Some v" "mt_page v = p" "viewOk ?s v" "mt_defaultTitle v = title" "lv_client ?s = lv_client s"
      "mt_titleOf v = None \<or> (\<exists>cs. mt_titleOf v = Some cs \<and> lv_title ?s = formatUnreadTitle (buildUnreadSummary cs) (mt_defaultTitle v))"
  proof (cases "lv_view s")
    case None
    with ok p that show ?thesis by (simp add: mountPage_def liveOk_def viewOk_def)
  next
    case (Some v)
    with ok p that show ?thesis by (simp add: liveOk_def)
  qed
  have run: "render flag s = renderPage flag v ?s" using shown v(1) by (simp add: render_def Let_def)
  obtain v' b where r: "lv_view (render flag s) = Some v'" "mt_subscribed v' = Some b" "viewOk (render flag s) v'"
      "sb_handlers b = useHandlers \<lparr>ln_id = lv_next ?s, ln_saw = renderingOf (lv_client ?s) (mt_page v)\<rparr> (mt_handlers v)"
      "mt_defaultTitle v' = title" "mt_titleOf v' = Some (st_conversations (mt_page v))"
      "lv_title (render flag s) = formatUnreadTitle (buildUnreadSummary (st_conversations (mt_page v))) title"
      "sameBut (mt_page v) (mt_page v')" "lv_client (render flag s) = lv_client ?s"
    using renderPage_result [OF _ v(1,3,6), of flag] chat_view [OF shown] v(4,5) unfolding run by auto
  have saw: "rd_me (ln_saw (useCallback (\<lambda>r. (rd_me r, rd_selected r)) new old)) = rd_me (ln_saw new)"
    "rd_selected (ln_saw (useCallback (\<lambda>r. (rd_me r, rd_selected r)) new old)) = rd_selected (ln_saw new)" for new old
    using useCallback_saw [of "\<lambda>r. (rd_me r, rd_selected r)" new old] by simp_all
  show ?thesis
    using r v(2,5) by (intro exI [of _ v'] exI [of _ b]) (simp add: liveOk_def useHandlers_def saw renderingOf_def sameBut_def)
qed

subsection \<open>What every event keeps\<close>

lemma connection_kept:
  "pg_connectionState (fst (handleIncomingMessage d me seen eager m p)) = pg_connectionState p"
  "pg_connectionState (fst (handlePreviewUpdate d eager u p)) = pg_connectionState p"
  "pg_connectionState (fst (handleConversationRead seen c p)) = pg_connectionState p"
  "pg_connectionState (receiveTypingPresence d me time t p) = pg_connectionState p"
  "pg_connectionState (moderationArrived c r p) = pg_connectionState p"
  "pg_connectionState (aiErrorArrived code p) = pg_connectionState p"
  by (simp_all add: handleIncomingMessage_def receiveMessage_def handlePreviewUpdate_def handleConversationRead_def receiveTypingPresence_def
      moderationArrived_def aiErrorArrived_def Let_def split: option.split)

lemma own_event_connection: "ownPageEvent e \<Longrightarrow> pg_connectionState (pageStep d me e p) = pg_connectionState p"
proof (cases e)
  case (RestoredFromLocation c)
  then show ?thesis by (simp add: restoreFromLocation_def conversationSelected_def Let_def split: option.split)
next
  case (ComposerFocus seen)
  then show ?thesis by (simp add: composerFocused_def suggestionsRequested_def Let_def split: option.split)
qed (simp_all add: conversationStarted_def conversationsLoaded_def conversationsFailed_def conversationSelected_def
    suggestionsRequested_def suggestionsArrived_def suggestionsFailed_def threadArrived_def readStateArrived_def loadingFailed_def
    threadReloaded_def typingExpired_def loadMoreStarted_def olderMessagesArrived_def handleUploadFile_def
    handleSelectSlashCommand_def inputChanged_def aiToggled_def sendStarted_def uploadPrepared_def uploadProgressed_def
    uploadFinished_def sendFailed_def conversationLeft_def conversationDeleted_def Let_def)

text \<open>Only renderings change the listeners; the page changes and its connection follows the service's.\<close>

lemma tell_ok:
  assumes "liveOk title s" "\<And>r p. pg_connectionState (f r p) = pg_connectionState p"
  shows "liveOk title (tell f ls s)"
proof -
  have "pg_connectionState (fold (\<lambda>l. f (ln_saw l)) ls p) = pg_connectionState p" for p
    by (induction ls arbitrary: p) (simp_all add: assms(2))
  then show ?thesis using assms(1) by (cases "lv_view s") (auto simp: liveOk_def viewOk_def)
qed

lemma chatStep_ok:
  assumes "liveOk title s"
  shows "liveOk title (chatStep e s)"
proof -
  obtain f where f: "lv_view (chatStep e s) = map_option (\<lambda>v. v\<lparr>mt_page := f (mt_page v)\<rparr>) (lv_view s)"
    "\<forall>p. ls_connection (lv_sets s) \<noteq> [] \<and> pg_connectionState p = sk_connectionState (lv_chat s) \<longrightarrow>
       pg_connectionState (f p) = sk_connectionState (lv_chat (chatStep e s))"
    using chatStep_view [of e s] by blast
  show ?thesis
  proof (cases "lv_view s")
    case None
    then show ?thesis using assms f(1) by (simp add: liveOk_def)
  next
    case (Some v)
    then obtain b where b: "mt_subscribed v = Some b" "lv_sets s = subscribedSets b"
        "pg_connectionState (mt_page v) = sk_connectionState (lv_chat s)"
      using assms by (auto simp: liveOk_def viewOk_def)
    then have "ls_connection (lv_sets s) \<noteq> []" by (simp add: subscribedSets_def Let_def)
    then show ?thesis using assms f Some b by (simp add: liveOk_def viewOk_def)
  qed
qed

lemma unmount_ok:
  assumes "liveOk title s" "lv_view s = Some v"
  shows "liveOk title (unmountPage v s)"
  using assms by (auto simp: liveOk_def viewOk_def unmountPage_def unsubscribe_all Let_def)

lemma live_event_ok:
  assumes "liveOk title s"
  shows "liveOk title (liveStep d flag e s)"
proof (cases e)
  case (SessionEvent x)
  then show ?thesis using assms by (cases "lv_view s") (auto simp: liveOk_def viewOk_def)
next
  case (SocketEvent x)
  then show ?thesis using assms by (simp add: chatStep_ok)
next
  case (AiSocketOpened b)
  then show ?thesis using assms by (cases "lv_view s") (auto simp: liveOk_def viewOk_def)
next
  case (PageEvent x)
  then show ?thesis using assms own_event_connection by (cases "lv_view s") (auto simp: liveOk_def viewOk_def)
next
  case Rendered
  show ?thesis
  proof (cases "ProtectedRoute (lv_client s) = ChatView")
    case True
    then show ?thesis using render_result [OF assms True refl, of flag] Rendered by auto
  next
    case False
    then show ?thesis using assms Rendered by (cases "lv_view s") (simp_all add: render_def unmount_ok)
  qed
qed (simp_all add: assms tell_ok connection_kept delivery_defs)

interpretation live: event_invariant "liveStep d flag" "liveOk title" for d flag title
  by unfold_locales (rule live_event_ok)

lemma newLive_ok: "liveOk title (newLive stored title)"
  by (simp add: liveOk_def newLive_def)

lemma live_run_ok: "liveOk title (fold (liveStep d flag) es (newLive stored title))"
  by (rule live.along [OF newLive_ok])


subsection \<open>The connection outlives the session\<close>

definition connectionEvent :: "live_event \<Rightarrow> bool" where
  "connectionEvent e \<longleftrightarrow>
     (case e of
        SocketEvent LibConnected \<Rightarrow> True | SocketEvent (LibDisconnected _) \<Rightarrow> True
      | SocketEvent (LibConnectError _ _) \<Rightarrow> True | SocketEvent LibReconnectAttempt \<Rightarrow> True | _ \<Rightarrow> False)"

text \<open>The open connection, the token it was made with.\<close>

definition holds :: "sio_socket \<Rightarrow> jstr option \<Rightarrow> live \<Rightarrow> bool" where
  "holds k token s \<longleftrightarrow> sk_socket (lv_chat s) = Some k \<and> sio_connected k \<and> lv_presented s = token"

lemma calls_keep_socket:
  assumes "sk_socket c = Some k" "sio_connected k"
  shows "sk_socket (emitWithAck token who call c) = Some k"
    "sk_socket (joinConversation token who a c) = Some k" "sk_socket (leaveSubscription token who a c) = Some k"
    "sk_socket (syncConversationSubscription token selected c) = Some k" "sk_socket (onAnswer token n answer c) = Some k"
    "connect token c = c" "sk_socket (onTimeout n c) = Some k" "sk_socket (otherCall token call c) = Some k"
  using assms by (simp_all add: emitWithAck_def emitCall_def joinConversation_def leaveSubscription_def syncConversationSubscription_def
      onAnswer_def reportError_def connect_def onTimeout_def otherCall_def Let_def split: option.split socket_answer.split caller.split)

lemma holds_chatStep:
  assumes "holds k token s" "e = ConnectCalled \<or> (\<exists>c. e = SelectionChanged c) \<or> (ownSocketEvent e \<and> \<not> connectionEvent (SocketEvent e))"
  shows "holds k token (chatStep e s)"
  using assms calls_keep_socket [of "lv_chat s" k]
  by (cases e) (auto simp: holds_def connectionEvent_def setConnectionState_def)

lemma holds_other [simp]:
  "holds k token (tell f ls s) = holds k token s" "holds k token (s\<lparr>lv_view := v\<rparr>) = holds k token s"
  "holds k token (s\<lparr>lv_client := c\<rparr>) = holds k token s" "holds k token (s\<lparr>lv_ai := a\<rparr>) = holds k token s"
  "holds k token (s\<lparr>lv_title := t\<rparr>) = holds k token s" "holds k token (s\<lparr>lv_sets := sets\<rparr>) = holds k token s"
  "holds k token (s\<lparr>lv_next := n\<rparr>) = holds k token s"
  "holds k token (mountPage s) = holds k token s" "holds k token (unsubscribe b s) = holds k token s"
  "holds k token (titleEffect w s) = holds k token s"
  by (simp_all add: holds_def mountPage_def unsubscribe_def titleEffect_def Let_def)

lemma holds_subscribe: "holds k token s \<Longrightarrow> holds k token (subscribe flag hs fresh s)"
  using calls_keep_socket(6) [of "lv_chat s" k] by (auto simp: holds_def)

lemma holds_render:
  assumes "holds k token s"
  shows "holds k token (render flag s)"
proof (cases "ProtectedRoute (lv_client s) = ChatView")
  case True
  have page: "holds k token (renderPage flag v r)" if "holds k token r" "cl_isAuthenticated (lv_client r)" for v r
  proof -
    let ?s2 = "subscriptionEffect flag (useHandlers \<lparr>ln_id = lv_next r, ln_saw = renderingOf (lv_client r) (mt_page v)\<rparr> (mt_handlers v))
        \<lparr>ln_id = lv_next r, ln_saw = renderingOf (lv_client r) (mt_page v)\<rparr> v (titleEffect v r)"
    have "holds k token ?s2"
      using that by (simp add: subscriptionEffect_def holds_subscribe Let_def split: option.split)
    then have "holds k token (selectionSync v ?s2)" by (simp add: selectionSync_def holds_chatStep Let_def)
    then show ?thesis by (simp add: renderPage_def Let_def)
  qed
  have "cl_isAuthenticated (lv_client (mountPage s)) = cl_isAuthenticated (lv_client s)" by (simp add: mountPage_def)
  then show ?thesis
    using True assms chat_view [OF True] by (simp add: render_def page Let_def split: option.split)
next
  case False
  then show ?thesis using assms by (simp add: render_def unmountPage_def Let_def split: option.split)
qed

lemma holds_step: "holds k token s \<Longrightarrow> \<not> connectionEvent e \<Longrightarrow> holds k token (liveStep d flag e s)"
  by (cases e) (simp_all add: holds_chatStep holds_render delivery_defs)

lemma holds_run:
  "holds k token s \<Longrightarrow> (\<forall>e\<in>set es. \<not> connectionEvent e) \<Longrightarrow> holds k token (fold (liveStep d flag) es s)"
  by (induction es arbitrary: s) (simp_all add: holds_step)

text \<open>
  C18: signing out does not close the connection. Once the connection is open nothing the client does on its own
  closes it or makes it anew: whoever signs out and in afterwards, the next page uses the connection
  that was made with the token of the user before, and a message that comes for that user is handled as a message for the new one.
\<close>

theorem next_user_on_old_connection:
  assumes "s = fold (liveStep d flag) es (newLive stored title)" "sk_socket (lv_chat s) = Some k" "sio_connected k"
    and "\<forall>e\<in>set es'. \<not> connectionEvent e" "s' = liveStep d flag Rendered (fold (liveStep d flag) es' s)"
    and "ProtectedRoute (lv_client s') = ChatView"
  shows "sk_socket (lv_chat s') = Some k \<and> lv_presented s' = lv_presented s \<and>
    (\<exists>v. lv_view s' = Some v \<and>
       lv_view (liveStep d flag (MessageArrived eager m) s') =
         Some (v\<lparr>mt_page := pageStep d (map_option au_id (cl_currentUser (lv_client s')))
           (Delivered (st_selectedConversationId (mt_page v)) eager m) (mt_page v)\<rparr>))"
proof -
  let ?r = "fold (liveStep d flag) es' s"
  have "holds k (lv_presented s) s" using assms(2,3) by (simp add: holds_def)
  then have held: "holds k (lv_presented s) s'" using holds_run assms(4,5) by (simp add: holds_render)
  have ok: "liveOk title ?r" using live.along [OF live_run_ok] assms(1) by simp
  have shown: "ProtectedRoute (lv_client ?r) = ChatView"
    using assms(5,6) by (cases "ProtectedRoute (lv_client ?r) = ChatView")
      (auto simp: render_def unmountPage_def unsubscribe_def Let_def split: option.splits if_splits)
  from render_result [OF ok shown refl, of flag] assms(5) held show ?thesis
    by (auto simp: holds_def liveOk_def viewOk_def subscribedSets_def delivery_defs Let_def)
qed

text \<open>One user signs in, the connection opens, they sign out, and another user signs in.\<close>

definition firstUser :: auth_user where
  "firstUser = \<lparr>au_id = [1], au_email = [], au_username = [], au_displayName = [], au_avatarUrl = None\<rparr>"

definition secondUser :: auth_user where
  "secondUser = \<lparr>au_id = [2], au_email = [], au_username = [], au_displayName = [], au_avatarUrl = None\<rparr>"

definition firstSession :: "live_event list" where
  "firstSession = [SessionEvent Login, SessionEvent (Reply 0 (SessionReply [0x61] firstUser)), Rendered, SocketEvent LibConnected]"

definition secondSession :: "live_event list" where
  "secondSession = [SessionEvent Logout, SessionEvent (Reply 1 DataReply), Rendered, SessionEvent Login,
     SessionEvent (Reply 2 (SessionReply [0x62] secondUser))]"

lemma sessions_run:
  "map_option sio_connected (sk_socket (lv_chat (fold (liveStep (\<lambda>_. 0) None) firstSession (newLive None [])))) = Some True"
  "lv_presented (fold (liveStep (\<lambda>_. 0) None) firstSession (newLive None [])) = Some [0x61]"
  "ProtectedRoute (lv_client (fold (liveStep (\<lambda>_. 0) None) (firstSession @ secondSession @ [Rendered]) (newLive None []))) = ChatView"
  "map_option au_id (cl_currentUser (lv_client (fold (liveStep (\<lambda>_. 0) None) (firstSession @ secondSession @ [Rendered])
     (newLive None [])))) = Some [2]"
  by code_simp+


theorem next_user_on_old_connection_witness:
  "let s' = fold (liveStep (\<lambda>_. 0) None) (firstSession @ secondSession @ [Rendered]) (newLive None []) in
   lv_presented s' = Some [0x61] \<and> cl_accessToken (lv_client s') = Some [0x62] \<and> lv_view s' \<noteq> None"
proof -
  let ?s = "fold (liveStep (\<lambda>_. 0) None) firstSession (newLive None [])"
  let ?s' = "fold (liveStep (\<lambda>_. 0) None) (firstSession @ secondSession @ [Rendered]) (newLive None [])"
  obtain k where k: "sk_socket (lv_chat ?s) = Some k" "sio_connected k" using sessions_run(1) by auto
  have quiet: "\<forall>e\<in>set secondSession. \<not> connectionEvent e" by (simp add: secondSession_def connectionEvent_def)
  have "?s' = liveStep (\<lambda>_. 0) None Rendered (fold (liveStep (\<lambda>_. 0) None) secondSession ?s)" by simp
  from next_user_on_old_connection [OF refl k quiet this sessions_run(3)] sessions_run(2)
  have "lv_presented ?s' = Some [0x61] \<and> lv_view ?s' \<noteq> None" by fastforce
  moreover have "cl_accessToken (lv_client ?s') = Some [0x62]" by code_simp
  ultimately show ?thesis by (simp add: Let_def)
qed

end
