(* ===== verification/ClientCalls.thy ===== *)
theory ClientCalls
  imports ChatController
begin

text \<open>
  The calls of the web client to the chat's HTTP interface: \<open>services/chat.service.ts\<close> and
  \<open>services/chat-attachment.service.ts\<close> turn a call into a message, and the decorators of
  \<open>chat/chat.controller.ts\<close> say which handler gets a message and what the handler reads of it. Paths are relative
  to the base address; the HTTP client and the server's framework carry query parameters and JSON bodies over
  unchanged, drop those that are undefined, and take the first route that matches.
\<close>

subsection \<open>Messages\<close>

datatype verb = GetVerb | PostVerb | DeleteVerb

datatype body_value = BodyText jstr | BodyTexts "jstr list" | BodyNumber jsnum

record http_message =
  hm_verb :: verb
  hm_path :: jstr
  hm_query :: "(string \<times> jstr) list"
  hm_body :: "(string \<times> body_value) list"

definition plainGet :: "jstr \<Rightarrow> http_message" where
  "plainGet path = \<lparr>hm_verb = GetVerb, hm_path = path, hm_query = [], hm_body = []\<rparr>"

definition plainPost :: "jstr \<Rightarrow> (string \<times> body_value) list \<Rightarrow> http_message" where
  "plainPost path body = \<lparr>hm_verb = PostVerb, hm_path = path, hm_query = [], hm_body = body\<rparr>"

definition plainDelete :: "jstr \<Rightarrow> http_message" where
  "plainDelete path = \<lparr>hm_verb = DeleteVerb, hm_path = path, hm_query = [], hm_body = []\<rparr>"

definition defined :: "(string \<times> 'a option) list \<Rightarrow> (string \<times> 'a) list" where
  "defined params = concat (map (\<lambda>(k, v). case v of None \<Rightarrow> [] | Some x \<Rightarrow> [(k, x)]) params)"

subsection \<open>The calls\<close>

datatype attachment_call =
    CallMarkUploaded jstr jstr
  | CallConfirm jstr jstr
  | CallAttachmentStatus jstr
  | CallPresignedDownload jstr
  | CallListAttachments jstr "jstr option" "nat option"

datatype client_call =
    CallStatus
  | CallListConversations
  | CallCreateConversation conversation_type "jstr option" "jstr list"
  | CallGetMessages jstr "jstr option" "nat option"
  | CallAddMember jstr jstr
  | CallRemoveMember jstr jstr
  | CallLeave jstr
  | CallDelete jstr
  | CallMarkRead jstr
  | CallSearch jstr jstr
  | CallEvents jstr
  | CallPresignedUpload jstr jstr jstr jsnum
  | CallAttachment attachment_call

definition conversationPath :: "jstr \<Rightarrow> jstr \<Rightarrow> jstr" where
  "conversationPath conversationId rest = js ''/chat/conversations/'' @ conversationId @ rest"

definition attachmentPath :: "jstr \<Rightarrow> jstr \<Rightarrow> jstr" where
  "attachmentPath attachmentId rest = js ''/chat/attachments/'' @ attachmentId @ rest"

fun typeText :: "conversation_type \<Rightarrow> jstr" where
  "typeText Direct = js ''direct''"
| "typeText Group = js ''group''"

definition createMessage :: "conversation_type \<Rightarrow> jstr option \<Rightarrow> jstr list \<Rightarrow> http_message" where
  "createMessage t title participantIds = plainPost (js ''/chat/conversations'')
     (defined [(''type'', Some (BodyText (typeText t))), (''title'', map_option BodyText title),
        (''participantIds'', Some (BodyTexts participantIds))])"

text \<open>A limit of zero and an empty \<open>before\<close> are left out by \<open>getMessages\<close>.\<close>

definition pageMessage :: "jstr \<Rightarrow> jstr option \<Rightarrow> nat option \<Rightarrow> http_message" where
  "pageMessage c before limit = (plainGet (conversationPath c (js ''/messages'')))\<lparr>hm_query :=
     defined [(''before'', if before = Some [] then None else before),
       (''limit'', case limit of None \<Rightarrow> None | Some n \<Rightarrow> if n = 0 then None else Some (showNat n))]\<rparr>"

definition uploadMessage :: "jstr \<Rightarrow> jstr \<Rightarrow> jstr \<Rightarrow> jsnum \<Rightarrow> http_message" where
  "uploadMessage c fileName mimeType sizeBytes = plainPost (js ''/chat/attachments/presigned-upload'')
     [(''conversationId'', BodyText c), (''fileName'', BodyText fileName), (''mimeType'', BodyText mimeType),
      (''sizeBytes'', BodyNumber sizeBytes)]"

fun attachmentMessage :: "attachment_call \<Rightarrow> http_message" where
  "attachmentMessage (CallMarkUploaded c a) = plainPost (conversationPath c (js ''/attachments/uploaded'')) [(''attachmentId'', BodyText a)]"
| "attachmentMessage (CallConfirm c a) = plainPost (conversationPath c (js ''/attachments'')) [(''attachmentId'', BodyText a)]"
| "attachmentMessage (CallAttachmentStatus a) = plainGet (attachmentPath a (js ''/status''))"
| "attachmentMessage (CallPresignedDownload a) = plainGet (attachmentPath a (js ''/download''))"
| "attachmentMessage (CallListAttachments c before limit) = (plainGet (conversationPath c (js ''/attachments'')))\<lparr>hm_query :=
     defined [(''before'', before), (''limit'', map_option showNat limit)]\<rparr>"

fun httpCall :: "client_call \<Rightarrow> http_message" where
  "httpCall CallStatus = plainGet (js ''/chat/status'')"
| "httpCall CallListConversations = plainGet (js ''/chat/conversations'')"
| "httpCall (CallCreateConversation t title participantIds) = createMessage t title participantIds"
| "httpCall (CallGetMessages c before limit) = pageMessage c before limit"
| "httpCall (CallAddMember c userId) = plainPost (conversationPath c (js ''/members'')) [(''userId'', BodyText userId)]"
| "httpCall (CallRemoveMember c userId) = plainDelete (conversationPath c (js ''/members/'' @ userId))"
| "httpCall (CallLeave c) = plainPost (conversationPath c (js ''/leave'')) []"
| "httpCall (CallDelete c) = plainDelete (conversationPath c [])"
| "httpCall (CallMarkRead c) = plainPost (conversationPath c (js ''/read'')) [(''conversationId'', BodyText c)]"
| "httpCall (CallSearch c query) = (plainGet (conversationPath c (js ''/messages/search'')))\<lparr>hm_query := [(''q'', query)]\<rparr>"
| "httpCall (CallEvents c) = plainGet (conversationPath c (js ''/events''))"
| "httpCall (CallPresignedUpload c fileName mimeType sizeBytes) = uploadMessage c fileName mimeType sizeBytes"
| "httpCall (CallAttachment call) = attachmentMessage call"

subsection \<open>The routes\<close>

datatype path_part = Fixed jstr | Param

text \<open>The parameters of a path that has the shape of a pattern; a parameter is not empty.\<close>

fun matchPath :: "path_part list \<Rightarrow> jstr list \<Rightarrow> jstr list option" where
  "matchPath [] [] = Some []"
| "matchPath (Fixed f # ps) (s # ss) = (if s = f then matchPath ps ss else None)"
| "matchPath (Param # ps) (s # ss) = (if s = [] then None else map_option (Cons s) (matchPath ps ss))"
| "matchPath _ _ = None"

fun textField :: "body_value option \<Rightarrow> jstr option" where
  "textField (Some (BodyText t)) = Some t"
| "textField _ = None"

text \<open>The payload of \<open>createConversation\<close>; a body of another shape is left out.\<close>

definition createDto :: "http_message \<Rightarrow> create_conversation_dto option" where
  "createDto m =
     (case (textField (map_of (hm_body m) ''type''), map_of (hm_body m) ''participantIds'') of
        (Some t, Some (BodyTexts ids)) \<Rightarrow>
          if t \<in> {js ''direct'', js ''group''}
          then Some \<lparr>cd_type = (if t = js ''direct'' then Direct else Group),
                     cd_title = textField (map_of (hm_body m) ''title''), cd_participantIds = ids\<rparr>
          else None
      | _ \<Rightarrow> None)"

definition uploadDto :: "http_message \<Rightarrow> upload_input option" where
  "uploadDto m =
     (case (textField (map_of (hm_body m) ''conversationId''), textField (map_of (hm_body m) ''fileName''),
            textField (map_of (hm_body m) ''mimeType''), map_of (hm_body m) ''sizeBytes'') of
        (Some c, Some f, Some t, Some (BodyNumber n)) \<Rightarrow>
          Some \<lparr>ui_conversationId = c, ui_fileName = f, ui_mimeType = t, ui_sizeBytes = n\<rparr>
      | _ \<Rightarrow> None)"

text \<open>The decorated methods in the order of the class: verb, path, and the call of the handler.\<close>

definition inConversation :: "path_part list \<Rightarrow> path_part list" where
  "inConversation rest = Fixed (js ''conversations'') # Param # rest"

definition chatRoutes :: "(verb \<times> path_part list \<times> (jstr list \<Rightarrow> http_message \<Rightarrow> chat_route option)) list" where
  "chatRoutes = [
     (GetVerb, [Fixed (js ''status'')], \<lambda>ps m. Some GetStatus),
     (GetVerb, [Fixed (js ''conversations'')], \<lambda>ps m. Some ListConversations),
     (PostVerb, [Fixed (js ''conversations'')], \<lambda>ps m. map_option CreateConversation (createDto m)),
     (GetVerb, inConversation [Fixed (js ''messages'')], \<lambda>ps m. Some (GetMessages (hd ps)
        \<lparr>mq_before = map_of (hm_query m) ''before'', mq_limit = map_of (hm_query m) ''limit''\<rparr>)),
     (GetVerb, inConversation [Fixed (js ''messages''), Fixed (js ''search'')], \<lambda>ps m.
        Some (SearchMessages (hd ps) (map_of (hm_query m) ''q''))),
     (PostVerb, inConversation [Fixed (js ''members'')], \<lambda>ps m.
        map_option (AddMember (hd ps)) (textField (map_of (hm_body m) ''userId''))),
     (DeleteVerb, inConversation [Fixed (js ''members''), Param], \<lambda>ps m. Some (RemoveMember (hd ps) (ps ! 1))),
     (PostVerb, inConversation [Fixed (js ''leave'')], \<lambda>ps m. Some (LeaveConversation (hd ps))),
     (DeleteVerb, inConversation [], \<lambda>ps m. Some (DeleteConversation (hd ps))),
     (PostVerb, inConversation [Fixed (js ''read'')], \<lambda>ps m.
        map_option (MarkRead (hd ps)) (textField (map_of (hm_body m) ''conversationId''))),
     (PostVerb, [Fixed (js ''attachments''), Fixed (js ''presigned-upload'')], \<lambda>ps m. map_option PresignedUpload (uploadDto m)),
     (PostVerb, inConversation [Fixed (js ''attachments''), Fixed (js ''uploaded'')], \<lambda>ps m.
        map_option (AttachmentUploaded (hd ps)) (textField (map_of (hm_body m) ''attachmentId''))),
     (GetVerb, [Fixed (js ''attachments''), Param, Fixed (js ''status'')], \<lambda>ps m. Some (GetAttachmentStatus (hd ps))),
     (PostVerb, inConversation [Fixed (js ''attachments'')], \<lambda>ps m.
        Some (ConfirmAttachment (hd ps) (textField (map_of (hm_body m) ''attachmentId'')))),
     (GetVerb, [Fixed (js ''attachments''), Param, Fixed (js ''download'')], \<lambda>ps m. Some (PresignedDownload (hd ps))),
     (GetVerb, inConversation [Fixed (js ''attachments'')], \<lambda>ps m.
        Some (ListAttachments (hd ps) (map_of (hm_query m) ''before'') (map_of (hm_query m) ''limit''))),
     (GetVerb, inConversation [Fixed (js ''events'')], \<lambda>ps m. Some (GetEvents (hd ps)))]"

text \<open>The first route that matches gets the message.\<close>

fun firstRoute ::
    "(verb \<times> path_part list \<times> (jstr list \<Rightarrow> http_message \<Rightarrow> chat_route option)) list \<Rightarrow> jstr list \<Rightarrow> http_message \<Rightarrow> chat_route option" where
  "firstRoute [] segments m = None"
| "firstRoute ((v, pattern, toRoute) # rest) segments m =
     (case if v = hm_verb m then matchPath pattern segments else None of
        None \<Rightarrow> firstRoute rest segments m
      | Some ps \<Rightarrow> toRoute ps m)"

definition dispatchChat :: "http_message \<Rightarrow> chat_route option" where
  "dispatchChat m =
     (case splitOn 0x2F (hm_path m) of
        [] # controller # segments \<Rightarrow> if controller = js ''chat'' then firstRoute chatRoutes segments m else None
      | _ \<Rightarrow> None)"

subsection \<open>Calls reach their handlers\<close>

text \<open>The route a call is meant for, and the identifiers it puts into the path.\<close>

fun meantAttachmentRoute :: "attachment_call \<Rightarrow> chat_route" where
  "meantAttachmentRoute (CallMarkUploaded c a) = AttachmentUploaded c a"
| "meantAttachmentRoute (CallConfirm c a) = ConfirmAttachment c (Some a)"
| "meantAttachmentRoute (CallAttachmentStatus a) = GetAttachmentStatus a"
| "meantAttachmentRoute (CallPresignedDownload a) = PresignedDownload a"
| "meantAttachmentRoute (CallListAttachments c before limit) = ListAttachments c before (map_option showNat limit)"

fun meantRoute :: "client_call \<Rightarrow> chat_route" where
  "meantRoute CallStatus = GetStatus"
| "meantRoute CallListConversations = ListConversations"
| "meantRoute (CallCreateConversation t title ids) = CreateConversation \<lparr>cd_type = t, cd_title = title, cd_participantIds = ids\<rparr>"
| "meantRoute (CallGetMessages c before limit) = GetMessages c
     \<lparr>mq_before = (if before = Some [] then None else before),
      mq_limit = (case limit of None \<Rightarrow> None | Some n \<Rightarrow> if n = 0 then None else Some (showNat n))\<rparr>"
| "meantRoute (CallAddMember c u) = AddMember c u"
| "meantRoute (CallRemoveMember c u) = RemoveMember c u"
| "meantRoute (CallLeave c) = LeaveConversation c"
| "meantRoute (CallDelete c) = DeleteConversation c"
| "meantRoute (CallMarkRead c) = MarkRead c c"
| "meantRoute (CallSearch c q) = SearchMessages c (Some q)"
| "meantRoute (CallEvents c) = GetEvents c"
| "meantRoute (CallPresignedUpload c f t n) = PresignedUpload
     \<lparr>ui_conversationId = c, ui_fileName = f, ui_mimeType = t, ui_sizeBytes = n\<rparr>"
| "meantRoute (CallAttachment call) = meantAttachmentRoute call"

fun pathIds :: "client_call \<Rightarrow> jstr list" where
  "pathIds (CallGetMessages c _ _) = [c]"
| "pathIds (CallAddMember c _) = [c]"
| "pathIds (CallRemoveMember c u) = [c, u]"
| "pathIds (CallLeave c) = [c]"
| "pathIds (CallDelete c) = [c]"
| "pathIds (CallMarkRead c) = [c]"
| "pathIds (CallSearch c _) = [c]"
| "pathIds (CallEvents c) = [c]"
| "pathIds (CallAttachment (CallMarkUploaded c _)) = [c]"
| "pathIds (CallAttachment (CallConfirm c _)) = [c]"
| "pathIds (CallAttachment (CallAttachmentStatus a)) = [a]"
| "pathIds (CallAttachment (CallPresignedDownload a)) = [a]"
| "pathIds (CallAttachment (CallListAttachments c _ _)) = [c]"
| "pathIds _ = []"

lemma js_path:
  "js ''/chat/status'' = 0x2F # js ''chat'' @ 0x2F # js ''status''"
  "js ''/chat/conversations'' = 0x2F # js ''chat'' @ 0x2F # js ''conversations''"
  "js ''/chat/attachments/presigned-upload'' = 0x2F # js ''chat'' @ 0x2F # js ''attachments'' @ 0x2F # js ''presigned-upload''"
  "js ''/chat/conversations/'' = 0x2F # js ''chat'' @ 0x2F # js ''conversations'' @ [0x2F]"
  "js ''/chat/attachments/'' = 0x2F # js ''chat'' @ 0x2F # js ''attachments'' @ [0x2F]"
  "js ''/messages'' = 0x2F # js ''messages''" "js ''/members'' = 0x2F # js ''members''" "js ''/leave'' = 0x2F # js ''leave''"
  "js ''/read'' = 0x2F # js ''read''" "js ''/events'' = 0x2F # js ''events''" "js ''/status'' = 0x2F # js ''status''"
  "js ''/download'' = 0x2F # js ''download''" "js ''/attachments'' = 0x2F # js ''attachments''"
  "js ''/members/'' = 0x2F # js ''members'' @ [0x2F]" "js ''/messages/search'' = 0x2F # js ''messages'' @ 0x2F # js ''search''"
  "js ''/attachments/uploaded'' = 0x2F # js ''attachments'' @ 0x2F # js ''uploaded''"
  by code_simp+

lemma no_slash:
  "0x2F \<notin> set (js ''chat'')" "0x2F \<notin> set (js ''status'')" "0x2F \<notin> set (js ''conversations'')" "0x2F \<notin> set (js ''attachments'')"
  "0x2F \<notin> set (js ''presigned-upload'')" "0x2F \<notin> set (js ''messages'')" "0x2F \<notin> set (js ''members'')" "0x2F \<notin> set (js ''leave'')"
  "0x2F \<notin> set (js ''read'')" "0x2F \<notin> set (js ''events'')" "0x2F \<notin> set (js ''download'')" "0x2F \<notin> set (js ''search'')"
  "0x2F \<notin> set (js ''uploaded'')"
  by code_simp+

lemma splitOn_start: "splitOn d (d # s) = [] # splitOn d s"
  by (simp split: list.split)

lemmas path_segments = js_path no_slash splitOn_start splitOn_sep splitOn_no conversationPath_def attachmentPath_def

lemma typeText_back: "typeText t \<in> {js ''direct'', js ''group''}" "(if typeText t = js ''direct'' then Direct else Group) = t"
  by (cases t; simp)+

lemmas route_defs = dispatchChat_def chatRoutes_def inConversation_def plainGet_def plainPost_def plainDelete_def defined_def
  createMessage_def pageMessage_def uploadMessage_def
  createDto_def uploadDto_def



end
