(* ===== verification/ClientActions.thy ===== *)
theory ClientActions
  imports ClientCalls ClientSocket "HOL-Library.Sublist"
begin

text \<open>
  The actions of the chat page that take several steps: sending a message with its file, leaving and deleting a
  conversation, and downloading a file (\<open>features/chat/chat.page.tsx\<close>, with the download of
  \<open>services/chat-attachment.service.ts\<close>). An action is a flow: the call it waits for, what it has called so far, and
  the page it was started on, whose state its closure reads. Between an answer and the next everything else may
  happen, a second action included. With them go what the page takes from the browser: its scroll position and
  notifications.
\<close>

text \<open>The file cannot be downloaded now\<close>

definition txtDownloadFailed :: jstr where
  "txtDownloadFailed = [75, 104, 244, 110, 103, 32, 116, 104, 7875, 32, 116, 7843, 105, 32, 116, 7879, 112, 32, 108, 250, 99, 32,
     110, 224, 121, 46]"

subsection \<open>Scrolling\<close>

record metrics =
  mx_scrollHeight :: rat
  mx_scrollTop :: rat
  mx_clientHeight :: rat

text \<open>The references of the page; \<open>sr_moves\<close> are the moves to the latest message, with whether they are smooth.\<close>

record scroll =
  sr_shouldStickToBottom :: bool
  sr_pending :: bool
  sr_moves :: "bool list"

definition newScroll :: scroll where
  "newScroll = \<lparr>sr_shouldStickToBottom = True, sr_pending = False, sr_moves = []\<rparr>"

definition scrollToLatestMessage :: "bool \<Rightarrow> scroll \<Rightarrow> scroll" where
  "scrollToLatestMessage smooth r = r\<lparr>sr_moves := sr_moves r @ [smooth]\<rparr>"

text \<open>The second result asks for older messages.\<close>

definition handleScroll :: "metrics \<Rightarrow> page \<Rightarrow> scroll \<Rightarrow> scroll \<times> bool" where
  "handleScroll m seen r =
     (r\<lparr>sr_shouldStickToBottom := mx_scrollHeight m - mx_scrollTop m - mx_clientHeight m < 80\<rparr>,
      mx_scrollTop m = 0 \<and> st_hasMoreMessages seen \<and> \<not> st_loadingMessages seen)"

text \<open>The part of \<open>handleIncomingMessage\<close> that scrolls, and the effect on the messages.\<close>

definition scrollOnMessage :: "jstr option \<Rightarrow> jstr option \<Rightarrow> delivered_message \<Rightarrow> scroll \<Rightarrow> scroll" where
  "scrollOnMessage me seen m r =
     (let isCurrentUserMessage = (me = Some (inc_senderId m));
          isActiveConversation = (seen = Some (inc_conversationId m));
          r\<^sub>1 = (if isActiveConversation \<and> (isCurrentUserMessage \<or> sr_shouldStickToBottom r)
            then scrollToLatestMessage True r else r)
      in if isCurrentUserMessage then r\<^sub>1\<lparr>sr_pending := True\<rparr> else r\<^sub>1)"

definition scrollEffect :: "scroll \<Rightarrow> scroll" where
  "scrollEffect r = (if \<not> sr_pending r then r else scrollToLatestMessage False (r\<lparr>sr_pending := False\<rparr>))"

subsection \<open>Notifications of the browser\<close>

datatype permission = Unsupported | Undecided | Granted | Denied

definition ensureNotificationPermission :: "permission \<Rightarrow> permission \<Rightarrow> permission" where
  "ensureNotificationPermission current decision = (if current = Undecided then decision else current)"

record browser_notification =
  bn_title :: jstr
  bn_body :: jstr
  bn_icon :: "jstr option"
  bn_tag :: jstr

definition showBrowserNotification :: "permission \<Rightarrow> delivered_message \<Rightarrow> browser_notification option" where
  "showBrowserNotification permission m =
     (if permission \<noteq> Granted then None
      else Some \<lparr>bn_title = (case inc_senderDisplayName m of None \<Rightarrow> txtFallbackSender | Some n \<Rightarrow> n),
        bn_body = (if trim (inc_content m) \<noteq> [] then trim (inc_content m) else txtNewMessage),
        bn_icon = (if inc_isAIBotMessage m = Some True then None else inc_senderAvatarUrl m), bn_tag = inc_messageId m\<rparr>)"

subsection \<open>Flows\<close>

datatype outgoing = HttpOut client_call | PutOut jstr draft_file | SocketOut socket_call

datatype flow_answer =
    UrlGiven jstr jstr | StatusGiven jstr | ListGiven "client_conversation list" | DownloadGiven jstr jstr | Done

datatype flow_kind = Sending page | Leaving jstr | Deleting jstr | Downloading jstr

datatype flow_phase =
    AskingUrl | UploadingFile jstr | MarkingUploaded jstr | AskingStatus jstr | SendingOut | TellingTyping
  | LeavingRoom | LeavingOut | DeletingOut | Reloading | AskingDownload | Closed

record flow =
  fl_kind :: flow_kind
  fl_phase :: flow_phase
  fl_calls :: "outgoing list"

text \<open>What an answer does besides moving its flow on: to the page, to the joined conversation, to the browser.\<close>

record outcome =
  oc_page :: "page \<Rightarrow> page"
  oc_leftRoom :: bool
  oc_download :: "(jstr \<times> jstr) option"

definition nothing :: outcome where
  "nothing = \<lparr>oc_page = (\<lambda>p. p), oc_leftRoom = False, oc_download = None\<rparr>"

definition calls :: "outgoing \<Rightarrow> flow_phase \<Rightarrow> flow \<Rightarrow> flow" where
  "calls call phase f = f\<lparr>fl_phase := phase, fl_calls := fl_calls f @ [call]\<rparr>"

definition closes :: "flow \<Rightarrow> flow" where
  "closes f = f\<lparr>fl_phase := Closed\<rparr>"

subsubsection \<open>Sending\<close>

definition seenConversation :: "page \<Rightarrow> jstr" where
  "seenConversation seen = (case st_selectedConversationId seen of None \<Rightarrow> [] | Some c \<Rightarrow> c)"

definition uploadUrlCall :: "page \<Rightarrow> draft_file \<Rightarrow> outgoing" where
  "uploadUrlCall seen file =
     HttpOut (CallPresignedUpload (seenConversation seen) (df_name file)
       (if df_type file = [] then js ''application/octet-stream'' else df_type file) (Fin (of_int (df_size file))))"

definition messageCall :: "page \<Rightarrow> jstr option \<Rightarrow> outgoing" where
  "messageCall seen attachmentId = SocketOut (SendCall (seenConversation seen) (trim (pg_inputValue seen)) attachmentId)"

definition startSending :: "page \<Rightarrow> flow" where
  "startSending seen =
     (case st_draftAttachment seen of
        Some d \<Rightarrow> \<lparr>fl_kind = Sending seen, fl_phase = AskingUrl, fl_calls = [uploadUrlCall seen (da_file d)]\<rparr>
      | None \<Rightarrow> \<lparr>fl_kind = Sending seen, fl_phase = SendingOut, fl_calls = [messageCall seen None]\<rparr>)"

definition draftFile :: "page \<Rightarrow> draft_file" where
  "draftFile seen = (case st_draftAttachment seen of Some d \<Rightarrow> da_file d | None \<Rightarrow> \<lparr>df_name = [], df_type = [], df_size = 0\<rparr>)"

text \<open>An answer of a kind the call does not have does not occur.\<close>

fun sendAnswered :: "page \<Rightarrow> flow_phase \<Rightarrow> flow_answer \<Rightarrow> flow \<Rightarrow> flow \<times> outcome" where
  "sendAnswered seen AskingUrl (UrlGiven a url) f =
     (calls (PutOut url (draftFile seen)) (UploadingFile a) f, nothing\<lparr>oc_page := uploadPrepared a\<rparr>)"
| "sendAnswered seen (UploadingFile a) Done f =
     (calls (HttpOut (CallAttachment (CallMarkUploaded (seenConversation seen) a))) (MarkingUploaded a) f, nothing)"
| "sendAnswered seen (MarkingUploaded a) Done f =
     (calls (HttpOut (CallAttachment (CallAttachmentStatus a))) (AskingStatus a) f, nothing)"
| "sendAnswered seen (AskingStatus a) (StatusGiven a') f =
     (calls (messageCall seen (Some a')) SendingOut f, nothing\<lparr>oc_page := uploadFinished a'\<rparr>)"
| "sendAnswered seen SendingOut Done f =
     (calls (SocketOut (TypingCall (seenConversation seen) False)) TellingTyping f, nothing)"
| "sendAnswered seen TellingTyping Done f = (closes f, nothing)"
| "sendAnswered seen _ _ f = (f, nothing)"

subsubsection \<open>Leaving, deleting, downloading\<close>

fun leaveAnswered :: "jstr \<Rightarrow> flow_phase \<Rightarrow> flow_answer \<Rightarrow> flow \<Rightarrow> flow \<times> outcome" where
  "leaveAnswered c LeavingRoom Done f = (calls (HttpOut (CallLeave c)) LeavingOut f, nothing\<lparr>oc_leftRoom := True\<rparr>)"
| "leaveAnswered c LeavingOut Done f = (calls (HttpOut CallListConversations) Reloading f, nothing\<lparr>oc_page := conversationLeft\<rparr>)"
| "leaveAnswered c Reloading (ListGiven cs) f = (closes f, nothing\<lparr>oc_page := conversationsLoaded cs\<rparr>)"
| "leaveAnswered c _ _ f = (f, nothing)"

fun deleteAnswered :: "jstr \<Rightarrow> flow_phase \<Rightarrow> flow_answer \<Rightarrow> flow \<Rightarrow> flow \<times> outcome" where
  "deleteAnswered c LeavingRoom Done f = (calls (HttpOut (CallDelete c)) DeletingOut f, nothing\<lparr>oc_leftRoom := True\<rparr>)"
| "deleteAnswered c DeletingOut Done f = (calls (HttpOut CallListConversations) Reloading f, nothing)"
| "deleteAnswered c Reloading (ListGiven cs) f = (closes f, nothing\<lparr>oc_page := conversationDeleted c cs\<rparr>)"
| "deleteAnswered c _ _ f = (f, nothing)"

fun downloadAnswered :: "flow_phase \<Rightarrow> flow_answer \<Rightarrow> flow \<Rightarrow> flow \<times> outcome" where
  "downloadAnswered AskingDownload (DownloadGiven url name) f = (closes f, nothing\<lparr>oc_download := Some (url, name)\<rparr>)"
| "downloadAnswered _ _ f = (f, nothing)"

fun flowAnswered :: "flow_answer \<Rightarrow> flow \<Rightarrow> flow \<times> outcome" where
  "flowAnswered x f =
     (case fl_kind f of
        Sending seen \<Rightarrow> sendAnswered seen (fl_phase f) x f
      | Leaving c \<Rightarrow> leaveAnswered c (fl_phase f) x f
      | Deleting c \<Rightarrow> deleteAnswered c (fl_phase f) x f
      | Downloading a \<Rightarrow> downloadAnswered (fl_phase f) x f)"

text \<open>A call that fails ends its flow; the second result is what it does to the page, the third what is shown.\<close>

definition flowFailed :: "jstr option \<Rightarrow> jstr option \<Rightarrow> flow \<Rightarrow> flow \<times> (page \<Rightarrow> page) \<times> jstr option" where
  "flowFailed detailMessage errorMessage f =
     (if fl_phase f = Closed then (f, \<lambda>p. p, None)
      else
        (closes f,
         case fl_kind f of
           Sending seen \<Rightarrow> sendFailed seen detailMessage errorMessage
         | Leaving c \<Rightarrow> if fl_phase f = Reloading then conversationsFailed else (\<lambda>p. p)
         | _ \<Rightarrow> (\<lambda>p. p),
         case fl_kind f of Downloading a \<Rightarrow> Some txtDownloadFailed | _ \<Rightarrow> None))"

subsection \<open>The page with its flows\<close>

record actions =
  ac_page :: page
  ac_joined :: "jstr option"
  ac_permissionRequested :: bool
  ac_permission :: permission
  ac_scroll :: scroll
  ac_flows :: "flow list"
  ac_downloads :: "(jstr \<times> jstr) list"
  ac_errors :: "jstr list"
  ac_notifications :: "browser_notification list"

definition newActions :: "permission \<Rightarrow> actions" where
  "newActions current = \<lparr>ac_page = newPage, ac_joined = None, ac_permissionRequested = False, ac_permission = current,
     ac_scroll = newScroll, ac_flows = [], ac_downloads = [], ac_errors = [], ac_notifications = []\<rparr>"

text \<open>\<open>decision\<close> is what the user answers if the browser has to ask whether notifications are allowed.\<close>

definition handleSend :: "permission \<Rightarrow> page \<Rightarrow> actions \<Rightarrow> actions" where
  "handleSend decision seen a =
     (if \<not> sendAllowed seen then a
      else a\<lparr>ac_permission := (if ac_permissionRequested a then ac_permission a
               else ensureNotificationPermission (ac_permission a) decision),
             ac_permissionRequested := True,
             ac_scroll := (ac_scroll a)\<lparr>sr_pending := True\<rparr>,
             ac_page := sendStarted seen (ac_page a),
             ac_flows := ac_flows a @ [startSending seen]\<rparr>)"

definition handleLeave :: "page \<Rightarrow> actions \<Rightarrow> actions" where
  "handleLeave seen a =
     (let c = seenConversation seen in
      if c = [] then a
      else a\<lparr>ac_flows := ac_flows a @ [\<lparr>fl_kind = Leaving c, fl_phase = LeavingRoom, fl_calls = [SocketOut (LeaveCall c)]\<rparr>]\<rparr>)"

definition handleDeleteConversation :: "jstr \<Rightarrow> actions \<Rightarrow> actions" where
  "handleDeleteConversation c a =
     a\<lparr>ac_flows := ac_flows a @
       [if ac_joined a = Some c
        then \<lparr>fl_kind = Deleting c, fl_phase = LeavingRoom, fl_calls = [SocketOut (LeaveCall c)]\<rparr>
        else \<lparr>fl_kind = Deleting c, fl_phase = DeletingOut, fl_calls = [HttpOut (CallDelete c)]\<rparr>]\<rparr>"

definition handleDownloadAttachment :: "jstr \<Rightarrow> actions \<Rightarrow> actions" where
  "handleDownloadAttachment attachmentId a =
     (if attachmentId = [] then a
      else a\<lparr>ac_flows := ac_flows a @ [\<lparr>fl_kind = Downloading attachmentId, fl_phase = AskingDownload,
        fl_calls = [HttpOut (CallAttachment (CallPresignedDownload attachmentId))]\<rparr>]\<rparr>)"

definition triggerBrowserDownload :: "jstr \<times> jstr \<Rightarrow> actions \<Rightarrow> actions" where
  "triggerBrowserDownload link a = a\<lparr>ac_downloads := ac_downloads a @ [link]\<rparr>"

definition answerFlow :: "nat \<Rightarrow> flow_answer \<Rightarrow> actions \<Rightarrow> actions" where
  "answerFlow i x a =
     (if length (ac_flows a) \<le> i then a
      else case flowAnswered x (ac_flows a ! i) of
        (f, out) \<Rightarrow>
          (case oc_download out of None \<Rightarrow> (\<lambda>b. b) | Some link \<Rightarrow> triggerBrowserDownload link)
            (a\<lparr>ac_flows := (ac_flows a)[i := f], ac_page := oc_page out (ac_page a),
               ac_joined := (if oc_leftRoom out then None else ac_joined a)\<rparr>))"

definition failFlow :: "nat \<Rightarrow> jstr option \<Rightarrow> jstr option \<Rightarrow> actions \<Rightarrow> actions" where
  "failFlow i detailMessage errorMessage a =
     (if length (ac_flows a) \<le> i then a
      else case flowFailed detailMessage errorMessage (ac_flows a ! i) of
        (f, g, shown) \<Rightarrow> a\<lparr>ac_flows := (ac_flows a)[i := f], ac_page := g (ac_page a),
          ac_errors := ac_errors a @ (case shown of None \<Rightarrow> [] | Some t \<Rightarrow> [t])\<rparr>)"

text \<open>The whole of \<open>handleIncomingMessage\<close>, with what it does to the scroll position and in the browser.\<close>

definition messageArrives ::
    "(jstr \<Rightarrow> int) \<Rightarrow> permission \<Rightarrow> jstr option \<Rightarrow> jstr option \<Rightarrow> bool \<Rightarrow> delivered_message \<Rightarrow> actions \<Rightarrow> actions" where
  "messageArrives d decision me seen eager m a =
     (case handleIncomingMessage d me seen eager m (ac_page a) of
        (p, notice, reload) \<Rightarrow>
          let permission = (if notice = None then ac_permission a else ensureNotificationPermission (ac_permission a) decision) in
          a\<lparr>ac_page := p, ac_scroll := scrollOnMessage me seen m (ac_scroll a), ac_permission := permission,
            ac_notifications := ac_notifications a @
              (if notice = None then [] else case showBrowserNotification permission m of None \<Rightarrow> [] | Some b \<Rightarrow> [b])\<rparr>)"

fun isUploading :: "flow_phase \<Rightarrow> bool" where
  "isUploading (UploadingFile _) = True"
| "isUploading _ = False"

datatype action_event =
    PressSend permission page
  | PressLeave page
  | PressDelete jstr
  | PressDownload jstr
  | FlowAnswered nat flow_answer
  | FlowFailed nat "jstr option" "jstr option"
  | FlowProgress nat int
  | Joined "jstr option"
  | MessageIn permission "jstr option" "jstr option" bool delivered_message
  | Scrolled metrics page
  | MessagesRendered
  | ThreadOpened
  | OtherEvent page_event

fun actionStep :: "(jstr \<Rightarrow> int) \<Rightarrow> jstr option \<Rightarrow> action_event \<Rightarrow> actions \<Rightarrow> actions" where
  "actionStep d me (PressSend decision seen) a = handleSend decision seen a"
| "actionStep d me (PressLeave seen) a = handleLeave seen a"
| "actionStep d me (PressDelete c) a = handleDeleteConversation c a"
| "actionStep d me (PressDownload i) a = handleDownloadAttachment i a"
| "actionStep d me (FlowAnswered i x) a = answerFlow i x a"
| "actionStep d me (FlowFailed i detailMessage errorMessage) a = failFlow i detailMessage errorMessage a"
| "actionStep d me (FlowProgress i n) a =
     (if i < length (ac_flows a) \<and> isUploading (fl_phase (ac_flows a ! i))
      then a\<lparr>ac_page := uploadProgressed n (ac_page a)\<rparr> else a)"
| "actionStep d me (Joined c) a = a\<lparr>ac_joined := c\<rparr>"
| "actionStep d me (MessageIn decision who seen eager m) a = messageArrives d decision who seen eager m a"
| "actionStep d me (Scrolled m seen) a =
     (case handleScroll m seen (ac_scroll a) of
        (r, older) \<Rightarrow> a\<lparr>ac_scroll := r, ac_page := (if older then pageStep d me LoadMore (ac_page a) else ac_page a)\<rparr>)"
| "actionStep d me MessagesRendered a = a\<lparr>ac_scroll := scrollEffect (ac_scroll a)\<rparr>"
| "actionStep d me ThreadOpened a = a\<lparr>ac_scroll := scrollToLatestMessage False (ac_scroll a)\<rparr>"
| "actionStep d me (OtherEvent e) a = a\<lparr>ac_page := pageStep d me e (ac_page a)\<rparr>"

subsection \<open>What a press of the button sends\<close>

text \<open>The calls of one sending, with the two answers they take their arguments from.\<close>

definition sendProtocol :: "page \<Rightarrow> jstr \<Rightarrow> jstr \<Rightarrow> jstr \<Rightarrow> outgoing list" where
  "sendProtocol seen url attachmentId confirmedId =
     (case st_draftAttachment seen of
        None \<Rightarrow> [messageCall seen None]
      | Some d \<Rightarrow>
          [uploadUrlCall seen (da_file d), PutOut url (da_file d),
           HttpOut (CallAttachment (CallMarkUploaded (seenConversation seen) attachmentId)),
           HttpOut (CallAttachment (CallAttachmentStatus attachmentId)), messageCall seen (Some confirmedId)]) @
     [SocketOut (TypingCall (seenConversation seen) False)]"

text \<open>How far a sending is in each phase.\<close>

fun sendDone :: "page \<Rightarrow> flow_phase \<Rightarrow> jstr \<Rightarrow> nat \<Rightarrow> bool" where
  "sendDone seen AskingUrl a n \<longleftrightarrow> st_draftAttachment seen \<noteq> None \<and> n = 1"
| "sendDone seen (UploadingFile b) a n \<longleftrightarrow> st_draftAttachment seen \<noteq> None \<and> n = 2 \<and> b = a"
| "sendDone seen (MarkingUploaded b) a n \<longleftrightarrow> st_draftAttachment seen \<noteq> None \<and> n = 3 \<and> b = a"
| "sendDone seen (AskingStatus b) a n \<longleftrightarrow> st_draftAttachment seen \<noteq> None \<and> n = 4 \<and> b = a"
| "sendDone seen SendingOut a n \<longleftrightarrow> n = (if st_draftAttachment seen = None then 1 else 5)"
| "sendDone seen TellingTyping a n \<longleftrightarrow> n = (if st_draftAttachment seen = None then 2 else 6)"
| "sendDone seen Closed a n \<longleftrightarrow> True"
| "sendDone seen _ a n \<longleftrightarrow> False"

definition sendOk :: "page \<Rightarrow> flow \<Rightarrow> bool" where
  "sendOk seen f \<longleftrightarrow> sendAllowed seen \<and>
     (\<exists>url a a' n. fl_calls f = take n (sendProtocol seen url a a') \<and> sendDone seen (fl_phase f) a n)"

definition flowOk :: "flow \<Rightarrow> bool" where
  "flowOk f \<longleftrightarrow> (case fl_kind f of Sending seen \<Rightarrow> sendOk seen f | _ \<Rightarrow> True)"

lemma startSending_ok: "sendAllowed seen \<Longrightarrow> flowOk (startSending seen)"
  by (auto simp: flowOk_def sendOk_def startSending_def sendProtocol_def split: option.split)

lemma kind_kept: "fl_kind (fst (flowAnswered x f)) = fl_kind f"
  by (cases f, cases "fl_kind f"; cases "fl_phase f"; cases x) (simp_all add: calls_def closes_def)

lemma sendOkI:
  "sendAllowed seen \<Longrightarrow> fl_calls f = take n (sendProtocol seen url a a') \<Longrightarrow> sendDone seen (fl_phase f) a n \<Longrightarrow> sendOk seen f"
  by (auto simp: sendOk_def)

lemma send_answer_ok:
  assumes "sendOk seen f"
  shows "sendOk seen (fst (sendAnswered seen (fl_phase f) x f))"
proof -
  obtain url a a' n where c: "fl_calls f = take n (sendProtocol seen url a a')" "sendDone seen (fl_phase f) a n" "sendAllowed seen"
    using assms by (auto simp: sendOk_def)
  note rules = sendOk_def calls_def closes_def sendProtocol_def draftFile_def
  show ?thesis
  proof (cases "fl_phase f")
    case AskingUrl
    show ?thesis
    proof (cases x)
      case (UrlGiven b url')
      then show ?thesis using c AskingUrl
        by (intro sendOkI [of seen _ 2 url' b a']) (auto simp: rules)
    qed (use assms AskingUrl in simp_all)
  next
    case (UploadingFile b)
    with c assms show ?thesis
      by (cases x) (auto simp: rules intro!: sendOkI [of seen _ 3 url a a'])
  next
    case (MarkingUploaded b)
    with c assms show ?thesis
      by (cases x) (auto simp: rules intro!: sendOkI [of seen _ 4 url a a'])
  next
    case (AskingStatus b)
    show ?thesis
    proof (cases x)
      case (StatusGiven i)
      then show ?thesis using c AskingStatus
        by (intro sendOkI [of seen _ 5 url a i]) (auto simp: rules)
    qed (use assms AskingStatus in simp_all)
  next
    case SendingOut
    with c assms show ?thesis
      by (cases x) (auto simp: rules split: option.splits if_splits
          intro!: sendOkI [of seen _ 2 url a a'] sendOkI [of seen _ 6 url a a'])
  next
    case TellingTyping
    with c assms show ?thesis by (cases x) (auto simp: sendOk_def closes_def)
  qed (use assms in simp_all)
qed

definition flowsOk :: "actions \<Rightarrow> bool" where
  "flowsOk a \<longleftrightarrow> (\<forall>f\<in>set (ac_flows a). flowOk f)"

lemma answer_ok: "flowOk f \<Longrightarrow> flowOk (fst (flowAnswered x f))"
  using kind_kept [of x f] send_answer_ok by (cases "fl_kind f") (simp_all add: flowOk_def)

lemma fail_ok: "flowOk f \<Longrightarrow> flowOk (fst (flowFailed detailMessage errorMessage f))"
  by (cases "fl_kind f") (auto simp: flowFailed_def flowOk_def sendOk_def closes_def)

lemma update_ok: "flowsOk a \<Longrightarrow> i < length (ac_flows a) \<Longrightarrow> flowOk f \<Longrightarrow> \<forall>g\<in>set ((ac_flows a)[i := f]). flowOk g"
  using set_update_subset_insert [of "ac_flows a" i f] by (auto simp: flowsOk_def)

lemma action_event_ok:
  assumes "flowsOk a"
  shows "flowsOk (actionStep d me e a)"
proof (cases e)
  case (PressSend decision seen)
  then show ?thesis using assms startSending_ok by (auto simp: handleSend_def flowsOk_def)
next
  case (PressLeave seen)
  then show ?thesis using assms by (auto simp: handleLeave_def flowsOk_def flowOk_def Let_def)
next
  case (PressDelete c)
  then show ?thesis using assms by (auto simp: handleDeleteConversation_def flowsOk_def flowOk_def)
next
  case (PressDownload i)
  then show ?thesis using assms by (auto simp: handleDownloadAttachment_def flowsOk_def flowOk_def)
next
  case (FlowAnswered i x)
  have "ac_flows (triggerBrowserDownload l b) = ac_flows b" for l b by (simp add: triggerBrowserDownload_def)
  moreover have "flowOk (fst (flowAnswered x (ac_flows a ! i)))" if "i < length (ac_flows a)"
    using assms that by (intro answer_ok) (simp add: flowsOk_def)
  ultimately show ?thesis
    using assms FlowAnswered update_ok [of a i "fst (flowAnswered x (ac_flows a ! i))"]
    by (simp add: answerFlow_def flowsOk_def split_beta split: option.split)
next
  case (FlowFailed i x y)
  have "flowOk (fst (flowFailed x y (ac_flows a ! i)))" if "i < length (ac_flows a)"
    using assms that by (intro fail_ok) (simp add: flowsOk_def)
  then show ?thesis
    using assms FlowFailed update_ok [of a i "fst (flowFailed x y (ac_flows a ! i))"] by (simp add: failFlow_def flowsOk_def split_beta)
next
  case (MessageIn decision who seen eager m)
  then show ?thesis using assms by (simp add: messageArrives_def flowsOk_def split_beta Let_def)
qed (use assms in \<open>simp_all add: flowsOk_def split_beta\<close>)

interpretation flows: event_invariant "actionStep d me" flowsOk for d me
  by unfold_locales (rule action_event_ok)

definition answered :: "flow_answer list \<Rightarrow> flow \<Rightarrow> flow" where
  "answered = fold (\<lambda>x f. fst (flowAnswered x f))"

lemma answered_all:
  "fl_calls (answered (if st_draftAttachment seen = None then [Done, Done] else [UrlGiven x url, Done, Done, StatusGiven y, Done, Done])
     (startSending seen)) = sendProtocol seen url x y"
proof (cases "st_draftAttachment seen")
  case None
  then show ?thesis by (simp add: answered_def startSending_def sendProtocol_def calls_def closes_def)
next
  case (Some d)
  then show ?thesis by (simp add: answered_def startSending_def sendProtocol_def calls_def closes_def draftFile_def)
qed

text \<open>
  C19: what a press of the send button sends is decided when it is pressed. Whatever arrives, is typed or opened while a
  file is uploaded, and whichever step fails, the calls of a sending are a beginning of: ask for an address, upload, mark the
  file uploaded, ask for its status, send one message, end the typing; with the conversation, the text and the file that were there when the
  button was pressed, and the file under the identifier the server has confirmed. Without a file it is the message and the
  end of the typing. When every call is answered all of them are made.
\<close>

theorem press_decides_what_is_sent:
  assumes "a = fold (actionStep d me) es (newActions current)" "i < length (ac_flows a)" "fl_kind (ac_flows a ! i) = Sending seen"
  shows "sendAllowed seen \<and> (\<exists>url x y n. fl_calls (ac_flows a ! i) = take n (sendProtocol seen url x y)) \<and>
    fl_calls (answered (if st_draftAttachment seen = None then [Done, Done] else [UrlGiven x url, Done, Done, StatusGiven y, Done, Done])
      (startSending seen)) = sendProtocol seen url x y"
proof -
  have "flowsOk (newActions current)" by (simp add: flowsOk_def newActions_def)
  from flows.along [OF this] assms(1) have "flowsOk a" by simp
  then have "flowOk (ac_flows a ! i)" using assms(2) by (simp add: flowsOk_def)
  then have "sendOk seen (ac_flows a ! i)" using assms(3) by (simp add: flowOk_def)
  then have "sendAllowed seen" "\<exists>url x y n. fl_calls (ac_flows a ! i) = take n (sendProtocol seen url x y)"
    unfolding sendOk_def by blast+
  then show ?thesis using answered_all by blast
qed

text \<open>
  Leaving a conversation closes whatever conversation is open when the server has answered, not only the one that is
  left; and a message of the same user from elsewhere empties the composer and unlocks it while a file is on its way.
\<close>

lemma leaving_closes_what_is_open:
  assumes "i < length (ac_flows a)" "fl_kind (ac_flows a ! i) = Leaving c" "fl_phase (ac_flows a ! i) = LeavingOut"
  shows "st_selectedConversationId (ac_page (answerFlow i Done a)) = None"
  using assms by (simp add: answerFlow_def nothing_def conversationLeft_def)

lemma own_message_unlocks_composer:
  assumes "me = Some (inc_senderId m)"
  shows "let a' = messageArrives d decision me seen eager m a in
    ac_flows a' = ac_flows a \<and> pg_inputValue (ac_page a') = [] \<and> st_draftAttachment (ac_page a') = None \<and>
    \<not> st_sendingMessage (ac_page a')"
  using assms by (simp add: messageArrives_def handleIncomingMessage_def Let_def)

text \<open>A page with a conversation open, a text and a connection.\<close>

definition readyPage :: page where
  "readyPage = newPage\<lparr>st_selectedConversationId := Some [1], pg_inputValue := [0x61], pg_connectionState := Connected\<rparr>"

theorem press_decides_what_is_sent_witness:
  "\<exists>n. fl_calls (ac_flows (fold (actionStep (\<lambda>_. 0) None) [PressSend Denied readyPage, OtherEvent (Selected [2]), FlowAnswered 0 Done]
     (newActions Undecided)) ! 0) = take n [SocketOut (SendCall [1] [0x61] None), SocketOut (TypingCall [1] False)]"
proof -
  let ?a = "fold (actionStep (\<lambda>_. 0) None) [PressSend Denied readyPage, OtherEvent (Selected [2]), FlowAnswered 0 Done] (newActions Undecided)"
  have allowed: "sendAllowed readyPage" by (simp add: sendAllowed_def readyPage_def newPage_def trim_def isSpace_def)
  have plain: "st_draftAttachment readyPage = None" by (simp add: readyPage_def newPage_def)
  have ready: "seenConversation readyPage = [1]" "trim (pg_inputValue readyPage) = [0x61]"
    by (simp_all add: seenConversation_def readyPage_def trim_def isSpace_def)
  have "length (ac_flows ?a) = 1" "fl_kind (ac_flows ?a ! 0) = Sending readyPage"
    by (simp_all add: handleSend_def allowed plain startSending_def answerFlow_def newActions_def calls_def nothing_def)
  moreover have "sendProtocol readyPage url x y = [SocketOut (SendCall [1] [0x61] None), SocketOut (TypingCall [1] False)]" for url x y
    by (simp add: sendProtocol_def plain messageCall_def ready)
  ultimately show ?thesis
    using press_decides_what_is_sent [OF refl, of 0 "\<lambda>_. 0" None "[PressSend Denied readyPage, OtherEvent (Selected [2]), FlowAnswered 0 Done]"
        Undecided readyPage] by auto
qed

end
