(* ===== verification/ClientAddress.thy ===== *)
theory ClientAddress
  imports ClientPage Cookies
begin

text \<open>
  The address bar of the chat page: the functions of \<open>features/chat/chat.page.tsx\<close> that read and replace the open
  conversation in the query of the address, on top of the browser's \<open>URLSearchParams\<close>, and the two effects that
  keep address and page together. The main result: reloading the page opens the conversation that was open.
\<close>

subsection \<open>Query parameters\<close>

text \<open>A text as the bytes of its UTF-8 form and back; a lone surrogate becomes the replacement character.\<close>

definition textBytes :: "jstr \<Rightarrow> nat list" where
  "textBytes s = concat (map encodePoint (codePoints (map unat s)))"

definition bytesText :: "nat list \<Rightarrow> jstr" where
  "bytesText bs =
     concat (map (\<lambda>cp. map of_nat (unitsOf (case cp of None \<Rightarrow> 0xFFFD | Some c \<Rightarrow> c))) (decodePoints bs))"

definition scalarText :: "jstr \<Rightarrow> jstr" where
  "scalarText s = map of_nat (concat (map unitsOf (codePoints (map unat s))))"

definition formSafe :: "nat \<Rightarrow> bool" where
  "formSafe c \<longleftrightarrow> (0x61 \<le> c \<and> c \<le> 0x7A) \<or> (0x41 \<le> c \<and> c \<le> 0x5A) \<or> (0x30 \<le> c \<and> c \<le> 0x39) \<or>
     c \<in> {0x2A, 0x2D, 0x2E, 0x5F}"

definition formByte :: "nat \<Rightarrow> jstr" where
  "formByte b = (if b = 0x20 then [0x2B] else if formSafe b then [of_nat b] else percentByte b)"

definition formEncode :: "jstr \<Rightarrow> jstr" where
  "formEncode s = concat (map formByte (textBytes s))"

fun percentDecode :: "nat list \<Rightarrow> nat list" where
  "percentDecode [] = []"
| "percentDecode (b # bs) =
     (case bs of
        h # l # rest \<Rightarrow>
          (case (hexVal (of_nat h), hexVal (of_nat l)) of
             (Some x, Some y) \<Rightarrow> if b = 0x25 then (x * 16 + y) # percentDecode rest else b # percentDecode bs
           | _ \<Rightarrow> b # percentDecode bs)
      | _ \<Rightarrow> b # percentDecode bs)"

definition formDecode :: "nat list \<Rightarrow> jstr" where
  "formDecode bs = bytesText (percentDecode (map (\<lambda>b. if b = 0x2B then 0x20 else b) bs))"

fun splitBytes :: "nat \<Rightarrow> nat list \<Rightarrow> nat list list" where
  "splitBytes d [] = [[]]"
| "splitBytes d (b # bs) =
     (if b = d then [] # splitBytes d bs
      else case splitBytes d bs of [] \<Rightarrow> [[b]] | w # ws \<Rightarrow> (b # w) # ws)"

definition parsePair :: "nat list \<Rightarrow> jstr \<times> jstr" where
  "parsePair bs = (formDecode (takeWhile (\<lambda>b. b \<noteq> 0x3D) bs), formDecode (drop 1 (dropWhile (\<lambda>b. b \<noteq> 0x3D) bs)))"

definition parseParams :: "jstr \<Rightarrow> (jstr \<times> jstr) list" where
  "parseParams query =
     map parsePair (filter (\<lambda>bs. bs \<noteq> [])
       (splitBytes 0x26 (textBytes (case query of [] \<Rightarrow> [] | c # s \<Rightarrow> if c = 0x3F then s else query))))"

definition showPair :: "jstr \<times> jstr \<Rightarrow> jstr" where
  "showPair p = formEncode (fst p) @ 0x3D # formEncode (snd p)"

fun showParams :: "(jstr \<times> jstr) list \<Rightarrow> jstr" where
  "showParams [] = []"
| "showParams [p] = showPair p"
| "showParams (p # q # ps) = showPair p @ 0x26 # showParams (q # ps)"

definition deleteParam :: "jstr \<Rightarrow> (jstr \<times> jstr) list \<Rightarrow> (jstr \<times> jstr) list" where
  "deleteParam k = filter (\<lambda>p. fst p \<noteq> k)"

fun setParam :: "jstr \<Rightarrow> jstr \<Rightarrow> (jstr \<times> jstr) list \<Rightarrow> (jstr \<times> jstr) list" where
  "setParam k v [] = [(k, v)]"
| "setParam k v (p # ps) = (if fst p = k then (k, v) # deleteParam k ps else p # setParam k v ps)"

subsection \<open>The open conversation in the address\<close>

definition SELECTED_CONVERSATION_PARAM :: jstr where
  "SELECTED_CONVERSATION_PARAM = js ''conversationId''"

definition readSelectedConversationIdFromLocation :: "jstr \<Rightarrow> jstr option" where
  "readSelectedConversationIdFromLocation search = map_of (parseParams search) SELECTED_CONVERSATION_PARAM"

text \<open>The query of the address afterwards; the path stays.\<close>

definition replaceSelectedConversationInLocation :: "jstr option \<Rightarrow> jstr \<Rightarrow> jstr" where
  "replaceSelectedConversationInLocation conversationId search =
     (let params = parseParams search;
          nextParams = (case conversationId of
             None \<Rightarrow> deleteParam SELECTED_CONVERSATION_PARAM params
           | Some c \<Rightarrow> if c = [] then deleteParam SELECTED_CONVERSATION_PARAM params
               else setParam SELECTED_CONVERSATION_PARAM (scalarText c) params);
          nextSearch = showParams nextParams
      in if nextSearch = [] then [] else 0x3F # nextSearch)"

text \<open>The address with what the page remembers of it: the conversation it asked for, and whether that was opened.\<close>

record address =
  ad_search :: jstr
  ad_requested :: "jstr option"
  ad_restored :: bool

definition newAddress :: "jstr \<Rightarrow> address" where
  "newAddress search = \<lparr>ad_search = search, ad_requested = readSelectedConversationIdFromLocation search, ad_restored = False\<rparr>"

text \<open>The effect on the loaded list; the second result is the conversation it opens.\<close>

definition restoreEffect :: "page \<Rightarrow> address \<Rightarrow> address \<times> jstr option" where
  "restoreEffect p a =
     (if st_loadingConversations p \<or> ad_restored a then (a, None)
      else
        let a' = a\<lparr>ad_restored := True\<rparr> in
        case ad_requested a of
          None \<Rightarrow> (a', None)
        | Some c \<Rightarrow>
            if c = [] then (a', None)
            else if find (\<lambda>v. cc_id v = c) (st_conversations p) = None
            then (a'\<lparr>ad_search := replaceSelectedConversationInLocation None (ad_search a'), ad_requested := None\<rparr>, None)
            else (a', Some c))"

definition selectionEffect :: "page \<Rightarrow> address \<Rightarrow> address" where
  "selectionEffect p a =
     (if \<not> ad_restored a then a
      else if st_selectedConversationId p = None \<and> ad_requested a \<noteq> None then a
      else a\<lparr>ad_search := replaceSelectedConversationInLocation (st_selectedConversationId p) (ad_search a),
             ad_requested := st_selectedConversationId p\<rparr>)"

text \<open>The effects after a rendering: the first one, then the second if the selection has changed.\<close>

definition addressEffects :: "page \<Rightarrow> page \<Rightarrow> address \<Rightarrow> address \<times> jstr option" where
  "addressEffects p q a =
     (case restoreEffect q a of (a', opened) \<Rightarrow>
        (if st_selectedConversationId p \<noteq> st_selectedConversationId q then selectionEffect q a' else a', opened))"

definition addressStep ::
    "(jstr \<Rightarrow> int) \<Rightarrow> jstr option \<Rightarrow> page_event \<Rightarrow> page \<times> address \<Rightarrow> page \<times> address" where
  "addressStep d me e s =
     (let q = pageStep d me e (fst s) in
      case addressEffects (fst s) q (snd s) of
        (a, None) \<Rightarrow> (q, a)
      | (a, Some c) \<Rightarrow> (let q' = conversationSelected c q in (q', fst (addressEffects q q' a))))"

subsection \<open>Reading back what was written\<close>

lemma units_small: "\<forall>u\<in>set (map unat (s :: jstr)). u < 0x10000"
  by (auto simp: unat_16_less)

lemma textBytes_less: "b \<in> set (textBytes s) \<Longrightarrow> b < 256"
  using codePoints_scalar [OF units_small] encodePoint_less by (auto simp: textBytes_def scalar_def)

lemma bytesText_textBytes: "bytesText (textBytes s) = scalarText s"
proof -
  have "\<forall>cp\<in>set (codePoints (map unat s)). scalar cp" using codePoints_scalar [OF units_small] by blast
  then show ?thesis by (simp add: bytesText_def textBytes_def scalarText_def decodePoints_encode map_concat comp_def)
qed

lemma scalarText_wellFormed: "wellFormed s \<Longrightarrow> scalarText s = s"
  by (simp add: scalarText_def wellFormed_def unitsOf_codePoints [OF units_small] map_of_nat_unat)

text \<open>Text of ASCII characters is its own bytes.\<close>

lemma codePoints_ascii: "\<forall>u\<in>set us. u < 0x80 \<Longrightarrow> codePoints us = us"
  by (induction us rule: codePoints.induct) (auto simp: isHigh_def isLow_def)

lemma textBytes_ascii:
  assumes "\<forall>c\<in>set s. unat c < 0x80"
  shows "textBytes s = map unat s"
proof -
  have "\<forall>n\<in>set ns. n < 0x80 \<Longrightarrow> concat (map encodePoint ns) = ns" for ns
    by (induction ns) (auto simp: encodePoint_def)
  moreover have small: "\<forall>n\<in>set (map unat s). n < 0x80" using assms by auto
  ultimately have "concat (map encodePoint (map unat s)) = map unat s" by blast
  then show ?thesis using codePoints_ascii [OF small] by (simp only: textBytes_def)
qed

lemma formSafe_small: "formSafe b \<Longrightarrow> b < 0x80 \<and> b \<notin> {0x20, 0x25, 0x26, 0x2B, 0x3D, 0x3F}"
  by (auto simp: formSafe_def)

lemma unat_of_small: "n < 0x10000 \<Longrightarrow> unat (of_nat n :: jchar) = n"
  by (simp add: unat_of_nat take_bit_nat_eq_self)

lemma hexDigit_small: "n < 16 \<Longrightarrow> unat (hexDigit n) < 0x80 \<and> unat (hexDigit n) \<notin> {0x20, 0x25, 0x26, 0x2B, 0x3D, 0x3F}"
  by (auto simp: hexDigit_def unat_of_small)

lemma formByte_chars:
  assumes "b < 256" "c \<in> set (formByte b)"
  shows "unat c < 0x80 \<and> unat c \<notin> {0x20, 0x26, 0x3D, 0x3F}"
proof -
  from assms(2) consider "c = 0x2B" | "formSafe b" "c = of_nat b" | "c = 0x25" | "c = hexDigit (b div 16)" | "c = hexDigit (b mod 16)"
    by (auto simp: formByte_def percentByte_def split: if_splits)
  then show ?thesis
  proof cases
    case 2
    then show ?thesis using formSafe_small [of b] by (simp add: unat_of_small)
  next
    case 4
    have "b div 16 < 16" using assms(1) by auto
    with 4 show ?thesis using hexDigit_small [of "b div 16"] by simp
  next
    case 5
    then show ?thesis using hexDigit_small [of "b mod 16"] by simp
  qed simp_all
qed

lemma formEncode_chars: "c \<in> set (formEncode s) \<Longrightarrow> unat c < 0x80 \<and> unat c \<notin> {0x20, 0x26, 0x3D, 0x3F}"
  using formByte_chars textBytes_less by (fastforce simp: formEncode_def)

lemma percentDecode_plain: "b \<noteq> 0x25 \<Longrightarrow> percentDecode (b # bs) = b # percentDecode bs"
  by (simp split: list.split option.split)

abbreviation plusSpace :: "nat \<Rightarrow> nat" where
  "plusSpace b \<equiv> if b = 0x2B then 0x20 else b"

lemma decode_formByte:
  assumes "b < 256"
  shows "percentDecode (map (plusSpace \<circ> unat) (formByte b) @ rest) = b # percentDecode rest"
proof -
  have hex: "hexVal (of_nat (unat (hexDigit n))) = Some n" if "n < 16" for n using that by (simp add: hexVal_hexDigit)
  have "b div 16 < 16" using assms by auto
  then have "percentDecode (0x25 # unat (hexDigit (b div 16)) # unat (hexDigit (b mod 16)) # rest) = b # percentDecode rest"
    using hex by simp
  then show ?thesis
    using hexDigit_small [of "b div 16"] hexDigit_small [of "b mod 16"] formSafe_small [of b] \<open>b div 16 < 16\<close>
    by (auto simp: formByte_def percentByte_def unat_of_small percentDecode_plain simp del: percentDecode.simps(2))
qed

lemma formDecode_formEncode: "formDecode (map unat (formEncode s)) = scalarText s"
proof -
  have "percentDecode (map plusSpace (map unat (concat (map formByte bs)))) = bs" if "\<forall>b\<in>set bs. b < 256" for bs
    using that by (induction bs) (simp_all add: decode_formByte)
  then have "percentDecode (map plusSpace (map unat (formEncode s))) = textBytes s"
    using textBytes_less by (simp add: formEncode_def)
  then show ?thesis by (simp add: formDecode_def bytesText_textBytes)
qed

lemma parsePair_showPair: "parsePair (map unat (showPair p)) = (scalarText (fst p), scalarText (snd p))"
proof -
  have "\<forall>b\<in>set (map unat (formEncode (fst p))). b \<noteq> 0x3D" using formEncode_chars by auto
  then have "takeWhile (\<lambda>b. b \<noteq> 0x3D) (map unat (showPair p)) = map unat (formEncode (fst p))"
    "dropWhile (\<lambda>b. b \<noteq> 0x3D) (map unat (showPair p)) = 0x3D # map unat (formEncode (snd p))"
    by (simp_all add: showPair_def takeWhile_append dropWhile_append3 dropWhile_append2)
  then show ?thesis by (simp add: parsePair_def formDecode_formEncode)
qed

lemma splitBytes_word: "d \<notin> set w \<Longrightarrow> splitBytes d w = [w]"
  by (induction w) auto

lemma splitBytes_append: "d \<notin> set w \<Longrightarrow> splitBytes d (w @ d # rest) = w # splitBytes d rest"
  by (induction w) auto

lemma showPair_chars: "c \<in> set (showPair p) \<Longrightarrow> unat c < 0x80 \<and> unat c \<notin> {0x26, 0x3F}"
  using formEncode_chars by (auto simp: showPair_def)

lemma splitBytes_showParams:
  "ps \<noteq> [] \<Longrightarrow> splitBytes 0x26 (map unat (showParams ps)) = map (\<lambda>p. map unat (showPair p)) ps"
proof (induction ps rule: showParams.induct)
  case (2 p)
  have "0x26 \<notin> set (map unat (showPair p))" by (auto dest: showPair_chars)
  then show ?case by (simp add: splitBytes_word)
next
  case (3 p q ps)
  have "0x26 \<notin> set (map unat (showPair p))" by (auto dest: showPair_chars)
  then show ?case using 3 by (simp add: splitBytes_append)
qed simp

lemma showParams_chars: "c \<in> set (showParams ps) \<Longrightarrow> unat c < 0x80 \<and> unat c \<noteq> 0x3F"
  by (induction ps rule: showParams.induct) (auto dest: showPair_chars)

text \<open>Parsing what was printed gives the parameters back, up to lone surrogates.\<close>

lemma parse_showParams: "parseParams (0x3F # showParams ps) = map (map_prod scalarText scalarText) ps"
proof (cases "ps = []")
  case False
  have "textBytes (showParams ps) = map unat (showParams ps)" using showParams_chars by (intro textBytes_ascii) blast
  moreover have "showPair p \<noteq> []" for p by (simp add: showPair_def)
  ultimately show ?thesis using False
    by (simp add: parseParams_def splitBytes_showParams parsePair_showPair comp_def map_prod_def case_prod_beta)
qed (simp add: parseParams_def textBytes_def)

lemma showParams_Nil: "showParams ps = [] \<longleftrightarrow> ps = []"
  by (cases ps rule: showParams.cases) (simp_all add: showPair_def)

text \<open>Decoded text has no lone surrogates, so it comes back unchanged.\<close>

lemma continuation_bounds:
  "continuation k 0x80 0xBF acc bs = (Some r, rest) \<Longrightarrow> acc * 64 ^ k \<le> r \<and> r < (acc + 1) * 64 ^ k"
proof (induction k "0x80 :: nat" "0xBF :: nat" acc bs rule: continuation.induct)
  case (3 n acc b bs)
  let ?acc = "acc * 64 + (b - 0x80)"
  from 3 have b: "0x80 \<le> b" "b \<le> 0xBF" and r: "?acc * 64 ^ n \<le> r" "r < (?acc + 1) * 64 ^ n"
    by (auto split: if_splits)
  have e: "acc * 64 ^ Suc n = (acc * 64) * 64 ^ n" "(acc + 1) * 64 ^ Suc n = ((acc + 1) * 64) * 64 ^ n"
    by (simp_all add: algebra_simps)
  have lower: "(acc * 64) * 64 ^ n \<le> ?acc * 64 ^ n" by (rule mult_right_mono) simp_all
  have upper: "(?acc + 1) * 64 ^ n \<le> ((acc + 1) * 64) * 64 ^ n" using b by (intro mult_right_mono) simp_all
  show ?case unfolding e using le_trans [OF lower r(1)] less_le_trans [OF r(2) upper] by blast
qed simp_all

lemma continuation_step:
  assumes "continuation (Suc k) lo hi acc bs = (Some r, rest)"
  obtains x where "lo \<le> x" "x \<le> hi" "(acc * 64 + (x - 0x80)) * 64 ^ k \<le> r" "r < (acc * 64 + (x - 0x80) + 1) * 64 ^ k"
proof -
  from assms obtain x xs where bs: "bs = x # xs" by (cases bs) simp_all
  with assms have "lo \<le> x" "x \<le> hi" "continuation k 0x80 0xBF (acc * 64 + (x - 0x80)) xs = (Some r, rest)"
    by (simp_all split: if_splits)
  with that continuation_bounds show thesis by blast
qed

lemma decodePoint_scalar:
  assumes "decodePoint b bs = (Some cp, rest)"
  shows "scalar cp"
proof -
  consider "b < 0x80" | "0xC2 \<le> b" "b \<le> 0xDF" | "0xE0 \<le> b" "b \<le> 0xEF" | "0xF0 \<le> b" "b \<le> 0xF4"
    using assms by (auto simp: decodePoint_def split: if_splits)
  then show ?thesis
  proof cases
    case 1
    then show ?thesis using assms by (auto simp: decodePoint_def scalar_def isHigh_def isLow_def)
  next
    case 2
    then have "continuation (Suc 0) 0x80 0xBF (b - 0xC0) bs = (Some cp, rest)"
      using assms by (simp add: decodePoint_def)
    from continuation_step [OF this] obtain x where "0x80 \<le> x" "x \<le> 0xBF"
      "((b - 0xC0) * 64 + (x - 0x80)) * 64 ^ 0 \<le> cp" "cp < ((b - 0xC0) * 64 + (x - 0x80) + 1) * 64 ^ 0" .
    then show ?thesis using 2 by (auto simp: scalar_def isHigh_def isLow_def)
  next
    case 3
    then have run: "continuation (Suc 1) (if b = 0xE0 then 0xA0 else 0x80) (if b = 0xED then 0x9F else 0xBF) (b - 0xE0) bs = (Some cp, rest)"
      using assms by (simp add: decodePoint_def numeral_2_eq_2)
    obtain x where x: "(if b = 0xE0 then 0xA0 else 0x80) \<le> x" "x \<le> (if b = 0xED then 0x9F else 0xBF)"
      "((b - 0xE0) * 64 + (x - 0x80)) * 64 \<le> cp" "cp < ((b - 0xE0) * 64 + (x - 0x80) + 1) * 64"
      using continuation_step [OF run] by auto
    show ?thesis
    proof (cases "b \<le> 0xED")
      case True
      then show ?thesis using 3 x by (cases "b = 0xED") (simp_all add: scalar_def isHigh_def isLow_def, linarith+)
    next
      case False
      then have "b = 0xEE \<or> b = 0xEF" using 3 by auto
      then have "0xE000 \<le> cp \<and> cp < 0x10000" using x by auto
      then show ?thesis by (simp add: scalar_def isHigh_def isLow_def)
    qed
  next
    case 4
    then have run: "continuation (Suc 2) (if b = 0xF0 then 0x90 else 0x80) (if b = 0xF4 then 0x8F else 0xBF) (b - 0xF0) bs = (Some cp, rest)"
      using assms by (simp add: decodePoint_def numeral_3_eq_3)
    obtain x where x: "(if b = 0xF0 then 0x90 else 0x80) \<le> x" "x \<le> (if b = 0xF4 then 0x8F else 0xBF)"
      "((b - 0xF0) * 64 + (x - 0x80)) * 4096 \<le> cp" "cp < ((b - 0xF0) * 64 + (x - 0x80) + 1) * 4096"
      using continuation_step [OF run] by auto
    have "16 \<le> (b - 0xF0) * 64 + (x - 0x80) \<and> (b - 0xF0) * 64 + (x - 0x80) < 0x110"
    proof (cases "b = 0xF0 \<or> b = 0xF4")
      case True
      then show ?thesis using x(1,2) by auto
    next
      case False
      then have "b = 0xF1 \<or> b = 0xF2 \<or> b = 0xF3" using 4 by auto
      then show ?thesis using x(1,2) by auto
    qed
    moreover have "0x10000 \<le> cp \<and> cp < 0x110000" if "16 \<le> y \<and> y < 0x110" "y * 4096 \<le> cp" "cp < (y + 1) * 4096" for y
      using that by auto
    ultimately have "0x10000 \<le> cp \<and> cp < 0x110000" using x(3,4) by blast
    then show ?thesis by (simp add: scalar_def isHigh_def isLow_def)
  qed
qed

lemma decodePoints_scalar: "Some cp \<in> set (decodePoints bs) \<Longrightarrow> scalar cp"
proof (induction bs rule: decodePoints.induct)
  case (2 b bs)
  obtain p rest where run: "decodePoint b bs = (p, rest)" by fastforce
  with 2 show ?case using decodePoint_scalar [of b bs cp rest] by auto
qed simp

lemma codePoints_units: "\<forall>cp\<in>set cps. scalar cp \<Longrightarrow> codePoints (concat (map unitsOf cps)) = cps"
proof (induction cps)
  case (Cons cp cps)
  let ?rest = "concat (map unitsOf cps)"
  show ?case
  proof (cases "cp < 0x10000")
    case True
    have "codePoints (cp # us) = cp # codePoints us" for us
      using Cons.prems by (cases us) (simp_all add: scalar_def)
    then show ?thesis using Cons True by (simp add: unitsOf_def)
  next
    case False
    let ?h = "0xD800 + (cp - 0x10000) div 0x400" and ?l = "0xDC00 + (cp - 0x10000) mod 0x400"
    have "cp < 0x110000" using Cons.prems by (simp add: scalar_def)
    then have "cp - 0x10000 < 0x400 * 0x400" using False by arith
    then have "(cp - 0x10000) div 0x400 < 0x400" by (rule less_mult_imp_div_less)
    then have "isHigh ?h" "isLow ?l" by (simp_all add: isHigh_def isLow_def)
    moreover have "(cp - 0x10000) div 0x400 * 0x400 + (cp - 0x10000) mod 0x400 = cp - 0x10000" by simp
    ultimately show ?thesis using Cons False by (simp add: unitsOf_def)
  qed
qed simp

lemma unitsOf_small: "scalar cp \<Longrightarrow> u \<in> set (unitsOf cp) \<Longrightarrow> u < 0x10000"
  by (auto simp: unitsOf_def scalar_def split: if_splits)

lemma scalarText_units:
  assumes "\<forall>cp\<in>set cps. scalar cp"
  shows "scalarText (map of_nat (concat (map unitsOf cps))) = map of_nat (concat (map unitsOf cps))"
proof -
  have "map unat (map of_nat us :: jstr) = us" if "\<forall>u\<in>set us. u < 0x10000" for us
    using that by (induction us) (simp_all add: unat_of_small)
  moreover have "\<forall>u\<in>set (concat (map unitsOf cps)). u < 0x10000" using assms unitsOf_small by auto
  ultimately show ?thesis using codePoints_units [OF assms] by (simp add: scalarText_def)
qed

lemma scalarText_bytesText [simp]: "scalarText (bytesText bs) = bytesText bs"
proof -
  let ?point = "\<lambda>cp. case cp of None \<Rightarrow> 0xFFFD | Some c \<Rightarrow> c"
  have "bytesText bs = map of_nat (concat (map unitsOf (map ?point (decodePoints bs))))"
    by (simp add: bytesText_def map_concat comp_def)
  moreover have "\<forall>cp\<in>set (map ?point (decodePoints bs)). scalar cp"
    using decodePoints_scalar by (auto simp: scalar_def isHigh_def isLow_def split: option.split)
  ultimately show ?thesis using scalarText_units by metis
qed

lemma scalarText_idem [simp]: "scalarText (scalarText s) = scalarText s"
  by (metis bytesText_textBytes scalarText_bytesText)

subsection \<open>The parameter of the open conversation\<close>

lemma parse_scalar: "p \<in> set (parseParams s) \<Longrightarrow> scalarText (fst p) = fst p \<and> scalarText (snd p) = snd p"
  by (auto simp: parseParams_def parsePair_def formDecode_def)

lemma map_of_deleteParam: "map_of (deleteParam k ps) k' = (if k' = k then None else map_of ps k')"
  by (induction ps) (auto simp: deleteParam_def)

lemma map_of_setParam: "map_of (setParam k v ps) = (map_of ps)(k \<mapsto> v)"
  by (induction ps) (auto simp: fun_eq_iff map_of_deleteParam)

lemma setParam_mem: "p \<in> set (setParam k v ps) \<Longrightarrow> p = (k, v) \<or> p \<in> set ps"
  by (induction ps) (auto simp: deleteParam_def split: if_splits)

lemma parse_show_scalar:
  assumes "\<forall>p\<in>set ps. scalarText (fst p) = fst p \<and> scalarText (snd p) = snd p"
  shows "parseParams (if showParams ps = [] then [] else 0x3F # showParams ps) = ps"
proof (cases "ps = []")
  case False
  have "map (map_prod scalarText scalarText) ps = ps" using assms by (intro map_idI) auto
  then show ?thesis using False by (simp add: showParams_Nil parse_showParams)
qed (simp add: parseParams_def textBytes_def)

lemma param_scalar [simp]: "scalarText SELECTED_CONVERSATION_PARAM = SELECTED_CONVERSATION_PARAM"
  by (rule scalarText_wellFormed) (simp add: SELECTED_CONVERSATION_PARAM_def js_def wellFormed_def isHigh_def isLow_def)

lemma parse_replaced:
  "parseParams (replaceSelectedConversationInLocation c search) =
     (case c of
        None \<Rightarrow> deleteParam SELECTED_CONVERSATION_PARAM (parseParams search)
      | Some i \<Rightarrow> if i = [] then deleteParam SELECTED_CONVERSATION_PARAM (parseParams search)
          else setParam SELECTED_CONVERSATION_PARAM (scalarText i) (parseParams search))"
proof -
  have "\<forall>p\<in>set (deleteParam k (parseParams search)). scalarText (fst p) = fst p \<and> scalarText (snd p) = snd p" for k
    using parse_scalar unfolding deleteParam_def by fastforce
  moreover have "\<forall>p\<in>set (setParam SELECTED_CONVERSATION_PARAM (scalarText i) (parseParams search)).
      scalarText (fst p) = fst p \<and> scalarText (snd p) = snd p" for i
    using parse_scalar setParam_mem by fastforce
  ultimately show ?thesis
    by (simp add: replaceSelectedConversationInLocation_def Let_def parse_show_scalar split: option.split)
qed

lemma read_replaced [simp]:
  "readSelectedConversationIdFromLocation (replaceSelectedConversationInLocation None search) = None"
  "c \<noteq> [] \<Longrightarrow> readSelectedConversationIdFromLocation (replaceSelectedConversationInLocation (Some c) search) = Some (scalarText c)"
  by (simp_all add: readSelectedConversationIdFromLocation_def parse_replaced map_of_deleteParam map_of_setParam)

text \<open>The other parameters of the address stay as they are.\<close>

lemma others_kept:
  "k \<noteq> SELECTED_CONVERSATION_PARAM \<Longrightarrow>
   map_of (parseParams (replaceSelectedConversationInLocation c search)) k = map_of (parseParams search) k"
  by (simp add: parse_replaced map_of_deleteParam map_of_setParam split: option.split)

subsection \<open>Address and page\<close>

text \<open>
  Runs of the page with its address. A conversation is clicked only when the list is on the screen, and the address
  opens conversations through its effect.
\<close>

definition addressEvent :: "page_event \<Rightarrow> page \<Rightarrow> bool" where
  "addressEvent e p \<longleftrightarrow>
     (case e of Selected c \<Rightarrow> \<not> st_loadingConversations p | RestoredFromLocation c \<Rightarrow> False | _ \<Rightarrow> True)"

inductive address_run :: "(jstr \<Rightarrow> int) \<Rightarrow> jstr option \<Rightarrow> jstr \<Rightarrow> page \<times> address \<Rightarrow> bool" for d me search where
  opened: "address_run d me search (newPage, newAddress search)"
| stepped: "address_run d me search s \<Longrightarrow> addressEvent e (fst s) \<Longrightarrow> address_run d me search (addressStep d me e s)"

definition addressOk :: "jstr \<Rightarrow> page \<times> address \<Rightarrow> bool" where
  "addressOk search s \<longleftrightarrow>
     (\<not> ad_restored (snd s) \<longrightarrow> st_loadingConversations (fst s) \<and> st_selectedConversationId (fst s) = None) \<and>
     (\<forall>c. st_selectedConversationId (fst s) = Some c \<and> c \<noteq> [] \<longrightarrow>
        readSelectedConversationIdFromLocation (ad_search (snd s)) = Some (scalarText c)) \<and>
     (\<forall>k. k \<noteq> SELECTED_CONVERSATION_PARAM \<longrightarrow>
        map_of (parseParams (ad_search (snd s))) k = map_of (parseParams search) k)"

lemma selection_kept:
  "st_selectedConversationId (fst (handleIncomingMessage d me seen eager m p)) = st_selectedConversationId p"
  "st_selectedConversationId (fst (handlePreviewUpdate d eager u p)) = st_selectedConversationId p"
  "st_selectedConversationId (receiveTypingPresence d me time t p) = st_selectedConversationId p"
  "st_selectedConversationId (suggestionsArrived c n ss p) = st_selectedConversationId p"
  "st_selectedConversationId (suggestionsFailed c code p) = st_selectedConversationId p"
  "st_selectedConversationId (aiErrorArrived code' p) = st_selectedConversationId p"
  "st_selectedConversationId (handleUploadFile seenPage i f p) = st_selectedConversationId p"
  "st_selectedConversationId (fst (inputChanged seenPage v p)) = st_selectedConversationId p"
  "st_selectedConversationId (fst (composerFocused seenPage p)) = st_selectedConversationId p"
  "st_selectedConversationId (sendStarted seenPage p) = st_selectedConversationId p"
  "st_selectedConversationId (loadMoreStarted p) = st_selectedConversationId p"
  "st_selectedConversationId (sendFailed seenPage x y p) = st_selectedConversationId p"
  "st_selectedConversationId (typingExpired c p) = st_selectedConversationId p"
          apply (simp add: handleIncomingMessage_def Let_def)
         apply (simp add: handlePreviewUpdate_def split: option.split)
        apply (simp add: receiveTypingPresence_def Let_def)
       apply (simp add: suggestionsArrived_def Let_def)
      apply (simp add: suggestionsFailed_def Let_def)
     apply (simp add: aiErrorArrived_def)
    apply (simp add: handleUploadFile_def)
   apply (simp add: inputChanged_def Let_def)
  apply (simp add: composerFocused_def suggestionsRequested_def Let_def split: option.split)
  apply (simp_all add: sendStarted_def loadMoreStarted_def sendFailed_def typingExpired_def Let_def)
  done

lemma pageStep_selection:
  assumes "addressEvent e p"
  shows "st_selectedConversationId (pageStep d me e p) = st_selectedConversationId p \<or>
    st_selectedConversationId (pageStep d me e p) = None \<or> \<not> st_loadingConversations (pageStep d me e p)"
proof (cases e)
  case (Selected c)
  then show ?thesis using assms by (simp add: addressEvent_def conversationSelected_def Let_def)
next
  case (StartedConversation c cs)
  then show ?thesis by (simp add: conversationStarted_def conversationSelected_def conversationsLoaded_def Let_def)
next
  case (RestoredFromLocation c)
  then show ?thesis using assms by (simp add: addressEvent_def)
qed (simp_all only: pageStep.simps selection_kept, simp_all add: conversationsLoaded_def conversationsFailed_def
    suggestionsRequested_def threadArrived_def readStateArrived_def loadingFailed_def handleConversationRead_def
    threadReloaded_def handleSocketError_def moderationArrived_def olderMessagesArrived_def handleSelectSlashCommand_def
    aiToggled_def uploadPrepared_def uploadProgressed_def uploadFinished_def conversationLeft_def conversationDeleted_def Let_def selection_kept)

lemma restoreEffect_cases:
  assumes "restoreEffect q a = (a', opened)"
  shows "(\<not> ad_restored a' \<longrightarrow> st_loadingConversations q \<and> a' = a) \<and> (ad_restored a \<longrightarrow> a' = a \<and> opened = None) \<and>
    (opened \<noteq> None \<longrightarrow> \<not> st_loadingConversations q) \<and>
    (\<forall>k. k \<noteq> SELECTED_CONVERSATION_PARAM \<longrightarrow> map_of (parseParams (ad_search a')) k = map_of (parseParams (ad_search a)) k)"
  using assms by (auto simp: restoreEffect_def Let_def others_kept split: if_splits option.splits)

lemma effects_ok:
  assumes ok: "addressOk search (p, a)"
    and sel: "st_selectedConversationId q = st_selectedConversationId p \<or> st_selectedConversationId q = None \<or>
      \<not> st_loadingConversations q"
  shows "addressOk search (q, fst (addressEffects p q a))"
proof -
  obtain a1 opened where restore: "restoreEffect q a = (a1, opened)" by fastforce
  note facts = restoreEffect_cases [OF restore]
  let ?a = "if st_selectedConversationId p \<noteq> st_selectedConversationId q then selectionEffect q a1 else a1"
  have run: "fst (addressEffects p q a) = ?a" by (simp add: addressEffects_def restore)
  have restored: "ad_restored ?a = ad_restored a1" by (simp add: selectionEffect_def)
  have 1: "\<not> ad_restored ?a \<longrightarrow> st_loadingConversations q \<and> st_selectedConversationId q = None"
  proof
    assume "\<not> ad_restored ?a"
    then have "st_loadingConversations q" "a1 = a" "\<not> ad_restored a" using facts unfolding restored by auto
    then show "st_loadingConversations q \<and> st_selectedConversationId q = None" using ok sel unfolding addressOk_def by auto
  qed
  have 2: "readSelectedConversationIdFromLocation (ad_search ?a) = Some (scalarText c)"
    if c: "st_selectedConversationId q = Some c" "c \<noteq> []" for c
  proof -
    have r: "ad_restored a1" using 1 c restored by auto
    show ?thesis
    proof (cases "st_selectedConversationId p = st_selectedConversationId q")
      case True
      then have "ad_restored a" using ok c by (auto simp: addressOk_def)
      then have "a1 = a" using facts by blast
      then show ?thesis using True ok c by (simp add: addressOk_def)
    next
      case False
      then show ?thesis using r c by (simp add: selectionEffect_def)
    qed
  qed
  have 3: "map_of (parseParams (ad_search ?a)) k = map_of (parseParams search) k" if "k \<noteq> SELECTED_CONVERSATION_PARAM" for k
  proof -
    have "map_of (parseParams (ad_search a1)) k = map_of (parseParams (ad_search a)) k" using facts that by blast
    moreover have "map_of (parseParams (ad_search a)) k = map_of (parseParams search) k" using ok that by (simp add: addressOk_def)
    ultimately show ?thesis using that by (simp add: selectionEffect_def others_kept)
  qed
  show ?thesis unfolding run addressOk_def using 1 2 3 by simp
qed

lemma addressStep_ok:
  assumes "addressOk search s" "addressEvent e (fst s)"
  shows "addressOk search (addressStep d me e s)"
proof -
  obtain p a where s: "s = (p, a)" by fastforce
  let ?q = "pageStep d me e p"
  obtain a1 opened where run: "addressEffects p ?q a = (a1, opened)" by fastforce
  have ok: "addressOk search (?q, a1)"
    using effects_ok [of search p a ?q] pageStep_selection [of e p d me] assms run by (simp add: s)
  show ?thesis
  proof (cases opened)
    case None
    then show ?thesis using ok run by (simp add: addressStep_def s)
  next
    case (Some c)
    then have "\<not> st_loadingConversations ?q"
      using run restoreEffect_cases [of ?q a] by (auto simp: addressEffects_def split: prod.splits)
    then have "addressOk search (conversationSelected c ?q, fst (addressEffects ?q (conversationSelected c ?q) a1))"
      by (intro effects_ok [OF ok]) (simp add: conversationSelected_def Let_def)
    then show ?thesis using run Some by (simp add: addressStep_def s Let_def)
  qed
qed

lemma address_run_ok: "address_run d me search s \<Longrightarrow> addressOk search s"
  by (induction rule: address_run.induct) (simp_all add: addressStep_ok, simp add: addressOk_def newPage_def newAddress_def)

text \<open>
  C20: the address always names the open conversation: whatever happened on the page, when a conversation is open
  and the page is loaded again from its address, that conversation is opened as soon as the list has come with it;
  the other parameters of the address are never touched.
\<close>

theorem reload_restores_conversation:
  assumes "address_run d me search (p, a)" "st_selectedConversationId p = Some c" "c \<noteq> []" "wellFormed c"
    and "c \<in> cc_id ` set conversations"
  shows "st_selectedConversationId (fst (addressStep d me (ConversationsCame conversations) (newPage, newAddress (ad_search a)))) =
      Some c \<and>
    (\<forall>k. k \<noteq> SELECTED_CONVERSATION_PARAM \<longrightarrow> map_of (parseParams (ad_search a)) k = map_of (parseParams search) k)"
proof -
  have ok: "addressOk search (p, a)" using address_run_ok [OF assms(1)] .
  then have "readSelectedConversationIdFromLocation (ad_search a) = Some c"
    using assms(2-4) by (simp add: addressOk_def scalarText_wellFormed)
  moreover have "find (\<lambda>v. cc_id v = c) conversations \<noteq> None" using assms(5) by (auto simp: find_None_iff)
  ultimately have "addressEffects newPage (conversationsLoaded conversations newPage) (newAddress (ad_search a)) =
      ((newAddress (ad_search a))\<lparr>ad_restored := True\<rparr>, Some c)"
    using assms(3) by (auto simp: addressEffects_def restoreEffect_def newAddress_def conversationsLoaded_def newPage_def Let_def)
  then show ?thesis using ok
    by (simp add: addressStep_def conversationSelected_def Let_def addressOk_def)
qed

text \<open>
  When the open conversation is left or deleted the address goes on naming it, and when the list cannot be loaded
  the address forgets the conversation it named.
\<close>

lemma left_conversation_stays_in_address:
  assumes "address_run d me search (p, a)" "st_selectedConversationId p = Some c" "c \<noteq> []" "ad_requested a \<noteq> None"
  shows "st_selectedConversationId (fst (addressStep d me LeftConversation (p, a))) = None \<and>
    readSelectedConversationIdFromLocation (ad_search (snd (addressStep d me LeftConversation (p, a)))) = Some (scalarText c)"
proof -
  have ok: "addressOk search (p, a)" using address_run_ok [OF assms(1)] .
  then have "ad_restored a" using assms(2) by (auto simp: addressOk_def)
  then have "addressEffects p (conversationLeft p) a = (a, None)"
    using assms(2,4) by (simp add: addressEffects_def restoreEffect_def selectionEffect_def conversationLeft_def)
  then show ?thesis using ok assms(2,3) by (simp add: addressStep_def conversationLeft_def addressOk_def)
qed

lemma failed_list_clears_address:
  assumes "readSelectedConversationIdFromLocation search = Some c" "c \<noteq> []"
  shows "readSelectedConversationIdFromLocation
    (ad_search (snd (addressStep d me ConversationsLost (newPage, newAddress search)))) = None"
  using assms by (simp add: addressStep_def addressEffects_def restoreEffect_def newAddress_def conversationsFailed_def
      newPage_def Let_def)

theorem reload_restores_conversation_witness:
  "\<exists>v. st_selectedConversationId (fst (addressStep (\<lambda>_. 0) None (ConversationsCame [v]) (newPage, newAddress (ad_search (snd (addressStep (\<lambda>_. 0) None
      (StartedConversation [0x61] []) (newPage, newAddress []))))))) = Some [0x61]"
proof -
  have "address_run (\<lambda>_. 0) None [] (addressStep (\<lambda>_. 0) None (StartedConversation [0x61] []) (newPage, newAddress []))"
    by (intro address_run.intros) (simp add: addressEvent_def)
  moreover have "st_selectedConversationId (fst (addressStep (\<lambda>_. 0) None (StartedConversation [0x61] []) (newPage, newAddress []))) = Some [0x61]"
    by (simp add: addressStep_def addressEffects_def restoreEffect_def newAddress_def conversationStarted_def
        conversationSelected_def conversationsLoaded_def readSelectedConversationIdFromLocation_def parseParams_def
        textBytes_def Let_def newPage_def)
  moreover obtain v :: client_conversation where cc: "cc_id v = [0x61]" by (metis client_conversation.select_convs(1))
  moreover have "wellFormed [0x61]" by (simp add: wellFormed_def isHigh_def isLow_def)
  ultimately show ?thesis
    using reload_restores_conversation [of "\<lambda>_. 0" None "[]" _ _ "[0x61]" "[v]"] cc
    by (metis list.set_intros(1) list.distinct(1) imageI prod.collapse)
qed

end
