(* ===== verification/Interleaving.thy ===== *)
theory Interleaving
  imports ChatAttachments
begin

text \<open>
  Requests that overlap. A method of \<open>chat/chat.service.ts\<close> gives up control where it awaits the database; what
  it does between two awaits is one step. A \<open>thread\<close> is a method cut at these points, and several threads
  are run by a schedule that says whose turn it is. The threads of the methods that check something before
  they write are written out here; run without interruption each of them is the method of
  \<open>ChatMembership\<close> and \<open>ChatMessages\<close>. Creating one document or several in one call of the database is one step.
\<close>

subsection \<open>Threads\<close>

datatype 'a thread = Finished "exn + 'a" | Waiting "world \<Rightarrow> 'a thread \<times> world"

primrec andThen :: "'a thread \<Rightarrow> ('a \<Rightarrow> 'b thread) \<Rightarrow> 'b thread" where
  "andThen (Finished r) f = (case r of Inl e \<Rightarrow> Finished (Inl e) | Inr x \<Rightarrow> f x)"
| "andThen (Waiting s) f = Waiting (map_prod (\<lambda>t. andThen t f) id \<circ> s)"

definition atomically :: "'a act \<Rightarrow> 'a thread" where
  "atomically m = Waiting (\<lambda>w. (Finished (fst (m w)), snd (m w)))"

definition refuse :: "exn \<Rightarrow> 'a thread" where
  "refuse e = Finished (Inl e)"

definition answer :: "'a \<Rightarrow> 'a thread" where
  "answer x = Finished (Inr x)"

text \<open>A thread run to its end without interruption.\<close>

primrec alone :: "'a thread \<Rightarrow> 'a act" where
  "alone (Finished r) = (\<lambda>w. (r, w))"
| "alone (Waiting s) = (\<lambda>w. fst (map_prod alone id (s w)) (snd (s w)))"

text \<open>One step of a thread, one step of the thread \<open>i\<close>, and a schedule.\<close>

primrec resume :: "'a thread \<Rightarrow> world \<Rightarrow> 'a thread \<times> world" where
  "resume (Finished r) = (\<lambda>w. (Finished r, w))"
| "resume (Waiting s) = s"

definition stepThread :: "nat \<Rightarrow> 'a thread list \<times> world \<Rightarrow> 'a thread list \<times> world" where
  "stepThread i c =
     (if i < length (fst c) then (case resume (fst c ! i) (snd c) of (t, w) \<Rightarrow> ((fst c)[i := t], w)) else c)"

abbreviation underSchedule :: "nat list \<Rightarrow> 'a thread list \<times> world \<Rightarrow> 'a thread list \<times> world" where
  "underSchedule is \<equiv> fold stepThread is"

lemma alone_answer [simp]: "alone (answer x) = ret x" "alone (refuse e) = throw e"
  by (simp_all add: answer_def refuse_def ret_def throw_def fun_eq_iff)

lemma alone_atomically [simp]: "alone (atomically m) = m"
  by (simp add: atomically_def fun_eq_iff)

lemma alone_andThen [simp]: "alone (andThen t f) = bind (alone t) (\<lambda>x. alone (f x))"
proof (induction t)
  case (Finished r)
  then show ?case by (cases r) (simp_all add: bind_def fun_eq_iff)
next
  case (Waiting s)
  show ?case
  proof
    fix w
    have "fst (s w) \<in> range (fst \<circ> s)" by auto
    then have "alone (andThen (fst (s w)) f) = bind (alone (fst (s w))) (\<lambda>x. alone (f x))"
      using Waiting by (metis comp_apply fsts.intros rangeI)
    then show "alone (andThen (Waiting s) f) w = bind (alone (Waiting s)) (\<lambda>x. alone (f x)) w"
      by (simp add: bind_def)
  qed
qed

lemma andThen_done [simp]: "andThen (answer x) f = f x" "andThen (refuse e) f = refuse e"
  by (simp_all add: answer_def refuse_def)

lemma andThen_atomically:
  "andThen (atomically m) f = Waiting (\<lambda>w. (case fst (m w) of Inl e \<Rightarrow> refuse e | Inr x \<Rightarrow> f x, snd (m w)))"
  by (simp_all add: answer_def refuse_def atomically_def fun_eq_iff split: sum.split)

subsection \<open>Interference\<close>

text \<open>
  \<open>safeThread I G t Q w\<close>: started in the world \<open>w\<close>, every step of \<open>t\<close> keeps \<open>I\<close> and is a step that \<open>G\<close> allows, and
  where \<open>t\<close> answers \<open>x\<close> the world satisfies \<open>Q x\<close>, whatever steps allowed by \<open>G\<close> others take in between.
\<close>

primrec safeThread ::
    "(world \<Rightarrow> bool) \<Rightarrow> (world \<Rightarrow> world \<Rightarrow> bool) \<Rightarrow> 'a thread \<Rightarrow> ('a \<Rightarrow> world \<Rightarrow> bool) \<Rightarrow> world \<Rightarrow> bool" where
  "safeThread I G (Finished r) = (\<lambda>Q w. case r of Inl e \<Rightarrow> True | Inr x \<Rightarrow> Q x w)"
| "safeThread I G (Waiting s) = (\<lambda>Q w. \<forall>v. G w v \<and> I v \<longrightarrow>
     G v (snd (s v)) \<and> I (snd (s v)) \<and> fst (map_prod (safeThread I G) id (s v)) Q (snd (s v)))"

named_theorems thread_intros "introduction rules for threads that keep an invariant"

lemma safeThread_basic:
  "Q x w \<Longrightarrow> safeThread I G (answer x) Q w" "safeThread I G (refuse e) Q w"
  by (simp_all add: answer_def refuse_def)

lemma safeThread_atomically:
  "(\<And>v. G w v \<Longrightarrow> I v \<Longrightarrow> G v (snd (m v)) \<and> I (snd (m v)) \<and> (\<forall>x. fst (m v) = Inr x \<longrightarrow> Q x (snd (m v)))) \<Longrightarrow>
   safeThread I G (atomically m) Q w"
  by (simp add: atomically_def split: sum.split)

lemma safeThread_andThen:
  assumes "safeThread I G t P w" "\<And>x v. P x v \<Longrightarrow> safeThread I G (f x) Q v"
  shows "safeThread I G (andThen t f) Q w"
  using assms(1)
proof (induction t arbitrary: w)
  case (Finished r)
  then show ?case using assms(2) by (cases r) simp_all
next
  case (Waiting s)
  show ?case unfolding andThen.simps safeThread.simps
  proof (intro allI impI)
    fix v assume v: "G w v \<and> I v"
    then have "G v (snd (s v))" "I (snd (s v))" "safeThread I G (fst (s v)) P (snd (s v))"
      using Waiting(2) by simp_all
    moreover from this(3) have "safeThread I G (andThen (fst (s v)) f) Q (snd (s v))"
      using Waiting(1) by (metis fsts.intros rangeI)
    ultimately show "G v (snd ((map_prod (\<lambda>t. andThen t f) id \<circ> s) v)) \<and> I (snd ((map_prod (\<lambda>t. andThen t f) id \<circ> s) v)) \<and>
        fst (map_prod (safeThread I G) id ((map_prod (\<lambda>t. andThen t f) id \<circ> s) v)) Q
          (snd ((map_prod (\<lambda>t. andThen t f) id \<circ> s) v))" by simp
  qed
qed

text \<open>What holds of each step in every world holds of threads made of such steps.\<close>

definition steady :: "(world \<Rightarrow> bool) \<Rightarrow> (world \<Rightarrow> world \<Rightarrow> bool) \<Rightarrow> 'a act \<Rightarrow> bool" where
  "steady I G m \<longleftrightarrow> (\<forall>w. I w \<longrightarrow> I (snd (m w)) \<and> G w (snd (m w)))"

abbreviation steadyThread :: "(world \<Rightarrow> bool) \<Rightarrow> (world \<Rightarrow> world \<Rightarrow> bool) \<Rightarrow> 'a thread \<Rightarrow> bool" where
  "steadyThread I G t \<equiv> \<forall>w. safeThread I G t (\<lambda>_ _. True) w"

lemma steady_threads [thread_intros]:
  shows "steadyThread I G (answer x)" and "steadyThread I G (refuse e)"
    and "steady I G m \<Longrightarrow> steadyThread I G (atomically m)"
    and "steadyThread I G t \<Longrightarrow> (\<And>x. steadyThread I G (f x)) \<Longrightarrow> steadyThread I G (andThen t f)"
    and "(b \<Longrightarrow> steadyThread I G u) \<Longrightarrow> (\<not> b \<Longrightarrow> steadyThread I G v) \<Longrightarrow> steadyThread I G (if b then u else v)"
    and "steadyThread I G p \<Longrightarrow> (\<And>x. steadyThread I G (q x)) \<Longrightarrow>
      steadyThread I G (case z of None \<Rightarrow> p | Some x \<Rightarrow> q x)"
    and "(\<And>x y. steadyThread I G (r x y)) \<Longrightarrow> steadyThread I G (case y of (x, y) \<Rightarrow> r x y)"
  by (auto simp: steady_def safeThread_basic intro!: safeThread_atomically intro: safeThread_andThen
      split: option.split prod.split)

text \<open>What the steps of the others may do, seen from one thread.\<close>

locale interference =
  fixes I :: "world \<Rightarrow> bool" and G :: "world \<Rightarrow> world \<Rightarrow> bool"
  assumes G_refl: "G w w" and G_trans: "G u v \<Longrightarrow> G v w \<Longrightarrow> G u w"
begin

definition poolSafe :: "world \<Rightarrow> 'a thread list \<times> world \<Rightarrow> bool" where
  "poolSafe w0 c \<longleftrightarrow> I (snd c) \<and> G w0 (snd c) \<and> (\<forall>t\<in>set (fst c). safeThread I G t (\<lambda>_ _. True) (snd c))"

lemma safe_later: "safeThread I G t (\<lambda>_ _. True) v \<Longrightarrow> G v w \<Longrightarrow> safeThread I G t (\<lambda>_ _. True) w"
  by (cases t) (auto intro: G_trans split: sum.splits)

lemma safe_resume:
  assumes "safeThread I G t (\<lambda>_ _. True) w" "I w" "resume t w = (u, v)"
  shows "safeThread I G u (\<lambda>_ _. True) v \<and> I v \<and> G w v"
  using assms G_refl by (cases t) force+

lemma poolSafe_step: "poolSafe w0 c \<Longrightarrow> poolSafe w0 (stepThread i c)"
proof (cases "i < length (fst c)")
  case True
  assume ok: "poolSafe w0 c"
  obtain t v where run: "resume (fst c ! i) (snd c) = (t, v)" by fastforce
  have "safeThread I G (fst c ! i) (\<lambda>_ _. True) (snd c)" "I (snd c)" using ok True by (auto simp: poolSafe_def)
  from safe_resume [OF this run] have step: "safeThread I G t (\<lambda>_ _. True) v" "I v" "G (snd c) v" by auto
  moreover have "safeThread I G u (\<lambda>_ _. True) v" if "u \<in> set ((fst c)[i := t])" for u
  proof -
    from that have "u = t \<or> u \<in> set (fst c)" using set_update_subset_insert [of "fst c" i t] by blast
    then show ?thesis using step safe_later ok by (auto simp: poolSafe_def)
  qed
  ultimately show ?thesis using ok True run by (auto simp: poolSafe_def stepThread_def intro: G_trans)
qed (simp add: stepThread_def)

lemma under_schedule:
  assumes "I w" "\<And>t. t \<in> set ts \<Longrightarrow> safeThread I G t (\<lambda>_ _. True) w" "underSchedule is (ts, w) = (ts', w')"
  shows "I w' \<and> G w w'"
proof -
  have "poolSafe w (ts, w)" using assms(1,2) G_refl by (simp add: poolSafe_def)
  then have "poolSafe w (underSchedule is (ts, w))"
    by (induction "is" arbitrary: ts w rule: rev_induct) (simp_all add: poolSafe_step)
  then show ?thesis by (simp add: poolSafe_def assms(3))
qed

end

subsection \<open>The methods as threads\<close>

primrec firstPairT :: "platform \<Rightarrow> jstr \<Rightarrow> jstr \<Rightarrow> conversation list \<Rightarrow> conversation option thread" where
  "firstPairT pf userAId userBId [] = answer None"
| "firstPairT pf userAId userBId (c # cs) =
     andThen (atomically (gets w_participants)) (\<lambda>ps.
     if pairConversation pf userAId userBId ps c then answer (Some c) else firstPairT pf userAId userBId cs)"

definition findDirectConversationT :: "platform \<Rightarrow> jstr \<Rightarrow> jstr option \<Rightarrow> conversation option thread" where
  "findDirectConversationT pf userAId userB =
     andThen (atomically (bind (toObjectId pf userAId) (\<lambda>a.
       case userB of
         None \<Rightarrow> ret None
       | Some userBId \<Rightarrow>
           bind (toObjectId pf userBId) (\<lambda>b.
           bind (gets w_participants) (\<lambda>ps.
           ret (Some (userBId, findMany (pf_participants pf) (\<lambda>p. part_userId p = a \<or> part_userId p = b) ps))))))) (\<lambda>found.
     case found of
       None \<Rightarrow> answer None
     | Some (userBId, allParticipants) \<Rightarrow>
         let idsOf = (\<lambda>key. map part_conversationId (filter (\<lambda>p. idStr pf (part_userId p) = key) allParticipants));
             shared = filter (\<lambda>i. i \<in> set (idsOf userBId)) (idsOf userAId) in
         if shared = [] then answer None
         else
           andThen (atomically (gets w_conversations)) (\<lambda>cs.
           firstPairT pf userAId userBId (findSorted (pf_conversations pf) (\<lambda>c. - conv_updatedAt c)
             (\<lambda>c. conv_id c \<in> set shared \<and> conv_type c = Direct) cs)))"

definition createConversationDocument :: "platform \<Rightarrow> conversation_type \<Rightarrow> jstr \<Rightarrow> jstr option \<Rightarrow> conversation act" where
  "createConversationDocument pf ty creatorId title =
     bind (toObjectId pf creatorId) (\<lambda>creator.
     bind (now pf) (\<lambda>t.
     bind (freshOid pf) (\<lambda>cid.
     let conversation = \<lparr>conv_id = cid, conv_type = ty, conv_title = title, conv_createdBy = creator,
           conv_lastMessageAt = None, conv_createdAt = t, conv_updatedAt = t\<rparr> in
     bind (insertConversation conversation) (\<lambda>_. ret conversation))))"

definition storeConversationT ::
    "platform \<Rightarrow> conversation_type \<Rightarrow> jstr \<Rightarrow> jstr list \<Rightarrow> jstr option \<Rightarrow> conversation thread" where
  "storeConversationT pf ty creatorId participantIds title =
     andThen (atomically (createConversationDocument pf ty creatorId title)) (\<lambda>conversation.
     let cid = conv_id conversation; allParticipantIds = arrayFromSet (creatorId # participantIds) in
     andThen (atomically (bind (mapA (participantDoc pf creatorId) allParticipantIds) (\<lambda>docs.
       mapA (\<lambda>(u, role, addedBy, joinedAt). createParticipant pf cid u role addedBy joinedAt) docs))) (\<lambda>_.
     andThen (atomically (bind (mapA (eventDoc pf creatorId) allParticipantIds) (\<lambda>evs.
       mapA (\<lambda>(ety, u, actor, occurredAt). createEvent pf cid ety u actor occurredAt) evs))) (\<lambda>_.
     answer conversation)))"

definition createConversationT ::
    "platform \<Rightarrow> conversation_type \<Rightarrow> jstr \<Rightarrow> jstr list \<Rightarrow> jstr option \<Rightarrow> conversation thread" where
  "createConversationT pf ty creatorId participantIds title =
     andThen (if ty = Direct
           then
             let target = (case participantIds of [] \<Rightarrow> None | x # _ \<Rightarrow> Some x) in
             if target = Some creatorId
             then refuse (BadRequestException (errorBody ''INVALID_DIRECT_CONVERSATION''
                    ''Cannot create a direct conversation with yourself''))
             else findDirectConversationT pf creatorId target
           else answer None) (\<lambda>existing.
     case existing of
       Some c \<Rightarrow> answer c
     | None \<Rightarrow> storeConversationT pf ty creatorId participantIds title)"

definition storeMemberT :: "platform \<Rightarrow> jstr \<Rightarrow> jstr \<Rightarrow> jstr \<Rightarrow> bool thread" where
  "storeMemberT pf conversationId userId actorId =
     andThen (atomically (bind (toObjectId pf conversationId) (\<lambda>cid.
       bind (toObjectId pf userId) (\<lambda>uid.
       bind (toObjectId pf actorId) (\<lambda>actor.
       bind (now pf) (\<lambda>joinedAt.
       bind (createParticipant pf cid uid Member (Some actor) joinedAt) (\<lambda>_.
       ret (cid, uid, actor)))))))) (\<lambda>(cid, uid, actor).
     andThen (atomically (bind (now pf) (\<lambda>t. createEvent pf cid Added uid (Some actor) t))) (\<lambda>_.
     answer False))"

definition addMemberT :: "platform \<Rightarrow> jstr \<Rightarrow> jstr \<Rightarrow> jstr \<Rightarrow> bool thread" where
  "addMemberT pf conversationId userId actorId =
     andThen (atomically (getActiveParticipant pf conversationId userId)) (\<lambda>existing.
     if existing \<noteq> None then answer True else storeMemberT pf conversationId userId actorId)"

primrec eachT :: "('a \<Rightarrow> unit thread) \<Rightarrow> 'a list \<Rightarrow> unit thread" where
  "eachT f [] = answer ()"
| "eachT f (x # xs) = andThen (f x) (\<lambda>_. eachT f xs)"

definition restoreParticipant :: "platform \<Rightarrow> participant \<Rightarrow> unit act" where
  "restoreParticipant pf p = modify (\<lambda>w. w\<lparr>w_participants := updateById part_id (part_id p)
     (\<lambda>d. d\<lparr>part_status := Active, part_leftAt := (if pf_clearsUndefined pf then None else part_leftAt d)\<rparr>)
     (w_participants w)\<rparr>)"

definition restoreDirectParticipantsIfNeededT :: "platform \<Rightarrow> jstr \<Rightarrow> jstr \<Rightarrow> participant list thread" where
  "restoreDirectParticipantsIfNeededT pf conversationId senderId =
     andThen (atomically (bind (castObjectId pf conversationId) (\<lambda>i.
       bind (gets w_conversations) (\<lambda>cs. ret (findById conv_id i cs))))) (\<lambda>conversation.
     case conversation of
       None \<Rightarrow> answer []
     | Some c \<Rightarrow>
         if conv_type c \<noteq> Direct then answer []
         else
           andThen (atomically (bind (toObjectId pf conversationId) (\<lambda>cid.
             bind (gets w_participants) (\<lambda>ps.
             ret (findSorted (pf_participants pf) part_joinedAt (\<lambda>p. part_conversationId p = cid) ps))))) (\<lambda>participants.
           let toRestore = filter (\<lambda>p. idStr pf (part_userId p) \<noteq> senderId \<and> part_status p = Left) participants in
           if toRestore = [] then answer []
           else
             andThen (eachT (\<lambda>p. atomically (restoreParticipant pf p)) toRestore) (\<lambda>_.
             atomically (bind (gets w_participants) (\<lambda>ps'.
             ret (findMany (pf_participants pf) (\<lambda>p. part_id p \<in> part_id ` set toRestore) ps'))))))"

definition createMessageDocument ::
    "platform \<Rightarrow> jstr \<Rightarrow> jstr \<Rightarrow> encrypted_content \<Rightarrow> chat_attachment option \<Rightarrow> bool \<Rightarrow> message act" where
  "createMessageDocument pf conversationId senderId encrypted attachmentDocument isAICommand =
     bind (toObjectId pf conversationId) (\<lambda>cid.
     bind (toObjectId pf senderId) (\<lambda>sid.
     bind (now pf) (\<lambda>sentAt.
     bind (freshOid pf) (\<lambda>mid.
     let m = \<lparr>msg_id = mid, msg_conversationId = cid, msg_senderId = sid,
           msg_content = enc_content encrypted, msg_reverseEncryptionState = enc_state encrypted,
           msg_encryptedContentVersion = (if enc_state encrypted = Encrypted then Some ''reverse-v1'' else None),
           msg_sentAt = sentAt, msg_deliveryStatus = DeliverySent, msg_seenState = Sent,
           msg_decodeErrorCode = enc_decodeErrorCode encrypted, msg_isAIBotMessage = False,
           msg_isAICommand = isAICommand, msg_moderationResult = None,
           msg_attachment = map_option (\<lambda>a. \<lparr>ma_attachmentId = att_id a, ma_fileName = att_originalName a,
             ma_mimeType = att_mimeType a, ma_sizeBytes = att_sizeBytes a, ma_isImage = att_isImage a\<rparr>)
             attachmentDocument\<rparr> in
     bind (insertMessage m) (\<lambda>_. ret m)))))"

definition storeMessageT ::
    "platform \<Rightarrow> jstr \<Rightarrow> jstr \<Rightarrow> participant \<Rightarrow> participant list \<Rightarrow> encrypted_content \<Rightarrow> chat_attachment option \<Rightarrow> bool
     \<Rightarrow> (message \<times> participant list) thread" where
  "storeMessageT pf conversationId senderId activeSender restoredParticipants encrypted attachmentDocument isAICommand =
     andThen (atomically (createMessageDocument pf conversationId senderId encrypted attachmentDocument isAICommand)) (\<lambda>m.
     andThen (if attachmentDocument = None then answer ()
            else atomically (attachTo pf (msg_id m) attachmentDocument)) (\<lambda>_.
     andThen (atomically (touchConversation pf (msg_conversationId m) (msg_sentAt m))) (\<lambda>_.
     andThen (atomically (markOwnRead activeSender m)) (\<lambda>_.
     andThen (atomically (incrementUnreadForOtherParticipants pf conversationId senderId)) (\<lambda>_.
     answer (m, restoredParticipants))))))"

definition sendMessageT ::
    "platform \<Rightarrow> jstr \<Rightarrow> jstr \<Rightarrow> jstr \<Rightarrow> jstr option \<Rightarrow> bool \<Rightarrow> (message \<times> participant list) thread" where
  "sendMessageT pf conversationId senderId content attachmentIdValue isAICommand =
     (let trimmedContent = trim content in
      if trimmedContent = [] \<and> givenId attachmentIdValue = None then refuse emptyMessage
      else
        andThen (atomically (getRequiredActiveParticipant pf conversationId senderId)) (\<lambda>activeSender.
        andThen (restoreDirectParticipantsIfNeededT pf conversationId senderId) (\<lambda>restoredParticipants.
        andThen (if givenId attachmentIdValue = None then answer None
               else atomically (resolveAttachment pf conversationId senderId attachmentIdValue)) (\<lambda>attachmentDocument.
        if trimmedContent = [] \<and> attachmentDocument = None then refuse emptyMessage
        else
          andThen (if trimmedContent \<noteq> []
                 then atomically (encryptForStorage pf trimmedContent senderId conversationId)
                 else answer \<lparr>enc_content = [], enc_state = Legacy, enc_decodeErrorCode = None\<rparr>) (\<lambda>encrypted.
          storeMessageT pf conversationId senderId activeSender restoredParticipants encrypted attachmentDocument
            isAICommand)))))"

definition storeReadT :: "platform \<Rightarrow> jstr \<Rightarrow> jstr \<Rightarrow> participant \<Rightarrow> oid \<Rightarrow> message \<Rightarrow> mark_read_payload thread" where
  "storeReadT pf conversationId userId participant cid latest =
     andThen (atomically (bind (now pf) (\<lambda>t.
        modify (\<lambda>w. w\<lparr>w_participants := updateById part_id (part_id participant)
          (\<lambda>p. p\<lparr>part_lastReadMessageId := Some (msg_id latest), part_lastReadAt := Some t,
                 part_unreadCount := 0\<rparr>) (w_participants w)\<rparr>)))) (\<lambda>_.
     andThen (atomically (bind (gets w_participants) (\<lambda>ps.
        ret (findMany (pf_participants pf) (\<lambda>p. part_conversationId p = cid \<and> part_status p = Active) ps)))) (\<lambda>active.
     let others = map part_userId (filter (\<lambda>p. idStr pf (part_userId p) \<noteq> userId) active) in
     andThen (if others \<noteq> []
        then atomically (modify (\<lambda>w. w\<lparr>w_messages := updateMany
           (\<lambda>m. msg_conversationId m = cid \<and> msg_senderId m \<in> set others \<and> msg_sentAt m \<le> msg_sentAt latest)
           (\<lambda>m. m\<lparr>msg_seenState := Seen\<rparr>) (w_messages w)\<rparr>))
        else answer ()) (\<lambda>_.
     answer \<lparr>mr_conversationId = conversationId, mr_unreadCount = 0,
          mr_lastReadMessageId = Some (idStr pf (msg_id latest))\<rparr>)))"

definition markConversationReadT :: "platform \<Rightarrow> jstr \<Rightarrow> jstr \<Rightarrow> mark_read_payload thread" where
  "markConversationReadT pf conversationId userId =
     andThen (atomically (getRequiredActiveParticipant pf conversationId userId)) (\<lambda>participant.
     andThen (atomically (bind (toObjectId pf conversationId) (\<lambda>cid.
       bind (gets w_messages) (\<lambda>ms. ret (cid, latestMessage pf cid ms))))) (\<lambda>(cid, latestMessage).
     case latestMessage of
       None \<Rightarrow>
         andThen (atomically (modify (\<lambda>w. w\<lparr>w_participants := updateById part_id (part_id participant)
            (\<lambda>p. p\<lparr>part_unreadCount := 0\<rparr>) (w_participants w)\<rparr>))) (\<lambda>_.
         answer \<lparr>mr_conversationId = conversationId, mr_unreadCount = 0, mr_lastReadMessageId = None\<rparr>)
     | Some latest \<Rightarrow> storeReadT pf conversationId userId participant cid latest))"

text \<open>Saving a document writes the fields that were changed since it was read.\<close>

definition saveUploaded :: "platform \<Rightarrow> chat_attachment \<Rightarrow> attachment_payload act" where
  "saveUploaded pf a =
     bind (now pf) (\<lambda>t.
     bind (modify (\<lambda>w. w\<lparr>w_attachments := updateById att_id (att_id a)
        (\<lambda>d. d\<lparr>att_status := (if att_status a = Uploaded then att_status d else Uploaded), att_uploadedAt := Some t\<rparr>)
        (w_attachments w)\<rparr>)) (\<lambda>_.
     ret (toAttachmentPayload pf (a\<lparr>att_status := Uploaded, att_uploadedAt := Some t\<rparr>))))"

definition markAttachmentUploadedT :: "platform \<Rightarrow> jstr \<Rightarrow> jstr \<Rightarrow> jstr \<Rightarrow> attachment_payload thread" where
  "markAttachmentUploadedT pf conversationIdValue attachmentIdValue userId =
     andThen (atomically (bind (conversationIdOf pf conversationIdValue) (\<lambda>conversationId.
       bind (attachmentIdOf pf attachmentIdValue) (\<lambda>attachmentId.
       bind (getRequiredActiveParticipant pf (idStr pf conversationId) userId) (\<lambda>_.
       ret (conversationId, attachmentId)))))) (\<lambda>(conversationId, attachmentId).
     andThen (atomically (bind (gets w_attachments) (\<lambda>atts. ret (findById att_id attachmentId atts)))) (\<lambda>attachment.
     case attachment of
       None \<Rightarrow> refuse attachmentNotFound
     | Some a \<Rightarrow>
         if idStr pf (att_conversationId a) \<noteq> idStr pf conversationId then refuse attachmentNotFound
         else if idStr pf (att_uploaderId a) \<noteq> userId
         then refuse (ForbiddenException (js ''Attachment does not belong to this user''))
         else if att_status a = Attached
         then refuse (BadRequestException (errorBody ''ATTACHMENT_ALREADY_ATTACHED'' ''Attachment was already attached''))
         else atomically (saveUploaded pf a)))"

subsection \<open>Requests\<close>

datatype chat_request =
    CreateConversationRequest conversation_type jstr "jstr list" "jstr option"
  | AddMemberRequest jstr jstr jstr
  | SendMessageRequest jstr jstr jstr "jstr option" bool
  | MarkReadRequest jstr jstr
  | MarkUploadedRequest jstr jstr jstr

text \<open>A request as a thread, and served whole. The answers are of different types and are left out.\<close>

fun requestThread :: "platform \<Rightarrow> chat_request \<Rightarrow> unit thread" where
  "requestThread pf (CreateConversationRequest ty creator ps title) =
     andThen (createConversationT pf ty creator ps title) (\<lambda>_. answer ())"
| "requestThread pf (AddMemberRequest c u a) = andThen (addMemberT pf c u a) (\<lambda>_. answer ())"
| "requestThread pf (SendMessageRequest c s t att ai) = andThen (sendMessageT pf c s t att ai) (\<lambda>_. answer ())"
| "requestThread pf (MarkReadRequest c u) = andThen (markConversationReadT pf c u) (\<lambda>_. answer ())"
| "requestThread pf (MarkUploadedRequest c i u) = andThen (markAttachmentUploadedT pf c i u) (\<lambda>_. answer ())"

fun requestAct :: "platform \<Rightarrow> chat_request \<Rightarrow> unit act" where
  "requestAct pf (CreateConversationRequest ty creator ps title) =
     bind (createConversation pf ty creator ps title) (\<lambda>_. ret ())"
| "requestAct pf (AddMemberRequest c u a) = bind (addMember pf c u a) (\<lambda>_. ret ())"
| "requestAct pf (SendMessageRequest c s t att ai) = bind (sendMessage pf c s t att ai) (\<lambda>_. ret ())"
| "requestAct pf (MarkReadRequest c u) = bind (markConversationRead pf c u) (\<lambda>_. ret ())"
| "requestAct pf (MarkUploadedRequest c i u) = bind (markAttachmentUploaded pf c i u) (\<lambda>_. ret ())"

subsection \<open>Without interruption\<close>

lemma alone_choices [simp]:
  "alone (if b then t else u) = (if b then alone t else alone u)"
  "alone (case z of None \<Rightarrow> p | Some x \<Rightarrow> q x) = (case z of None \<Rightarrow> alone p | Some x \<Rightarrow> alone (q x))"
  "alone (case y of (x1, x2) \<Rightarrow> r x1 x2) = (case y of (x1, x2) \<Rightarrow> alone (r x1 x2))"
  by (simp_all split: option.split prod.split)

lemma bind_choices:
  "bind (if b then m else n) f = (if b then bind m f else bind n f)"
  "bind (case z of None \<Rightarrow> m | Some x \<Rightarrow> g x) f = (case z of None \<Rightarrow> bind m f | Some x \<Rightarrow> bind (g x) f)"
  by (simp_all split: option.split)

lemma alone_eachT: "alone (eachT (\<lambda>x. atomically (h x)) xs) = bind (mapA h xs) (\<lambda>_. ret ())"
  by (induction xs) (simp_all add: act_simps)

lemma alone_firstPairT:
  "alone (firstPairT pf a b cs) w = (Inr (find (pairConversation pf a b (w_participants w)) cs), w)"
  by (induction cs) (simp_all add: act_simps)

lemma alone_findDirectConversationT: "alone (findDirectConversationT pf a b) = findDirectConversation pf a b"
proof
  fix w
  show "alone (findDirectConversationT pf a b) w = findDirectConversation pf a b w"
    unfolding findDirectConversationT_def findDirectConversation_def toObjectId_def Let_def
    by (simp add: act_simps alone_firstPairT gets_def bind_def ret_def throw_def split: option.split)
qed

lemma alone_createConversationT: "alone (createConversationT pf ty c ps title) = createConversation pf ty c ps title"
  unfolding createConversationT_def storeConversationT_def createConversation_def createConversationDocument_def Let_def
  by (simp add: bind_ret bind_throw bind_assoc alone_findDirectConversationT cong: option.case_cong if_cong)

lemma alone_addMemberT: "alone (addMemberT pf c u a) = addMember pf c u a"
  unfolding addMemberT_def storeMemberT_def addMember_def by (simp add: bind_ret bind_throw bind_assoc cong: if_cong)

lemma alone_restoreT: "alone (restoreDirectParticipantsIfNeededT pf c s) = restoreDirectParticipantsIfNeeded pf c s"
  unfolding restoreDirectParticipantsIfNeededT_def restoreDirectParticipantsIfNeeded_def Let_def
  by (simp add: bind_ret bind_throw bind_assoc alone_eachT restoreParticipant_def [abs_def] cong: if_cong option.case_cong)

lemma createMessageDocument_bind:
  "bind (createMessageDocument pf c s enc a ai) (\<lambda>m.
   bind (attachTo pf (msg_id m) a) (\<lambda>_.
   bind (touchConversation pf (msg_conversationId m) (msg_sentAt m)) (\<lambda>_.
   bind (markOwnRead sender m) (\<lambda>_.
   bind (incrementUnreadForOtherParticipants pf c s) (\<lambda>_. f m))))) =
   bind (postMessage pf c s sender enc a ai) f"
  unfolding createMessageDocument_def postMessage_def Let_def by (simp add: bind_ret bind_throw bind_assoc)

lemma alone_sendMessageT: "alone (sendMessageT pf c s t att ai) = sendMessage pf c s t att ai"
proof -
  have "(if givenId att = None then ret None else resolveAttachment pf c s att) = resolveAttachment pf c s att"
    by (simp add: resolveAttachment_def)
  moreover have "(if a = None then ret () else attachTo pf i a) = attachTo pf i a" for a i
    by (simp add: attachTo_def)
  ultimately show ?thesis
    unfolding sendMessageT_def storeMessageT_def sendMessage_def Let_def
    by (simp add: alone_restoreT createMessageDocument_bind cong: if_cong)
qed

lemma alone_markConversationReadT: "alone (markConversationReadT pf c u) = markConversationRead pf c u"
  unfolding markConversationReadT_def storeReadT_def markConversationRead_def Let_def whenA_def
  by (simp add: bind_ret bind_throw bind_assoc cong: if_cong option.case_cong)

lemma saveUploaded_found:
  assumes "atts.unique_ids w" "findById att_id i (w_attachments w) = Some a"
  shows "saveUploaded pf a w =
    bind (now pf) (\<lambda>t.
    bind (modify (\<lambda>w. w\<lparr>w_attachments := updateById att_id (att_id a)
       (\<lambda>d. d\<lparr>att_status := Uploaded, att_uploadedAt := Some t\<rparr>) (w_attachments w)\<rparr>)) (\<lambda>_.
    ret (toAttachmentPayload pf (a\<lparr>att_status := Uploaded, att_uploadedAt := Some t\<rparr>)))) w"
proof -
  have "d = a" if "d \<in> set (w_attachments w)" "att_id d = att_id a" for d
    using that assms findById_Some atts.lookup_eq by (metis option.inject)
  then have "updateById att_id (att_id a)
      (\<lambda>d. d\<lparr>att_status := (if att_status a = Uploaded then att_status d else Uploaded), att_uploadedAt := Some t\<rparr>)
      (w_attachments w) =
    updateById att_id (att_id a) (\<lambda>d. d\<lparr>att_status := Uploaded, att_uploadedAt := Some t\<rparr>) (w_attachments w)" for t
    unfolding updateById_def by (intro map_cong refl) (metis (full_types))
  then show ?thesis by (simp add: saveUploaded_def bind_def now_run modify_def ret_def)
qed

lemma bind_cong_run: "(\<And>x v. m w = (Inr x, v) \<Longrightarrow> f x v = g x v) \<Longrightarrow> bind m f w = bind m g w"
  by (auto simp: bind_def split: prod.split sum.split)

lemma alone_markAttachmentUploadedT:
  assumes "worldOk pf w"
  shows "alone (markAttachmentUploadedT pf c i u) w = markAttachmentUploaded pf c i u w"
proof -
  have ids: "keeps (worldOk pf) (conversationIdOf pf c)" "keeps (worldOk pf) (attachmentIdOf pf i)"
    by (intro keeps_intros)+
  have req: "keeps (worldOk pf) (getRequiredActiveParticipant pf x u)" for x by (intro keeps_intros)
  show ?thesis
    unfolding markAttachmentUploadedT_def markAttachmentUploaded_def alone_andThen alone_atomically alone_choices
      alone_answer bind_assoc bind_ret prod.case
    apply (rule bind_cong_run)
    apply (rule bind_cong_run)
    apply (rule bind_cong_run)
    subgoal premises run for cid v1 aid v2 p v
    proof -
      have "worldOk pf v" using run keeps_run [OF ids(1) assms] keeps_run [OF ids(2)] keeps_run [OF req] by metis
      then have "findById att_id aid (w_attachments v) = Some a \<Longrightarrow> saveUploaded pf a v =
          bind (now pf) (\<lambda>t.
          bind (modify (\<lambda>w. w\<lparr>w_attachments := updateById att_id (att_id a)
             (\<lambda>d. d\<lparr>att_status := Uploaded, att_uploadedAt := Some t\<rparr>) (w_attachments w)\<rparr>)) (\<lambda>_.
          ret (toAttachmentPayload pf (a\<lparr>att_status := Uploaded, att_uploadedAt := Some t\<rparr>)))) v" for a
        by (intro saveUploaded_found) (simp add: worldOk_def)
      then show ?thesis
        by (cases "findById att_id aid (w_attachments v)") (simp_all add: bind_gets_app)
    qed
    done
qed

lemma bind_same: "m w = m' w \<Longrightarrow> bind m f w = bind m' f w"
  by (simp add: bind_def)

lemma alone_requestThread: "worldOk pf w \<Longrightarrow> alone (requestThread pf r) w = requestAct pf r w"
  by (cases r) (simp_all add: alone_createConversationT alone_addMemberT alone_sendMessageT alone_markConversationReadT
      bind_same [OF alone_markAttachmentUploadedT])

lemma keeps_requestAct: "keeps (worldOk pf) (requestAct pf r)"
proof (cases r)
  case (MarkUploadedRequest c i u)
  have "keeps (worldOk pf) (markAttachmentUploaded pf c i u)" by (intro keeps_intros)
  then show ?thesis using MarkUploadedRequest by (auto intro: keeps_intros)
qed (auto intro: keeps_intros)

text \<open>Requests served one after the other.\<close>

primrec served :: "platform \<Rightarrow> chat_request list \<Rightarrow> world \<Rightarrow> (exn + unit) list \<times> world" where
  "served pf [] w = ([], w)"
| "served pf (r # rs) w = (case requestAct pf r w of (a, v) \<Rightarrow> apfst ((#) a) (served pf rs v))"

lemma schedule_alone:
  "i < length ts \<Longrightarrow> \<exists>n. underSchedule (replicate n i) (ts, w) = (ts[i := Finished (fst (alone (ts ! i) w))], snd (alone (ts ! i) w))"
proof (induction "ts ! i" arbitrary: ts w)
  case (Finished r)
  then have "ts[i := Finished r] = ts" by (metis list_update_id)
  then show ?case by (intro exI [of _ 0]) (simp flip: Finished(1))
next
  case (Waiting s)
  let ?t = "fst (s w)"
  have "\<exists>n. underSchedule (replicate n i) (ts[i := ?t], snd (s w)) =
      (ts[i := ?t, i := Finished (fst (alone (ts[i := ?t] ! i) (snd (s w))))], snd (alone (ts[i := ?t] ! i) (snd (s w))))"
    by (rule Waiting(1)) (use Waiting(3) in \<open>auto intro: fsts.intros\<close>)
  then obtain n where "underSchedule (replicate n i) (ts[i := ?t], snd (s w)) =
      (ts[i := Finished (fst (alone ?t (snd (s w))))], snd (alone ?t (snd (s w))))"
    using Waiting(3) by auto
  then have "underSchedule (replicate (Suc n) i) (ts, w) =
      (ts[i := Finished (fst (alone (ts ! i) w))], snd (alone (ts ! i) w))"
    using Waiting(3) by (simp flip: Waiting(2) add: stepThread_def case_prod_beta)
  then show ?case by blast
qed

lemma schedule_served:
  assumes "worldOk pf w"
  shows "\<exists>is. underSchedule is (ds @ map (requestThread pf) rs, w) =
    (ds @ map Finished (fst (served pf rs w)), snd (served pf rs w))"
  using assms
proof (induction rs arbitrary: ds w)
  case Nil
  then show ?case by (intro exI [of _ "[]"]) simp
next
  case (Cons r rs)
  obtain a v where run: "requestAct pf r w = (a, v)" by fastforce
  have v: "worldOk pf v" using keeps_run [OF keeps_requestAct Cons.prems run] .
  obtain n where n: "underSchedule (replicate n (length ds)) (ds @ map (requestThread pf) (r # rs), w) =
      ((ds @ [Finished a]) @ map (requestThread pf) rs, v)"
    using schedule_alone [of "length ds" "ds @ map (requestThread pf) (r # rs)" w]
      alone_requestThread [OF Cons.prems, of r] run by auto
  obtain "is" where "underSchedule is ((ds @ [Finished a]) @ map (requestThread pf) rs, v) =
      ((ds @ [Finished a]) @ map Finished (fst (served pf rs v)), snd (served pf rs v))"
    using Cons.IH [OF v] by blast
  then show ?case using n run by (intro exI [of _ "replicate n (length ds) @ is"]) simp
qed


subsection \<open>Invariants under every schedule\<close>

text \<open>What a message shows of its attachment never changes once it is stored.\<close>

definition shownAttachments :: "world \<Rightarrow> (oid \<times> message_attachment option) set" where
  "shownAttachments w = (\<lambda>m. (msg_id m, msg_attachment m)) ` set (w_messages w)"

definition messagesStay :: "world \<Rightarrow> world \<Rightarrow> bool" where
  "messagesStay w v \<longleftrightarrow> shownAttachments w \<subseteq> shownAttachments v"

text \<open>An attachment that is stored as attached is shown by the message it names.\<close>

definition attachmentsShown :: "world \<Rightarrow> bool" where
  "attachmentsShown w \<longleftrightarrow> (\<forall>a\<in>set (w_attachments w). att_status a = Attached \<longrightarrow>
     (\<exists>i x. att_messageId a = Some i \<and> (i, Some x) \<in> shownAttachments w \<and> ma_attachmentId x = att_id a))"

definition storeOk :: "platform \<Rightarrow> world \<Rightarrow> bool" where
  "storeOk pf w \<longleftrightarrow> worldOk pf w \<and> attachmentsShown w"

interpretation chat: interference "storeOk pf" messagesStay for pf
  by unfold_locales (auto simp: messagesStay_def)

text \<open>Actions that leave the messages and the attachments as they are.\<close>

abbreviation still :: "'a act \<Rightarrow> bool" where
  "still m \<equiv> frames (\<lambda>w. (w_messages w, w_attachments w)) m"

named_theorems still_intros "introduction rules for actions that leave messages and attachments alone"

declare frames_combinators [still_intros] frames_case_prod [still_intros]

lemma steady_still:
  assumes "keeps (worldOk pf) m" "still m"
  shows "steady (storeOk pf) messagesStay m"
  unfolding steady_def
proof (intro allI impI)
  fix w assume ok: "storeOk pf w"
  have "w_messages (snd (m w)) = w_messages w" "w_attachments (snd (m w)) = w_attachments w"
    using frames_run [OF assms(2), of w "fst (m w)" "snd (m w)"] by simp_all
  with ok show "storeOk pf (snd (m w)) \<and> messagesStay w (snd (m w))"
    using keepsD [OF assms(1), of w] by (simp add: storeOk_def attachmentsShown_def messagesStay_def shownAttachments_def)
qed

lemma still_technical: "technical m \<Longrightarrow> still m"
  by (erule frames_coarser) (metis dataOf_eqD(6,8))

lemma still_creation [still_intros]:
  "still (freshOid pf)"
  "still (insertConversation c)"
  "still (insertParticipant p)"
  "still (insertEvent e)"
  "still (touchConversation pf cid t)"
  "still (markOwnRead q m)"
  "still (incrementUnreadForOtherParticipants pf x s)"
  by (rule framesI, simp add: insertConversation_def insertParticipant_def insertEvent_def touchConversation_def
      markOwnRead_def incrementUnreadForOtherParticipants_def toObjectId_def bind_def modify_def ret_def throw_def
      now_run freshOid_run split: option.split)+

declare technical_base [THEN still_technical, still_intros] technical_documents [THEN still_technical, still_intros]
  technical_participants [THEN still_technical, still_intros] technical_display [THEN still_technical, still_intros]
  technical_resolveAttachment [THEN still_technical, still_intros]
  technical_attachments(4) [THEN still_technical, still_intros] technical_processor [THEN still_technical, still_intros]

lemma still_membership [still_intros]:
  "still (createParticipant pf cid u role addedBy joinedAt)" "still (createEvent pf cid ety u actor occurredAt)"
  "still (createConversationDocument pf ty c title)" "still (restoreParticipant pf p)"
  unfolding createParticipant_def createEvent_def createConversationDocument_def restoreParticipant_def
  by (intro still_intros | rule frames_modify, simp)+

lemma keeps_membership_steps [keeps_intros]:
  "keeps (worldOk pf) (createConversationDocument pf ty c title)" "keeps (worldOk pf) (restoreParticipant pf p)"
  unfolding createConversationDocument_def restoreParticipant_def Let_def
  by (rule keeps_freshOid store_intros keeps_intros keeps_modify | simp add: worldOk_updateParticipants)+

text \<open>Each single step of a thread that does not store or mark a message keeps both.\<close>

lemma steady_steps [thread_intros]: "keeps (worldOk pf) m \<Longrightarrow> still m \<Longrightarrow> steady (storeOk pf) messagesStay m"
  by (rule steady_still)

lemma steady_firstPairT: "steadyThread (storeOk pf) messagesStay (firstPairT pf a b cs)"
proof (induction cs)
  case (Cons c cs)
  then show ?case by (simp only: firstPairT.simps) (intro thread_intros keeps_intros still_intros, simp)
qed (simp only: firstPairT.simps, intro thread_intros)

lemma steady_eachT: "(\<And>x. steadyThread I G (f x)) \<Longrightarrow> steadyThread I G (eachT f xs)"
proof (induction xs)
  case (Cons x xs)
  then show ?case by (simp only: eachT.simps) (intro thread_intros, auto)
qed (simp only: eachT.simps, intro thread_intros)

lemma steady_findDirectConversationT: "steadyThread (storeOk pf) messagesStay (findDirectConversationT pf a b)"
  unfolding findDirectConversationT_def Let_def
  by (intro thread_intros keeps_intros still_intros steady_firstPairT)

lemma steady_createConversationT: "steadyThread (storeOk pf) messagesStay (createConversationT pf ty c ps title)"
  unfolding createConversationT_def storeConversationT_def Let_def
  by (intro thread_intros keeps_intros still_intros steady_findDirectConversationT)

lemma steady_addMemberT: "steadyThread (storeOk pf) messagesStay (addMemberT pf c u a)"
  unfolding addMemberT_def storeMemberT_def
  by (intro thread_intros keeps_intros still_intros)

lemma steady_restoreT: "steadyThread (storeOk pf) messagesStay (restoreDirectParticipantsIfNeededT pf c u)"
  unfolding restoreDirectParticipantsIfNeededT_def Let_def
  by (intro thread_intros keeps_intros still_intros steady_eachT)

text \<open>Storing a message: from then on it shows its attachment.\<close>

lemma attachmentsShown_more:
  "attachmentsShown w \<Longrightarrow> w_attachments v = w_attachments w \<Longrightarrow> messagesStay w v \<Longrightarrow> attachmentsShown v"
  unfolding attachmentsShown_def messagesStay_def by (metis subsetD)

lemma createMessageDocument_steady:
  assumes "storeOk pf w"
  shows "storeOk pf (snd (createMessageDocument pf c s enc a ai w)) \<and> messagesStay w (snd (createMessageDocument pf c s enc a ai w)) \<and>
    (\<forall>m. fst (createMessageDocument pf c s enc a ai w) = Inr m \<longrightarrow>
       (msg_id m, msg_attachment m) \<in> shownAttachments (snd (createMessageDocument pf c s enc a ai w)) \<and>
       map_option ma_attachmentId (msg_attachment m) = map_option att_id a)"
proof -
  let ?v = "snd (createMessageDocument pf c s enc a ai w)"
  have keeps: "keeps (worldOk pf) (createMessageDocument pf c s enc a ai)"
    unfolding createMessageDocument_def Let_def by (rule keeps_freshOid store_intros keeps_intros | simp)+
  have "worldOk pf ?v" using keepsD [OF keeps] assms by (simp add: storeOk_def)
  moreover have stays: "w_attachments ?v = w_attachments w" "messagesStay w ?v"
    and "\<forall>m. fst (createMessageDocument pf c s enc a ai w) = Inr m \<longrightarrow> (msg_id m, msg_attachment m) \<in> shownAttachments ?v \<and>
       map_option ma_attachmentId (msg_attachment m) = map_option att_id a"
    by (auto simp: createMessageDocument_def toObjectId_def insertMessage_def bind_def ret_def throw_def modify_def now_run
        freshOid_run messagesStay_def shownAttachments_def option.map_comp comp_def Let_def split: option.split)
  moreover have "attachmentsShown ?v" using attachmentsShown_more [OF _ stays] assms by (simp add: storeOk_def)
  ultimately show ?thesis by (simp add: storeOk_def)
qed

lemma attachTo_steady:
  assumes "storeOk pf w" "(i, Some x) \<in> shownAttachments w" "ma_attachmentId x = att_id d"
  shows "storeOk pf (snd (attachTo pf i (Some d) w)) \<and> messagesStay w (snd (attachTo pf i (Some d) w))"
proof -
  let ?v = "snd (attachTo pf i (Some d) w)"
  have "worldOk pf ?v"
    using keepsD [OF keeps_message_steps(3)] assms(1) by (simp add: storeOk_def)
  moreover have same: "shownAttachments ?v = shownAttachments w" and
    atts: "\<exists>t. w_attachments ?v = updateById att_id (att_id d)
      (\<lambda>d. d\<lparr>att_messageId := Some i, att_status := Attached, att_confirmedAt := Some t\<rparr>) (w_attachments w)"
    by (auto simp: attachTo_def bind_def now_run modify_def shownAttachments_def)
  moreover have "attachmentsShown ?v"
    using atts assms unfolding attachmentsShown_def storeOk_def same
    by (auto simp: updateById_def) blast
  ultimately show ?thesis by (simp add: storeOk_def messagesStay_def)
qed

lemma safe_sendMessageT: "steadyThread (storeOk pf) messagesStay (sendMessageT pf c s t att ai)"
proof -
  have tail: "steadyThread (storeOk pf) messagesStay
      (andThen (atomically (touchConversation pf cid at')) (\<lambda>_.
       andThen (atomically (markOwnRead sender m)) (\<lambda>_.
       andThen (atomically (incrementUnreadForOtherParticipants pf c s)) (\<lambda>_.
       answer (m, restored)))))" for cid at' sender m and restored :: "participant list"
    by (intro thread_intros keeps_intros still_intros)
  have rest: "safeThread (storeOk pf) messagesStay
      (andThen (atomically (createMessageDocument pf c s enc a ai)) (\<lambda>m.
       andThen (if a = None then answer () else atomically (attachTo pf (msg_id m) a)) (\<lambda>_.
       andThen (atomically (touchConversation pf (msg_conversationId m) (msg_sentAt m))) (\<lambda>_.
       andThen (atomically (markOwnRead sender m)) (\<lambda>_.
       andThen (atomically (incrementUnreadForOtherParticipants pf c s)) (\<lambda>_.
       answer (m, restored))))))) (\<lambda>_ _. True) w" for enc a sender w and restored :: "participant list"
  proof (rule safeThread_andThen)
    show "safeThread (storeOk pf) messagesStay (atomically (createMessageDocument pf c s enc a ai))
        (\<lambda>m v. (msg_id m, msg_attachment m) \<in> shownAttachments v \<and>
          map_option ma_attachmentId (msg_attachment m) = map_option att_id a) w"
      by (rule safeThread_atomically) (use createMessageDocument_steady in blast)
  next
    fix m :: message and v assume m: "(msg_id m, msg_attachment m) \<in> shownAttachments v \<and>
        map_option ma_attachmentId (msg_attachment m) = map_option att_id a"
    have "safeThread (storeOk pf) messagesStay
        (if a = None then answer () else atomically (attachTo pf (msg_id m) a)) (\<lambda>_ _. True) v"
    proof (cases a)
      case (Some d)
      with m obtain x where x: "msg_attachment m = Some x" "ma_attachmentId x = att_id d" by auto
      have "safeThread (storeOk pf) messagesStay (atomically (attachTo pf (msg_id m) (Some d))) (\<lambda>_ _. True) v"
      proof (rule safeThread_atomically)
        fix u assume "messagesStay v u" and u: "storeOk pf u"
        then have "(msg_id m, Some x) \<in> shownAttachments u" using m x by (auto simp: messagesStay_def)
        from attachTo_steady [OF u this x(2)]
        show "messagesStay u (snd (attachTo pf (msg_id m) (Some d) u)) \<and> storeOk pf (snd (attachTo pf (msg_id m) (Some d) u)) \<and>
            (\<forall>y. fst (attachTo pf (msg_id m) (Some d) u) = Inr y \<longrightarrow> True)" by simp
      qed
      with Some show ?thesis by simp
    qed (simp add: safeThread_basic)
    then show "safeThread (storeOk pf) messagesStay
       (andThen (if a = None then answer () else atomically (attachTo pf (msg_id m) a)) (\<lambda>_.
        andThen (atomically (touchConversation pf (msg_conversationId m) (msg_sentAt m))) (\<lambda>_.
        andThen (atomically (markOwnRead sender m)) (\<lambda>_.
        andThen (atomically (incrementUnreadForOtherParticipants pf c s)) (\<lambda>_.
        answer (m, restored)))))) (\<lambda>_ _. True) v"
      by (rule safeThread_andThen) (use tail in blast)
  qed
  show ?thesis
    unfolding sendMessageT_def storeMessageT_def Let_def
    by (intro rest [THEN allI] thread_intros keeps_intros still_intros steady_restoreT)
qed

lemma shown_sameMessages:
  assumes "\<And>m. msg_id (f m) = msg_id m" "\<And>m. msg_attachment (f m) = msg_attachment m"
  shows "steady (storeOk pf) messagesStay (modify (\<lambda>w. w\<lparr>w_messages := updateMany P f (w_messages w)\<rparr>))"
  unfolding steady_def
proof (intro allI impI)
  fix w assume ok: "storeOk pf w"
  have "shownAttachments (w\<lparr>w_messages := updateMany P f (w_messages w)\<rparr>) = shownAttachments w"
    unfolding shownAttachments_def updateMany_def
    by (rule map_image_eq) (simp add: assms)
  then show "storeOk pf (snd (modify (\<lambda>w. w\<lparr>w_messages := updateMany P f (w_messages w)\<rparr>) w)) \<and>
      messagesStay w (snd (modify (\<lambda>w. w\<lparr>w_messages := updateMany P f (w_messages w)\<rparr>) w))"
    using ok assms(1) by (simp add: modify_def storeOk_def messagesStay_def attachmentsShown_def worldOk_same_ids
        map_updateMany)
qed

lemma steady_participants [thread_intros]:
  assumes "\<And>d. part_id (f d) = part_id d" "\<And>d. 0 \<le> part_unreadCount d \<Longrightarrow> 0 \<le> part_unreadCount (f d)"
  shows "steady (storeOk pf) messagesStay (modify (\<lambda>w. w\<lparr>w_participants := updateById part_id i f (w_participants w)\<rparr>))"
  by (rule steady_still) (auto intro!: keeps_modify frames_modify simp: worldOk_updateParticipants assms)

lemma steady_clock [thread_intros]:
  "(\<And>t. steady (storeOk pf) messagesStay (f t)) \<Longrightarrow> steady (storeOk pf) messagesStay (bind (now pf) f)"
proof -
  assume f: "\<And>t. steady (storeOk pf) messagesStay (f t)"
  have "steady (storeOk pf) messagesStay (now pf)" by (intro thread_intros keeps_intros still_intros)
  then show ?thesis using f unfolding steady_def bind_def now_run messagesStay_def by simp (meson subset_trans)
qed

lemma steady_markConversationReadT: "steadyThread (storeOk pf) messagesStay (markConversationReadT pf c u)"
  unfolding markConversationReadT_def storeReadT_def Let_def
  by (intro thread_intros keeps_intros still_intros shown_sameMessages | simp)+

lemma steady_saveUploaded: "steady (storeOk pf) messagesStay (saveUploaded pf a)"
  unfolding steady_def
proof (intro allI impI)
  fix w assume ok: "storeOk pf w"
  let ?v = "snd (saveUploaded pf a w)"
  have "keeps (worldOk pf) (saveUploaded pf a)"
    unfolding saveUploaded_def by (rule keeps_intros keeps_modify | simp add: worldOk_same_ids map_updateById)+
  then have "worldOk pf ?v" using ok keepsD by (auto simp: storeOk_def)
  moreover have same: "shownAttachments ?v = shownAttachments w" and
    atts: "\<exists>t. w_attachments ?v = updateById att_id (att_id a)
      (\<lambda>d. d\<lparr>att_status := (if att_status a = Uploaded then att_status d else Uploaded), att_uploadedAt := Some t\<rparr>)
      (w_attachments w)"
    by (auto simp: saveUploaded_def bind_def now_run modify_def ret_def shownAttachments_def)
  moreover have "attachmentsShown ?v"
    using atts ok unfolding attachmentsShown_def storeOk_def same
    by (auto simp: updateById_def split: if_splits) (metis)+
  ultimately show "storeOk pf ?v \<and> messagesStay w ?v" by (simp add: storeOk_def messagesStay_def)
qed

lemma steady_markAttachmentUploadedT: "steadyThread (storeOk pf) messagesStay (markAttachmentUploadedT pf c i u)"
  unfolding markAttachmentUploadedT_def
  by (intro thread_intros keeps_intros still_intros steady_saveUploaded | simp)+

lemma steady_requestThread: "steadyThread (storeOk pf) messagesStay (requestThread pf r)"
  by (cases r)
    (simp_all only: requestThread.simps, (intro thread_intros steady_createConversationT steady_addMemberT
      safe_sendMessageT steady_markConversationReadT steady_markAttachmentUploadedT)+)


end
