(* ===== verification/Races.thy ===== *)
theory Races
  imports Interleaving ChatWitnesses
begin

text \<open>
  What overlapping requests do that requests served one after the other never do: the methods of
  \<open>chat/chat.service.ts\<close> look first and write later, and no index of the database makes up for it.
\<close>

subsection \<open>Two creations of one direct conversation\<close>

definition separate :: "oid \<Rightarrow> oid \<Rightarrow> world \<Rightarrow> bool" where
  "separate a b w \<longleftrightarrow> (\<forall>p\<in>set (w_participants w). \<forall>q\<in>set (w_participants w).
     part_userId p = a \<and> part_userId q = b \<longrightarrow> part_conversationId p \<noteq> part_conversationId q)"

lemma storeDirect_run:
  assumes "a \<noteq> b" "alone (storeConversationT pf Direct (idStr pf a) [idStr pf b] title) w = (r, v)"
  shows "\<exists>c p q. r = Inr c \<and> w_conversations v = w_conversations w @ [c] \<and>
    w_participants v = w_participants w @ [p, q] \<and> conv_id c = issue (pf_newOid pf) (w_oidsIssued w) \<and>
    w_oidsIssued w < w_oidsIssued v \<and>
    conv_type c = Direct \<and> part_conversationId p = conv_id c \<and> part_conversationId q = conv_id c \<and>
    part_userId p = a \<and> part_userId q = b"
  using assms
  by (auto simp: storeConversationT_def createConversationDocument_def Let_def bind_def ret_def arrayFromSet_def
      participantDoc_def eventDoc_def toObjectId_idStr now_run freshOid_run insertConversation_def
      createParticipant_def createEvent_def insertParticipant_def insertEvent_def modify_def newParticipant_def)

lemma search_step:
  assumes "a \<noteq> b" "separate a b w"
  shows "resume (createConversationT pf Direct (idStr pf a) [idStr pf b] title) w =
    (storeConversationT pf Direct (idStr pf a) [idStr pf b] title, w)"
proof -
  have none: "filter (\<lambda>i. i \<in> part_conversationId ` {x \<in> set (w_participants w). (part_userId x = a \<or> part_userId x = b) \<and> part_userId x = b})
      (map part_conversationId (filter (\<lambda>p. part_userId p = a)
        (findMany (pf_participants pf) (\<lambda>p. part_userId p = a \<or> part_userId p = b) (w_participants w)))) = []"
    using assms(2) by (auto simp: separate_def filter_empty_conv)
  show ?thesis
    using assms(1) by (simp add: createConversationT_def findDirectConversationT_def andThen_atomically Let_def
        toObjectId_idStr bind_def gets_def ret_def none)
qed

text \<open>Steps that only read, and a schedule in which both requests take theirs before either of them writes.\<close>

inductive looks :: "world \<Rightarrow> 'a thread \<Rightarrow> 'a thread \<Rightarrow> bool" for w where
  at_once: "looks w t t"
| look: "resume t w = (t', w) \<Longrightarrow> looks w t' t'' \<Longrightarrow> looks w t t''"

lemmas looks_once = look [OF _ at_once]

lemma looks_schedule:
  "looks w t t' \<Longrightarrow> i < length ts \<Longrightarrow> ts ! i = t \<Longrightarrow> \<exists>n. underSchedule (replicate n i) (ts, w) = (ts[i := t'], w)"
proof (induction arbitrary: ts rule: looks.induct)
  case (at_once t)
  then show ?case by (intro exI [of _ 0]) auto
next
  case (look t t' t'')
  then obtain n where "underSchedule (replicate n i) (ts[i := t'], w) = (ts[i := t''], w)"
    by (metis length_list_update list_update_overwrite nth_list_update_eq)
  moreover have "stepThread i (ts, w) = (ts[i := t'], w)" using look by (simp add: stepThread_def)
  ultimately show ?case by (intro exI [of _ "Suc n"]) simp
qed

lemma look_then_write:
  assumes "looks w t t'" "looks w u u'"
    and "alone t' w = (r, v1)" "alone u' v1 = (q, v2)"
  shows "\<exists>is. underSchedule is ([t, u], w) = ([Finished r, Finished q], v2)"
proof -
  obtain n1 where "underSchedule (replicate n1 0) ([t, u], w) = ([t', u], w)"
    using looks_schedule [OF assms(1), of 0 "[t, u]"] by auto
  moreover obtain n2 where "underSchedule (replicate n2 1) ([t', u], w) = ([t', u'], w)"
    using looks_schedule [OF assms(2), of 1 "[t', u]"] by auto
  moreover obtain n3 where "underSchedule (replicate n3 0) ([t', u'], w) = ([Finished r, u'], v1)"
    using schedule_alone [of 0 "[t', u']" w] assms(3) by auto
  moreover obtain n4 where "underSchedule (replicate n4 1) ([Finished r, u'], v1) = ([Finished r, Finished q], v2)"
    using schedule_alone [of 1 "[Finished r, u']" v1] assms(4) by auto
  ultimately show ?thesis
    by (intro exI [of _ "replicate n1 0 @ replicate n2 1 @ replicate n3 0 @ replicate n4 1"]) simp
qed

text \<open>
  C32: two users who have no conversation and open one with each other at the same time may end up with
  two direct conversations, each of which counts as the one of this pair; served one after the other, the
  second request would have found the conversation of the first.
\<close>

theorem overlapping_creation:
  assumes "worldOk pf w" "a \<noteq> b" "separate a b w"
    and "\<forall>p\<in>set (w_participants w). part_conversationId p \<in> conv_id ` set (w_conversations w)"
  shows "\<exists>is c d v. underSchedule is
      ([createConversationT pf Direct (idStr pf a) [idStr pf b] title,
        createConversationT pf Direct (idStr pf b) [idStr pf a] title'], w) =
      ([Finished (Inr c), Finished (Inr d)], v) \<and>
    conv_id c \<noteq> conv_id d \<and> conv_type c = Direct \<and> conv_type d = Direct \<and>
    w_conversations v = w_conversations w @ [c, d] \<and>
    pairConversation pf (idStr pf a) (idStr pf b) (w_participants v) c \<and>
    pairConversation pf (idStr pf a) (idStr pf b) (w_participants v) d"
proof -
  have sep: "separate b a w" using assms(3) unfolding separate_def by metis
  let ?t = "storeConversationT pf Direct (idStr pf a) [idStr pf b] title"
  let ?u = "storeConversationT pf Direct (idStr pf b) [idStr pf a] title'"
  obtain r v1 where t: "alone ?t w = (r, v1)" by fastforce
  obtain q v where u: "alone ?u v1 = (q, v)" by fastforce
  from storeDirect_run [OF assms(2) t] obtain c p p' where
    c: "r = Inr c" "w_conversations v1 = w_conversations w @ [c]" "w_participants v1 = w_participants w @ [p, p']"
      "conv_id c = issue (pf_newOid pf) (w_oidsIssued w)" "w_oidsIssued w < w_oidsIssued v1" "conv_type c = Direct"
      "part_conversationId p = conv_id c" "part_conversationId p' = conv_id c" "part_userId p = a" "part_userId p' = b"
    by blast
  from storeDirect_run [OF assms(2) [symmetric] u] obtain d q1 q2 where
    d: "q = Inr d" "w_conversations v = w_conversations v1 @ [d]" "w_participants v = w_participants v1 @ [q1, q2]"
      "conv_id d = issue (pf_newOid pf) (w_oidsIssued v1)" "conv_type d = Direct"
      "part_conversationId q1 = conv_id d" "part_conversationId q2 = conv_id d" "part_userId q1 = b" "part_userId q2 = a"
    by blast
  obtain "is" where run: "underSchedule is ([createConversationT pf Direct (idStr pf a) [idStr pf b] title,
        createConversationT pf Direct (idStr pf b) [idStr pf a] title'], w) = ([Finished r, Finished q], v)"
    using look_then_write [OF search_step [OF assms(2,3), THEN looks_once] search_step [OF assms(2) [symmetric] sep, THEN looks_once] t u] by blast
  have ne: "conv_id c \<noteq> conv_id d" using c(4,5) d(4) by simp
  have "issue (pf_newOid pf) k \<notin> conv_id ` set (w_conversations w)" if "w_oidsIssued w \<le> k" for k
    using that assms(1) by (auto simp: worldOk_def issuedIds_def)
  then have "conv_id c \<notin> conv_id ` set (w_conversations w)" "conv_id d \<notin> conv_id ` set (w_conversations w)"
    using c(4,5) d(4) by simp_all
  then have "filter (\<lambda>p. part_conversationId p = conv_id c) (w_participants w) = []"
    "filter (\<lambda>p. part_conversationId p = conv_id d) (w_participants w) = []"
    using assms(4) by (metis (mono_tags, lifting) filter_False)+
  then have "pairConversation pf (idStr pf a) (idStr pf b) (w_participants v) c"
    "pairConversation pf (idStr pf a) (idStr pf b) (w_participants v) d"
    using c d ne by (simp_all add: pairConversation_def)
  then show ?thesis using run c d ne by (intro exI [of _ "is"] exI [of _ c] exI [of _ d] exI [of _ v]) simp
qed

theorem overlapping_creation_witness:
  "\<exists>is c d v. underSchedule is
      ([createConversationT demo Direct annId [[0x61, 0x61]] None, createConversationT demo Direct [0x61, 0x61] [annId] None],
       chatWorld) = ([Finished (Inr c), Finished (Inr d)], v) \<and> conv_id c \<noteq> conv_id d"
proof -
  have "separate 0 2 chatWorld" "\<forall>p\<in>set (w_participants chatWorld). part_conversationId p \<in> conv_id ` set (w_conversations chatWorld)"
    by (simp_all add: separate_def chat_defs)
  from overlapping_creation [OF chatWorld_ok _ this, of None None] show ?thesis
    by (simp add: numeral_2_eq_2) blast
qed

subsection \<open>Two additions of one member\<close>

lemma addMember_step:
  assumes "parseOid (pf_oids pf) c = Some cid" "parseOid (pf_oids pf) u = Some uid"
    "\<not> list_ex (activeIn cid uid) (w_participants w)"
  shows "resume (addMemberT pf c u a) w = (storeMemberT pf c u a, w)"
proof -
  have "findOne (pf_participants pf) (activeIn cid uid) (w_participants w) = None"
    using assms(3) by (auto simp: findOne_None list_ex_iff)
  then show ?thesis
    by (simp add: addMemberT_def andThen_atomically getActiveParticipant_run [OF assms(1,2)])
qed

lemma storeMemberT_run:
  assumes "parseOid (pf_oids pf) c = Some cid" "parseOid (pf_oids pf) u = Some uid" "parseOid (pf_oids pf) a = Some x"
  shows "\<exists>p v. alone (storeMemberT pf c u a) w = (Inr False, v) \<and> w_participants v = w_participants w @ [p] \<and>
    activeIn cid uid p \<and> part_id p = issue (pf_newOid pf) (w_oidsIssued w) \<and> w_oidsIssued w < w_oidsIssued v"
  using assms
  by (simp add: storeMemberT_def toObjectId_def bind_def ret_def now_run freshOid_run createParticipant_def
      createEvent_def insertParticipant_def insertEvent_def modify_def newParticipant_def activeIn_def)

text \<open>
  C33: a user whom two members add at the same time becomes a participant twice, and both requests answer
  that the user was no member before. Removing the user afterwards ends only one of the two participations:
  the user is still an active participant of the conversation.
\<close>

theorem overlapping_addMember:
  assumes "parseOid (pf_oids pf) c = Some cid" "parseOid (pf_oids pf) u = Some uid"
    and "parseOid (pf_oids pf) a = Some x" "parseOid (pf_oids pf) b = Some y"
    and "\<not> list_ex (activeIn cid uid) (w_participants w)"
  shows "\<exists>is p q v. underSchedule is ([addMemberT pf c u a, addMemberT pf c u b], w) =
      ([Finished (Inr False), Finished (Inr False)], v) \<and>
    w_participants v = w_participants w @ [p, q] \<and> part_id p \<noteq> part_id q \<and>
    list_ex (activeIn cid uid) (w_participants (snd (removeMember pf c u a v)))"
proof -
  obtain p v1 where p: "alone (storeMemberT pf c u a) w = (Inr False, v1)"
    "w_participants v1 = w_participants w @ [p]" "activeIn cid uid p"
    "part_id p = issue (pf_newOid pf) (w_oidsIssued w)" "w_oidsIssued w < w_oidsIssued v1"
    using storeMemberT_run [OF assms(1,2,3)] by blast
  obtain q v where q: "alone (storeMemberT pf c u b) v1 = (Inr False, v)"
    "w_participants v = w_participants v1 @ [q]" "activeIn cid uid q"
    "part_id q = issue (pf_newOid pf) (w_oidsIssued v1)"
    using storeMemberT_run [OF assms(1,2,4)] by blast
  obtain "is" where run: "underSchedule is ([addMemberT pf c u a, addMemberT pf c u b], w) =
      ([Finished (Inr False), Finished (Inr False)], v)"
    using look_then_write [OF addMember_step [OF assms(1,2,5), THEN looks_once]
      addMember_step [OF assms(1,2,5), THEN looks_once] p(1) q(1)] by blast
  have ne: "part_id p \<noteq> part_id q" using p(4,5) q(4) by simp
  have "w_participants (snd (removeMember pf c u a v)) =
      updateOne part_id (pf_participants pf) (activeIn cid uid)
        (\<lambda>p. p\<lparr>part_status := Removed, part_leftAt := Some (pf_clock pf (w_clockReads v))\<rparr>) (w_participants v)"
    using assms(1-3) by (simp add: removeMember_def toObjectId_def bind_def ret_def now_run endParticipation_def
        modify_def createEvent_def freshOid_run insertEvent_def)
  moreover have "p \<in> set (w_participants v)" "q \<in> set (w_participants v)" using p(2) q(2) by auto
  then have "list_ex (activeIn cid uid) (updateOne part_id (pf_participants pf) (activeIn cid uid) f (w_participants v))" for f
    using p(3) q(3) ne by (auto simp: updateOne_def updateById_def list_ex_iff split: option.split)
      (metis (mono_tags, lifting) IntI UnI2 mem_Collect_eq)
  ultimately show ?thesis using run p(2) q(2) ne
    by (intro exI [of _ "is"] exI [of _ p] exI [of _ q] exI [of _ v]) simp
qed

theorem overlapping_addMember_witness:
  "\<exists>is p q v. underSchedule is
      ([addMemberT demo convId [0x61, 0x61] annId, addMemberT demo convId [0x61, 0x61] bobId], chatWorld) =
      ([Finished (Inr False), Finished (Inr False)], v) \<and> w_participants v = w_participants chatWorld @ [p, q]"
proof -
  have "parseOid (pf_oids demo) [0x61, 0x61] = Some 2" "\<not> list_ex (activeIn 3 2) (w_participants chatWorld)"
    by (simp_all add: chat_defs activeIn_def)
  from overlapping_addMember [OF demo_ids(1) this(1) demo_ids(2,3) this(2)] show ?thesis by blast
qed

subsection \<open>One file in two messages\<close>

text \<open>In a group, a sender's message that is only a file reaches the point of storing without any write.\<close>

lemma send_looks:
  assumes "getRequiredActiveParticipant pf c s w = (Inr sender, w)" "trim t = []"
    and "parseOid (pf_oids pf) c = Some cid" "findById conv_id cid (w_conversations w) = Some g" "conv_type g = Group"
    and "resolveAttachment pf c s att w = (Inr (Some d), w)"
  shows "looks w (sendMessageT pf c s t att ai)
    (storeMessageT pf c s sender [] \<lparr>enc_content = [], enc_state = Legacy, enc_decodeErrorCode = None\<rparr> (Some d) ai)"
proof -
  have "givenId att \<noteq> None"
  proof
    assume "givenId att = None"
    then have "resolveAttachment pf c s att w = (Inr None, w)" by (simp add: resolveAttachment_def ret_def)
    with assms(6) show False by simp
  qed
  then obtain fid where given: "givenId att = Some fid" by blast
  let ?stored = "storeMessageT pf c s sender [] \<lparr>enc_content = [], enc_state = Legacy, enc_decodeErrorCode = None\<rparr> (Some d) ai"
  let ?resolve = "andThen (atomically (resolveAttachment pf c s att)) (\<lambda>a.
      if a = None then refuse emptyMessage
      else storeMessageT pf c s sender [] \<lparr>enc_content = [], enc_state = Legacy, enc_decodeErrorCode = None\<rparr> a ai)"
  have "resume ?resolve w = (?stored, w)" using assms(6) by (simp add: andThen_atomically)
  from looks_once [OF this] have 3: "looks w ?resolve ?stored" .
  let ?restore = "andThen (restoreDirectParticipantsIfNeededT pf c s) (\<lambda>restored.
      andThen (atomically (resolveAttachment pf c s att)) (\<lambda>a.
      if a = None then refuse emptyMessage
      else storeMessageT pf c s sender restored \<lparr>enc_content = [], enc_state = Legacy, enc_decodeErrorCode = None\<rparr> a ai))"
  have "resume ?restore w = (?resolve, w)" using assms(3-5)
    by (simp add: restoreDirectParticipantsIfNeededT_def andThen_atomically castObjectId_def bind_def gets_def ret_def)
  from look [OF this 3] have 2: "looks w ?restore ?stored" .
  have "resume (sendMessageT pf c s t att ai) w = (?restore, w)"
    using assms(1,2) given by (simp add: sendMessageT_def andThen_atomically Let_def cong: if_cong sum.case_cong)
  from look [OF this 2] show ?thesis .
qed

lemma storeMessageT_run:
  assumes "parseOid (pf_oids pf) c = Some cid" "parseOid (pf_oids pf) s = Some sid"
  shows "\<exists>m v. alone (storeMessageT pf c s sender [] enc (Some d) ai) w = (Inr (m, []), v) \<and>
    w_messages v = w_messages w @ [m] \<and> msg_id m = issue (pf_newOid pf) (w_oidsIssued w) \<and>
    w_oidsIssued w < w_oidsIssued v \<and> map_option ma_attachmentId (msg_attachment m) = Some (att_id d)"
  using assms
  by (simp add: storeMessageT_def createMessageDocument_def toObjectId_def bind_def ret_def now_run freshOid_run Let_def
      insertMessage_def modify_def attachTo_def touchConversation_def markOwnRead_def
      incrementUnreadForOtherParticipants_def)

text \<open>
  A file that is sent twice at the same time ends up in two messages of the conversation, although only
  a file that is not attached yet is accepted: both requests look before either of them attaches it.
\<close>

theorem overlapping_sends:
  assumes "getRequiredActiveParticipant pf c s w = (Inr sender, w)" "trim t = []" "trim t' = []"
    and "parseOid (pf_oids pf) c = Some cid" "findById conv_id cid (w_conversations w) = Some g" "conv_type g = Group"
    and "resolveAttachment pf c s att w = (Inr (Some d), w)"
  shows "\<exists>is m m' v. underSchedule is ([sendMessageT pf c s t att ai, sendMessageT pf c s t' att ai'], w) =
      ([Finished (Inr (m, [])), Finished (Inr (m', []))], v) \<and>
    w_messages v = w_messages w @ [m, m'] \<and> msg_id m \<noteq> msg_id m' \<and>
    map_option ma_attachmentId (msg_attachment m) = Some (att_id d) \<and>
    map_option ma_attachmentId (msg_attachment m') = Some (att_id d)"
proof -
  let ?enc = "\<lparr>enc_content = [], enc_state = Legacy, enc_decodeErrorCode = None\<rparr>"
  from getRequired_Inr [OF assms(1)] assms(4) obtain sid where s: "parseOid (pf_oids pf) s = Some sid" by auto
  obtain m v1 where m: "alone (storeMessageT pf c s sender [] ?enc (Some d) ai) w = (Inr (m, []), v1)"
    "w_messages v1 = w_messages w @ [m]" "msg_id m = issue (pf_newOid pf) (w_oidsIssued w)"
    "w_oidsIssued w < w_oidsIssued v1" "map_option ma_attachmentId (msg_attachment m) = Some (att_id d)"
    using storeMessageT_run [OF assms(4) s] by blast
  obtain m' v where m': "alone (storeMessageT pf c s sender [] ?enc (Some d) ai') v1 = (Inr (m', []), v)"
    "w_messages v = w_messages v1 @ [m']" "msg_id m' = issue (pf_newOid pf) (w_oidsIssued v1)"
    "map_option ma_attachmentId (msg_attachment m') = Some (att_id d)"
    using storeMessageT_run [OF assms(4) s] by blast
  note looks = send_looks [OF assms(1) _ assms(4-7)]
  from look_then_write [OF looks [OF assms(2)] looks [OF assms(3)] m(1) m'(1)] obtain "is" where
    "underSchedule is ([sendMessageT pf c s t att ai, sendMessageT pf c s t' att ai'], w) =
      ([Finished (Inr (m, [])), Finished (Inr (m', []))], v)" by blast
  then show ?thesis using m m' by (intro exI [of _ "is"] exI [of _ m] exI [of _ m'] exI [of _ v]) simp
qed

definition groupWorld :: world where
  "groupWorld = chatWorld\<lparr>w_conversations := [sampleConversation\<lparr>conv_type := Group\<rparr>]\<rparr>"

theorem overlapping_sends_witness:
  "\<exists>is m m' v. underSchedule is
      ([sendMessageT demo convId annId [] (Some fileId) False, sendMessageT demo convId annId [] (Some fileId) False], groupWorld) =
      ([Finished (Inr (m, [])), Finished (Inr (m', []))], v) \<and> w_messages v = w_messages groupWorld @ [m, m']"
proof -
  have "\<exists>p. getRequiredActiveParticipant demo convId annId groupWorld = (Inr p, groupWorld)"
    "\<exists>d. resolveAttachment demo convId annId (Some fileId) groupWorld = (Inr (Some d), groupWorld)"
    by (simp_all add: groupWorld_def getRequiredActiveParticipant_def getActiveParticipant_def toObjectId_def bind_def
        ret_def gets_def findOne_def findMany_def activeIn_def resolveAttachment_def givenId_def findById_def chat_defs
        numeral_3_eq_3)
  moreover have "trim [] = []" "findById conv_id 3 (w_conversations groupWorld) = Some (sampleConversation\<lparr>conv_type := Group\<rparr>)"
    "conv_type (sampleConversation\<lparr>conv_type := Group\<rparr>) = Group"
    by (simp_all add: trim_def findById_def groupWorld_def chat_defs)
  ultimately show ?thesis using overlapping_sends [OF _ _ _ demo_ids(1)] by blast
qed

subsection \<open>A message that arrives while the conversation is marked as read\<close>

lemma looks_andThen: "looks w t t' \<Longrightarrow> looks w (andThen t f) (andThen t' f)"
proof (induction rule: looks.induct)
  case (look t t' t'')
  show ?case
  proof (cases t)
    case (Waiting s)
    then have "resume (andThen t f) w = (andThen t' f, w)" using look(1) by simp
    then show ?thesis using look(3) by (rule looks.look)
  next
    case (Finished r)
    with look show ?thesis by simp
  qed
qed (rule looks.at_once)

lemma read_looks:
  assumes "getRequiredActiveParticipant pf c u w = (Inr reader, w)" "parseOid (pf_oids pf) c = Some cid"
    and "latestMessage pf cid (w_messages w) = Some latest"
  shows "looks w (markConversationReadT pf c u) (storeReadT pf c u reader cid latest)"
  unfolding markConversationReadT_def
  by (rule looks.look, simp add: andThen_atomically assms(1), rule looks_once)
    (simp add: andThen_atomically toObjectId_def assms(2,3) bind_def gets_def ret_def)

lemma storeReadT_run:
  "\<exists>x v. alone (storeReadT pf c u reader cid latest) w = (Inr x, v) \<and>
     map msg_id (w_messages v) = map msg_id (w_messages w) \<and>
     (\<forall>p\<in>set (w_participants v). part_id p = part_id reader \<longrightarrow>
        part_unreadCount p = 0 \<and> part_lastReadMessageId p = Some (msg_id latest))"
  by (auto simp: storeReadT_def bind_def gets_def ret_def modify_def now_run Let_def updateById_def map_updateMany)

text \<open>
  A message that is stored while its receiver marks the conversation as read is never counted: the
  receiver's counter ends at zero although the last message the receiver has read is an older one.
\<close>

theorem late_read_hides_message:
  assumes "getRequiredActiveParticipant pf c u w = (Inr reader, w)" "parseOid (pf_oids pf) c = Some cid"
    and "latestMessage pf cid (w_messages w) = Some latest"
    and "sendMessage pf c s t att ai w = (Inr (m, restored), v1)"
  shows "\<exists>is v. underSchedule is
      ([requestThread pf (MarkReadRequest c u), requestThread pf (SendMessageRequest c s t att ai)], w) =
      ([Finished (Inr ()), Finished (Inr ())], v) \<and>
    msg_id m \<in> msg_id ` set (w_messages v) \<and>
    (\<forall>p\<in>set (w_participants v). part_id p = part_id reader \<longrightarrow>
       part_unreadCount p = 0 \<and> part_lastReadMessageId p = Some (msg_id latest))"
proof -
  let ?mark = "requestThread pf (MarkReadRequest c u)" and ?send = "requestThread pf (SendMessageRequest c s t att ai)"
  let ?rest = "andThen (storeReadT pf c u reader cid latest) (\<lambda>_. answer ())"
  obtain n1 where 1: "underSchedule (replicate n1 0) ([?mark, ?send], w) = ([?rest, ?send], w)"
    using looks_schedule [OF looks_andThen [OF read_looks [OF assms(1-3)], of "\<lambda>_. answer ()"], of 0 "[?mark, ?send]"]
    by auto
  have "alone ?send w = (Inr (), v1)" using assms(4) by (simp add: alone_sendMessageT bind_def ret_def)
  then obtain n2 where 2: "underSchedule (replicate n2 1) ([?rest, ?send], w) = ([?rest, Finished (Inr ())], v1)"
    using schedule_alone [of 1 "[?rest, ?send]" w] by auto
  obtain x v where v: "alone (storeReadT pf c u reader cid latest) v1 = (Inr x, v)"
    "map msg_id (w_messages v) = map msg_id (w_messages v1)"
    "\<forall>p\<in>set (w_participants v). part_id p = part_id reader \<longrightarrow>
       part_unreadCount p = 0 \<and> part_lastReadMessageId p = Some (msg_id latest)"
    using storeReadT_run by blast
  then have "alone ?rest v1 = (Inr (), v)" by (simp add: bind_def ret_def)
  then obtain n3 where 3: "underSchedule (replicate n3 0) ([?rest, Finished (Inr ())], v1) =
      ([Finished (Inr ()), Finished (Inr ())], v)"
    using schedule_alone [of 0 "[?rest, Finished (Inr ())]" v1] by auto
  have "w_messages v1 = w_messages w @ [m]" using sendMessage_Inr [OF assms(4)] by metis
  then have "msg_id m \<in> msg_id ` set (w_messages v)" using map_image_eq [OF v(2)] by simp
  moreover have "underSchedule (replicate n1 0 @ replicate n2 1 @ replicate n3 0) ([?mark, ?send], w) =
      ([Finished (Inr ()), Finished (Inr ())], v)" by (simp only: fold_append comp_apply 1 2 3)
  ultimately show ?thesis using v(3) by blast
qed

theorem late_read_hides_message_witness:
  "\<exists>(m :: message) is v. underSchedule is
      ([requestThread demo (MarkReadRequest convId bobId),
        requestThread demo (SendMessageRequest convId annId (js ''hi'') (Some fileId) False)], chatWorld) =
      ([Finished (Inr ()), Finished (Inr ())], v) \<and> msg_id m \<in> msg_id ` set (w_messages v)"
proof -
  obtain m r v1 where send: "sendMessage demo convId annId (js ''hi'') (Some fileId) False chatWorld = (Inr (m, r), v1)"
    using demo_send by blast
  obtain p where "getRequiredActiveParticipant demo convId bobId chatWorld = (Inr p, chatWorld)"
    by (simp add: getRequiredActiveParticipant_def getActiveParticipant_def toObjectId_def bind_def
        ret_def gets_def findOne_def findMany_def activeIn_def chat_defs numeral_3_eq_3)
  moreover obtain l where "latestMessage demo 3 (w_messages chatWorld) = Some l"
    by (simp add: latestMessage_def findSorted_def findMany_def chat_defs numeral_3_eq_3)
  ultimately show ?thesis using late_read_hides_message [OF _ demo_ids(1) _ send, of bobId p l] by blast
qed



end
