(* ===== verification/Spec2Isabelle.thy ===== *)
theory Spec2Isabelle
  imports EndToEnd ClientViews ClientLive ClientActions ClientAddress Races
begin

text \<open>
  A verification of the chat application: the NestJS server under \<open>backend/src\<close> and the web client under
  \<open>frontend/src\<close>.

  \<^bold>\<open>The program and its model.\<close> The server keeps users, refresh sessions, conversations, participants, messages,
  membership events and attachments in MongoDB; it is reached over HTTP and over two socket.io namespaces, and
  it uses a remote processor (hashing of passwords, reversible encryption of messages), an object store for
  files, and the Gemini models. Its state is one record \<open>world\<close> (theory \<open>World\<close>): the collections as lists of
  documents, the counters of the request builders, the rotation of keys and models, the connected sockets with
  their rooms, what has been emitted to whom, the tasks started but not awaited, cookies and HTTP sessions, and
  how often the clock, the identifiers, the network and the model have been consulted. An asynchronous
  method is an \<open>action\<close> on that world with a result or an exception of the datatype \<open>exn\<close>; an exception does
  not undo earlier writes. Everything outside the sources is an argument, the record \<open>platform\<close>: clock,
  identifiers, the order in which a query returns documents, environment variables, the bytes the network
  delivers, token signing, hashing, URL signing, case folding, and the answers of the models. No hypothesis is made
  about them except that printing an identifier and parsing it again gives the identifier and that fresh identifiers
  differ (both are types of \<open>World\<close>).

  \<^bold>\<open>The server, theory by theory.\<close>
  \<^item> \<open>Prelude\<close>: JavaScript strings as UTF-16 code units, the action combinators, \<open>keeps\<close> and its relatives, the
    locale \<open>event_invariant\<close>. \<open>Utf8\<close>: \<open>Buffer.from\<close> and \<open>toString\<close>, \<open>TextDecoder\<close>. \<open>Json\<close>: \<open>JSON.parse\<close>, with its own
    fuel, the length of the text, which \<open>parseValue_fuel\<close> shows to be enough. \<open>Cookies\<close>: \<open>encodeURIComponent\<close> and its inverse,
    with their round trip. \<open>Literals\<close>: the Vietnamese texts.
  \<^item> \<open>Schema\<close> and \<open>World\<close>: the documents of \<open>auth/schemas\<close> and \<open>chat/schemas\<close>, the world, and the operations on
    collections; \<open>worldOk\<close> is the invariant of identifiers and counters. \<open>EnvConfig\<close>: \<open>config/env.config.ts\<close>.
  \<^item> \<open>Processor\<close>: the remote processor clients \<open>auth/auth-processing.service.ts\<close> and \<open>chat/chat-encryption.service.ts\<close>:
    the layout of the request, the exchange as a fold over socket events, and that the response does not depend on
    how the bytes are split.
  \<^item> \<open>AuthData\<close>, \<open>AuthService\<close>, \<open>AuthController\<close>: payload validation and usernames, \<open>auth/auth.service.ts\<close>, and the
    controller with guards, cookies and Google sign-in. Their lemmas: accounts stay valid and unique, tokens
    authenticate only for live sessions, revocation is final.
  \<^item> \<open>ChatDisplay\<close>, \<open>ChatMembership\<close>, \<open>ChatMessages\<close>: \<open>chat/chat.service.ts\<close>, reading, membership and sending.
    \<open>ChatAttachments\<close>: \<open>chat/chat-attachment.service.ts\<close>. \<open>ChatGateway\<close>: \<open>chat/chat.gateway.ts\<close> with rooms, emissions and the
    background task of a send. \<open>ChatController\<close>: \<open>chat/chat.controller.ts\<close>.
  \<^item> \<open>AiService\<close>: \<open>ai/ai.service.ts\<close>, \<open>ai-config\<close>, \<open>ai-chatbot\<close>, \<open>ai-suggestions\<close> and \<open>ai-moderation\<close>; the two loops over keys and
    models are structural recursions over lists of attempts. \<open>AiGateway\<close>: \<open>ai/ai.gateway.ts\<close>.
  \<^item> \<open>MembershipSpec\<close>: the membership operations refine an abstract bag of pairs (locale \<open>simulation\<close>). \<open>System\<close>: all requests,
    socket events and background tasks as one datatype \<open>event\<close>, the step \<open>perform\<close>, the reachable worlds, and the
    invariants of every run (locale \<open>event_invariant\<close>).
  \<^item> \<open>Interleaving\<close>: requests that overlap. The methods of the chat service that look before they write, cut at their awaits
    into the steps of a \<open>thread\<close>, and schedules of several of them; run alone they are the methods above. The locale
    \<open>interference\<close> carries an invariant through every schedule as long as each step keeps it and allows what the
    others rely on. \<open>Races\<close>: what overlapping requests can do that requests served one after the other cannot.
  \<^item> \<open>Samples\<close>, \<open>ChatWitnesses\<close>, \<open>GatewayWitnesses\<close>, \<open>SystemWitnesses\<close>: a concrete platform and worlds on which the
    theorems with hypotheses are applied.

  \<^bold>\<open>The client.\<close> A browser program changes its state in steps between which it waits; each part is a state
  machine over events, an answer of the server being an event.
  \<^item> \<open>ClientSession\<close>: \<open>services/http.ts\<close>, \<open>services/auth.service.ts\<close>, \<open>store/auth.store.ts\<close>. Every request has a phase;
    the shared refresh is a request others wait for.
  \<^item> \<open>ClientData\<close>, \<open>ClientPage\<close>: \<open>types/chat.ts\<close> and \<open>features/chat/chat.page.tsx\<close>: the chat state and all its updates.
  \<^item> \<open>ClientPanels\<close>: the searches for users and messages, the start of a conversation, the image viewer and the context
    menu of the page. An effect with a timer, a request and a flag that cancels it is an \<open>effect_run\<close>; the locale
    \<open>cancellable\<close> says what its users rely on, and the searches and the picture of a bubble rest on it.
  \<^item> \<open>ClientViews\<close>: what the components under \<open>features/chat/components\<close> and the header of the page show, as functions of
    their properties; the marked search results; sizes of files; the picture of a bubble.
  \<^item> \<open>ClientSocket\<close>: \<open>services/chat-socket.service.ts\<close> and the effect that follows the open conversation. \<open>ClientUploads\<close>: the
    progress and the errors of \<open>services/chat-attachment.service.ts\<close>, and \<open>services/ai.service.ts\<close>.
  \<^item> \<open>ClientAuthPage\<close>: \<open>features/auth/auth.page.tsx\<close>, \<open>app/providers.tsx\<close> and \<open>app/protected-route.tsx\<close> on top of the session.
  \<^item> \<open>ClientCalls\<close>: the messages \<open>services/chat.service.ts\<close> and \<open>services/chat-attachment.service.ts\<close> build, and the table of
    routes of \<open>chat/chat.controller.ts\<close> that takes them to their handlers.
  \<^item> \<open>ClientLive\<close>: session, sockets and page together. The listener sets of \<open>services/chat-socket.service.ts\<close> and
    \<open>services/ai.service.ts\<close>, the memoised callbacks and the effects of the page (subscription, title, open conversation), mounting and
    unmounting; a rendering is an event. Every delivery is handled once, by the callbacks of the last rendering.
  \<^item> \<open>ClientActions\<close>: the handlers of the page that wait several times (sending with an upload, leaving, deleting, downloading) as
    flows that other events interrupt; scrolling and notifications. What a sending calls is decided when it is pressed.
  \<^item> \<open>ClientAddress\<close>: the open conversation in the address bar. \<open>URLSearchParams\<close> reads back what it wrote, so loading the
    page again opens the conversation that was open.
  \<^item> \<open>EndToEnd\<close>: what the gateway emits, handled by the page.

  \<^bold>\<open>Bounds.\<close> Integers of the sources are JavaScript numbers: counters are \<open>int\<close>, limits and sizes \<open>jsnum\<close> (rationals with the
  infinities and NaN), bytes and code units are words of their width, and the message counters of the processor clients
  wrap at 32 bits where they are written. The only fuel is that of the JSON parser. Times are \<open>int\<close> milliseconds.

  \<^bold>\<open>Decisions.\<close> \<open>Promise.all\<close> runs its parts in order. A background task runs whole at some later point, in any
  order with other events. \<open>System\<close> serves requests whole; \<open>Interleaving\<close> lets the steps of chat requests alternate, a step
  being one call of the database with what the method does up to it. The client's steps interleave freely. Recipients of an emission are the sockets in the room when it is
  emitted. Unique indexes of the schemas are enforced by the operations that insert.

  \<^bold>\<open>Not modelled.\<close> The C programs and the kernel driver behind the processor; module wiring, start-up and the health
  check; the schema of AI settings, which nothing uses; layout, colours and the keyboard focus of the client; the assistant's
  listeners of moderation results, to which nothing subscribes; the shell of the client with an unused page and store.
\<close>

end
